(* ===== verification/Prelude.thy ===== *)
theory Prelude
  imports Complex_Main "HOL-Library.AList"
begin

text \<open>
  Shared vocabulary of the development: the outcome of a Rust function that returns
  \<open>Result\<close> (with a third case for a call that never returns), the \<open>?\<close> operator as a bind on
  state-and-outcome pairs, the tables that stand for \<open>HashMap\<close> and \<open>DashMap\<close>, and the proof
  rules the components share.
\<close>

section \<open>Outcomes and the question-mark operator\<close>

datatype ('e, 'a) outcome = Ok 'a | Err 'e | Diverged

fun and_then :: "('e, 'a) outcome \<Rightarrow> ('a \<Rightarrow> ('e, 'b) outcome) \<Rightarrow> ('e, 'b) outcome" where
  "and_then (Ok x) k = k x"
| "and_then (Err er) k = Err er"
| "and_then Diverged k = Diverged"

text \<open>
  A stateful operation returns the state it leaves behind together with its outcome: an early
  return through \<open>?\<close> keeps every change made before it, as the Rust code does.
\<close>

fun bindR :: "'s \<times> ('e, 'a) outcome \<Rightarrow> ('s \<Rightarrow> 'a \<Rightarrow> 's \<times> ('e, 'b) outcome) \<Rightarrow> 's \<times> ('e, 'b) outcome" where
  "bindR (s, Ok x) k = k s x"
| "bindR (s, Err er) k = (s, Err er)"
| "bindR (s, Diverged) k = (s, Diverged)"

definition liftR :: "'s \<Rightarrow> ('e, 'a) outcome \<Rightarrow> 's \<times> ('e, 'a) outcome" where
  "liftR s r = (s, r)"

fun ok_or :: "'e \<Rightarrow> 'a option \<Rightarrow> ('e, 'a) outcome" where
  "ok_or er None = Err er"
| "ok_or er (Some x) = Ok x"

lemma liftR_simps [simp]:
  "fst (liftR s r) = s" "snd (liftR s r) = r"
  by (simp_all add: liftR_def)

lemma and_then_Ok_iff: "and_then r k = Ok y \<longleftrightarrow> (\<exists>x. r = Ok x \<and> k x = Ok y)"
  by (cases r) auto

lemma and_then_unit_Ok_iff:
  "and_then r (\<lambda>x. k) = Ok y \<longleftrightarrow> r = Ok () \<and> k = Ok y"
  by (cases r) auto

lemma ok_or_Ok_iff [simp]: "ok_or er x = Ok y \<longleftrightarrow> x = Some y"
  by (cases x) auto

lemma ok_or_not_Diverged [simp]: "ok_or er x \<noteq> Diverged"
  by (cases x) auto

lemma bindR_Ok_iff: "bindR r k = (s', Ok y) \<longleftrightarrow> (\<exists>s x. r = (s, Ok x) \<and> k s x = (s', Ok y))"
  by (cases "(r, k)" rule: bindR.cases) auto

lemma bindR_assoc: "bindR (bindR r k) h = bindR r (\<lambda>s x. bindR (k s x) h)"
  by (cases "(r, k)" rule: bindR.cases) auto

section \<open>State predicates kept by an operation\<close>

text \<open>
  \<open>keeps P r\<close> says that the state an operation leaves behind satisfies \<open>P\<close>, whatever its
  outcome. The rules in \<open>keeps_intro\<close> follow the structure of the definitions, so that the
  preservation proof of a handler is a walk over its primitives.
\<close>

definition keeps :: "('s \<Rightarrow> bool) \<Rightarrow> 's \<times> 'r \<Rightarrow> bool" where
  "keeps P r \<longleftrightarrow> P (fst r)"

named_theorems keeps_intro "introduction rules for keeps, one per primitive"

lemma keeps_pair [keeps_intro]: "P s \<Longrightarrow> keeps P (s, r)"
  by (simp add: keeps_def)

lemma keeps_liftR [keeps_intro]: "P s \<Longrightarrow> keeps P (liftR s r)"
  by (simp add: keeps_def)

lemma keeps_bindR [keeps_intro]:
  assumes "keeps P r" and "\<And>s x. P s \<Longrightarrow> keeps P (k s x)"
  shows "keeps P (bindR r k)"
  using assms by (cases "(r, k)" rule: bindR.cases) (auto simp: keeps_def)

lemma keeps_option [keeps_intro]:
  assumes "x = None \<Longrightarrow> keeps P a" and "\<And>y. x = Some y \<Longrightarrow> keeps P (f y)"
  shows "keeps P (case x of None \<Rightarrow> a | Some y \<Rightarrow> f y)"
  using assms by (cases x) auto

lemma keeps_if [keeps_intro]:
  assumes "c \<Longrightarrow> keeps P a" and "\<not> c \<Longrightarrow> keeps P b"
  shows "keeps P (if c then a else b)"
  using assms by auto

lemma keeps_Let [keeps_intro]: "(\<And>y. y = x \<Longrightarrow> keeps P (f y)) \<Longrightarrow> keeps P (let y = x in f y)"
  by simp

lemma keeps_prod [keeps_intro]:
  "(\<And>a b. x = (a, b) \<Longrightarrow> keeps P (f a b)) \<Longrightarrow> keeps P (case x of (a, b) \<Rightarrow> f a b)"
  by (cases x) auto

text \<open>A call whose outcome is inspected instead of passed on.\<close>

lemma keeps_outcome:
  assumes "keeps P r"
    and "\<And>s x. P s \<Longrightarrow> keeps P (a s x)" and "\<And>s er. P s \<Longrightarrow> keeps P (b s er)" and "\<And>s. P s \<Longrightarrow> keeps P (c s)"
  shows "keeps P (case r of (s, y) \<Rightarrow> (case y of Ok x \<Rightarrow> a s x | Err er \<Rightarrow> b s er | Diverged \<Rightarrow> c s))"
  using assms by (cases r; cases "snd r") (auto simp: keeps_def)

lemma keepsD: "keeps P (s, r) \<Longrightarrow> P s"
  by (simp add: keeps_def)

section \<open>Tables: hash maps with their iteration order\<close>

text \<open>
  A Rust \<open>HashMap\<close> or \<open>DashMap\<close> is an association list: lookups see the first entry of a key,
  an insert replaces the entry in place or appends a new one, and the order of the list is the
  order in which an iteration yields the entries. Rust fixes no order, so a statement about every
  list is a statement about every order.
\<close>

type_synonym ('k, 'v) table = "('k \<times> 'v) list"

definition tget :: "('k, 'v) table \<Rightarrow> 'k \<Rightarrow> 'v option" where
  "tget t k = map_of t k"

definition tput :: "'k \<Rightarrow> 'v \<Rightarrow> ('k, 'v) table \<Rightarrow> ('k, 'v) table" where
  "tput k v t = AList.update k v t"

definition tdel :: "'k \<Rightarrow> ('k, 'v) table \<Rightarrow> ('k, 'v) table" where
  "tdel k t = filter (\<lambda>kv. fst kv \<noteq> k) t"

definition thas :: "('k, 'v) table \<Rightarrow> 'k \<Rightarrow> bool" where
  "thas t k \<longleftrightarrow> tget t k \<noteq> None"

definition tkeys :: "('k, 'v) table \<Rightarrow> 'k list" where
  "tkeys t = map fst t"

definition tvals :: "('k, 'v) table \<Rightarrow> 'v list" where
  "tvals t = map snd t"

definition tretain :: "('k \<Rightarrow> 'v \<Rightarrow> bool) \<Rightarrow> ('k, 'v) table \<Rightarrow> ('k, 'v) table" where
  "tretain p t = filter (\<lambda>kv. p (fst kv) (snd kv)) t"

definition tmapv :: "('v \<Rightarrow> 'w) \<Rightarrow> ('k, 'v) table \<Rightarrow> ('k, 'w) table" where
  "tmapv f t = map (\<lambda>kv. (fst kv, f (snd kv))) t"

text \<open>\<open>HashMap::extend\<close>, and \<open>collect\<close> of key-value pairs into a map.\<close>

definition textend :: "('k, 'v) table \<Rightarrow> ('k \<times> 'v) list \<Rightarrow> ('k, 'v) table" where
  "textend t kvs = foldl (\<lambda>acc kv. tput (fst kv) (snd kv) acc) t kvs"

definition tcollect :: "('k \<times> 'v) list \<Rightarrow> ('k, 'v) table" where
  "tcollect kvs = textend [] kvs"

text \<open>\<open>HashMap::entry(k).or_default().push(x)\<close>\<close>

definition tpush :: "'k \<Rightarrow> 'v \<Rightarrow> ('k, 'v list) table \<Rightarrow> ('k, 'v list) table" where
  "tpush k x t = tput k ((case tget t k of None \<Rightarrow> [] | Some xs \<Rightarrow> xs) @ [x]) t"

definition wf_table :: "('k, 'v) table \<Rightarrow> bool" where
  "wf_table t \<longleftrightarrow> distinct (map fst t)"

lemma tget_Nil [simp]: "tget [] k = None"
  by (simp add: tget_def)

lemma tget_Cons: "tget ((k, v) # t) k' = (if k' = k then Some v else tget t k')"
  by (auto simp: tget_def)

lemma tget_tput: "tget (tput k v t) k' = (if k' = k then Some v else tget t k')"
  by (simp add: tget_def tput_def AList.update_conv')

lemma tget_tput_same [simp]: "tget (tput k v t) k = Some v"
  by (simp add: tget_tput)

lemma tget_tput_other [simp]: "k' \<noteq> k \<Longrightarrow> tget (tput k v t) k' = tget t k'"
  by (simp add: tget_tput)

lemma tget_filter_keys: "tget (filter (\<lambda>kv. p (fst kv)) t) k = (if p k then tget t k else None)"
  by (induction t) (auto simp: tget_def)

lemma tget_tdel: "tget (tdel k t) k' = (if k' = k then None else tget t k')"
  using tget_filter_keys [of "\<lambda>x. x \<noteq> k" t k'] by (simp add: tdel_def)

lemma tget_tdel_same [simp]: "tget (tdel k t) k = None"
  by (simp add: tget_tdel)

lemma tget_tdel_other [simp]: "k' \<noteq> k \<Longrightarrow> tget (tdel k t) k' = tget t k'"
  by (simp add: tget_tdel)

lemma tget_tmapv [simp]: "tget (tmapv f t) k = map_option f (tget t k)"
  by (induction t) (auto simp: tget_def tmapv_def)

lemma tget_SomeD: "tget t k = Some v \<Longrightarrow> (k, v) \<in> set t"
  by (simp add: tget_def map_of_SomeD)

lemma tget_None_iff: "tget t k = None \<longleftrightarrow> k \<notin> fst ` set t"
  by (simp add: tget_def map_of_eq_None_iff)

lemma tget_Some_iff: "wf_table t \<Longrightarrow> tget t k = Some v \<longleftrightarrow> (k, v) \<in> set t"
  by (simp add: tget_def wf_table_def)

lemma tget_tretain:
  "wf_table t \<Longrightarrow>
     tget (tretain p t) k = (case tget t k of None \<Rightarrow> None | Some v \<Rightarrow> if p k v then Some v else None)"
proof (induction t)
  case Nil
  then show ?case by (simp add: tretain_def)
next
  case (Cons kv t)
  obtain k1 v1 where kv: "kv = (k1, v1)" by (cases kv)
  from Cons.prems have wf: "wf_table t" and k1: "k1 \<notin> fst ` set t"
    by (auto simp: wf_table_def kv)
  from k1 have none: "tget t k1 = None" by (simp add: tget_None_iff)
  show ?case
    using Cons.IH [OF wf] none
    by (auto simp: kv tretain_def tget_Cons split: option.splits if_splits)
qed

lemma set_tput_subset: "set (tput k v t) \<subseteq> insert (k, v) (set t)"
  by (induction t) (auto simp: tput_def)

lemma set_tdel [simp]: "set (tdel k t) = {kv \<in> set t. fst kv \<noteq> k}"
  by (auto simp: tdel_def)

lemma set_tretain [simp]: "set (tretain p t) = {kv \<in> set t. p (fst kv) (snd kv)}"
  by (auto simp: tretain_def)

lemma set_tmapv [simp]: "set (tmapv f t) = (\<lambda>kv. (fst kv, f (snd kv))) ` set t"
  by (simp add: tmapv_def)

lemma wf_table_Nil [simp]: "wf_table []"
  by (simp add: wf_table_def)

lemma wf_table_tput [simp]: "wf_table t \<Longrightarrow> wf_table (tput k v t)"
  by (simp add: wf_table_def tput_def AList.distinct_update)

lemma wf_table_tdel [simp]: "wf_table t \<Longrightarrow> wf_table (tdel k t)"
  by (induction t) (auto simp: wf_table_def tdel_def)

lemma wf_table_tretain [simp]: "wf_table t \<Longrightarrow> wf_table (tretain p t)"
  by (induction t) (auto simp: wf_table_def tretain_def)

lemma wf_table_tmapv [simp]: "wf_table (tmapv f t) = wf_table t"
  by (simp add: wf_table_def tmapv_def comp_def)

lemma wf_table_textend [simp]: "wf_table t \<Longrightarrow> wf_table (textend t kvs)"
  by (induction kvs arbitrary: t) (simp_all add: textend_def)

lemma wf_table_tcollect [simp]: "wf_table (tcollect kvs)"
  by (simp add: tcollect_def)

lemma textend_Nil [simp]: "textend t [] = t"
  by (simp add: textend_def)

lemma textend_Cons [simp]: "textend t ((k, v) # kvs) = textend (tput k v t) kvs"
  by (simp add: textend_def)

lemma textend_append: "textend t (xs @ ys) = textend (textend t xs) ys"
  by (simp add: textend_def)

lemma tget_textend:
  "tget (textend t kvs) k = (case map_of (rev kvs) k of Some v \<Rightarrow> Some v | None \<Rightarrow> tget t k)"
  by (induction kvs arbitrary: t)
     (auto simp: tget_tput map_add_def split: option.splits)

lemma tget_tcollect: "tget (tcollect kvs) k = map_of (rev kvs) k"
  by (simp add: tcollect_def tget_textend split: option.splits)

lemma thas_iff: "thas t k \<longleftrightarrow> k \<in> fst ` set t"
  using tget_None_iff [of t k] by (simp add: thas_def)

section \<open>The interface of a keyed store\<close>

text \<open>
  The definition registry, the instance store and the four pending queues of the engine are all
  used through the same three calls. The laws below are what their clients rely on.
\<close>

locale keyed_store =
  fixes get :: "'s \<Rightarrow> 'k \<Rightarrow> 'v option"
    and put :: "'k \<Rightarrow> 'v \<Rightarrow> 's \<Rightarrow> 's"
    and remove :: "'k \<Rightarrow> 's \<Rightarrow> 's"
  assumes get_put: "get (put k v s) k' = (if k' = k then Some v else get s k')"
    and get_remove: "get (remove k s) k' = (if k' = k then None else get s k')"
begin

lemma last_put_wins: "get (put k w (put k v s)) k' = get (put k w s) k'"
  by (simp add: get_put)

lemma remove_put: "get (remove k (put k v s)) k' = get (remove k s) k'"
  by (simp add: get_put get_remove)

text \<open>Taking an entry out and re-inserting it, the rollback of a rejected completion.\<close>

lemma reinsert: "get s k = Some v \<Longrightarrow> get (put k v (remove k s)) k' = get s k'"
  by (simp add: get_put get_remove)

lemma put_commute: "k1 \<noteq> k2 \<Longrightarrow> get (put k1 v1 (put k2 v2 s)) k' = get (put k2 v2 (put k1 v1 s)) k'"
  by (simp add: get_put)

end

interpretation tbl: keyed_store tget tput tdel
  by unfold_locales (auto simp: tget_tput tget_tdel)

section \<open>Lists\<close>

fun first_some :: "('a \<Rightarrow> 'b option) \<Rightarrow> 'a list \<Rightarrow> 'b option" where
  "first_some f [] = None"
| "first_some f (x # xs) = (case f x of Some y \<Rightarrow> Some y | None \<Rightarrow> first_some f xs)"

lemma first_some_None_iff: "first_some f xs = None \<longleftrightarrow> (\<forall>x \<in> set xs. f x = None)"
  by (induction xs) (auto split: option.splits)

lemma first_some_SomeD: "first_some f xs = Some y \<Longrightarrow> \<exists>x \<in> set xs. f x = Some y"
  by (induction xs) (auto split: option.splits)

text \<open>\<open>iter_mut().find(p)\<close> followed by an update of the element found.\<close>

fun update_first :: "('a \<Rightarrow> bool) \<Rightarrow> ('a \<Rightarrow> 'a) \<Rightarrow> 'a list \<Rightarrow> 'a list" where
  "update_first p f [] = []"
| "update_first p f (x # xs) = (if p x then f x # xs else x # update_first p f xs)"

lemma length_update_first [simp]: "length (update_first p f xs) = length xs"
  by (induction xs) auto

lemma update_first_none: "\<forall>x \<in> set xs. \<not> p x \<Longrightarrow> update_first p f xs = xs"
  by (induction xs) auto

lemma set_update_first: "set (update_first p f xs) \<subseteq> set xs \<union> f ` {x \<in> set xs. p x}"
  by (induction xs) auto

text \<open>A validation loop that returns at the first error.\<close>

fun check_all :: "('a \<Rightarrow> ('e, unit) outcome) \<Rightarrow> 'a list \<Rightarrow> ('e, unit) outcome" where
  "check_all f [] = Ok ()"
| "check_all f (x # xs) = and_then (f x) (\<lambda>_. check_all f xs)"

lemma check_all_Ok_iff [simp]: "check_all f xs = Ok () \<longleftrightarrow> (\<forall>x \<in> set xs. f x = Ok ())"
  by (induction xs) (auto simp: and_then_Ok_iff)

end
