(* ===== verification/Text.thy ===== *)
theory Text
  imports Prelude
begin

text \<open>
  The string operations of the Rust standard library that the sources use. A \<open>&str\<close> is the list
  of its UTF-8 bytes (\<open>char\<close> is a byte), so lengths and slices count bytes as in Rust, and
  \<open>trim\<close> knows the multi-byte white space of Unicode.
\<close>

section \<open>Searching\<close>

fun starts_with :: "string \<Rightarrow> string \<Rightarrow> bool" where
  "starts_with s [] = True"
| "starts_with [] (p # ps) = False"
| "starts_with (c # cs) (p # ps) = (c = p \<and> starts_with cs ps)"

text \<open>\<open>s.find(pat)\<close>, returning the text before and after the first occurrence.\<close>

fun split_at :: "string \<Rightarrow> string \<Rightarrow> (string \<times> string) option" where
  "split_at pat [] = (if pat = [] then Some ([], []) else None)"
| "split_at pat (c # cs) =
     (if starts_with (c # cs) pat then Some ([], drop (length pat) (c # cs))
      else map_option (\<lambda>(a, b). (c # a, b)) (split_at pat cs))"

fun contains_str :: "string \<Rightarrow> string \<Rightarrow> bool" where
  "contains_str s pat = (split_at pat s \<noteq> None)"

lemma starts_with_iff: "starts_with s p \<longleftrightarrow> (\<exists>r. s = p @ r)"
  by (induction s p rule: starts_with.induct) auto

lemma starts_with_append [simp]: "starts_with (p @ r) p"
  by (simp add: starts_with_iff)

lemma split_at_SomeD: "split_at pat s = Some (a, b) \<Longrightarrow> s = a @ pat @ b"
proof (induction s arbitrary: a)
  case Nil
  then show ?case by (auto split: if_splits)
next
  case (Cons c cs)
  show ?case
  proof (cases "starts_with (c # cs) pat")
    case True
    then obtain r where r: "c # cs = pat @ r" by (auto simp: starts_with_iff)
    from True Cons.prems have "a = []" and "b = drop (length pat) (c # cs)" by auto
    then show ?thesis unfolding r by simp
  next
    case False
    with Cons.prems obtain a' where "split_at pat cs = Some (a', b)" and "a = c # a'"
      by auto
    with Cons.IH show ?thesis by auto
  qed
qed

lemma split_at_None_iff: "split_at pat s = None \<longleftrightarrow> \<not> (\<exists>a b. s = a @ pat @ b)"
proof (induction s)
  case Nil
  then show ?case by auto
next
  case (Cons c cs)
  have "(\<exists>a b. c # cs = a @ pat @ b) \<longleftrightarrow> starts_with (c # cs) pat \<or> (\<exists>a b. cs = a @ pat @ b)"
    unfolding starts_with_iff
    by (metis append_Cons append_Nil neq_Nil_conv list.inject)
  with Cons.IH show ?case by (auto simp: starts_with_iff)
qed

section \<open>White space\<close>

text \<open>The code points with the Unicode property White\_Space, in UTF-8.\<close>

definition white_space :: "string list" where
  "white_space =
     [[CHR 0x09], [CHR 0x0A], [CHR 0x0B], [CHR 0x0C], [CHR 0x0D], [CHR 0x20],
      [CHR 0xC2, CHR 0x85], [CHR 0xC2, CHR 0xA0], [CHR 0xE1, CHR 0x9A, CHR 0x80],
      [CHR 0xE2, CHR 0x80, CHR 0x80], [CHR 0xE2, CHR 0x80, CHR 0x81], [CHR 0xE2, CHR 0x80, CHR 0x82],
      [CHR 0xE2, CHR 0x80, CHR 0x83], [CHR 0xE2, CHR 0x80, CHR 0x84], [CHR 0xE2, CHR 0x80, CHR 0x85],
      [CHR 0xE2, CHR 0x80, CHR 0x86], [CHR 0xE2, CHR 0x80, CHR 0x87], [CHR 0xE2, CHR 0x80, CHR 0x88],
      [CHR 0xE2, CHR 0x80, CHR 0x89], [CHR 0xE2, CHR 0x80, CHR 0x8A], [CHR 0xE2, CHR 0x80, CHR 0xA8],
      [CHR 0xE2, CHR 0x80, CHR 0xA9], [CHR 0xE2, CHR 0x80, CHR 0xAF], [CHR 0xE2, CHR 0x81, CHR 0x9F],
      [CHR 0xE3, CHR 0x80, CHR 0x80]]"

text \<open>Drop leading pieces as long as one of the given non-empty pieces is a prefix.\<close>

function strip_front :: "string list \<Rightarrow> string \<Rightarrow> string" where
  "strip_front ps s =
     (case find (\<lambda>p. p \<noteq> [] \<and> starts_with s p) ps of
        None \<Rightarrow> s
      | Some p \<Rightarrow> strip_front ps (drop (length p) s))"
  by pat_completeness auto
termination
proof (relation "measure (\<lambda>(ps, s). length s)", goal_cases)
  case 1
  show ?case by simp
next
  case (2 ps s p)
  then have p: "p \<noteq> []" "starts_with s p"
    by (auto simp: find_Some_iff)
  then obtain r where s: "s = p @ r" by (auto simp: starts_with_iff)
  from p s show ?case by simp
qed

declare strip_front.simps [simp del]

definition trim_start :: "string \<Rightarrow> string" where
  "trim_start s = strip_front white_space s"

definition trim_end :: "string \<Rightarrow> string" where
  "trim_end s = rev (strip_front (map rev white_space) (rev s))"

definition trim :: "string \<Rightarrow> string" where
  "trim s = trim_end (trim_start s)"

lemma strip_front_Nil [simp]: "strip_front ps [] = []"
proof -
  have "find (\<lambda>p. p \<noteq> [] \<and> starts_with [] p) ps = None"
    by (auto simp: find_None_iff starts_with_iff)
  then show ?thesis by (simp add: strip_front.simps [of ps "[]"])
qed

lemma strip_front_suffix: "\<exists>a. s = a @ strip_front ps s"
proof (induction ps s rule: strip_front.induct)
  case (1 ps s)
  show ?case
  proof (cases "find (\<lambda>p. p \<noteq> [] \<and> starts_with s p) ps")
    case None
    then show ?thesis by (simp add: strip_front.simps [of ps s])
  next
    case (Some p)
    then have "starts_with s p" by (auto simp: find_Some_iff)
    then obtain r where s: "s = p @ r" by (auto simp: starts_with_iff)
    from Some have eq: "strip_front ps s = strip_front ps (drop (length p) s)"
      by (simp add: strip_front.simps [of ps s])
    from 1 [OF Some] obtain a where a: "drop (length p) s = a @ strip_front ps s"
      unfolding eq by blast
    have "s = (p @ a) @ strip_front ps s"
      using a by (simp add: s)
    then show ?thesis by blast
  qed
qed

section \<open>Numbers\<close>

definition is_digit :: "char \<Rightarrow> bool" where
  "is_digit c \<longleftrightarrow> 48 \<le> (of_char c :: nat) \<and> (of_char c :: nat) \<le> 57"

definition digit_val :: "char \<Rightarrow> nat" where
  "digit_val c = of_char c - 48"

fun digits_val :: "nat \<Rightarrow> string \<Rightarrow> nat" where
  "digits_val acc [] = acc"
| "digits_val acc (c # cs) = digits_val (10 * acc + digit_val c) cs"

text \<open>\<open>parse::<uN>()\<close>: an optional plus sign, at least one digit, no overflow.\<close>

definition parse_unsigned :: "nat \<Rightarrow> string \<Rightarrow> nat option" where
  "parse_unsigned bits s =
     (let ds = (case s of [] \<Rightarrow> [] | c # cs \<Rightarrow> if c = CHR ''+'' then cs else s)
      in if ds \<noteq> [] \<and> list_all is_digit ds \<and> digits_val 0 ds < 2 ^ bits
         then Some (digits_val 0 ds) else None)"

text \<open>\<open>parse::<i64>()\<close>\<close>

definition parse_i64 :: "string \<Rightarrow> int option" where
  "parse_i64 s =
     (case s of
        [] \<Rightarrow> None
      | c # cs \<Rightarrow>
          if c = CHR ''-'' then
            (if cs \<noteq> [] \<and> list_all is_digit cs \<and> digits_val 0 cs \<le> 2 ^ 63
             then Some (- int (digits_val 0 cs)) else None)
          else map_option int (parse_unsigned 63 s))"

text \<open>The decimal digits of a number, as \<open>to_string\<close> prints them.\<close>

fun show_nat :: "nat \<Rightarrow> string" where
  "show_nat n = (if n < 10 then [char_of (48 + n)] else show_nat (n div 10) @ [char_of (48 + n mod 10)])"

declare show_nat.simps [simp del]

lemma digit_char: "d < 10 \<Longrightarrow> is_digit (char_of (48 + d)) \<and> digit_val (char_of (48 + d)) = d"
  by (simp add: is_digit_def digit_val_def)

lemma digits_val_append: "digits_val acc (xs @ ys) = digits_val (digits_val acc xs) ys"
  by (induction xs arbitrary: acc) auto

lemma show_nat_not_Nil [simp]: "show_nat n \<noteq> []"
  by (subst show_nat.simps) simp

lemma show_nat_digits: "list_all is_digit (show_nat n)"
proof (induction n rule: show_nat.induct)
  case (1 n)
  then show ?case
    by (subst show_nat.simps) (auto simp: digit_char)
qed

lemma digits_val_show_nat: "digits_val 0 (show_nat n) = n"
proof (induction n rule: show_nat.induct)
  case (1 n)
  show ?case
  proof (cases "n < 10")
    case True
    then show ?thesis by (subst show_nat.simps) (simp add: digit_char)
  next
    case False
    with 1 have IH: "digits_val 0 (show_nat (n div 10)) = n div 10" by simp
    have "digits_val 0 (show_nat n) = digits_val 0 (show_nat (n div 10) @ [char_of (48 + n mod 10)])"
      using False by (subst show_nat.simps) simp
    also have "\<dots> = 10 * (n div 10) + n mod 10"
      by (simp add: digits_val_append IH digit_char)
    finally show ?thesis by simp
  qed
qed

section \<open>UTF-8\<close>

text \<open>The check of \<open>String::from_utf8\<close> and of the readers of the standard library.\<close>

definition in_range :: "nat \<Rightarrow> nat \<Rightarrow> char \<Rightarrow> bool" where
  "in_range a b c \<longleftrightarrow> a \<le> of_char c \<and> of_char c \<le> b"

definition continuation :: "char \<Rightarrow> bool" where
  "continuation = in_range 0x80 0xBF"

text \<open>The range the second byte of a sequence of three or four bytes lies in.\<close>

definition second_ok :: "char \<Rightarrow> char \<Rightarrow> bool" where
  "second_ok a b =
     (if a = CHR 0xE0 then in_range 0xA0 0xBF b
      else if a = CHR 0xED then in_range 0x80 0x9F b
      else if a = CHR 0xF0 then in_range 0x90 0xBF b
      else if a = CHR 0xF4 then in_range 0x80 0x8F b
      else continuation b)"

fun utf8 :: "string \<Rightarrow> bool" where
  "utf8 [] = True"
| "utf8 (a # r) =
     (if in_range 0 0x7F a then utf8 r
      else if in_range 0xC2 0xDF a then
        (case r of b # r' \<Rightarrow> continuation b \<and> utf8 r' | _ \<Rightarrow> False)
      else if in_range 0xE0 0xEF a then
        (case r of b # c # r' \<Rightarrow> second_ok a b \<and> continuation c \<and> utf8 r' | _ \<Rightarrow> False)
      else if in_range 0xF0 0xF4 a then
        (case r of b # c # d # r' \<Rightarrow> second_ok a b \<and> continuation c \<and> continuation d \<and> utf8 r'
         | _ \<Rightarrow> False)
      else False)"

lemma ascii_utf8: "list_all (in_range 0 0x7F) l \<Longrightarrow> utf8 l"
  by (induction l) auto

end
