(* ===== verification/Values.thy ===== *)
theory Values
  imports Text
begin

text \<open>
  JSON values (\<open>serde_json::Value\<close>), variable maps, double-precision numbers as the sources use
  them, and the record \<open>env\<close> of everything the engine takes from other crates: UUID supply, Rhai
  scripts, cron schedules, duration conversion and the conversion of a JSON number to a double.
\<close>

section \<open>JSON values and variable maps\<close>

text \<open>
  A JSON number is an integer or a finite double, kept as its exact rational value. The entries
  of an object are listed in key order, so that equality of objects is equality of their lists.
\<close>

datatype json_number = JInt int | JFloat rat

datatype json =
    JNull
  | JBool bool
  | JNum json_number
  | JStr string
  | JArr "json list"
  | JObj "(string \<times> json) list"

type_synonym vars = "(string, json) table"

type_synonym uuid = nat

text \<open>Instants in nanoseconds, durations (\<open>std::time::Duration\<close>) in nanoseconds.\<close>

type_synonym time = int
type_synonym duration = nat

definition uuid_nil :: uuid where
  "uuid_nil = 0"

fun json_get :: "string \<Rightarrow> json \<Rightarrow> json option" where
  "json_get k (JObj fs) = map_of fs k"
| "json_get k _ = None"

fun json_as_str :: "json \<Rightarrow> string option" where
  "json_as_str (JStr s) = Some s"
| "json_as_str _ = None"

section \<open>Messages\<close>

text \<open>
  Formatted texts (audit entries, history descriptions, error texts) are kept as the template and
  its arguments, so that their content is data and no number formatting has to be modelled.
\<close>

datatype msg = Msg string "arg list"
  and arg = AStr string | ANat nat | AInt int | AId nat | AVal json | AMsg msg

section \<open>Code of other crates\<close>

text \<open>The limits of a script evaluation (\<open>ScriptConfig\<close>).\<close>

record script_config =
  sc_max_operations :: nat
  sc_max_memory :: nat
  sc_timeout_ms :: nat

text \<open>
  What the blocking thread that evaluates a Rhai script can come back with: the variables of the
  scope afterwards (each with its JSON form where it has one), an evaluation error, a panic, or
  nothing before the timeout.
\<close>

datatype script_outcome =
    ScriptScope "(string \<times> json option) list"
  | ScriptFailed string
  | ScriptPanicked string
  | ScriptTimedOut

text \<open>
  \<open>env_uuid_v4 n\<close> is the n-th UUID drawn, \<open>env_rhai\<close> the evaluation of a script under
  given limits on the variables of a token.
  \<open>env_cron_next expr now\<close> parses a cron expression and finds the next occurrence.
  \<open>env_chrono_dur\<close> is \<open>chrono::Duration::from_std\<close>, \<open>env_td_seconds\<close> is \<open>TimeDelta::seconds\<close>.
\<close>

record env =
  env_as_f64 :: "json_number \<Rightarrow> rat option"
  env_uuid_v4 :: "nat \<Rightarrow> uuid"
  env_uuid_str :: "uuid \<Rightarrow> string"
  env_uuid_parse :: "string \<Rightarrow> uuid option"
  env_rhai :: "script_config \<Rightarrow> string \<Rightarrow> vars \<Rightarrow> script_outcome"
  env_cron_next :: "string \<Rightarrow> time \<Rightarrow> time option"
  env_chrono_dur :: "duration \<Rightarrow> time option"
  env_td_seconds :: "int \<Rightarrow> time"

text \<open>
  Documented behaviour, used as hypotheses where a property needs it: version-4 UUIDs do not
  repeat and are not nil, a UUID is parsed back from its text, and \<open>as_f64\<close> is exact where the number is exactly a double.
\<close>

definition uuid_supply_ok :: "'z env_scheme \<Rightarrow> bool" where
  "uuid_supply_ok ev \<longleftrightarrow> inj (env_uuid_v4 ev) \<and> (\<forall>n. env_uuid_v4 ev n \<noteq> uuid_nil)"

definition uuid_text_ok :: "'z env_scheme \<Rightarrow> bool" where
  "uuid_text_ok ev \<longleftrightarrow> (\<forall>u. env_uuid_parse ev (env_uuid_str ev u) = Some u)"

definition as_f64_exact :: "'z env_scheme \<Rightarrow> bool" where
  "as_f64_exact ev \<longleftrightarrow>
     (\<forall>q. env_as_f64 ev (JFloat q) = Some q) \<and>
     (\<forall>n. \<bar>n\<bar> \<le> 2 ^ 53 \<longrightarrow> env_as_f64 ev (JInt n) = Some (of_int n))"

section \<open>Double-precision arithmetic\<close>

text \<open>
  A finite double is its rational value. \<open>round_f64\<close> rounds to the nearest double, ties to even,
  with gradual underflow; exponents are unbounded above, and \<open>f64_max_exceeded\<close> tells where the
  hardware would give infinity instead.
\<close>

fun log2_nat :: "nat \<Rightarrow> nat" where
  "log2_nat n = (if n < 2 then 0 else Suc (log2_nat (n div 2)))"

declare log2_nat.simps [simp del]

definition pow2 :: "int \<Rightarrow> rat" where
  "pow2 e = (if 0 \<le> e then 2 ^ nat e else 1 / 2 ^ nat (- e))"

definition round_half_even :: "rat \<Rightarrow> int" where
  "round_half_even x =
     (let f = \<lfloor>x\<rfloor>; r = x - of_int f
      in if r < 1 / 2 then f else if 1 / 2 < r then f + 1 else if even f then f else f + 1)"

text \<open>The exponent of the leading binary digit of a positive rational.\<close>

definition floor_log2 :: "rat \<Rightarrow> int" where
  "floor_log2 q =
     (let (a, b) = quotient_of q;
          e = int (log2_nat (nat a)) - int (log2_nat (nat b))
      in if pow2 e \<le> q then e else e - 1)"

definition round_f64 :: "rat \<Rightarrow> rat" where
  "round_f64 q =
     (if q = 0 then 0
      else let u = max (floor_log2 \<bar>q\<bar> - 52) (- 1074)
           in of_int (round_half_even (q / pow2 u)) * pow2 u)"

definition f64_max_exceeded :: "rat \<Rightarrow> bool" where
  "f64_max_exceeded q \<longleftrightarrow> 2 ^ 1024 \<le> \<bar>q\<bar>"

definition f64_sub :: "rat \<Rightarrow> rat \<Rightarrow> rat" where
  "f64_sub x y = round_f64 (x - y)"

text \<open>\<open>f64::EPSILON\<close>\<close>

definition f64_epsilon :: rat where
  "f64_epsilon = 1 / 2 ^ 52"

lemma round_half_even_of_int [simp]: "round_half_even (of_int n) = n"
  by (simp add: round_half_even_def)

lemma round_f64_0 [simp]: "round_f64 0 = 0"
  by (simp add: round_f64_def)

lemma f64_sub_self [simp]: "f64_sub x x = 0"
  by (simp add: f64_sub_def)

section \<open>Decimal literals\<close>

text \<open>
  \<open>parse::<f64>()\<close> followed by \<open>Number::from_f64\<close>: \<open>None\<close> when the text is no number, or names
  an infinity or NaN, or overflows to infinity.
\<close>

definition span_digits :: "string \<Rightarrow> string \<times> string" where
  "span_digits s = (takeWhile is_digit s, dropWhile is_digit s)"

definition parse_exponent :: "string \<Rightarrow> int option" where
  "parse_exponent s =
     (case s of
        [] \<Rightarrow> Some 0
      | c # cs \<Rightarrow>
          if c = CHR ''e'' \<or> c = CHR ''E'' then
            (let neg = (cs \<noteq> [] \<and> hd cs = CHR ''-'');
                 ds = (if cs \<noteq> [] \<and> (hd cs = CHR ''-'' \<or> hd cs = CHR ''+'') then tl cs else cs)
             in if ds \<noteq> [] \<and> list_all is_digit ds
                then Some (if neg then - int (digits_val 0 ds) else int (digits_val 0 ds))
                else None)
          else None)"

definition pow10 :: "int \<Rightarrow> rat" where
  "pow10 e = (if 0 \<le> e then 10 ^ nat e else 1 / 10 ^ nat (- e))"

definition parse_f64 :: "string \<Rightarrow> rat option" where
  "parse_f64 s =
     (let neg = (s \<noteq> [] \<and> hd s = CHR ''-'');
          s1 = (if s \<noteq> [] \<and> (hd s = CHR ''-'' \<or> hd s = CHR ''+'') then tl s else s);
          (ip, r1) = span_digits s1;
          (fp, r2) = (if r1 \<noteq> [] \<and> hd r1 = CHR ''.'' then span_digits (tl r1) else ([], r1))
      in if ip = [] \<and> fp = [] then None
         else case parse_exponent r2 of
                None \<Rightarrow> None
              | Some e \<Rightarrow>
                  let v = round_f64 (of_nat (digits_val 0 (ip @ fp)) * pow10 (e - int (length fp)))
                  in if f64_max_exceeded v then None else Some (if neg then - v else v))"

end
