(* ===== verification/Condition.thy ===== *)
theory Condition
  imports Values
begin

text \<open>
  The condition evaluator of \<open>engine-core/src/condition.rs\<close>: one comparison or a bare variable,
  evaluated against a variable map. Gateways and sequence flows route tokens with it.
\<close>

section \<open>Comparison of JSON values\<close>

datatype ordering = OLess | OEqual | OGreater

fun values_eq :: "'z env_scheme \<Rightarrow> json \<Rightarrow> json \<Rightarrow> bool" where
  "values_eq ev (JNum a) (JNum b) =
     (case (env_as_f64 ev a, env_as_f64 ev b) of
        (Some x, Some y) \<Rightarrow> \<bar>f64_sub x y\<bar> < f64_epsilon
      | _ \<Rightarrow> False)"
| "values_eq ev a b = (a = b)"

fun values_cmp :: "'z env_scheme \<Rightarrow> json \<Rightarrow> json \<Rightarrow> ordering option" where
  "values_cmp ev (JNum a) (JNum b) =
     (case env_as_f64 ev a of
        None \<Rightarrow> None
      | Some fa \<Rightarrow>
          (case env_as_f64 ev b of
             None \<Rightarrow> None
           | Some fb \<Rightarrow>
               Some (if fa < fb then OLess else if fa = fb then OEqual else OGreater)))"
| "values_cmp ev a b = None"

section \<open>The right-hand side\<close>

definition quoted :: "char \<Rightarrow> string \<Rightarrow> bool" where
  "quoted q s \<longleftrightarrow> s \<noteq> [] \<and> hd s = q \<and> last s = q"

definition parse_rhs :: "string \<Rightarrow> json" where
  "parse_rhs s =
     (if quoted (CHR 0x22) s \<or> quoted (CHR 0x27) s then
        (if 2 \<le> length s then JStr (butlast (tl s)) else JStr [])
      else if s = ''true'' then JBool True
      else if s = ''false'' then JBool False
      else if s = ''null'' then JNull
      else case parse_i64 s of
             Some n \<Rightarrow> JNum (JInt n)
           | None \<Rightarrow>
               (case parse_f64 s of
                  Some q \<Rightarrow> JNum (JFloat q)
                | None \<Rightarrow> JStr s))"

section \<open>Evaluation\<close>

definition operators :: "string list" where
  "operators = [''=='', ''!='', ''>='', ''<='', ''>'', ''<'']"

definition apply_operator :: "'z env_scheme \<Rightarrow> string \<Rightarrow> json \<Rightarrow> json \<Rightarrow> bool" where
  "apply_operator ev opr lhs rhs =
     (if opr = ''=='' then values_eq ev lhs rhs
      else if opr = ''!='' then \<not> values_eq ev lhs rhs
      else if opr = ''>'' then values_cmp ev lhs rhs = Some OGreater
      else if opr = ''<'' then values_cmp ev lhs rhs = Some OLess
      else if opr = ''>='' then (case values_cmp ev lhs rhs of None \<Rightarrow> False | Some r \<Rightarrow> r \<noteq> OLess)
      else if opr = ''<='' then (case values_cmp ev lhs rhs of None \<Rightarrow> False | Some r \<Rightarrow> r \<noteq> OGreater)
      else False)"

fun truthy :: "'z env_scheme \<Rightarrow> json option \<Rightarrow> bool" where
  "truthy ev (Some (JBool b)) = b"
| "truthy ev (Some (JNum n)) = (case env_as_f64 ev n of None \<Rightarrow> False | Some f \<Rightarrow> f \<noteq> 0)"
| "truthy ev (Some (JStr s)) = (s \<noteq> [])"
| "truthy ev (Some JNull) = False"
| "truthy ev None = False"
| "truthy ev (Some (JArr xs)) = True"
| "truthy ev (Some (JObj fs)) = True"

definition find_operator :: "string \<Rightarrow> (string \<times> string \<times> string) option" where
  "find_operator expr =
     first_some (\<lambda>opr. map_option (\<lambda>(l, r). (opr, l, r)) (split_at opr expr)) operators"

definition evaluate_condition :: "'z env_scheme \<Rightarrow> string \<Rightarrow> vars \<Rightarrow> bool" where
  "evaluate_condition ev raw variables =
     (let expr = trim raw
      in if expr = [] then False
         else case find_operator expr of
                Some (opr, l, r) \<Rightarrow>
                  (case tget variables (trim l) of
                     None \<Rightarrow> False
                   | Some lhs \<Rightarrow> apply_operator ev opr lhs (parse_rhs (trim r)))
              | None \<Rightarrow> truthy ev (tget variables expr))"

section \<open>Facts\<close>

lemma values_eq_same_kind: "values_eq ev (JStr a) (JStr b) \<longleftrightarrow> a = b" "values_eq ev (JBool p) (JBool q) \<longleftrightarrow> p = q"
  by simp_all

lemma values_cmp_numbers:
  assumes "as_f64_exact ev" and "\<bar>a\<bar> \<le> 2 ^ 53" and "\<bar>b\<bar> \<le> 2 ^ 53"
  shows "values_cmp ev (JNum (JInt a)) (JNum (JInt b)) =
    Some (if a < b then OLess else if a = b then OEqual else OGreater)"
proof -
  have "env_as_f64 ev (JInt a) = Some (of_int a)" "env_as_f64 ev (JInt b) = Some (of_int b)"
    using assms by (simp_all add: as_f64_exact_def)
  then show ?thesis by simp
qed

text \<open>How a comparison is read: the operator tried first that occurs in the text wins.\<close>

lemma evaluate_comparison:
  assumes "trim raw \<noteq> []" and "find_operator (trim raw) = Some (opr, l, r)"
    and "tget vs (trim l) = Some lhs"
  shows "evaluate_condition ev raw vs \<longleftrightarrow> apply_operator ev opr lhs (parse_rhs (trim r))"
  using assms by (simp add: evaluate_condition_def Let_def)

text \<open>
  On integers that doubles represent exactly, the six operators of a condition mean what they
  say: each order test, and equality and inequality as each other's negation.
\<close>

theorem integer_comparisons:
  assumes "as_f64_exact ev" and "\<bar>a\<bar> \<le> 2 ^ 53" and "\<bar>b\<bar> \<le> 2 ^ 53"
  shows "(apply_operator ev ''>'' (JNum (JInt a)) (JNum (JInt b)) \<longleftrightarrow> a > b) \<and>
    (apply_operator ev ''<'' (JNum (JInt a)) (JNum (JInt b)) \<longleftrightarrow> a < b) \<and>
    (apply_operator ev ''>='' (JNum (JInt a)) (JNum (JInt b)) \<longleftrightarrow> a \<ge> b) \<and>
    (apply_operator ev ''<='' (JNum (JInt a)) (JNum (JInt b)) \<longleftrightarrow> a \<le> b) \<and>
    (apply_operator ev ''!='' x y \<longleftrightarrow> \<not> apply_operator ev ''=='' x y)"
  using values_cmp_numbers [OF assms]
  by (auto simp: apply_operator_def)

theorem integer_comparisons_witness:
  "apply_operator \<lparr> env_as_f64 = (\<lambda>n. case n of JInt i \<Rightarrow> Some (of_int i) | JFloat q \<Rightarrow> Some q),
       env_uuid_v4 = Suc, env_uuid_str = show_nat, env_uuid_parse = (\<lambda>s. None),
       env_rhai = (\<lambda>c s vs. ScriptTimedOut), env_cron_next = (\<lambda>s t. None),
       env_chrono_dur = (\<lambda>d. Some (int d)), env_td_seconds = (\<lambda>s. s) \<rparr>
     ''>='' (JNum (JInt 5)) (JNum (JInt 3))"
proof -
  have "as_f64_exact \<lparr> env_as_f64 = (\<lambda>n. case n of JInt i \<Rightarrow> Some (of_int i) | JFloat q \<Rightarrow> Some q),
       env_uuid_v4 = Suc, env_uuid_str = show_nat, env_uuid_parse = (\<lambda>s. None),
       env_rhai = (\<lambda>c s vs. ScriptTimedOut), env_cron_next = (\<lambda>s t. None),
       env_chrono_dur = (\<lambda>d. Some (int d)), env_td_seconds = (\<lambda>s. s) \<rparr>"
    by (simp add: as_f64_exact_def)
  from integer_comparisons [OF this, of 5 3] show ?thesis by simp
qed

end
