(* ===== verification/Elements.thy ===== *)
theory Elements
  imports Condition
begin

text \<open>
  The data of \<open>engine-core/src/domain\<close>: BPMN elements, timers, listeners, sequence flows, tokens,
  file references and the errors of the engine.
\<close>

section \<open>Errors (error.rs)\<close>

datatype engine_error =
    InvalidDefinition msg
  | NoSuchNode string
  | NoSuchDefinition uuid
  | NoSuchInstance uuid
  | TaskNotPending uuid msg
  | AlreadyCompleted
  | TimerMismatch nat nat
  | NoMatchingCondition string
  | ServiceTaskNotFound uuid
  | ServiceTaskLocked uuid string
  | ServiceTaskNotLocked uuid
  | DefinitionHasInstances nat
  | OrphanedToken string
  | PersistenceError msg
  | ScriptError msg
  | ExecutionLimitExceeded msg
  | InstanceSuspended uuid

text \<open>\<open>e.to_string()\<close>\<close>

fun error_text :: "engine_error \<Rightarrow> msg" where
  "error_text (InvalidDefinition m) = Msg ''Invalid definition: {}'' [AMsg m]"
| "error_text (NoSuchNode n) = Msg ''No such node: {}'' [AStr n]"
| "error_text (NoSuchDefinition k) = Msg ''No such definition: {}'' [AId k]"
| "error_text (NoSuchInstance k) = Msg ''No such instance: {}'' [AId k]"
| "error_text (TaskNotPending t m) =
     Msg ''Task {} is not pending (current state: {})'' [AId t, AMsg m]"
| "error_text AlreadyCompleted = Msg ''Process instance has already completed'' []"
| "error_text (TimerMismatch a b) =
     Msg ''Timer mismatch: expected {}s, got {}s'' [ANat a, ANat b]"
| "error_text (NoMatchingCondition n) = Msg ''No matching condition at gateway {}'' [AStr n]"
| "error_text (ServiceTaskNotFound t) = Msg ''Service task not found: {}'' [AId t]"
| "error_text (ServiceTaskLocked t w) =
     Msg ''Service task {} is locked by worker {}'' [AId t, AStr w]"
| "error_text (ServiceTaskNotLocked t) = Msg ''Service task {} is not locked'' [AId t]"
| "error_text (DefinitionHasInstances n) =
     Msg ''Cannot delete definition: {} instances still exist'' [ANat n]"
| "error_text (OrphanedToken n) =
     Msg ''Orphaned token: node {} has no entry in the target definition and no mapping'' [AStr n]"
| "error_text (PersistenceError m) = Msg ''Persistence error: {}'' [AMsg m]"
| "error_text (ScriptError m) = Msg ''Script error: {}'' [AMsg m]"
| "error_text (ExecutionLimitExceeded m) = Msg ''Execution limit exceeded: {}'' [AMsg m]"
| "error_text (InstanceSuspended k) = Msg ''Instance {} is suspended'' [AId k]"

section \<open>Timers (timer.rs)\<close>

datatype timer_def =
    TDuration duration
  | TAbsoluteDate time
  | TCronCycle string "nat option"
  | TRepeating "nat option" duration

fun next_expiry :: "'z env_scheme \<Rightarrow> timer_def \<Rightarrow> time \<Rightarrow> time option" where
  "next_expiry ev (TDuration d) now =
     (case env_chrono_dur ev d of None \<Rightarrow> None | Some cd \<Rightarrow> Some (now + cd))"
| "next_expiry ev (TAbsoluteDate dt) now = (if dt > now then Some dt else None)"
| "next_expiry ev (TCronCycle expression mx) now = env_cron_next ev expression now"
| "next_expiry ev (TRepeating reps interval) now =
     (case env_chrono_dur ev interval of None \<Rightarrow> None | Some cd \<Rightarrow> Some (now + cd))"

fun is_recurring :: "timer_def \<Rightarrow> bool" where
  "is_recurring (TCronCycle expression mx) = True"
| "is_recurring (TRepeating reps interval) = True"
| "is_recurring (TDuration d) = False"
| "is_recurring (TAbsoluteDate dt) = False"

section \<open>Elements, flows and listeners\<close>

record multi_instance_def =
  mid_is_sequential :: bool
  mid_loop_cardinality :: "string option"
  mid_collection :: "string option"
  mid_element_variable :: "string option"

datatype element =
    StartEvent
  | TimerStartEvent timer_def
  | EndEvent
  | TerminateEndEvent
  | ServiceTask string "multi_instance_def option"
  | UserTask string
  | ScriptTask string "multi_instance_def option"
  | SendTask string "multi_instance_def option"
  | ExclusiveGateway "string option"
  | InclusiveGateway
  | ParallelGateway
  | EventBasedGateway
  | ComplexGateway "string option" "string option"
  | TimerCatchEvent timer_def
  | BoundaryTimerEvent string timer_def bool
  | MessageStartEvent string
  | MessageCatchEvent string
  | BoundaryMessageEvent string string bool
  | BoundaryErrorEvent string "string option"
  | ErrorEndEvent string
  | EscalationEndEvent string
  | EscalationThrowEvent string
  | BoundaryEscalationEvent string "string option" bool
  | CompensationThrowEvent "string option"
  | CompensationEndEvent "string option"
  | BoundaryCompensationEvent string
  | CallActivity string
  | EmbeddedSubProcess string
  | SubProcessEndEvent string

datatype listener_event = LStart | LEnd

record exec_listener =
  el_event :: listener_event
  el_script :: string

datatype scope_listener =
    SLTimer timer_def bool string
  | SLMessage string bool string
  | SLError "string option" string

record seq_flow =
  sf_target :: string
  sf_condition :: "string option"

definition simple_flow :: "string \<Rightarrow> seq_flow" where
  "simple_flow target = \<lparr> sf_target = target, sf_condition = None \<rparr>"

definition conditional_flow :: "string \<Rightarrow> string \<Rightarrow> seq_flow" where
  "conditional_flow target c = \<lparr> sf_target = target, sf_condition = Some c \<rparr>"

section \<open>Tokens (token.rs)\<close>

record token =
  tk_id :: uuid
  tk_node :: string
  tk_vars :: vars
  tk_merged :: bool

text \<open>The identifier is the UUID the constructor draws.\<close>

definition token_new :: "uuid \<Rightarrow> string \<Rightarrow> token" where
  "token_new u start_node = \<lparr> tk_id = u, tk_node = start_node, tk_vars = [], tk_merged = False \<rparr>"

definition token_with_variables :: "uuid \<Rightarrow> string \<Rightarrow> vars \<Rightarrow> token" where
  "token_with_variables u start_node vs =
     \<lparr> tk_id = u, tk_node = start_node, tk_vars = vs, tk_merged = False \<rparr>"

section \<open>File references (file_ref.rs)\<close>

record file_reference =
  fr_object_key :: string
  fr_filename :: string
  fr_mime_type :: string
  fr_size_bytes :: nat
  fr_uploaded_at :: string

text \<open>The time stamp is the RFC 3339 text of the clock.\<close>

definition file_reference_new ::
  "'z env_scheme \<Rightarrow> string \<Rightarrow> uuid \<Rightarrow> string \<Rightarrow> string \<Rightarrow> string \<Rightarrow> nat \<Rightarrow> file_reference" where
  "file_reference_new ev now_text instance_id var_name filename mime_type size_bytes =
     \<lparr> fr_object_key =
         ''file:'' @ env_uuid_str ev instance_id @ ''-'' @ var_name @ ''-'' @ filename,
       fr_filename = filename, fr_mime_type = mime_type, fr_size_bytes = size_bytes,
       fr_uploaded_at = now_text \<rparr>"

definition to_variable_value :: "file_reference \<Rightarrow> json" where
  "to_variable_value f =
     JObj [(''filename'', JStr (fr_filename f)), (''mime_type'', JStr (fr_mime_type f)),
           (''object_key'', JStr (fr_object_key f)), (''size_bytes'', JNum (JInt (int (fr_size_bytes f)))),
           (''type'', JStr ''file''), (''uploaded_at'', JStr (fr_uploaded_at f))]"

text \<open>The derived deserialisation: unknown fields are ignored, each known one is required.\<close>

fun json_as_u64 :: "json \<Rightarrow> nat option" where
  "json_as_u64 (JNum (JInt n)) = (if 0 \<le> n \<and> n < 2 ^ 64 then Some (nat n) else None)"
| "json_as_u64 _ = None"

definition json_field :: "(json \<Rightarrow> 'a option) \<Rightarrow> string \<Rightarrow> json \<Rightarrow> 'a option" where
  "json_field f k v = (case json_get k v of None \<Rightarrow> None | Some x \<Rightarrow> f x)"

definition from_variable_value :: "json \<Rightarrow> file_reference option" where
  "from_variable_value v =
     (if json_field json_as_str ''type'' v = Some ''file'' then
        (case (json_field json_as_str ''object_key'' v, json_field json_as_str ''filename'' v,
               json_field json_as_str ''mime_type'' v, json_field json_as_u64 ''size_bytes'' v,
               json_field json_as_str ''uploaded_at'' v) of
           (Some k, Some n, Some m, Some sz, Some t) \<Rightarrow>
             Some \<lparr> fr_object_key = k, fr_filename = n, fr_mime_type = m, fr_size_bytes = sz,
                    fr_uploaded_at = t \<rparr>
         | _ \<Rightarrow> None)
      else None)"

lemma file_reference_roundtrip:
  "fr_size_bytes f < 2 ^ 64 \<Longrightarrow> from_variable_value (to_variable_value f) = Some f"
  by (simp add: from_variable_value_def to_variable_value_def json_field_def)

text \<open>A reference that is parsed from a value has a 64-bit size.\<close>

lemma json_as_u64_bound: "json_as_u64 v = Some n \<Longrightarrow> n < 2 ^ 64"
proof -
  assume "json_as_u64 v = Some n"
  then obtain i where i: "v = JNum (JInt i)" and rng: "0 \<le> i" "i < 2 ^ 64" and n: "n = nat i"
    by (cases v rule: json_as_u64.cases) (auto split: if_splits)
  show ?thesis using rng n by (simp add: nat_less_iff)
qed

end
