(* ===== verification/Definition.thy ===== *)
theory Definition
  imports Elements
begin

text \<open>
  Process definitions (\<open>engine-core/src/domain/definition.rs\<close>): the structure, the validation
  done at construction, the graph queries the executor uses and the fluent builder.
\<close>

section \<open>The structure\<close>

datatype process_definition =
  ProcessDefinition
    (pd_key: uuid) (pd_id: string) (pd_version: int)
    (pd_nodes: "(string, element) table") (pd_flows: "(string, seq_flow list) table")
    (pd_listeners: "(string, exec_listener list) table")
    (pd_event_listeners: "scope_listener list") (pd_sub_processes: "process_definition list")

section \<open>Validation\<close>

fun is_start_element :: "element \<Rightarrow> bool" where
  "is_start_element StartEvent = True"
| "is_start_element (TimerStartEvent t) = True"
| "is_start_element (MessageStartEvent m) = True"
| "is_start_element _ = False"

fun is_end_element :: "element \<Rightarrow> bool" where
  "is_end_element EndEvent = True"
| "is_end_element (ErrorEndEvent c) = True"
| "is_end_element (EscalationEndEvent c) = True"
| "is_end_element (CompensationEndEvent r) = True"
| "is_end_element TerminateEndEvent = True"
| "is_end_element (SubProcessEndEvent s) = True"
| "is_end_element _ = False"

fun is_gateway_element :: "element \<Rightarrow> bool" where
  "is_gateway_element (ExclusiveGateway d) = True"
| "is_gateway_element InclusiveGateway = True"
| "is_gateway_element ParallelGateway = True"
| "is_gateway_element EventBasedGateway = True"
| "is_gateway_element (ComplexGateway j d) = True"
| "is_gateway_element _ = False"

fun boundary_host :: "element \<Rightarrow> string option" where
  "boundary_host (BoundaryTimerEvent a t c) = Some a"
| "boundary_host (BoundaryMessageEvent a m c) = Some a"
| "boundary_host (BoundaryErrorEvent a c) = Some a"
| "boundary_host (BoundaryEscalationEvent a e c) = Some a"
| "boundary_host (BoundaryCompensationEvent a) = Some a"
| "boundary_host _ = None"

fun needs_no_outgoing :: "element \<Rightarrow> bool" where
  "needs_no_outgoing (EmbeddedSubProcess s) = True"
| "needs_no_outgoing (BoundaryCompensationEvent a) = True"
| "needs_no_outgoing el = is_end_element el"

fun is_catch_element :: "element \<Rightarrow> bool" where
  "is_catch_element (MessageCatchEvent m) = True"
| "is_catch_element (TimerCatchEvent t) = True"
| "is_catch_element _ = False"

definition outgoing_of :: "(string, seq_flow list) table \<Rightarrow> string \<Rightarrow> seq_flow list" where
  "outgoing_of flows n = (case tget flows n of None \<Rightarrow> [] | Some fs \<Rightarrow> fs)"

definition incoming_count :: "(string, seq_flow list) table \<Rightarrow> string \<Rightarrow> nat" where
  "incoming_count flows n = length (filter (\<lambda>sf. sf_target sf = n) (concat (tvals flows)))"

definition check_start_count :: "(string, element) table \<Rightarrow> (engine_error, unit) outcome" where
  "check_start_count nodes =
     (let start_count = length (filter is_start_element (tvals nodes))
      in if start_count = 0 then Err (InvalidDefinition (Msg ''No start event defined'' []))
         else if 1 < start_count then
           Err (InvalidDefinition (Msg ''Multiple start events are not supported'' []))
         else Ok ())"

definition check_end_count :: "(string, element) table \<Rightarrow> (engine_error, unit) outcome" where
  "check_end_count nodes =
     (if length (filter is_end_element (tvals nodes)) = 0
      then Err (InvalidDefinition (Msg ''No end event defined'' [])) else Ok ())"

definition check_flow_entry ::
  "(string, element) table \<Rightarrow> string \<times> seq_flow list \<Rightarrow> (engine_error, unit) outcome" where
  "check_flow_entry nodes fl =
     (if tget nodes (fst fl) = None then Err (NoSuchNode (fst fl))
      else check_all
             (\<lambda>sf. if tget nodes (sf_target sf) = None then Err (NoSuchNode (sf_target sf)) else Ok ())
             (snd fl))"

definition check_boundary ::
  "(string, element) table \<Rightarrow> string \<times> element \<Rightarrow> (engine_error, unit) outcome" where
  "check_boundary nodes ne =
     (case boundary_host (snd ne) of
        None \<Rightarrow> Ok ()
      | Some attached_to \<Rightarrow>
          if tget nodes attached_to = None
          then Err (InvalidDefinition
                 (Msg ''Boundary event {} attached to missing node {}'' [AStr (fst ne), AStr attached_to]))
          else Ok ())"

definition check_outgoing ::
  "(string, seq_flow list) table \<Rightarrow> string \<times> element \<Rightarrow> (engine_error, unit) outcome" where
  "check_outgoing flows ne =
     (if needs_no_outgoing (snd ne) then Ok ()
      else if length (outgoing_of flows (fst ne)) = 0
           then Err (InvalidDefinition (Msg ''Node {} has no outgoing sequence flow'' [AStr (fst ne)]))
           else Ok ())"

definition check_gateway ::
  "(string, element) table \<Rightarrow> (string, seq_flow list) table \<Rightarrow> string \<times> element
     \<Rightarrow> (engine_error, unit) outcome" where
  "check_gateway nodes flows ne =
     (if is_gateway_element (snd ne) \<and> length (outgoing_of flows (fst ne)) < 2
           \<and> incoming_count flows (fst ne) < 2
      then Err (InvalidDefinition
             (Msg ''Gateway {} must have at least 2 incoming or 2 outgoing flows'' [AStr (fst ne)]))
      else if snd ne = EventBasedGateway then
        check_all
          (\<lambda>sf. case tget nodes (sf_target sf) of
                  None \<Rightarrow> Ok ()
                | Some te \<Rightarrow>
                    if is_catch_element te then Ok ()
                    else Err (InvalidDefinition
                      (Msg ''EventBasedGateway {} can only connect to MessageCatchEvent or TimerCatchEvent targets. Node {} is invalid.''
                        [AStr (fst ne), AStr (sf_target sf)])))
          (outgoing_of flows (fst ne))
      else Ok ())"

text \<open>\<open>ProcessDefinition::new\<close>; the key is the UUID it draws when every check has passed.\<close>

definition new_definition ::
  "uuid \<Rightarrow> string \<Rightarrow> int \<Rightarrow> (string, element) table \<Rightarrow> (string, seq_flow list) table
     \<Rightarrow> (string, exec_listener list) table \<Rightarrow> scope_listener list \<Rightarrow> process_definition list
     \<Rightarrow> (engine_error, process_definition) outcome" where
  "new_definition key i version nodes flows listeners event_listeners sub_processes =
     and_then (check_start_count nodes) (\<lambda>_.
     and_then (check_end_count nodes) (\<lambda>_.
     and_then (check_all (check_flow_entry nodes) flows) (\<lambda>_.
     and_then (check_all (check_boundary nodes) nodes) (\<lambda>_.
     and_then (check_all (check_outgoing flows) nodes) (\<lambda>_.
     and_then (check_all (check_gateway nodes flows) nodes) (\<lambda>_.
     Ok (ProcessDefinition key i version nodes flows listeners event_listeners sub_processes)))))))"

section \<open>Graph queries\<close>

definition start_event :: "process_definition \<Rightarrow> (string \<times> element) option" where
  "start_event d = find (\<lambda>ne. is_start_element (snd ne)) (pd_nodes d)"

definition get_node :: "process_definition \<Rightarrow> string \<Rightarrow> element option" where
  "get_node d n = tget (pd_nodes d) n"

definition next_nodes :: "process_definition \<Rightarrow> string \<Rightarrow> seq_flow list" where
  "next_nodes d n = outgoing_of (pd_flows d) n"

definition next_node :: "process_definition \<Rightarrow> string \<Rightarrow> string option" where
  "next_node d n = (case next_nodes d n of [sf] \<Rightarrow> Some (sf_target sf) | _ \<Rightarrow> None)"

definition incoming_flow_count :: "process_definition \<Rightarrow> string \<Rightarrow> nat" where
  "incoming_flow_count d n = incoming_count (pd_flows d) n"

definition is_join_gateway :: "process_definition \<Rightarrow> string \<Rightarrow> bool" where
  "is_join_gateway d n \<longleftrightarrow> 2 \<le> incoming_flow_count d n"

definition is_split_gateway :: "process_definition \<Rightarrow> string \<Rightarrow> bool" where
  "is_split_gateway d n \<longleftrightarrow>
     (case get_node d n of
        None \<Rightarrow> False
      | Some el \<Rightarrow> is_gateway_element el \<and> 2 \<le> length (next_nodes d n))"

section \<open>The builder\<close>

record definition_builder =
  db_id :: string
  db_key :: "uuid option"
  db_version :: int
  db_nodes :: "(string, element) table"
  db_flows :: "(string, seq_flow list) table"
  db_listeners :: "(string, exec_listener list) table"
  db_event_listeners :: "scope_listener list"
  db_sub_processes :: "process_definition list"

definition builder_new :: "string \<Rightarrow> definition_builder" where
  "builder_new i =
     \<lparr> db_id = i, db_key = None, db_version = 1, db_nodes = [], db_flows = [], db_listeners = [],
       db_event_listeners = [], db_sub_processes = [] \<rparr>"

definition with_key :: "uuid \<Rightarrow> definition_builder \<Rightarrow> definition_builder" where
  "with_key k b = b\<lparr>db_key := Some k\<rparr>"

definition with_version :: "int \<Rightarrow> definition_builder \<Rightarrow> definition_builder" where
  "with_version v b = b\<lparr>db_version := v\<rparr>"

definition add_node :: "string \<Rightarrow> element \<Rightarrow> definition_builder \<Rightarrow> definition_builder" where
  "add_node n el b = b\<lparr>db_nodes := tput n el (db_nodes b)\<rparr>"

definition add_flow :: "string \<Rightarrow> string \<Rightarrow> definition_builder \<Rightarrow> definition_builder" where
  "add_flow n target b = b\<lparr>db_flows := tpush n (simple_flow target) (db_flows b)\<rparr>"

definition add_conditional_flow ::
  "string \<Rightarrow> string \<Rightarrow> string \<Rightarrow> definition_builder \<Rightarrow> definition_builder" where
  "add_conditional_flow n target c b =
     b\<lparr>db_flows := tpush n (conditional_flow target c) (db_flows b)\<rparr>"

definition add_listener ::
  "string \<Rightarrow> listener_event \<Rightarrow> string \<Rightarrow> definition_builder \<Rightarrow> definition_builder" where
  "add_listener n le script b =
     b\<lparr>db_listeners := tpush n \<lparr> el_event = le, el_script = script \<rparr> (db_listeners b)\<rparr>"

definition scope_event :: "scope_listener \<Rightarrow> definition_builder \<Rightarrow> definition_builder" where
  "scope_event l b = b\<lparr>db_event_listeners := db_event_listeners b @ [l]\<rparr>"

definition sub_process :: "process_definition \<Rightarrow> definition_builder \<Rightarrow> definition_builder" where
  "sub_process d b = b\<lparr>db_sub_processes := db_sub_processes b @ [d]\<rparr>"

fun set_key :: "uuid \<Rightarrow> process_definition \<Rightarrow> process_definition" where
  "set_key k (ProcessDefinition k0 i v ns fs ls els sps) = ProcessDefinition k i v ns fs ls els sps"

definition build :: "uuid \<Rightarrow> definition_builder \<Rightarrow> (engine_error, process_definition) outcome" where
  "build fresh b =
     and_then
       (new_definition fresh (db_id b) (db_version b) (db_nodes b) (db_flows b) (db_listeners b)
          (db_event_listeners b) (db_sub_processes b))
       (\<lambda>d. Ok (case db_key b of None \<Rightarrow> d | Some k \<Rightarrow> set_key k d))"

section \<open>What validation guarantees\<close>

text \<open>The declarative reading of the checks.\<close>

definition well_formed_graph ::
  "(string, element) table \<Rightarrow> (string, seq_flow list) table \<Rightarrow> bool" where
  "well_formed_graph nodes flows \<longleftrightarrow>
     length (filter is_start_element (tvals nodes)) = 1 \<and>
     (\<exists>n el. (n, el) \<in> set nodes \<and> is_end_element el) \<and>
     (\<forall>n fs. (n, fs) \<in> set flows \<longrightarrow>
        thas nodes n \<and> (\<forall>sf \<in> set fs. thas nodes (sf_target sf))) \<and>
     (\<forall>n el a. (n, el) \<in> set nodes \<longrightarrow> boundary_host el = Some a \<longrightarrow> thas nodes a) \<and>
     (\<forall>n el. (n, el) \<in> set nodes \<longrightarrow> needs_no_outgoing el \<or> outgoing_of flows n \<noteq> []) \<and>
     (\<forall>n el. (n, el) \<in> set nodes \<longrightarrow> is_gateway_element el \<longrightarrow>
        2 \<le> length (outgoing_of flows n) \<or> 2 \<le> incoming_count flows n) \<and>
     (\<forall>n sf el. (n, EventBasedGateway) \<in> set nodes \<longrightarrow> sf \<in> set (outgoing_of flows n) \<longrightarrow>
        tget nodes (sf_target sf) = Some el \<longrightarrow> is_catch_element el)"

lemma check_start_count_Ok [simp]:
  "check_start_count nodes = Ok () \<longleftrightarrow> length (filter is_start_element (tvals nodes)) = 1"
  by (auto simp: check_start_count_def Let_def not_less le_Suc_eq)

lemma check_end_count_Ok [simp]:
  "check_end_count nodes = Ok () \<longleftrightarrow> (\<exists>n el. (n, el) \<in> set nodes \<and> is_end_element el)"
  by (force simp: check_end_count_def tvals_def filter_empty_conv)

lemma check_flow_entry_Ok [simp]:
  "check_flow_entry nodes fl = Ok () \<longleftrightarrow>
     thas nodes (fst fl) \<and> (\<forall>sf \<in> set (snd fl). thas nodes (sf_target sf))"
  by (auto simp: check_flow_entry_def thas_def)

lemma check_boundary_Ok [simp]:
  "check_boundary nodes ne = Ok () \<longleftrightarrow> (\<forall>a. boundary_host (snd ne) = Some a \<longrightarrow> thas nodes a)"
  by (auto simp: check_boundary_def thas_def split: option.splits)

lemma check_outgoing_Ok [simp]:
  "check_outgoing flows ne = Ok () \<longleftrightarrow> needs_no_outgoing (snd ne) \<or> outgoing_of flows (fst ne) \<noteq> []"
  by (auto simp: check_outgoing_def)

lemma check_gateway_Ok [simp]:
  "check_gateway nodes flows ne = Ok () \<longleftrightarrow>
     (is_gateway_element (snd ne) \<longrightarrow>
        2 \<le> length (outgoing_of flows (fst ne)) \<or> 2 \<le> incoming_count flows (fst ne)) \<and>
     (snd ne = EventBasedGateway \<longrightarrow>
        (\<forall>sf \<in> set (outgoing_of flows (fst ne)). \<forall>el.
           tget nodes (sf_target sf) = Some el \<longrightarrow> is_catch_element el))"
  by (auto simp: check_gateway_def not_less split: option.splits if_splits)

lemma new_definition_Ok_iff:
  "new_definition key i version nodes flows ls els sps = Ok d \<longleftrightarrow>
     well_formed_graph nodes flows \<and>
     d = ProcessDefinition key i version nodes flows ls els sps"
proof -
  have 1: "(\<forall>x \<in> set flows. thas nodes (fst x) \<and> (\<forall>sf \<in> set (snd x). thas nodes (sf_target sf))) \<longleftrightarrow>
      (\<forall>n fs. (n, fs) \<in> set flows \<longrightarrow> thas nodes n \<and> (\<forall>sf \<in> set fs. thas nodes (sf_target sf)))"
    by fastforce
  have 2: "(\<forall>x \<in> set nodes. \<forall>a. boundary_host (snd x) = Some a \<longrightarrow> thas nodes a) \<longleftrightarrow>
      (\<forall>n el a. (n, el) \<in> set nodes \<longrightarrow> boundary_host el = Some a \<longrightarrow> thas nodes a)"
    by fastforce
  have 3: "(\<forall>x \<in> set nodes. needs_no_outgoing (snd x) \<or> outgoing_of flows (fst x) \<noteq> []) \<longleftrightarrow>
      (\<forall>n el. (n, el) \<in> set nodes \<longrightarrow> needs_no_outgoing el \<or> outgoing_of flows n \<noteq> [])"
    by fastforce
  have 4: "(\<forall>x \<in> set nodes. check_gateway nodes flows x = Ok ()) \<longleftrightarrow>
      (\<forall>n el. (n, el) \<in> set nodes \<longrightarrow> is_gateway_element el \<longrightarrow>
        2 \<le> length (outgoing_of flows n) \<or> 2 \<le> incoming_count flows n) \<and>
      (\<forall>n sf el. (n, EventBasedGateway) \<in> set nodes \<longrightarrow> sf \<in> set (outgoing_of flows n) \<longrightarrow>
        tget nodes (sf_target sf) = Some el \<longrightarrow> is_catch_element el)"
    unfolding check_gateway_Ok by fastforce
  show ?thesis
    unfolding new_definition_def well_formed_graph_def
    by (simp only: and_then_unit_Ok_iff check_start_count_Ok check_end_count_Ok check_all_Ok_iff
          check_flow_entry_Ok check_boundary_Ok check_outgoing_Ok outcome.inject 1 2 3 4) blast
qed

section \<open>Properties\<close>

lemma find_exists_Some: "(\<exists>x \<in> set xs. p x) \<Longrightarrow> \<exists>y. find p xs = Some y \<and> p y \<and> y \<in> set xs"
  by (induction xs) auto

text \<open>
  C2. The builder succeeds exactly on a well-formed graph (one start event, an end event, no
  dangling flow or boundary host, an outgoing flow wherever one is needed, gateways with at least
  two incoming or two outgoing flows, event gateways followed by catch events), and then returns
  what it was given, under the explicit key if one was set.
\<close>

theorem build_accepts_well_formed:
  "build fresh b = Ok d \<longleftrightarrow>
     well_formed_graph (db_nodes b) (db_flows b) \<and>
     d = ProcessDefinition (case db_key b of None \<Rightarrow> fresh | Some k \<Rightarrow> k) (db_id b) (db_version b)
           (db_nodes b) (db_flows b) (db_listeners b) (db_event_listeners b) (db_sub_processes b)"
  by (auto simp: build_def and_then_Ok_iff new_definition_Ok_iff split: option.splits)

text \<open>
  C3. What validation gives the executor: a definition that passed it has a plain, timer or message
  start event, and at every node but the ends, an embedded sub-process and a compensation boundary
  event a token finds an outgoing flow; and every flow it finds there leads to a node that exists. At an
  embedded sub-process validation asks for nothing: neither an outgoing flow for the end of the
  sub-process nor that its start node exists, so a token can strand there, as the example shows.
\<close>

theorem valid_definition_never_strands:
  assumes "new_definition key i version nodes flows ls els sps = Ok d"
  shows "(\<exists>n el. start_event d = Some (n, el) \<and>
      (el = StartEvent \<or> (\<exists>t. el = TimerStartEvent t) \<or> (\<exists>m. el = MessageStartEvent m))) \<and>
    (\<forall>n el. get_node d n = Some el \<longrightarrow>
      el \<in> {EndEvent, TerminateEndEvent} \<or>
      (\<exists>c. el \<in> {ErrorEndEvent c, EscalationEndEvent c, SubProcessEndEvent c, EmbeddedSubProcess c, BoundaryCompensationEvent c}) \<or>
      (\<exists>a. el = CompensationEndEvent a) \<or> next_nodes d n \<noteq> []) \<and>
    (\<forall>n sf. sf \<in> set (next_nodes d n) \<longrightarrow> get_node d (sf_target sf) \<noteq> None)"
proof -
  from assms have g: "well_formed_graph nodes flows"
    and d: "d = ProcessDefinition key i version nodes flows ls els sps"
    by (simp_all add: new_definition_Ok_iff)
  have "filter is_start_element (tvals nodes) \<noteq> []"
    using g by (auto simp: well_formed_graph_def)
  then have "\<exists>ne \<in> set nodes. is_start_element (snd ne)"
    by (auto simp: filter_empty_conv tvals_def)
  from find_exists_Some [OF this] obtain n el where "start_event d = Some (n, el)" "is_start_element el"
    by (auto simp: start_event_def d)
  moreover from this(2) have "el = StartEvent \<or> (\<exists>t. el = TimerStartEvent t) \<or> (\<exists>m. el = MessageStartEvent m)"
    by (cases el) simp_all
  ultimately have s: "\<exists>n el. start_event d = Some (n, el) \<and>
      (el = StartEvent \<or> (\<exists>t. el = TimerStartEvent t) \<or> (\<exists>m. el = MessageStartEvent m))" by blast
  have exempt: "el \<in> {EndEvent, TerminateEndEvent} \<or>
      (\<exists>c. el \<in> {ErrorEndEvent c, EscalationEndEvent c, SubProcessEndEvent c, EmbeddedSubProcess c, BoundaryCompensationEvent c}) \<or>
      (\<exists>a. el = CompensationEndEvent a)" if "needs_no_outgoing el" for el
    using that by (cases el) auto
  have o: "next_nodes d n \<noteq> []" if "get_node d n = Some el" "\<not> needs_no_outgoing el" for n el
  proof -
    from that(1) have "(n, el) \<in> set nodes" by (auto simp: get_node_def d dest: tget_SomeD)
    with g that(2) have "outgoing_of flows n \<noteq> []" unfolding well_formed_graph_def by blast
    then show ?thesis by (simp add: next_nodes_def d)
  qed
  have t: "get_node d (sf_target sf) \<noteq> None" if sf: "sf \<in> set (next_nodes d n)" for n sf
  proof (cases "tget flows n")
    case None
    with sf show ?thesis by (simp add: next_nodes_def outgoing_of_def d)
  next
    case (Some fs)
    then have "(n, fs) \<in> set flows" by (rule tget_SomeD)
    moreover have "sf \<in> set fs" using sf Some by (simp add: next_nodes_def outgoing_of_def d)
    ultimately have "thas nodes (sf_target sf)" using g unfolding well_formed_graph_def by blast
    then show ?thesis by (simp add: thas_def get_node_def d)
  qed
  show ?thesis using s o t exempt by blast
qed

theorem valid_definition_never_strands_witness:
  "start_event (ProcessDefinition 1 ''p'' 1 [(''s'', StartEvent), (''e'', EndEvent)]
     [(''s'', [simple_flow ''e''])] [] [] []) = Some (''s'', StartEvent)"
proof -
  have "new_definition 1 ''p'' 1 [(''s'', StartEvent), (''e'', EndEvent)] [(''s'', [simple_flow ''e''])] [] [] []
      = Ok (ProcessDefinition 1 ''p'' 1 [(''s'', StartEvent), (''e'', EndEvent)]
             [(''s'', [simple_flow ''e''])] [] [] [])"
    by (simp add: new_definition_def check_start_count_def check_end_count_def check_flow_entry_def
        check_boundary_def check_outgoing_def check_gateway_def tvals_def tget_def outgoing_of_def
        simple_flow_def)
  from valid_definition_never_strands [OF this] show ?thesis
    by (simp add: start_event_def)
qed

text \<open>The exception is real: a sub-process with an unknown start node and no way out passes validation.\<close>

lemma embedded_sub_process_may_strand:
  "\<exists>d. new_definition 1 ''p'' 1 [(''s'', StartEvent), (''u'', EmbeddedSubProcess ''gone''), (''e'', EndEvent)]
     [(''s'', [simple_flow ''u''])] [] [] [] = Ok d \<and>
     get_node d ''u'' = Some (EmbeddedSubProcess ''gone'') \<and> get_node d ''gone'' = None \<and> next_nodes d ''u'' = []"
  by (simp add: new_definition_def check_start_count_def check_end_count_def check_flow_entry_def thas_def
      check_boundary_def check_outgoing_def check_gateway_def tvals_def tget_def outgoing_of_def simple_flow_def
      get_node_def next_nodes_def)

end
