(* ===== verification/Runtime.thy ===== *)
theory Runtime
  imports Definition
begin

text \<open>
  The run-time data of \<open>engine-core/src/runtime\<close>: process instances and their states, active
  tokens, join barriers, pending work, the actions a node handler asks for, the bounded audit
  log, the engine constants and the statistics record.
\<close>

section \<open>Constants (constants.rs)\<close>

definition MAX_AUDIT_LOG_ENTRIES :: nat where
  "MAX_AUDIT_LOG_ENTRIES = 200"

definition YIELD_EVERY_N_STEPS :: nat where
  "YIELD_EVERY_N_STEPS = 64"

definition MAX_EXECUTION_STEPS :: nat where
  "MAX_EXECUTION_STEPS = 10000"

definition MAX_INSTANCE_PAYLOAD_BYTES :: nat where
  "MAX_INSTANCE_PAYLOAD_BYTES = 900 * 1024"

section \<open>Pending work (pending.rs)\<close>

record user_task =
  ut_task_id :: uuid
  ut_instance_id :: uuid
  ut_node_id :: string
  ut_assignee :: string
  ut_token_id :: uuid
  ut_created_at :: time
  ut_business_key :: "string option"

record service_task =
  st_id :: uuid
  st_instance_id :: uuid
  st_definition_key :: uuid
  st_node_id :: string
  st_topic :: string
  st_token_id :: uuid
  st_business_key :: "string option"
  st_variables_snapshot :: vars
  st_created_at :: time
  st_worker_id :: "string option"
  st_lock_expiration :: "time option"
  st_retries :: int
  st_error_message :: "string option"
  st_error_details :: "string option"

record pending_timer =
  tm_id :: uuid
  tm_instance_id :: uuid
  tm_node_id :: string
  tm_expires_at :: time
  tm_token_id :: uuid
  tm_timer_def :: "timer_def option"
  tm_remaining :: "nat option"

record message_catch =
  mc_id :: uuid
  mc_instance_id :: uuid
  mc_node_id :: string
  mc_message_name :: string
  mc_token_id :: uuid

section \<open>Instances (instance.rs)\<close>

datatype next_action =
    Continue token
  | ContinueMultiple "token list"
  | WaitForUser user_task
  | WaitForServiceTask service_task
  | WaitForJoin string token
  | WaitForTimer pending_timer
  | WaitForMessage message_catch
  | WaitForEventGroup "next_action list"
  | Complete
  | ErrorEnd string
  | EscalationEnd string
  | SpawnAndContinue token "token list"
  | Terminate
  | WaitForCallActivity string token
  | MultiInstanceFork string "token list"
  | MultiInstanceNext string token

record multi_instance_progress =
  mip_node_id :: string
  mip_total :: nat
  mip_completed :: nat
  mip_sequential_token :: "token option"

datatype instance_state =
    Running
  | WaitingOnUserTask uuid
  | WaitingOnServiceTask uuid
  | WaitingOnTimer uuid
  | WaitingOnMessage uuid
  | WaitingOnEventBasedGateway
  | ParallelExecution nat
  | WaitingOnCallActivity uuid token
  | Completed
  | CompletedWithError string
  | Suspended instance_state

record active_token =
  at_token :: token
  at_fork_id :: "string option"
  at_branch_index :: nat
  at_completed :: bool

record join_barrier =
  jb_gateway_node_id :: string
  jb_expected_count :: nat
  jb_arrived_tokens :: "token list"

record compensation_record =
  cr_activity_id :: string
  cr_handler_node_id :: string

record process_instance =
  pi_id :: uuid
  pi_definition_key :: uuid
  pi_business_key :: string
  pi_parent :: "uuid option"
  pi_state :: instance_state
  pi_node :: string
  pi_audit :: "msg list"
  pi_vars :: vars
  pi_tokens :: "(uuid, token) table"
  pi_active :: "active_token list"
  pi_barriers :: "(string, join_barrier) table"
  pi_mi :: "(string, multi_instance_progress) table"
  pi_comp_log :: "compensation_record list"
  pi_started_at :: "time option"
  pi_completed_at :: "time option"

definition get_file_reference :: "process_instance \<Rightarrow> string \<Rightarrow> file_reference option" where
  "get_file_reference inst var_name =
     (case tget (pi_vars inst) var_name of None \<Rightarrow> None | Some v \<Rightarrow> from_variable_value v)"

definition file_variable_names :: "process_instance \<Rightarrow> string list" where
  "file_variable_names inst =
     map fst (filter (\<lambda>kv. from_variable_value (snd kv) \<noteq> None) (pi_vars inst))"

section \<open>The bounded audit log\<close>

definition trim_log :: "'a list \<Rightarrow> 'a list" where
  "trim_log xs =
     (if length xs > MAX_AUDIT_LOG_ENTRIES then drop (length xs - MAX_AUDIT_LOG_ENTRIES) xs else xs)"

definition push_audit_log :: "msg \<Rightarrow> process_instance \<Rightarrow> process_instance" where
  "push_audit_log m inst = inst\<lparr>pi_audit := trim_log (pi_audit inst @ [m])\<rparr>"

definition append_audit_log :: "msg list \<Rightarrow> process_instance \<Rightarrow> process_instance" where
  "append_audit_log ms inst = inst\<lparr>pi_audit := trim_log (pi_audit inst @ ms)\<rparr>"

lemma length_trim_log [simp]: "length (trim_log xs) = min (length xs) MAX_AUDIT_LOG_ENTRIES"
  by (simp add: trim_log_def)

lemma trim_log_suffix: "\<exists>old. xs = old @ trim_log xs"
  by (metis trim_log_def append_take_drop_id append_Nil)

lemma push_audit_log_other [simp]:
  "pi_id (push_audit_log m inst) = pi_id inst"
  "pi_definition_key (push_audit_log m inst) = pi_definition_key inst"
  "pi_business_key (push_audit_log m inst) = pi_business_key inst"
  "pi_parent (push_audit_log m inst) = pi_parent inst"
  "pi_state (push_audit_log m inst) = pi_state inst"
  "pi_node (push_audit_log m inst) = pi_node inst"
  "pi_vars (push_audit_log m inst) = pi_vars inst"
  "pi_tokens (push_audit_log m inst) = pi_tokens inst"
  "pi_active (push_audit_log m inst) = pi_active inst"
  "pi_barriers (push_audit_log m inst) = pi_barriers inst"
  "pi_comp_log (push_audit_log m inst) = pi_comp_log inst"
  "pi_started_at (push_audit_log m inst) = pi_started_at inst"
  "pi_completed_at (push_audit_log m inst) = pi_completed_at inst"
  by (simp_all add: push_audit_log_def)

lemma append_audit_log_other [simp]:
  "pi_id (append_audit_log ms inst) = pi_id inst"
  "pi_definition_key (append_audit_log ms inst) = pi_definition_key inst"
  "pi_business_key (append_audit_log ms inst) = pi_business_key inst"
  "pi_parent (append_audit_log ms inst) = pi_parent inst"
  "pi_state (append_audit_log ms inst) = pi_state inst"
  "pi_node (append_audit_log ms inst) = pi_node inst"
  "pi_vars (append_audit_log ms inst) = pi_vars inst"
  "pi_tokens (append_audit_log ms inst) = pi_tokens inst"
  "pi_active (append_audit_log ms inst) = pi_active inst"
  "pi_barriers (append_audit_log ms inst) = pi_barriers inst"
  "pi_comp_log (append_audit_log ms inst) = pi_comp_log inst"
  "pi_started_at (append_audit_log ms inst) = pi_started_at inst"
  "pi_completed_at (append_audit_log ms inst) = pi_completed_at inst"
  by (simp_all add: append_audit_log_def)

section \<open>Statistics (stats.rs)\<close>

record engine_stats =
  es_definitions :: nat
  es_instances_total :: nat
  es_instances_running :: nat
  es_instances_completed :: nat
  es_waiting_user :: nat
  es_waiting_service :: nat
  es_pending_user_tasks :: nat
  es_pending_service_tasks :: nat
  es_pending_timers :: nat
  es_pending_messages :: nat
  es_persistence_errors :: nat
  es_pending_retry_jobs :: nat

section \<open>States\<close>

fun is_terminal :: "instance_state \<Rightarrow> bool" where
  "is_terminal Completed = True"
| "is_terminal (CompletedWithError c) = True"
| "is_terminal _ = False"

fun is_suspended :: "instance_state \<Rightarrow> bool" where
  "is_suspended (Suspended s) = True"
| "is_suspended _ = False"

fun is_parallel :: "instance_state \<Rightarrow> bool" where
  "is_parallel (ParallelExecution n) = True"
| "is_parallel _ = False"

section \<open>Properties\<close>

text \<open>
  The two bounded writers of the audit log keep at most 200 entries, and always the latest
  ones: what they drop is a prefix of the log they extended.
\<close>

theorem audit_log_bounded:
  "length (pi_audit (append_audit_log ms inst)) \<le> 200 \<and>
   (\<exists>dropped. pi_audit inst @ ms = dropped @ pi_audit (append_audit_log ms inst)) \<and>
   push_audit_log m inst = append_audit_log [m] inst"
  using trim_log_suffix [of "pi_audit inst @ ms"]
  by (auto simp: append_audit_log_def push_audit_log_def MAX_AUDIT_LOG_ENTRIES_def)

end
