(* ===== verification/History.thy ===== *)
theory History
  imports Runtime
begin

text \<open>
  The history of an instance (\<open>engine-core/src/history\<close>): event types, entries and their
  builders, and the difference between a snapshot of an instance and its later state.
\<close>

section \<open>Entries\<close>

datatype actor_type = ActorEngine | ActorUser | ActorServiceWorker | ActorTimer | ActorListener

datatype history_event =
    HInstanceStarted | HInstanceCompleted | HInstanceDeleted | HTaskCompleted | HVariableUpdated
  | HGatewayTaken | HListenerExecuted | HTokenAdvanced | HTokenForked | HTokenJoined
  | HBranchCompleted | HError | HCallActivityStarted | HCallActivityCompleted
  | HInstanceSuspended | HInstanceResumed | HTokenMoved | HEscalationThrown
  | HCompensationTriggered | HInstanceMigrated

fun human_description :: "history_event \<Rightarrow> string" where
  "human_description HInstanceStarted = ''Process instance started''"
| "human_description HInstanceCompleted = ''Process instance completed''"
| "human_description HInstanceDeleted = ''Process instance was deleted''"
| "human_description HTaskCompleted = ''Task was completed''"
| "human_description HVariableUpdated = ''Variable was updated''"
| "human_description HGatewayTaken = ''Gateway path was taken''"
| "human_description HListenerExecuted = ''Execution listener finished''"
| "human_description HTokenAdvanced = ''Token advanced to the next node''"
| "human_description HTokenForked = ''Token forked into multiple branches''"
| "human_description HTokenJoined = ''Multiple tokens joined into one''"
| "human_description HBranchCompleted = ''Branch execution completed''"
| "human_description HError = ''An execution error occurred''"
| "human_description HCallActivityStarted = ''Call activity started''"
| "human_description HCallActivityCompleted = ''Call activity completed''"
| "human_description HInstanceSuspended = ''Process instance was suspended''"
| "human_description HInstanceResumed = ''Process instance was resumed''"
| "human_description HTokenMoved = ''Token was manually moved to a different node''"
| "human_description HEscalationThrown = ''An escalation was thrown''"
| "human_description HCompensationTriggered = ''Compensation was triggered''"
| "human_description HInstanceMigrated = ''Process instance was migrated to a new definition''"

record variable_diff =
  vd_added :: vars
  vd_removed :: "string list"
  vd_changed :: "(string, json \<times> json) table"

text \<open>
  The status difference holds the two states whose debug texts the code compares and stores: the
  derived \<open>Debug\<close> prints a state completely, in the order its tables are iterated.
\<close>

record history_diff =
  hd_variables :: "variable_diff option"
  hd_status :: "(instance_state \<times> instance_state) option"
  hd_current_node :: "(string \<times> string) option"
  hd_human_readable :: "msg option"

definition diff_is_empty :: "history_diff \<Rightarrow> bool" where
  "diff_is_empty d \<longleftrightarrow>
     hd_variables d = None \<and> hd_status d = None \<and> hd_current_node d = None
     \<and> hd_human_readable d = None"

record history_entry =
  he_id :: uuid
  he_instance_id :: uuid
  he_timestamp :: time
  he_event_type :: history_event
  he_node_id :: "string option"
  he_description :: msg
  he_actor_type :: actor_type
  he_actor_id :: "string option"
  he_diff :: "history_diff option"
  he_context :: vars
  he_metadata :: "json option"
  he_definition_version :: "int option"
  he_is_snapshot :: bool
  he_full_snapshot :: "json option"

text \<open>The identifier is the UUID the constructor draws, the time stamp the clock it reads.\<close>

definition entry_new ::
  "uuid \<Rightarrow> time \<Rightarrow> uuid \<Rightarrow> history_event \<Rightarrow> msg \<Rightarrow> actor_type \<Rightarrow> string option \<Rightarrow> history_entry" where
  "entry_new u now instance_id ety description aty aid =
     \<lparr> he_id = u, he_instance_id = instance_id, he_timestamp = now, he_event_type = ety,
       he_node_id = None, he_description = description, he_actor_type = aty, he_actor_id = aid,
       he_diff = None, he_context = [], he_metadata = None, he_definition_version = None,
       he_is_snapshot = False, he_full_snapshot = None \<rparr>"

definition with_node :: "string \<Rightarrow> history_entry \<Rightarrow> history_entry" where
  "with_node n e = e\<lparr>he_node_id := Some n\<rparr>"

definition with_diff :: "history_diff \<Rightarrow> history_entry \<Rightarrow> history_entry" where
  "with_diff d e =
     (if diff_is_empty d then e
      else (case hd_human_readable d of
              None \<Rightarrow> e
            | Some m \<Rightarrow> e\<lparr>he_description := m\<rparr>)\<lparr>he_diff := Some d\<rparr>)"

definition with_metadata :: "json \<Rightarrow> history_entry \<Rightarrow> history_entry" where
  "with_metadata m e = e\<lparr>he_metadata := Some m\<rparr>"

definition with_context :: "string \<Rightarrow> json \<Rightarrow> history_entry \<Rightarrow> history_entry" where
  "with_context k v e = e\<lparr>he_context := tput k v (he_context e)\<rparr>"

definition with_snapshot :: "json \<Rightarrow> history_entry \<Rightarrow> history_entry" where
  "with_snapshot v e = e\<lparr>he_is_snapshot := True, he_full_snapshot := Some v\<rparr>"

section \<open>Texts of a difference\<close>

text \<open>The size is kept in bytes; the template tells the unit it is printed in.\<close>

definition format_file_human_text :: "json \<Rightarrow> msg option" where
  "format_file_human_text v =
     (if json_field json_as_str ''type'' v = Some ''file'' then
        (let filename = (case json_field json_as_str ''filename'' v of None \<Rightarrow> ''unknown'' | Some f \<Rightarrow> f);
             size = (case json_field json_as_u64 ''size_bytes'' v of None \<Rightarrow> 0 | Some n \<Rightarrow> n)
         in Some (Msg (if size > 1048576 then ''File {} uploaded ({:.1} MB).''
                       else ''File {} uploaded ({:.1} KB).'') [AStr filename, ANat size]))
      else None)"

text \<open>A byte starts a character unless it is a UTF-8 continuation byte.\<close>

definition starts_char :: "char \<Rightarrow> bool" where
  "starts_char c \<longleftrightarrow> \<not> (128 \<le> (of_char c :: nat) \<and> (of_char c :: nat) < 192)"

definition is_char_boundary :: "string \<Rightarrow> nat \<Rightarrow> bool" where
  "is_char_boundary s n \<longleftrightarrow> n = 0 \<or> n = length s \<or> (n < length s \<and> starts_char (s ! n))"

definition char_count :: "string \<Rightarrow> nat" where
  "char_count s = length (filter starts_char s)"

fun boundary_below :: "string \<Rightarrow> nat \<Rightarrow> nat" where
  "boundary_below s 0 = 0"
| "boundary_below s (Suc n) = (if is_char_boundary s (Suc n) then Suc n else boundary_below s n)"

definition truncate_value_for_diff :: "json \<Rightarrow> json" where
  "truncate_value_for_diff v =
     (case v of
        JStr s \<Rightarrow>
          if length s > 1024 then
            (let boundary = boundary_below s 1024
             in JStr (take boundary s @ ''... <truncated ''
                      @ show_nat (char_count s - char_count (take boundary s)) @ '' chars>''))
          else v
      | JArr a \<Rightarrow>
          if length a > 128 then JStr (''<Large Array: '' @ show_nat (length a) @ '' elements>'') else v
      | _ \<Rightarrow> v)"

section \<open>Differences\<close>

record diff_snapshot =
  ds_state :: instance_state
  ds_node :: string
  ds_vars :: vars

definition snapshot_of :: "process_instance \<Rightarrow> diff_snapshot" where
  "snapshot_of inst = \<lparr> ds_state = pi_state inst, ds_node = pi_node inst, ds_vars = pi_vars inst \<rparr>"

definition change_text :: "string \<Rightarrow> json \<Rightarrow> json \<Rightarrow> msg" where
  "change_text k v_old v_new =
     (case format_file_human_text v_new of
        Some m \<Rightarrow> m
      | None \<Rightarrow> Msg ''Variable {} changed from {} to {}. (first 500 characters)''
                 [AStr k, AVal (truncate_value_for_diff v_old), AVal (truncate_value_for_diff v_new)])"

definition added_text :: "string \<Rightarrow> json \<Rightarrow> msg" where
  "added_text k v_new =
     (case format_file_human_text v_new of
        Some m \<Rightarrow> m
      | None \<Rightarrow> Msg ''Variable {} was added ({}). (first 500 characters)''
                 [AStr k, AVal (truncate_value_for_diff v_new)])"

text \<open>The loop over the old variables: changed entries, removed names, texts.\<close>

definition old_vars_step ::
  "vars \<Rightarrow> string \<times> json \<Rightarrow> variable_diff \<times> msg list \<Rightarrow> variable_diff \<times> msg list" where
  "old_vars_step new kv acc =
     (case tget new (fst kv) of
        Some v_new \<Rightarrow>
          if snd kv \<noteq> v_new then
            ((fst acc)\<lparr>vd_changed := tput (fst kv)
                (truncate_value_for_diff (snd kv), truncate_value_for_diff v_new) (vd_changed (fst acc))\<rparr>,
             snd acc @ [change_text (fst kv) (snd kv) v_new])
          else acc
      | None \<Rightarrow>
          ((fst acc)\<lparr>vd_removed := vd_removed (fst acc) @ [fst kv]\<rparr>,
           snd acc @ [Msg ''Variable {} was removed.'' [AStr (fst kv)]]))"

definition new_vars_step ::
  "vars \<Rightarrow> string \<times> json \<Rightarrow> variable_diff \<times> msg list \<Rightarrow> variable_diff \<times> msg list" where
  "new_vars_step old kv acc =
     (if tget old (fst kv) = None then
        ((fst acc)\<lparr>vd_added := tput (fst kv) (truncate_value_for_diff (snd kv)) (vd_added (fst acc))\<rparr>,
         snd acc @ [added_text (fst kv) (snd kv)])
      else acc)"

definition variable_difference :: "vars \<Rightarrow> vars \<Rightarrow> variable_diff \<times> msg list" where
  "variable_difference old new =
     fold (new_vars_step old) new
       (fold (old_vars_step new) old (\<lparr> vd_added = [], vd_removed = [], vd_changed = [] \<rparr>, []))"

definition calculate_diff_from_snapshot :: "diff_snapshot \<Rightarrow> process_instance \<Rightarrow> history_diff" where
  "calculate_diff_from_snapshot old new =
     (let status = (if ds_state old \<noteq> pi_state new then Some (ds_state old, pi_state new) else None);
          status_texts = (if ds_state old \<noteq> pi_state new
                          then [Msg ''Status changed to {:?}.'' []] else []);
          node = (if ds_node old \<noteq> pi_node new then Some (ds_node old, pi_node new) else None);
          node_texts = (if ds_node old \<noteq> pi_node new
                        then [Msg ''Advanced from node {} to {}.'' [AStr (ds_node old), AStr (pi_node new)]]
                        else []);
          (vd, var_texts) = variable_difference (ds_vars old) (pi_vars new);
          texts = status_texts @ node_texts @ var_texts
      in \<lparr> hd_variables =
             (if vd_added vd \<noteq> [] \<or> vd_removed vd \<noteq> [] \<or> vd_changed vd \<noteq> [] then Some vd else None),
           hd_status = status, hd_current_node = node,
           hd_human_readable = (if texts \<noteq> [] then Some (Msg ''join'' (map AMsg texts)) else None) \<rparr>)"

definition calculate_diff :: "process_instance \<Rightarrow> process_instance \<Rightarrow> history_diff" where
  "calculate_diff old new = calculate_diff_from_snapshot (snapshot_of old) new"

section \<open>Facts about differences\<close>

lemma boundary_below_le: "boundary_below s n \<le> n"
  by (induction s n rule: boundary_below.induct) auto

lemma boundary_below_is_boundary: "is_char_boundary s (boundary_below s n)"
  by (induction s n rule: boundary_below.induct) (auto simp: is_char_boundary_def)

lemma tput_not_Nil [simp]: "tput k v t \<noteq> []"
  by (cases t) (auto simp: tput_def)

text \<open>Whether the loops recorded anything.\<close>

definition recorded :: "variable_diff \<times> msg list \<Rightarrow> bool" where
  "recorded acc \<longleftrightarrow>
     vd_added (fst acc) \<noteq> [] \<or> vd_removed (fst acc) \<noteq> [] \<or> vd_changed (fst acc) \<noteq> [] \<or> snd acc \<noteq> []"

lemma recorded_fold_old:
  "recorded (fold (old_vars_step new) old acc) \<longleftrightarrow>
     recorded acc \<or> (\<exists>kv \<in> set old. tget new (fst kv) \<noteq> Some (snd kv))"
  by (induction old arbitrary: acc)
     (auto simp: old_vars_step_def recorded_def split: option.splits)

lemma recorded_fold_new:
  "recorded (fold (new_vars_step old) new acc) \<longleftrightarrow>
     recorded acc \<or> (\<exists>kv \<in> set new. tget old (fst kv) = None)"
  by (induction new arbitrary: acc) (auto simp: new_vars_step_def recorded_def)

lemma same_variables_iff:
  assumes "wf_table old" and "wf_table new"
  shows "tget old = tget new \<longleftrightarrow>
    (\<forall>kv \<in> set old. tget new (fst kv) = Some (snd kv)) \<and> (\<forall>kv \<in> set new. tget old (fst kv) \<noteq> None)"
proof
  assume "tget old = tget new"
  then show "(\<forall>kv \<in> set old. tget new (fst kv) = Some (snd kv)) \<and>
      (\<forall>kv \<in> set new. tget old (fst kv) \<noteq> None)"
    using assms by (auto simp: tget_Some_iff [symmetric])
next
  assume a: "(\<forall>kv \<in> set old. tget new (fst kv) = Some (snd kv)) \<and>
      (\<forall>kv \<in> set new. tget old (fst kv) \<noteq> None)"
  show "tget old = tget new"
  proof
    fix k
    show "tget old k = tget new k"
    proof (cases "tget old k")
      case (Some v)
      then have "(k, v) \<in> set old" by (rule tget_SomeD)
      then show ?thesis using a Some by force
    next
      case None
      then have "k \<notin> fst ` set new" using a by force
      then show ?thesis using None by (simp add: tget_None_iff [symmetric])
    qed
  qed
qed

section \<open>Properties\<close>

lemma diff_texts_empty:
  "diff_is_empty (calculate_diff_from_snapshot s x) \<longleftrightarrow>
     ds_state s = pi_state x \<and> ds_node s = pi_node x \<and>
     \<not> recorded (variable_difference (ds_vars s) (pi_vars x))"
  by (auto simp: diff_is_empty_def calculate_diff_from_snapshot_def recorded_def Let_def
      split: prod.splits)

lemma recorded_difference:
  "recorded (variable_difference old new) \<longleftrightarrow>
     (\<exists>kv \<in> set old. tget new (fst kv) \<noteq> Some (snd kv)) \<or> (\<exists>kv \<in> set new. tget old (fst kv) = None)"
  unfolding variable_difference_def recorded_fold_new recorded_fold_old
  by (simp add: recorded_def)

text \<open>
  C8. A difference is empty exactly when the state, the current node and every variable are
  unchanged: the history neither misses a change nor reports one that did not happen.
\<close>

theorem diff_empty_iff_unchanged:
  assumes "wf_table (ds_vars s)" and "wf_table (pi_vars x)"
  shows "diff_is_empty (calculate_diff_from_snapshot s x) \<longleftrightarrow>
    ds_state s = pi_state x \<and> ds_node s = pi_node x \<and> tget (ds_vars s) = tget (pi_vars x)"
  unfolding diff_texts_empty recorded_difference same_variables_iff [OF assms]
  by (auto simp: Bex_def Ball_def)

definition blank_instance :: process_instance where
  "blank_instance =
     \<lparr> pi_id = 1, pi_definition_key = 7, pi_business_key = [], pi_parent = None, pi_state = Running,
       pi_node = ''a'', pi_audit = [], pi_vars = [], pi_tokens = [], pi_active = [], pi_barriers = [],
       pi_mi = [], pi_comp_log = [], pi_started_at = None, pi_completed_at = None \<rparr>"

theorem diff_empty_iff_unchanged_witness:
  "\<not> diff_is_empty (calculate_diff_from_snapshot (snapshot_of blank_instance)
        (blank_instance\<lparr>pi_vars := [(''x'', JBool True)]\<rparr>))"
proof -
  have "wf_table (ds_vars (snapshot_of blank_instance))"
    and "wf_table (pi_vars (blank_instance\<lparr>pi_vars := [(''x'', JBool True)]\<rparr>))"
    by (simp_all add: snapshot_of_def blank_instance_def wf_table_def)
  from diff_empty_iff_unchanged [OF this] show ?thesis
    by (auto simp: snapshot_of_def blank_instance_def fun_eq_iff tget_Cons)
qed

lemma char_count_append: "char_count (a @ b) = char_count a + char_count b"
  by (simp add: char_count_def)

text \<open>
  C9. A long text is cut at a character boundary at most 1024 bytes in, so the slice never splits
  a UTF-8 character, and the count of characters left out is exact.
\<close>

theorem truncation_keeps_characters:
  "\<exists>cut \<le> 1024. is_char_boundary s cut \<and>
     truncate_value_for_diff (JStr s) =
       (if length s > 1024
        then JStr (take cut s @ ''... <truncated '' @ show_nat (char_count (drop cut s)) @ '' chars>'')
        else JStr s)"
proof (intro exI conjI)
  let ?cut = "boundary_below s 1024"
  show "?cut \<le> 1024" by (rule boundary_below_le)
  show "is_char_boundary s ?cut" by (rule boundary_below_is_boundary)
  have "char_count s = char_count (take ?cut s) + char_count (drop ?cut s)"
    by (metis append_take_drop_id char_count_append)
  then show "truncate_value_for_diff (JStr s) =
       (if length s > 1024
        then JStr (take ?cut s @ ''... <truncated '' @ show_nat (char_count (drop ?cut s)) @ '' chars>'')
        else JStr s)"
    by (simp add: truncate_value_for_diff_def Let_def del: boundary_below.simps)
qed

end
