(* ===== verification/Persistence.thy ===== *)
theory Persistence
  imports History
begin

text \<open>
  The persistence port (\<open>engine-core/src/port/persistence.rs\<close>), the calls of its trait that change
  the stored data, its in-memory implementation (\<open>persistence-memory/src/lib.rs\<close>), and the laws
  the engine relies on, as a locale interpreted by that implementation.
\<close>

section \<open>The trait\<close>

record completed_query =
  cq_definition_key :: "uuid option"
  cq_business_key :: "string option"
  cq_from :: "time option"
  cq_to :: "time option"
  cq_state_filter :: "string option"
  cq_limit :: "nat option"
  cq_offset :: "nat option"

record history_query =
  hq_instance_id :: uuid
  hq_event_types :: "history_event list option"
  hq_node_id :: "string option"
  hq_actor_type :: "actor_type option"
  hq_from :: "time option"
  hq_to :: "time option"
  hq_limit :: "nat option"
  hq_offset :: "nat option"

text \<open>One constructor per method that returns \<open>EngineResult<()>\<close>.\<close>

datatype pcall =
    SaveToken uuid token
  | DeleteToken uuid uuid
  | SaveInstance process_instance
  | DeleteInstance string
  | SaveDefinition process_definition
  | DeleteDefinition string
  | SaveUserTask user_task
  | DeleteUserTask uuid
  | SaveServiceTask service_task
  | DeleteServiceTask uuid
  | SaveTimer pending_timer
  | DeleteTimer uuid
  | SaveMessageCatch message_catch
  | DeleteMessageCatch uuid
  | SaveFile string "nat list"
  | DeleteFile string
  | SaveBpmnXml string string
  | AppendHistoryEntry history_entry
  | SaveCompletedInstance process_instance

text \<open>A call leaves the store changed and returns \<open>None\<close>, or fails with an error.\<close>

type_synonym 'p backend = "pcall \<Rightarrow> 'p \<Rightarrow> 'p \<times> engine_error option"

section \<open>The in-memory store\<close>

record memory =
  me_tokens :: "(string, token list) table"
  me_instances :: "(uuid, process_instance) table"
  me_definitions :: "(uuid, process_definition) table"
  me_user_tasks :: "(uuid, user_task) table"
  me_service_tasks :: "(uuid, service_task) table"
  me_timers :: "(uuid, pending_timer) table"
  me_messages :: "(uuid, message_catch) table"
  me_files :: "(string, nat list) table"
  me_xmls :: "(string, string) table"
  me_history :: "(uuid, history_entry list) table"
  me_completed :: "(uuid, process_instance) table"

definition memory_new :: memory where
  "memory_new =
     \<lparr> me_tokens = [], me_instances = [], me_definitions = [], me_user_tasks = [],
       me_service_tasks = [], me_timers = [], me_messages = [], me_files = [], me_xmls = [],
       me_history = [], me_completed = [] \<rparr>"

definition token_key :: "'z env_scheme \<Rightarrow> uuid \<Rightarrow> uuid \<Rightarrow> string" where
  "token_key ev i t = ''token-'' @ env_uuid_str ev i @ ''-'' @ env_uuid_str ev t"

definition delete_parsed :: "'z env_scheme \<Rightarrow> string \<Rightarrow> (uuid, 'v) table \<Rightarrow> (uuid, 'v) table" where
  "delete_parsed ev s t = (case env_uuid_parse ev s of None \<Rightarrow> t | Some u \<Rightarrow> tdel u t)"

fun memory_step :: "'z env_scheme \<Rightarrow> pcall \<Rightarrow> memory \<Rightarrow> memory" where
  "memory_step ev (SaveToken i t) m = m\<lparr>me_tokens := tput (token_key ev i (tk_id t)) [t] (me_tokens m)\<rparr>"
| "memory_step ev (DeleteToken i t) m = m\<lparr>me_tokens := tdel (token_key ev i t) (me_tokens m)\<rparr>"
| "memory_step ev (SaveInstance x) m = m\<lparr>me_instances := tput (pi_id x) x (me_instances m)\<rparr>"
| "memory_step ev (DeleteInstance s) m = m\<lparr>me_instances := delete_parsed ev s (me_instances m)\<rparr>"
| "memory_step ev (SaveDefinition d) m = m\<lparr>me_definitions := tput (pd_key d) d (me_definitions m)\<rparr>"
| "memory_step ev (DeleteDefinition s) m = m\<lparr>me_definitions := delete_parsed ev s (me_definitions m)\<rparr>"
| "memory_step ev (SaveUserTask t) m = m\<lparr>me_user_tasks := tput (ut_task_id t) t (me_user_tasks m)\<rparr>"
| "memory_step ev (DeleteUserTask u) m = m\<lparr>me_user_tasks := tdel u (me_user_tasks m)\<rparr>"
| "memory_step ev (SaveServiceTask t) m = m\<lparr>me_service_tasks := tput (st_id t) t (me_service_tasks m)\<rparr>"
| "memory_step ev (DeleteServiceTask u) m = m\<lparr>me_service_tasks := tdel u (me_service_tasks m)\<rparr>"
| "memory_step ev (SaveTimer t) m = m\<lparr>me_timers := tput (tm_id t) t (me_timers m)\<rparr>"
| "memory_step ev (DeleteTimer u) m = m\<lparr>me_timers := tdel u (me_timers m)\<rparr>"
| "memory_step ev (SaveMessageCatch c) m = m\<lparr>me_messages := tput (mc_id c) c (me_messages m)\<rparr>"
| "memory_step ev (DeleteMessageCatch u) m = m\<lparr>me_messages := tdel u (me_messages m)\<rparr>"
| "memory_step ev (SaveFile k bs) m = m\<lparr>me_files := tput k bs (me_files m)\<rparr>"
| "memory_step ev (DeleteFile k) m = m\<lparr>me_files := tdel k (me_files m)\<rparr>"
| "memory_step ev (SaveBpmnXml k x) m = m\<lparr>me_xmls := tput k x (me_xmls m)\<rparr>"
| "memory_step ev (AppendHistoryEntry e) m = m\<lparr>me_history := tpush (he_instance_id e) e (me_history m)\<rparr>"
| "memory_step ev (SaveCompletedInstance x) m = m\<lparr>me_completed := tput (pi_id x) x (me_completed m)\<rparr>"

definition memory_call :: "'z env_scheme \<Rightarrow> memory backend" where
  "memory_call ev c m = (memory_step ev c m, None)"

subsection \<open>Queries\<close>

definition load_tokens :: "'z env_scheme \<Rightarrow> uuid \<Rightarrow> memory \<Rightarrow> token list" where
  "load_tokens ev i m =
     concat (tvals (filter (\<lambda>kv. starts_with (fst kv) (''token-'' @ env_uuid_str ev i @ ''-''))
                     (me_tokens m)))"

definition list_instances :: "memory \<Rightarrow> process_instance list" where
  "list_instances m = tvals (me_instances m)"

definition list_definitions :: "memory \<Rightarrow> process_definition list" where
  "list_definitions m = tvals (me_definitions m)"

definition list_user_tasks :: "memory \<Rightarrow> user_task list" where
  "list_user_tasks m = tvals (me_user_tasks m)"

definition list_service_tasks :: "memory \<Rightarrow> service_task list" where
  "list_service_tasks m = tvals (me_service_tasks m)"

definition list_timers :: "memory \<Rightarrow> pending_timer list" where
  "list_timers m = tvals (me_timers m)"

definition list_message_catches :: "memory \<Rightarrow> message_catch list" where
  "list_message_catches m = tvals (me_messages m)"

definition load_file :: "string \<Rightarrow> memory \<Rightarrow> (engine_error, nat list) outcome" where
  "load_file k m = ok_or (PersistenceError (Msg ''File not found'' [])) (tget (me_files m) k)"

definition load_bpmn_xml ::
  "'z env_scheme \<Rightarrow> string \<Rightarrow> memory \<Rightarrow> (engine_error, string) outcome" where
  "load_bpmn_xml ev k m =
     ok_or (NoSuchDefinition (case env_uuid_parse ev k of None \<Rightarrow> uuid_nil | Some u \<Rightarrow> u))
       (tget (me_xmls m) k)"

definition list_bpmn_xml_ids :: "memory \<Rightarrow> string list" where
  "list_bpmn_xml_ids m = tkeys (me_xmls m)"

text \<open>\<open>skip(offset)\<close> and \<open>truncate(limit)\<close>, each only when given.\<close>

definition paginate :: "nat option \<Rightarrow> nat option \<Rightarrow> 'a list \<Rightarrow> 'a list" where
  "paginate offset limit xs =
     (let ys = (case offset of None \<Rightarrow> xs | Some n \<Rightarrow> drop n xs)
      in case limit of None \<Rightarrow> ys | Some n \<Rightarrow> take n ys)"

definition retain_opt :: "'q option \<Rightarrow> ('q \<Rightarrow> 'a \<Rightarrow> bool) \<Rightarrow> 'a list \<Rightarrow> 'a list" where
  "retain_opt q p xs = (case q of None \<Rightarrow> xs | Some v \<Rightarrow> filter (p v) xs)"

definition history_matches :: "history_query \<Rightarrow> history_entry list \<Rightarrow> history_entry list" where
  "history_matches q es =
     retain_opt (hq_to q) (\<lambda>t e. he_timestamp e \<le> t)
       (retain_opt (hq_from q) (\<lambda>f e. f \<le> he_timestamp e)
         (retain_opt (hq_actor_type q) (\<lambda>a e. he_actor_type e = a)
           (retain_opt (hq_node_id q) (\<lambda>n e. he_node_id e = Some n)
             (retain_opt (hq_event_types q) (\<lambda>ts e. he_event_type e \<in> set ts) es))))"

definition query_history :: "history_query \<Rightarrow> memory \<Rightarrow> history_entry list" where
  "query_history q m =
     (let es = (case tget (me_history m) (hq_instance_id q) of None \<Rightarrow> [] | Some es \<Rightarrow> es)
      in paginate (hq_offset q) (hq_limit q) (sort_key he_timestamp (history_matches q es)))"

definition opt_all :: "'a option \<Rightarrow> ('a \<Rightarrow> bool) \<Rightarrow> bool" where
  "opt_all x p = (case x of None \<Rightarrow> True | Some v \<Rightarrow> p v)"

definition completed_matches :: "completed_query \<Rightarrow> process_instance \<Rightarrow> bool" where
  "completed_matches q inst \<longleftrightarrow>
     opt_all (cq_definition_key q) (\<lambda>dk. pi_definition_key inst = dk) \<and>
     opt_all (cq_business_key q) (\<lambda>bk. contains_str (pi_business_key inst) bk) \<and>
     opt_all (cq_from q) (\<lambda>f. opt_all (pi_completed_at inst) (\<lambda>c. \<not> c < f)) \<and>
     opt_all (cq_to q) (\<lambda>t. opt_all (pi_completed_at inst) (\<lambda>c. \<not> c > t)) \<and>
     (if cq_state_filter q = Some ''completed'' then pi_state inst = Completed
      else if cq_state_filter q = Some ''error'' then
        (case pi_state inst of CompletedWithError c \<Rightarrow> True | _ \<Rightarrow> False)
      else True)"

text \<open>
  Descending order of \<open>completed_at\<close>, with \<open>None\<close> below every instant: a stable insertion sort,
  which gives the same list as any stable sort.
\<close>

fun opt_time_le :: "time option \<Rightarrow> time option \<Rightarrow> bool" where
  "opt_time_le None y = True"
| "opt_time_le (Some a) None = False"
| "opt_time_le (Some a) (Some b) = (a \<le> b)"

fun insert_latest :: "process_instance \<Rightarrow> process_instance list \<Rightarrow> process_instance list" where
  "insert_latest x [] = [x]"
| "insert_latest x (y # ys) =
     (if opt_time_le (pi_completed_at y) (pi_completed_at x) then x # y # ys
      else y # insert_latest x ys)"

definition sort_latest :: "process_instance list \<Rightarrow> process_instance list" where
  "sort_latest xs = foldr insert_latest xs []"

definition query_completed_instances :: "completed_query \<Rightarrow> memory \<Rightarrow> process_instance list" where
  "query_completed_instances q m =
     paginate (cq_offset q) (cq_limit q)
       (sort_latest (filter (completed_matches q) (tvals (me_completed m))))"

definition get_completed_instance ::
  "'z env_scheme \<Rightarrow> string \<Rightarrow> memory \<Rightarrow> (engine_error, process_instance option) outcome" where
  "get_completed_instance ev s m =
     (case env_uuid_parse ev s of
        None \<Rightarrow> Err (PersistenceError (Msg ''invalid UUID'' []))
      | Some u \<Rightarrow> Ok (tget (me_completed m) u))"

section \<open>Facts about the queries\<close>

lemma paginate_subset: "set (paginate off lmt xs) \<subseteq> set xs"
  by (auto simp: paginate_def Let_def split: option.splits dest: in_set_dropD in_set_takeD)

lemma paginate_length:
  "length (paginate off lmt xs) =
     (let n = length xs - (case off of None \<Rightarrow> 0 | Some k \<Rightarrow> k)
      in case lmt of None \<Rightarrow> n | Some k \<Rightarrow> min n k)"
  by (auto simp: paginate_def Let_def split: option.splits)

lemma mset_insert_latest [simp]: "set (insert_latest x ys) = insert x (set ys)"
  by (induction ys) auto

lemma opt_time_le_total: "opt_time_le a b \<or> opt_time_le b a"
  by (cases a; cases b) auto

lemma opt_time_le_trans: "opt_time_le a b \<Longrightarrow> opt_time_le b c \<Longrightarrow> opt_time_le a c"
  by (cases a; cases b; cases c) auto

definition latest_first :: "process_instance list \<Rightarrow> bool" where
  "latest_first xs \<longleftrightarrow> sorted_wrt (\<lambda>x y. opt_time_le (pi_completed_at y) (pi_completed_at x)) xs"

lemma latest_first_insert: "latest_first ys \<Longrightarrow> latest_first (insert_latest x ys)"
proof (induction ys)
  case Nil
  then show ?case by (simp add: latest_first_def)
next
  case (Cons y ys)
  then have IH: "latest_first (insert_latest x ys)"
    and y: "\<forall>z \<in> set ys. opt_time_le (pi_completed_at z) (pi_completed_at y)"
    by (simp_all add: latest_first_def)
  show ?case
  proof (cases "opt_time_le (pi_completed_at y) (pi_completed_at x)")
    case True
    with y Cons.prems show ?thesis
      by (auto simp: latest_first_def intro: opt_time_le_trans)
  next
    case False
    with opt_time_le_total have "opt_time_le (pi_completed_at x) (pi_completed_at y)" by blast
    with False y IH show ?thesis by (simp add: latest_first_def)
  qed
qed

lemma latest_first_sort: "latest_first (sort_latest xs)"
  by (induction xs) (simp_all add: sort_latest_def latest_first_insert latest_first_def [of "[]"])

lemma set_sort_latest [simp]: "set (sort_latest xs) = set xs"
  by (induction xs) (simp_all add: sort_latest_def)

section \<open>Retried calls\<close>

text \<open>
  The loop of the macro \<open>inline_retry\<close> (\<open>engine/persistence_ops.rs\<close>): one call and up to \<open>n\<close>
  further attempts while it fails. The pauses between attempts change no state.
\<close>

definition INLINE_RETRIES :: nat where
  "INLINE_RETRIES = 2"

definition INLINE_BACKOFF_MS :: nat where
  "INLINE_BACKOFF_MS = 50"

fun retry_call :: "nat \<Rightarrow> 'p backend \<Rightarrow> pcall \<Rightarrow> 'p \<Rightarrow> 'p \<times> engine_error option" where
  "retry_call n call c p =
     (case call c p of
        (p', None) \<Rightarrow> (p', None)
      | (p', Some er) \<Rightarrow>
          (case n of 0 \<Rightarrow> (p', Some er) | Suc m \<Rightarrow> retry_call m call c p'))"

declare retry_call.simps [simp del]

section \<open>The interface of a kind of stored entity\<close>

text \<open>
  What the engine relies on for each kind of pending work: a successful save is seen by a lookup
  of its key, a successful delete removes the entry, and a call for one key, failed or not,
  leaves the other keys alone.
\<close>

locale entity_store =
  fixes call :: "'p backend"
    and save :: "'v \<Rightarrow> pcall"
    and delete :: "uuid \<Rightarrow> pcall"
    and stored :: "'p \<Rightarrow> uuid \<Rightarrow> 'v option"
    and key :: "'v \<Rightarrow> uuid"
  assumes save_stored: "call (save v) p = (p', None) \<Longrightarrow> stored p' (key v) = Some v"
    and save_other: "u \<noteq> key v \<Longrightarrow> call (save v) p = (p', r) \<Longrightarrow> stored p' u = stored p u"
    and delete_stored: "call (delete k) p = (p', None) \<Longrightarrow> stored p' k = None"
    and delete_other: "u \<noteq> k \<Longrightarrow> call (delete k) p = (p', r) \<Longrightarrow> stored p' u = stored p u"
begin

lemma retry_save_stored: "retry_call n call (save v) p = (p', None) \<Longrightarrow> stored p' (key v) = Some v"
proof (induction n arbitrary: p)
  case 0
  then show ?case
    by (auto simp: retry_call.simps [of 0] split: prod.splits option.splits dest: save_stored)
next
  case (Suc n)
  then show ?case
    by (auto simp: retry_call.simps [of "Suc n"] split: prod.splits option.splits dest: save_stored)
qed

lemma retry_save_other:
  "u \<noteq> key v \<Longrightarrow> retry_call n call (save v) p = (p', r) \<Longrightarrow> stored p' u = stored p u"
proof (induction n arbitrary: p)
  case 0
  then show ?case
    by (auto simp: retry_call.simps [of 0] split: prod.splits option.splits dest: save_other)
next
  case (Suc n)
  then show ?case
    by (fastforce simp: retry_call.simps [of "Suc n"] split: prod.splits option.splits dest: save_other)
qed

lemma retry_delete_stored: "retry_call n call (delete k) p = (p', None) \<Longrightarrow> stored p' k = None"
proof (induction n arbitrary: p)
  case 0
  then show ?case
    by (auto simp: retry_call.simps [of 0] split: prod.splits option.splits dest: delete_stored)
next
  case (Suc n)
  then show ?case
    by (auto simp: retry_call.simps [of "Suc n"] split: prod.splits option.splits dest: delete_stored)
qed

end

interpretation mem_user:
  entity_store "memory_call ev" SaveUserTask DeleteUserTask "\<lambda>m. tget (me_user_tasks m)" ut_task_id
  for ev :: "'z env_scheme"
  by unfold_locales (auto simp: memory_call_def)

interpretation mem_service:
  entity_store "memory_call ev" SaveServiceTask DeleteServiceTask "\<lambda>m. tget (me_service_tasks m)" st_id
  for ev :: "'z env_scheme"
  by unfold_locales (auto simp: memory_call_def)

interpretation mem_timer:
  entity_store "memory_call ev" SaveTimer DeleteTimer "\<lambda>m. tget (me_timers m)" tm_id
  for ev :: "'z env_scheme"
  by unfold_locales (auto simp: memory_call_def)

interpretation mem_message:
  entity_store "memory_call ev" SaveMessageCatch DeleteMessageCatch "\<lambda>m. tget (me_messages m)" mc_id
  for ev :: "'z env_scheme"
  by unfold_locales (auto simp: memory_call_def)

text \<open>A call that never fails is made once.\<close>

lemma retry_memory [simp]: "retry_call n (memory_call ev) c m = (memory_step ev c m, None)"
  by (simp add: retry_call.simps memory_call_def)

section \<open>Properties\<close>

lemma latest_first_drop: "latest_first xs \<Longrightarrow> latest_first (drop n xs)"
  by (simp add: latest_first_def sorted_wrt_drop)

lemma latest_first_take: "latest_first xs \<Longrightarrow> latest_first (take n xs)"
  by (simp add: latest_first_def sorted_wrt_take)

lemma latest_first_paginate: "latest_first xs \<Longrightarrow> latest_first (paginate off lmt xs)"
  by (auto simp: paginate_def Let_def split: option.splits intro: latest_first_drop latest_first_take)

text \<open>
  A query of the archive returns archived instances that meet every filter, the latest
  completion first, and never more than the limit asked for.
\<close>

theorem completed_query_sound:
  "set (query_completed_instances q m) \<subseteq> {x \<in> set (tvals (me_completed m)). completed_matches q x} \<and>
   latest_first (query_completed_instances q m) \<and>
   length (query_completed_instances q m) \<le>
     (case cq_limit q of None \<Rightarrow> length (me_completed m) | Some n \<Rightarrow> n)"
proof (intro conjI)
  show "set (query_completed_instances q m) \<subseteq> {x \<in> set (tvals (me_completed m)). completed_matches q x}"
    using paginate_subset by (fastforce simp: query_completed_instances_def)
  show "latest_first (query_completed_instances q m)"
    unfolding query_completed_instances_def by (rule latest_first_paginate) (rule latest_first_sort)
  have i: "length (insert_latest x ys) = Suc (length ys)" for x ys by (induction ys) auto
  have "length (sort_latest xs) = length xs" for xs
    by (induction xs) (simp_all add: sort_latest_def i)
  then have "length (sort_latest (filter (completed_matches q) (tvals (me_completed m)))) \<le> length (me_completed m)"
    using length_filter_le [of "completed_matches q" "tvals (me_completed m)"] by (simp add: tvals_def)
  then show "length (query_completed_instances q m) \<le>
      (case cq_limit q of None \<Rightarrow> length (me_completed m) | Some n \<Rightarrow> n)"
    by (auto simp: query_completed_instances_def paginate_length Let_def split: option.splits)
qed

end
