(* ===== verification/Scripting.thy ===== *)
theory Scripting
  imports Runtime
begin

text \<open>
  Script execution (\<open>engine-core/src/scripting/runner.rs\<close>): the limits and their overrides from
  the process environment, one script evaluation, and the start and end listeners of a node. What
  Rhai computes is the parameter \<open>env_rhai\<close>.
\<close>

section \<open>Limits\<close>

definition default_config :: script_config where
  "default_config = \<lparr> sc_max_operations = 50000, sc_max_memory = 2 * 1024 * 1024, sc_timeout_ms = 1000 \<rparr>"

definition override :: "(string \<Rightarrow> string option) \<Rightarrow> string \<Rightarrow> nat \<Rightarrow> nat" where
  "override getenv name dflt =
     (case getenv name of
        None \<Rightarrow> dflt
      | Some v \<Rightarrow> (case parse_unsigned 64 v of None \<Rightarrow> dflt | Some n \<Rightarrow> n))"

definition config_from_env :: "(string \<Rightarrow> string option) \<Rightarrow> script_config" where
  "config_from_env getenv =
     \<lparr> sc_max_operations = override getenv ''RHAI_MAX_OPERATIONS'' (sc_max_operations default_config),
       sc_max_memory = override getenv ''RHAI_MAX_MEMORY_BYTES'' (sc_max_memory default_config),
       sc_timeout_ms = override getenv ''RHAI_TIMEOUT_MS'' (sc_timeout_ms default_config) \<rparr>"

text \<open>
  What \<open>build_engine\<close> sets on a Rhai engine. The limit of the memory and the timeout are not among it: the timeout is
  the caller's, the memory is not limited.
\<close>

record rhai_limits =
  rl_operations :: nat
  rl_string_size :: nat
  rl_array_size :: nat
  rl_map_size :: nat
  rl_expr_depths :: "(nat \<times> nat) option"

definition build_engine :: "script_config \<Rightarrow> rhai_limits" where
  "build_engine cfg =
     \<lparr> rl_operations = sc_max_operations cfg, rl_string_size = 64 * 1024, rl_array_size = 10000,
       rl_map_size = 10000, rl_expr_depths = None \<rparr>"

lemma memory_limit_is_ignored: "build_engine (cfg\<lparr>sc_max_memory := n\<rparr>) = build_engine cfg"
  by (simp add: build_engine_def)

section \<open>One evaluation\<close>

fun merge_scope :: "vars \<Rightarrow> (string \<times> json option) list \<Rightarrow> vars" where
  "merge_scope acc [] = acc"
| "merge_scope acc ((k, Some v) # rest) = merge_scope (tput k v acc) rest"
| "merge_scope acc ((k, None) # rest) = merge_scope acc rest"

definition execute_script_safe ::
  "'z env_scheme \<Rightarrow> script_config \<Rightarrow> string \<Rightarrow> vars \<Rightarrow> (engine_error, vars) outcome" where
  "execute_script_safe ev cfg script variables =
     (case env_rhai ev cfg script variables of
        ScriptScope scope \<Rightarrow> Ok (merge_scope variables scope)
      | ScriptFailed e \<Rightarrow> Err (ScriptError (Msg ''{}'' [AStr e]))
      | ScriptPanicked e \<Rightarrow> Err (ScriptError (Msg ''Script thread panicked: {}'' [AStr e]))
      | ScriptTimedOut \<Rightarrow>
          Err (ScriptError (Msg ''Script execution timed out after {}ms'' [ANat (sc_timeout_ms cfg)])))"

section \<open>Listeners\<close>

definition listener_name :: "listener_event \<Rightarrow> string" where
  "listener_name le = (case le of LStart \<Rightarrow> ''start'' | LEnd \<Rightarrow> ''end'')"

fun wrap_script_error :: "string \<Rightarrow> listener_event \<Rightarrow> engine_error \<Rightarrow> engine_error" where
  "wrap_script_error n le (ScriptError m) =
     ScriptError (Msg ''Knoten {} ({}-Listener): {}'' [AStr n, AStr (listener_name le), AMsg m])"
| "wrap_script_error n le er = er"

text \<open>The state is the token and the audit list, both changed in place.\<close>

fun run_listeners ::
  "'z env_scheme \<Rightarrow> script_config \<Rightarrow> string \<Rightarrow> listener_event \<Rightarrow> exec_listener list
     \<Rightarrow> token \<times> msg list \<Rightarrow> (token \<times> msg list) \<times> (engine_error, unit) outcome" where
  "run_listeners ev cfg n le [] s = (s, Ok ())"
| "run_listeners ev cfg n le (l # ls) (tok, audit) =
     (if el_event l = le then
        (case execute_script_safe ev cfg (el_script l) (tk_vars tok) of
           Ok vs \<Rightarrow>
             run_listeners ev cfg n le ls
               (tok\<lparr>tk_vars := vs\<rparr>,
                audit @ [Msg ''Executed {} script on {}'' [AStr (listener_name le), AStr n]])
         | Err er \<Rightarrow> ((tok, audit), Err (wrap_script_error n le er))
         | Diverged \<Rightarrow> ((tok, audit), Diverged))
      else run_listeners ev cfg n le ls (tok, audit))"

definition run_node_scripts ::
  "'z env_scheme \<Rightarrow> script_config \<Rightarrow> process_definition \<Rightarrow> string \<Rightarrow> listener_event
     \<Rightarrow> token \<times> msg list \<Rightarrow> (token \<times> msg list) \<times> (engine_error, unit) outcome" where
  "run_node_scripts ev cfg def n le s =
     (case tget (pd_listeners def) n of
        None \<Rightarrow> (s, Ok ())
      | Some ls \<Rightarrow> run_listeners ev cfg n le ls s)"

text \<open>
  \<open>run_end_scripts\<close> on the instance's audit list and variables: on an error the token may already
  be changed by earlier scripts, the audit list and the variables are not.
\<close>

definition run_end_scripts ::
  "'z env_scheme \<Rightarrow> script_config \<Rightarrow> process_definition \<Rightarrow> string \<Rightarrow> token \<times> msg list \<times> vars
     \<Rightarrow> (token \<times> msg list \<times> vars) \<times> (engine_error, unit) outcome" where
  "run_end_scripts ev cfg def n s =
     (case s of (tok, audit, variables) \<Rightarrow>
        (case run_node_scripts ev cfg def n LEnd (tok, []) of
           ((tok', end_audits), Ok u) \<Rightarrow> ((tok', audit @ end_audits, tk_vars tok'), Ok ())
         | ((tok', end_audits), Err er) \<Rightarrow> ((tok', audit, variables), Err er)
         | ((tok', end_audits), Diverged) \<Rightarrow> ((tok', audit, variables), Diverged)))"

section \<open>Facts\<close>

lemma execute_script_safe_not_Diverged [simp]: "execute_script_safe ev cfg sc vs \<noteq> Diverged"
  by (auto simp: execute_script_safe_def split: script_outcome.splits)

lemma run_listeners_not_Diverged [simp]: "snd (run_listeners ev cfg n le ls s) \<noteq> Diverged"
  by (induction ev cfg n le ls s rule: run_listeners.induct) (auto split: outcome.splits)

lemma run_node_scripts_not_Diverged [simp]: "snd (run_node_scripts ev cfg def n le s) \<noteq> Diverged"
  by (auto simp: run_node_scripts_def split: option.splits)

lemma run_listeners_id:
  "tk_id (fst (fst (run_listeners ev cfg n le ls s))) = tk_id (fst s) \<and>
   tk_node (fst (fst (run_listeners ev cfg n le ls s))) = tk_node (fst s) \<and>
   tk_merged (fst (fst (run_listeners ev cfg n le ls s))) = tk_merged (fst s)"
  by (induction ev cfg n le ls s rule: run_listeners.induct) (auto split: outcome.splits)

text \<open>A listener changes the variables of the token and nothing else of it.\<close>

lemma run_node_scripts_token [simp]:
  "tk_id (fst (fst (run_node_scripts ev cfg def n le s))) = tk_id (fst s)"
  "tk_node (fst (fst (run_node_scripts ev cfg def n le s))) = tk_node (fst s)"
  "tk_merged (fst (fst (run_node_scripts ev cfg def n le s))) = tk_merged (fst s)"
  using run_listeners_id [of ev cfg n le _ s] by (auto simp: run_node_scripts_def split: option.splits)

lemma run_node_scripts_token_eq:
  assumes "run_node_scripts ev cfg def n le s = ((tok, a), r)"
  shows "tk_id tok = tk_id (fst s)" "tk_node tok = tk_node (fst s)" "tk_merged tok = tk_merged (fst s)"
  using run_node_scripts_token [of ev cfg def n le s] assms by simp_all

end
