(* ===== verification/EngineState.thy ===== *)
theory EngineState
  imports Persistence Scripting
begin

text \<open>
  The state of the engine (\<open>WorkflowEngine\<close> in \<open>engine/mod.rs\<close>), the definition registry
  (\<open>engine/registry.rs\<close>), the instance store (\<open>engine/instance_store.rs\<close>), the persistence
  wrappers and history recording (\<open>engine/persistence_ops.rs\<close>), and the cancellation of wait
  states (\<open>engine/mod.rs\<close>). The invariant of the state stands at the end.
\<close>

section \<open>The state\<close>

datatype persist_job =
    JobSaveInstance uuid | JobSaveDefinition uuid | JobSaveUserTask uuid | JobDeleteUserTask uuid
  | JobSaveServiceTask uuid | JobDeleteServiceTask uuid | JobSaveTimer uuid | JobDeleteTimer uuid
  | JobSaveMessageCatch uuid | JobDeleteMessageCatch uuid | JobAppendHistoryEntry history_entry
  | JobShutdown

datatype engine_event = EvInstanceChanged | EvTaskChanged | EvDefinitionChanged

text \<open>
  The parameters of the engine: other crates (\<open>env\<close>), the calls and queries of the attached
  backend, and the JSON form and size of an instance.
\<close>

record 'p eenv = env +
  ee_persist :: "'p backend"
  ee_get_completed :: "string \<Rightarrow> 'p \<Rightarrow> (engine_error, process_instance option) outcome"
  ee_query_completed :: "completed_query \<Rightarrow> 'p \<Rightarrow> (engine_error, process_instance list) outcome"
  ee_ser_instance :: "process_instance \<Rightarrow> json option"
  ee_inst_bytes :: "process_instance \<Rightarrow> nat option"

text \<open>
  \<open>en_store\<close> is the attached backend's data, \<open>en_retry\<close> the queue of the background worker while
  its channel is open, \<open>en_events\<close> the events broadcast so far, \<open>en_now\<close> the clock and \<open>en_draws\<close>
  the number of UUIDs drawn.
\<close>

record 'p engine =
  en_defs :: "(uuid, process_definition) table"
  en_insts :: "(uuid, process_instance) table"
  en_user :: "(uuid, user_task) table"
  en_service :: "(uuid, service_task) table"
  en_timers :: "(uuid, pending_timer) table"
  en_messages :: "(uuid, message_catch) table"
  en_store :: "'p option"
  en_perr :: nat
  en_retry :: "persist_job list option"
  en_script :: script_config
  en_events :: "engine_event list"
  en_now :: time
  en_draws :: nat

definition engine_new :: "(string \<Rightarrow> string option) \<Rightarrow> time \<Rightarrow> nat \<Rightarrow> 'p engine" where
  "engine_new getenv now draws =
     \<lparr> en_defs = [], en_insts = [], en_user = [], en_service = [], en_timers = [], en_messages = [],
       en_store = None, en_perr = 0, en_retry = None, en_script = config_from_env getenv,
       en_events = [], en_now = now, en_draws = draws \<rparr>"

definition with_persistence :: "'p \<Rightarrow> 'p engine \<Rightarrow> 'p engine" where
  "with_persistence p e = e\<lparr>en_store := Some p, en_retry := Some []\<rparr>"

definition emit_event :: "engine_event \<Rightarrow> 'p engine \<Rightarrow> 'p engine" where
  "emit_event ev e = e\<lparr>en_events := en_events e @ [ev]\<rparr>"

definition draw :: "'p eenv \<Rightarrow> 'p engine \<Rightarrow> uuid \<times> 'p engine" where
  "draw ev e = (env_uuid_v4 ev (en_draws e), e\<lparr>en_draws := Suc (en_draws e)\<rparr>)"

section \<open>The definition registry (registry.rs)\<close>

definition reg_insert :: "uuid \<Rightarrow> process_definition \<Rightarrow> 'p engine \<Rightarrow> 'p engine" where
  "reg_insert k d e = e\<lparr>en_defs := tput k d (en_defs e)\<rparr>"

definition reg_get :: "'p engine \<Rightarrow> uuid \<Rightarrow> process_definition option" where
  "reg_get e k = tget (en_defs e) k"

definition reg_remove :: "uuid \<Rightarrow> 'p engine \<Rightarrow> 'p engine" where
  "reg_remove k e = e\<lparr>en_defs := tdel k (en_defs e)\<rparr>"

definition reg_contains_key :: "'p engine \<Rightarrow> uuid \<Rightarrow> bool" where
  "reg_contains_key e k = thas (en_defs e) k"

definition reg_len :: "'p engine \<Rightarrow> nat" where
  "reg_len e = length (en_defs e)"

definition reg_list :: "'p engine \<Rightarrow> (uuid \<times> string \<times> int \<times> nat) list" where
  "reg_list e = map (\<lambda>(k, d). (k, pd_id d, pd_version d, length (pd_nodes d))) (en_defs e)"

definition find_by_bpmn_id :: "'p engine \<Rightarrow> string \<Rightarrow> (uuid \<times> process_definition) option" where
  "find_by_bpmn_id e i = find (\<lambda>kd. pd_id (snd kd) = i) (en_defs e)"

definition versions_of :: "'p engine \<Rightarrow> string \<Rightarrow> (uuid \<times> process_definition) list" where
  "versions_of e i = filter (\<lambda>kd. pd_id (snd kd) = i) (en_defs e)"

text \<open>\<open>Iterator::max_by_key\<close>: the last of the maximal elements.\<close>

fun max_by_key :: "('a \<Rightarrow> int) \<Rightarrow> 'a list \<Rightarrow> 'a option" where
  "max_by_key f [] = None"
| "max_by_key f (x # xs) =
     (case max_by_key f xs of None \<Rightarrow> Some x | Some y \<Rightarrow> if f x > f y then Some x else Some y)"

definition highest_version :: "'p engine \<Rightarrow> string \<Rightarrow> int option" where
  "highest_version e i = max_by_key id (map (\<lambda>kd. pd_version (snd kd)) (versions_of e i))"

definition find_latest_by_bpmn_id :: "'p engine \<Rightarrow> string \<Rightarrow> (uuid \<times> process_definition) option" where
  "find_latest_by_bpmn_id e i = max_by_key (\<lambda>kd. pd_version (snd kd)) (versions_of e i)"

definition all_versions_of :: "'p engine \<Rightarrow> string \<Rightarrow> (uuid \<times> process_definition) list" where
  "all_versions_of e i = sort_key (\<lambda>kd. pd_version (snd kd)) (versions_of e i)"

section \<open>The instance store (instance\_store.rs)\<close>

definition inst_get :: "'p engine \<Rightarrow> uuid \<Rightarrow> process_instance option" where
  "inst_get e i = tget (en_insts e) i"

definition inst_put :: "uuid \<Rightarrow> process_instance \<Rightarrow> 'p engine \<Rightarrow> 'p engine" where
  "inst_put i x e = e\<lparr>en_insts := tput i x (en_insts e)\<rparr>"

definition inst_remove :: "uuid \<Rightarrow> 'p engine \<Rightarrow> 'p engine" where
  "inst_remove i e = e\<lparr>en_insts := tdel i (en_insts e)\<rparr>"

interpretation registry: keyed_store reg_get reg_insert reg_remove
  by unfold_locales (auto simp: reg_get_def reg_insert_def reg_remove_def tbl.get_put tbl.get_remove)

interpretation insts: keyed_store inst_get inst_put inst_remove
  by unfold_locales (auto simp: inst_get_def inst_put_def inst_remove_def tbl.get_put tbl.get_remove)

text \<open>Under the lock of an instance: \<open>get\<close>, \<open>ok_or NoSuchInstance\<close>, and a read or a write.\<close>

definition read_instance :: "uuid \<Rightarrow> 'p engine \<Rightarrow> 'p engine \<times> (engine_error, process_instance) outcome" where
  "read_instance i e = (e, ok_or (NoSuchInstance i) (inst_get e i))"

definition modify_instance ::
  "uuid \<Rightarrow> (process_instance \<Rightarrow> process_instance) \<Rightarrow> 'p engine \<Rightarrow> 'p engine \<times> (engine_error, unit) outcome" where
  "modify_instance i f e =
     (case inst_get e i of
        None \<Rightarrow> (e, Err (NoSuchInstance i))
      | Some x \<Rightarrow> (inst_put i (f x) e, Ok ()))"

text \<open>\<open>if let Some(inst) = instances.get(..)\<close> and a write: nothing happens without the instance.\<close>

definition touch_instance ::
  "uuid \<Rightarrow> (process_instance \<Rightarrow> process_instance) \<Rightarrow> 'p engine \<Rightarrow> 'p engine" where
  "touch_instance i f e = (case inst_get e i of None \<Rightarrow> e | Some x \<Rightarrow> inst_put i (f x) e)"

section \<open>Restoring persisted state (mod.rs)\<close>

definition restore_instance :: "process_instance \<Rightarrow> 'p engine \<Rightarrow> 'p engine" where
  "restore_instance x e = inst_put (pi_id x) x e"

definition restore_user_task :: "user_task \<Rightarrow> 'p engine \<Rightarrow> 'p engine" where
  "restore_user_task t e = e\<lparr>en_user := tput (ut_task_id t) t (en_user e)\<rparr>"

definition restore_service_task :: "service_task \<Rightarrow> 'p engine \<Rightarrow> 'p engine" where
  "restore_service_task t e = e\<lparr>en_service := tput (st_id t) t (en_service e)\<rparr>"

definition restore_timer :: "pending_timer \<Rightarrow> 'p engine \<Rightarrow> 'p engine" where
  "restore_timer t e = e\<lparr>en_timers := tput (tm_id t) t (en_timers e)\<rparr>"

definition restore_message_catch :: "message_catch \<Rightarrow> 'p engine \<Rightarrow> 'p engine" where
  "restore_message_catch c e = e\<lparr>en_messages := tput (mc_id c) c (en_messages e)\<rparr>"

section \<open>Persistence wrappers (persistence\_ops.rs)\<close>

definition log_persistence_error :: "'p engine \<Rightarrow> 'p engine" where
  "log_persistence_error e = e\<lparr>en_perr := (en_perr e + 1) mod 2 ^ 64\<rparr>"

definition enqueue_retry :: "persist_job \<Rightarrow> 'p engine \<Rightarrow> 'p engine" where
  "enqueue_retry job e = e\<lparr>en_retry := map_option (\<lambda>q. q @ [job]) (en_retry e)\<rparr>"

text \<open>One call of the backend whose failure is only logged.\<close>

definition call_logged :: "'p eenv \<Rightarrow> pcall \<Rightarrow> 'p engine \<Rightarrow> 'p engine" where
  "call_logged ev c e =
     (case en_store e of
        None \<Rightarrow> e
      | Some p \<Rightarrow>
          (case ee_persist ev c p of
             (p', None) \<Rightarrow> e\<lparr>en_store := Some p'\<rparr>
           | (p', Some er) \<Rightarrow> log_persistence_error (e\<lparr>en_store := Some p'\<rparr>)))"

text \<open>The macro \<open>inline_retry\<close>: retries, then the error count and the background queue.\<close>

definition inline_retry :: "'p eenv \<Rightarrow> pcall \<Rightarrow> persist_job \<Rightarrow> 'p engine \<Rightarrow> 'p engine" where
  "inline_retry ev c fallback_job e =
     (case en_store e of
        None \<Rightarrow> e
      | Some p \<Rightarrow>
          (case retry_call INLINE_RETRIES (ee_persist ev) c p of
             (p', None) \<Rightarrow> e\<lparr>en_store := Some p'\<rparr>
           | (p', Some er) \<Rightarrow>
               enqueue_retry fallback_job (log_persistence_error (e\<lparr>en_store := Some p'\<rparr>))))"

definition empty_diff :: history_diff where
  "empty_diff = \<lparr> hd_variables = None, hd_status = None, hd_current_node = None, hd_human_readable = None \<rparr>"

definition set_version :: "'p engine \<Rightarrow> uuid \<Rightarrow> history_entry \<Rightarrow> history_entry" where
  "set_version e dk en =
     (case reg_get e dk of None \<Rightarrow> en | Some d \<Rightarrow> en\<lparr>he_definition_version := Some (pd_version d)\<rparr>)"

definition periodic_snapshot :: "process_instance \<Rightarrow> bool" where
  "periodic_snapshot inst \<longleftrightarrow> pi_audit inst \<noteq> [] \<and> length (pi_audit inst) mod 8 = 0"

definition add_snapshot :: "'p eenv \<Rightarrow> bool \<Rightarrow> process_instance \<Rightarrow> history_entry \<Rightarrow> history_entry" where
  "add_snapshot ev c inst en =
     (if c then (case ee_ser_instance ev inst of None \<Rightarrow> en | Some j \<Rightarrow> with_snapshot j en) else en)"

definition record_history_event_from_snapshot ::
  "'p eenv \<Rightarrow> uuid \<Rightarrow> history_event \<Rightarrow> msg \<Rightarrow> actor_type \<Rightarrow> string option \<Rightarrow> diff_snapshot option
     \<Rightarrow> 'p engine \<Rightarrow> 'p engine" where
  "record_history_event_from_snapshot ev i ety descr aty aid old e =
     (if en_store e = None then e
      else
        let cur = inst_get e i;
            diff = (case (old, cur) of
                      (Some o1, Some x) \<Rightarrow> calculate_diff_from_snapshot o1 x
                    | _ \<Rightarrow> empty_diff)
        in if diff_is_empty diff \<and> ety = HTokenAdvanced then e
           else
             let (u, e1) = draw ev e;
                 en0 = entry_new u (en_now e) i ety descr aty aid;
                 en1 = (if diff_is_empty diff then en0 else with_diff diff en0);
                 en2 = (case cur of
                          None \<Rightarrow> en1
                        | Some x \<Rightarrow>
                            add_snapshot ev (periodic_snapshot x) x
                              (with_node (pi_node x) (set_version e (pi_definition_key x) en1)))
             in inline_retry ev (AppendHistoryEntry en2) (JobAppendHistoryEntry en2) e1)"

definition record_history_event ::
  "'p eenv \<Rightarrow> uuid \<Rightarrow> history_event \<Rightarrow> msg \<Rightarrow> actor_type \<Rightarrow> string option \<Rightarrow> process_instance option
     \<Rightarrow> 'p engine \<Rightarrow> 'p engine" where
  "record_history_event ev i ety descr aty aid old e =
     (if en_store e = None then e
      else
        let cur = inst_get e i;
            diff = (case (old, cur) of
                      (Some o1, Some x) \<Rightarrow> calculate_diff o1 x
                    | _ \<Rightarrow> empty_diff)
        in if diff_is_empty diff \<and> ety = HTokenAdvanced then e
           else
             let (u, e1) = draw ev e;
                 en0 = entry_new u (en_now e) i ety descr aty aid;
                 en1 = (if diff_is_empty diff then en0 else with_diff diff en0);
                 en2 = (case (case cur of Some x \<Rightarrow> Some x | None \<Rightarrow> old) of
                          None \<Rightarrow> en1
                        | Some x \<Rightarrow> set_version e (pi_definition_key x) en1);
                 en3 = (case cur of
                          None \<Rightarrow> en2
                        | Some x \<Rightarrow>
                            add_snapshot ev (ety = HInstanceCompleted \<or> periodic_snapshot x) x
                              (with_node (pi_node x) en2))
             in inline_retry ev (AppendHistoryEntry en3) (JobAppendHistoryEntry en3) e1)"

text \<open>The trimming at the start of \<open>persist_instance\<close>.\<close>

definition trim_for_persist :: "process_instance \<Rightarrow> process_instance" where
  "trim_for_persist x =
     (if length (pi_audit x) > MAX_AUDIT_LOG_ENTRIES then
        (let overflow = length (pi_audit x) - MAX_AUDIT_LOG_ENTRIES
         in x\<lparr>pi_audit := Msg ''... ({} older entries trimmed, see History API)'' [ANat overflow]
                # drop overflow (pi_audit x)\<rparr>)
      else x)"

definition persist_instance :: "'p eenv \<Rightarrow> uuid \<Rightarrow> 'p engine \<Rightarrow> 'p engine" where
  "persist_instance ev i e =
     (case (en_store e, inst_get e i) of
        (Some p, Some x0) \<Rightarrow>
          (let x = trim_for_persist x0;
               e1 = inst_put i x e;
               estimated_size = (case ee_inst_bytes ev x of None \<Rightarrow> 0 | Some n \<Rightarrow> n)
           in if estimated_size > MAX_INSTANCE_PAYLOAD_BYTES then log_persistence_error e1
              else inline_retry ev (SaveInstance x) (JobSaveInstance i) e1)
      | _ \<Rightarrow> e)"

definition persist_definition :: "'p eenv \<Rightarrow> uuid \<Rightarrow> 'p engine \<Rightarrow> 'p engine" where
  "persist_definition ev k e =
     (case reg_get e k of None \<Rightarrow> e | Some d \<Rightarrow> inline_retry ev (SaveDefinition d) (JobSaveDefinition k) e)"

definition persist_user_task :: "'p eenv \<Rightarrow> uuid \<Rightarrow> 'p engine \<Rightarrow> 'p engine" where
  "persist_user_task ev u e =
     (case tget (en_user e) u of None \<Rightarrow> e | Some t \<Rightarrow> inline_retry ev (SaveUserTask t) (JobSaveUserTask u) e)"

definition remove_persisted_user_task :: "'p eenv \<Rightarrow> uuid \<Rightarrow> 'p engine \<Rightarrow> 'p engine" where
  "remove_persisted_user_task ev u e = inline_retry ev (DeleteUserTask u) (JobDeleteUserTask u) e"

definition persist_service_task :: "'p eenv \<Rightarrow> uuid \<Rightarrow> 'p engine \<Rightarrow> 'p engine" where
  "persist_service_task ev u e =
     (case tget (en_service e) u of
        None \<Rightarrow> e | Some t \<Rightarrow> inline_retry ev (SaveServiceTask t) (JobSaveServiceTask u) e)"

definition remove_persisted_service_task :: "'p eenv \<Rightarrow> uuid \<Rightarrow> 'p engine \<Rightarrow> 'p engine" where
  "remove_persisted_service_task ev u e = inline_retry ev (DeleteServiceTask u) (JobDeleteServiceTask u) e"

definition persist_timer :: "'p eenv \<Rightarrow> uuid \<Rightarrow> 'p engine \<Rightarrow> 'p engine" where
  "persist_timer ev u e =
     (case tget (en_timers e) u of None \<Rightarrow> e | Some t \<Rightarrow> inline_retry ev (SaveTimer t) (JobSaveTimer u) e)"

definition remove_persisted_timer :: "'p eenv \<Rightarrow> uuid \<Rightarrow> 'p engine \<Rightarrow> 'p engine" where
  "remove_persisted_timer ev u e = inline_retry ev (DeleteTimer u) (JobDeleteTimer u) e"

definition persist_message_catch :: "'p eenv \<Rightarrow> uuid \<Rightarrow> 'p engine \<Rightarrow> 'p engine" where
  "persist_message_catch ev u e =
     (case tget (en_messages e) u of
        None \<Rightarrow> e | Some c \<Rightarrow> inline_retry ev (SaveMessageCatch c) (JobSaveMessageCatch u) e)"

definition remove_persisted_message_catch :: "'p eenv \<Rightarrow> uuid \<Rightarrow> 'p engine \<Rightarrow> 'p engine" where
  "remove_persisted_message_catch ev u e =
     inline_retry ev (DeleteMessageCatch u) (JobDeleteMessageCatch u) e"

text \<open>The archive is written once; a failure is only traced.\<close>

definition archive_completed_instance :: "'p eenv \<Rightarrow> uuid \<Rightarrow> 'p engine \<Rightarrow> 'p engine" where
  "archive_completed_instance ev i e =
     (case (en_store e, inst_get e i) of
        (Some p, Some x) \<Rightarrow> e\<lparr>en_store := Some (fst (ee_persist ev (SaveCompletedInstance x) p))\<rparr>
      | _ \<Rightarrow> e)"

end
