(* ===== verification/WaitStates.thy ===== *)
theory WaitStates
  imports EngineState
begin

text \<open>
  Cancellation of wait states (\<open>engine/mod.rs\<close>): boundary timers and boundary messages of an
  activity that is left, and the alternatives of an event-based gateway. Then the invariant of
  the engine state, \<open>engine_wf\<close>, with the rules by which the operations keep it.
\<close>

section \<open>Cancelling wait states\<close>

fun timer_host :: "element \<Rightarrow> string option" where
  "timer_host (BoundaryTimerEvent a t c) = Some a"
| "timer_host _ = None"

fun message_host :: "element \<Rightarrow> string option" where
  "message_host (BoundaryMessageEvent a m c) = Some a"
| "message_host _ = None"

text \<open>The nodes of a definition attached to a task by the given kind of boundary event.\<close>

definition nodes_attached :: "(element \<Rightarrow> string option) \<Rightarrow> process_definition \<Rightarrow> string \<Rightarrow> string list" where
  "nodes_attached host d task_node =
     map fst (filter (\<lambda>ne. host (snd ne) = Some task_node) (pd_nodes d))"

definition attached_of :: "(element \<Rightarrow> string option) \<Rightarrow> 'p engine \<Rightarrow> process_instance \<Rightarrow> string \<Rightarrow> string list" where
  "attached_of host e x task_node =
     (case reg_get e (pi_definition_key x) of None \<Rightarrow> [] | Some d \<Rightarrow> nodes_attached host d task_node)"

text \<open>Deletes entries from the backend one by one; a failure is logged.\<close>

definition delete_each :: "'p eenv \<Rightarrow> (uuid \<Rightarrow> pcall) \<Rightarrow> uuid list \<Rightarrow> 'p engine \<Rightarrow> 'p engine" where
  "delete_each ev c us e = fold (\<lambda>u. call_logged ev (c u)) us e"

definition cancel_boundary_timers :: "'p eenv \<Rightarrow> uuid \<Rightarrow> string \<Rightarrow> 'p engine \<Rightarrow> 'p engine" where
  "cancel_boundary_timers ev i task_node e =
     (case inst_get e i of
        None \<Rightarrow> e
      | Some x \<Rightarrow>
          (let bound = attached_of timer_host e x task_node;
               hit = (\<lambda>t. tm_instance_id t = i \<and> tm_node_id t \<in> set bound);
               ids = remdups (map tm_id (filter hit (tvals (en_timers e))))
           in delete_each ev DeleteTimer ids
                (e\<lparr>en_timers := tretain (\<lambda>k t. \<not> hit t) (en_timers e)\<rparr>)))"

definition cancel_boundary_message_catches :: "'p eenv \<Rightarrow> uuid \<Rightarrow> string \<Rightarrow> 'p engine \<Rightarrow> 'p engine" where
  "cancel_boundary_message_catches ev i task_node e =
     (case inst_get e i of
        None \<Rightarrow> e
      | Some x \<Rightarrow>
          (let bound = attached_of message_host e x task_node;
               hit = (\<lambda>m. mc_instance_id m = i \<and> mc_node_id m \<in> set bound);
               ids = remdups (map mc_id (filter hit (tvals (en_messages e))))
           in delete_each ev DeleteMessageCatch ids
                (e\<lparr>en_messages := tretain (\<lambda>k m. \<not> hit m) (en_messages e)\<rparr>)))"

definition timer_of_token :: "uuid \<Rightarrow> uuid \<Rightarrow> pending_timer \<Rightarrow> bool" where
  "timer_of_token i t tm \<longleftrightarrow> tm_instance_id tm = i \<and> tm_token_id tm = t"

definition message_of_token :: "uuid \<Rightarrow> uuid \<Rightarrow> message_catch \<Rightarrow> bool" where
  "message_of_token i t mc \<longleftrightarrow> mc_instance_id mc = i \<and> mc_token_id mc = t"

text \<open>The audit entries are pushed directly, past the limit of \<open>push_audit_log\<close>.\<close>

definition cancelled_notes :: "nat \<Rightarrow> nat \<Rightarrow> msg list" where
  "cancelled_notes timers messages =
     (if timers > 0
      then [Msg ''Event-based gateway: {} alternative timer(s) cancelled'' [ANat timers]] else []) @
     (if messages > 0
      then [Msg ''Event-based gateway: {} alternative message catch(es) cancelled'' [ANat messages]]
      else [])"

definition clear_wait_states_for_token :: "'p eenv \<Rightarrow> uuid \<Rightarrow> uuid \<Rightarrow> 'p engine \<Rightarrow> 'p engine" where
  "clear_wait_states_for_token ev i t e =
     (let timers = map tm_id (filter (timer_of_token i t) (tvals (en_timers e)));
          messages = map mc_id (filter (message_of_token i t) (tvals (en_messages e)));
          e1 = (if timers \<noteq> [] \<or> messages \<noteq> [] then
                  record_history_event ev i HTokenAdvanced
                    (Msg ''Alternative EventBasedGateway paths cancelled'' []) ActorEngine None None
                    (touch_instance i
                      (\<lambda>x. x\<lparr>pi_audit := pi_audit x @ cancelled_notes (length timers) (length messages)\<rparr>) e)
                else e);
          e2 = e1\<lparr>en_timers := tretain (\<lambda>k x. \<not> timer_of_token i t x) (en_timers e1),
                  en_messages := tretain (\<lambda>k x. \<not> message_of_token i t x) (en_messages e1)\<rparr>
      in delete_each ev DeleteMessageCatch messages (delete_each ev DeleteTimer timers e2))"

section \<open>The invariant of the engine state\<close>

text \<open>A suspended state remembers a state that is neither suspended nor terminal.\<close>

fun state_ok :: "instance_state \<Rightarrow> bool" where
  "state_ok (Suspended s) \<longleftrightarrow> \<not> is_suspended s \<and> \<not> is_terminal s"
| "state_ok _ \<longleftrightarrow> True"

definition inst_wf :: "process_instance \<Rightarrow> bool" where
  "inst_wf x \<longleftrightarrow>
     wf_table (pi_tokens x) \<and> (\<forall>k t. tget (pi_tokens x) k = Some t \<longrightarrow> tk_id t = k) \<and>
     wf_table (pi_barriers x) \<and> state_ok (pi_state x)"

definition keyed_by :: "('v \<Rightarrow> uuid) \<Rightarrow> (uuid, 'v) table \<Rightarrow> bool" where
  "keyed_by key t \<longleftrightarrow> wf_table t \<and> (\<forall>k v. tget t k = Some v \<longrightarrow> key v = k)"

definition engine_wf :: "'p engine \<Rightarrow> bool" where
  "engine_wf e \<longleftrightarrow>
     keyed_by pd_key (en_defs e) \<and>
     keyed_by pi_id (en_insts e) \<and> (\<forall>i x. inst_get e i = Some x \<longrightarrow> inst_wf x) \<and>
     keyed_by ut_task_id (en_user e) \<and> keyed_by st_id (en_service e) \<and>
     keyed_by tm_id (en_timers e) \<and> keyed_by mc_id (en_messages e)"

lemma keyed_by_Nil [simp]: "keyed_by key []"
  by (simp add: keyed_by_def)

lemma keyed_by_tput [intro]: "keyed_by key t \<Longrightarrow> key v = k \<Longrightarrow> keyed_by key (tput k v t)"
  by (auto simp: keyed_by_def tget_tput split: if_splits)

lemma keyed_by_tdel [intro]: "keyed_by key t \<Longrightarrow> keyed_by key (tdel k t)"
  by (auto simp: keyed_by_def tget_tdel split: if_splits)

lemma keyed_by_tretain [intro]: "keyed_by key t \<Longrightarrow> keyed_by key (tretain p t)"
  by (auto simp: keyed_by_def tget_tretain split: option.splits if_splits)

lemma keyed_byD: "keyed_by key t \<Longrightarrow> tget t k = Some v \<Longrightarrow> key v = k"
  by (simp add: keyed_by_def)

lemma engine_wf_new: "engine_wf (engine_new getenv now n)"
  by (simp add: engine_wf_def engine_new_def inst_get_def)

text \<open>The operations that change none of the tables.\<close>

definition same_tables :: "'p engine \<Rightarrow> 'p engine \<Rightarrow> bool" where
  "same_tables e e' \<longleftrightarrow>
     en_defs e' = en_defs e \<and> en_insts e' = en_insts e \<and> en_user e' = en_user e \<and>
     en_service e' = en_service e \<and> en_timers e' = en_timers e \<and> en_messages e' = en_messages e \<and>
     en_script e' = en_script e \<and> en_now e' = en_now e"

lemma same_tables_refl [simp]: "same_tables e e"
  by (simp add: same_tables_def)

lemma same_tables_trans: "same_tables e e1 \<Longrightarrow> same_tables e1 e2 \<Longrightarrow> same_tables e e2"
  by (simp add: same_tables_def)

lemma same_tables_wf: "same_tables e e' \<Longrightarrow> engine_wf e \<Longrightarrow> engine_wf e'"
  by (simp add: same_tables_def engine_wf_def inst_get_def)

lemma same_tables_inline_retry [simp]: "same_tables e (inline_retry ev c j e)"
  by (auto simp: inline_retry_def same_tables_def enqueue_retry_def log_persistence_error_def
      split: option.splits prod.splits)

lemma same_tables_call_logged [simp]: "same_tables e (call_logged ev c e)"
  by (auto simp: call_logged_def same_tables_def log_persistence_error_def
      split: option.splits prod.splits)

lemma same_tables_delete_each [simp]: "same_tables e (delete_each ev c us e)"
proof (induction us arbitrary: e)
  case Nil
  then show ?case by (simp add: delete_each_def)
next
  case (Cons u us)
  show ?case
    using Cons.IH [of "call_logged ev (c u) e"]
    by (auto simp: delete_each_def intro: same_tables_trans [OF same_tables_call_logged])
qed

lemma same_tables_emit [simp]: "same_tables e (emit_event v e)"
  by (simp add: emit_event_def same_tables_def)

lemma same_tables_log [simp]: "same_tables e (log_persistence_error e)"
  by (simp add: log_persistence_error_def same_tables_def)

lemma same_tables_draw [simp]: "same_tables e (snd (draw ev e))"
  by (simp add: draw_def same_tables_def)

lemma same_tables_draws [simp]: "same_tables e (e\<lparr>en_draws := n\<rparr>)"
  by (simp add: same_tables_def)

lemma same_tables_retry_draws [simp]: "same_tables e (inline_retry ev c j (e\<lparr>en_draws := n\<rparr>))"
  by (rule same_tables_trans [OF same_tables_draws same_tables_inline_retry])

lemma same_tables_record [simp]: "same_tables e (record_history_event ev i ety descr aty aid old e)"
  unfolding record_history_event_def Let_def draw_def
  by simp

lemma same_tables_record_snapshot [simp]:
  "same_tables e (record_history_event_from_snapshot ev i ety descr aty aid old e)"
  unfolding record_history_event_from_snapshot_def Let_def draw_def
  by simp

lemma same_tables_persist [simp]:
  "same_tables e (persist_definition ev u e)"
  "same_tables e (persist_user_task ev u e)" "same_tables e (remove_persisted_user_task ev u e)"
  "same_tables e (persist_service_task ev u e)" "same_tables e (remove_persisted_service_task ev u e)"
  "same_tables e (persist_timer ev u e)" "same_tables e (remove_persisted_timer ev u e)"
  "same_tables e (persist_message_catch ev u e)" "same_tables e (remove_persisted_message_catch ev u e)"
  by (simp_all add: persist_definition_def persist_user_task_def remove_persisted_user_task_def
      persist_service_task_def remove_persisted_service_task_def persist_timer_def
      remove_persisted_timer_def persist_message_catch_def remove_persisted_message_catch_def
      split: option.splits)

lemma same_tables_archive [simp]: "same_tables e (archive_completed_instance ev i e)"
  by (simp add: archive_completed_instance_def same_tables_def split: option.splits)

section \<open>Operations that keep the invariant\<close>

named_theorems wf_intro "introduction rules for engine_wf"

lemma engine_wf_emit [wf_intro]: "engine_wf e \<Longrightarrow> engine_wf (emit_event v e)"
  by (rule same_tables_wf [OF same_tables_emit])

lemma engine_wf_log [wf_intro]: "engine_wf e \<Longrightarrow> engine_wf (log_persistence_error e)"
  by (rule same_tables_wf [OF same_tables_log])

lemma engine_wf_call_logged [wf_intro]: "engine_wf e \<Longrightarrow> engine_wf (call_logged ev c e)"
  by (rule same_tables_wf [OF same_tables_call_logged])

lemma engine_wf_delete_each [wf_intro]: "engine_wf e \<Longrightarrow> engine_wf (delete_each ev c us e)"
  by (rule same_tables_wf [OF same_tables_delete_each])

lemma engine_wf_inline_retry [wf_intro]: "engine_wf e \<Longrightarrow> engine_wf (inline_retry ev c j e)"
  by (rule same_tables_wf [OF same_tables_inline_retry])

lemma engine_wf_record [wf_intro]:
  "engine_wf e \<Longrightarrow> engine_wf (record_history_event ev i ety descr aty aid old e)"
  by (rule same_tables_wf [OF same_tables_record])

lemma engine_wf_record_snapshot [wf_intro]:
  "engine_wf e \<Longrightarrow> engine_wf (record_history_event_from_snapshot ev i ety descr aty aid sn e)"
  by (rule same_tables_wf [OF same_tables_record_snapshot])

lemma engine_wf_persist [wf_intro]:
  assumes "engine_wf e"
  shows "engine_wf (persist_definition ev u e)"
    "engine_wf (persist_user_task ev u e)" "engine_wf (remove_persisted_user_task ev u e)"
    "engine_wf (persist_service_task ev u e)" "engine_wf (remove_persisted_service_task ev u e)"
    "engine_wf (persist_timer ev u e)" "engine_wf (remove_persisted_timer ev u e)"
    "engine_wf (persist_message_catch ev u e)" "engine_wf (remove_persisted_message_catch ev u e)"
  using assms by (auto intro: same_tables_wf [OF same_tables_persist(1)] same_tables_wf [OF same_tables_persist(2)]
      same_tables_wf [OF same_tables_persist(3)] same_tables_wf [OF same_tables_persist(4)]
      same_tables_wf [OF same_tables_persist(5)] same_tables_wf [OF same_tables_persist(6)]
      same_tables_wf [OF same_tables_persist(7)] same_tables_wf [OF same_tables_persist(8)]
      same_tables_wf [OF same_tables_persist(9)])

lemma engine_wf_archive [wf_intro]: "engine_wf e \<Longrightarrow> engine_wf (archive_completed_instance ev i e)"
  by (rule same_tables_wf [OF same_tables_archive])

lemma engine_wf_draws [wf_intro]: "engine_wf e \<Longrightarrow> engine_wf (e\<lparr>en_draws := n\<rparr>)"
  by (rule same_tables_wf [OF same_tables_draws])

lemma draw_wf: "draw ev e = (u, e') \<Longrightarrow> engine_wf e \<Longrightarrow> engine_wf e'"
  using same_tables_wf [OF same_tables_draw, of e ev] by simp

text \<open>Changes of the tables.\<close>

lemma engine_wf_user [wf_intro]:
  "engine_wf e \<Longrightarrow> keyed_by ut_task_id t \<Longrightarrow> engine_wf (e\<lparr>en_user := t\<rparr>)"
  by (simp add: engine_wf_def inst_get_def)

lemma engine_wf_service [wf_intro]:
  "engine_wf e \<Longrightarrow> keyed_by st_id t \<Longrightarrow> engine_wf (e\<lparr>en_service := t\<rparr>)"
  by (simp add: engine_wf_def inst_get_def)

lemma engine_wf_timers [wf_intro]:
  "engine_wf e \<Longrightarrow> keyed_by tm_id t \<Longrightarrow> engine_wf (e\<lparr>en_timers := t\<rparr>)"
  by (simp add: engine_wf_def inst_get_def)

lemma engine_wf_messages [wf_intro]:
  "engine_wf e \<Longrightarrow> keyed_by mc_id t \<Longrightarrow> engine_wf (e\<lparr>en_messages := t\<rparr>)"
  by (simp add: engine_wf_def inst_get_def)

lemma engine_wf_tables:
  assumes "engine_wf e"
  shows "keyed_by ut_task_id (en_user e)" "keyed_by st_id (en_service e)"
    "keyed_by tm_id (en_timers e)" "keyed_by mc_id (en_messages e)"
    "keyed_by pd_key (en_defs e)" "keyed_by pi_id (en_insts e)"
  using assms by (simp_all add: engine_wf_def)

lemma engine_wf_inst: "engine_wf e \<Longrightarrow> inst_get e i = Some x \<Longrightarrow> inst_wf x \<and> pi_id x = i"
  by (auto simp: engine_wf_def inst_get_def keyed_by_def)

lemma engine_wf_put [wf_intro]:
  "engine_wf e \<Longrightarrow> inst_wf x \<Longrightarrow> pi_id x = i \<Longrightarrow> engine_wf (inst_put i x e)"
  by (auto simp: engine_wf_def inst_get_def inst_put_def tget_tput split: if_splits)

text \<open>A change of an instance that keeps its identity and its well-formedness.\<close>

definition inst_keeps :: "(process_instance \<Rightarrow> process_instance) \<Rightarrow> bool" where
  "inst_keeps f \<longleftrightarrow> (\<forall>x. pi_id (f x) = pi_id x \<and> (inst_wf x \<longrightarrow> inst_wf (f x)))"

lemma engine_wf_touch [wf_intro]:
  "engine_wf e \<Longrightarrow> inst_keeps f \<Longrightarrow> engine_wf (touch_instance i f e)"
  by (auto simp: touch_instance_def inst_keeps_def split: option.splits
      intro!: engine_wf_put dest: engine_wf_inst)

lemma engine_wf_remove [wf_intro]: "engine_wf e \<Longrightarrow> engine_wf (inst_remove i e)"
  by (auto simp: engine_wf_def inst_remove_def inst_get_def tget_tdel split: if_splits)

lemma engine_wf_persist_instance [wf_intro]: "engine_wf e \<Longrightarrow> engine_wf (persist_instance ev i e)"
proof -
  assume wf: "engine_wf e"
  have "engine_wf (inst_put i (trim_for_persist x) e)" if "inst_get e i = Some x" for x
    using engine_wf_inst [OF wf that] wf
    by (auto simp: trim_for_persist_def Let_def inst_wf_def intro!: engine_wf_put)
  then show ?thesis
    using wf by (auto simp: persist_instance_def Let_def split: option.splits intro: wf_intro)
qed

lemma engine_wf_cancel_timers [wf_intro]: "engine_wf e \<Longrightarrow> engine_wf (cancel_boundary_timers ev i n e)"
  by (auto simp: cancel_boundary_timers_def Let_def split: option.splits
      intro!: wf_intro dest: engine_wf_tables)

lemma engine_wf_cancel_messages [wf_intro]:
  "engine_wf e \<Longrightarrow> engine_wf (cancel_boundary_message_catches ev i n e)"
  by (auto simp: cancel_boundary_message_catches_def Let_def split: option.splits
      intro!: wf_intro dest: engine_wf_tables)

lemma inst_keeps_audit [simp]:
  "inst_keeps (\<lambda>x. x\<lparr>pi_audit := f x\<rparr>)"
  "inst_keeps (push_audit_log m)" "inst_keeps (append_audit_log ms)"
  by (simp_all add: inst_keeps_def inst_wf_def)

lemma engine_wf_clear [wf_intro]: "engine_wf e \<Longrightarrow> engine_wf (clear_wait_states_for_token ev i t e)"
proof -
  assume wf: "engine_wf e"
  show ?thesis
    unfolding clear_wait_states_for_token_def Let_def
    by (intro engine_wf_delete_each)
       (auto intro!: engine_wf_timers engine_wf_messages keyed_by_tretain engine_wf_record
          engine_wf_touch wf engine_wf_tables)
qed

section \<open>What the bookkeeping leaves alone\<close>

text \<open>
  The facts of \<open>frame\<close> rewrite a lookup in the state behind a bookkeeping step into the lookup in
  the state before it.
\<close>

named_theorems frame "what an operation leaves unchanged"

lemma same_tablesD:
  assumes "same_tables e e'"
  shows "en_defs e' = en_defs e" "en_insts e' = en_insts e" "en_user e' = en_user e"
    "en_service e' = en_service e" "en_timers e' = en_timers e" "en_messages e' = en_messages e"
    "en_script e' = en_script e" "en_now e' = en_now e" "inst_get e' = inst_get e" "reg_get e' = reg_get e"
  using assms by (auto simp: same_tables_def inst_get_def reg_get_def fun_eq_iff)

lemmas kept_by_bookkeeping [frame] =
  same_tables_record [THEN same_tablesD(1)] same_tables_record [THEN same_tablesD(2)]
  same_tables_record [THEN same_tablesD(3)] same_tables_record [THEN same_tablesD(4)]
  same_tables_record [THEN same_tablesD(5)] same_tables_record [THEN same_tablesD(6)]
  same_tables_record [THEN same_tablesD(7)] same_tables_record [THEN same_tablesD(8)]
  same_tables_record [THEN same_tablesD(9)] same_tables_record [THEN same_tablesD(10)]

lemma persist_instance_tables [frame]:
  "en_defs (persist_instance ev i e) = en_defs e" "en_user (persist_instance ev i e) = en_user e"
  "en_service (persist_instance ev i e) = en_service e" "en_timers (persist_instance ev i e) = en_timers e"
  "en_messages (persist_instance ev i e) = en_messages e" "en_script (persist_instance ev i e) = en_script e"
  "en_now (persist_instance ev i e) = en_now e"
  using same_tables_inline_retry
  by (auto simp: persist_instance_def inst_put_def log_persistence_error_def same_tablesD [OF same_tables_inline_retry] Let_def split: option.splits)

lemma inst_get_persist_instance [frame]:
  "inst_get (persist_instance ev i e) j =
     (if j = i \<and> en_store e \<noteq> None then map_option trim_for_persist (inst_get e i) else inst_get e j)"
  by (auto simp: persist_instance_def insts.get_put Let_def same_tablesD [OF same_tables_inline_retry]
       same_tablesD [OF same_tables_log] split: option.split)

lemma trim_for_persist_other [simp]:
  "pi_id (trim_for_persist x) = pi_id x" "pi_definition_key (trim_for_persist x) = pi_definition_key x"
  "pi_business_key (trim_for_persist x) = pi_business_key x" "pi_parent (trim_for_persist x) = pi_parent x"
  "pi_state (trim_for_persist x) = pi_state x" "pi_node (trim_for_persist x) = pi_node x"
  "pi_vars (trim_for_persist x) = pi_vars x" "pi_tokens (trim_for_persist x) = pi_tokens x"
  "pi_active (trim_for_persist x) = pi_active x" "pi_barriers (trim_for_persist x) = pi_barriers x"
  "pi_completed_at (trim_for_persist x) = pi_completed_at x"
  by (simp_all add: trim_for_persist_def Let_def)

lemma inst_get_touch [frame]:
  "inst_get (touch_instance i f e) j = (if j = i then map_option f (inst_get e i) else inst_get e j)"
  by (auto simp: touch_instance_def insts.get_put split: option.split)

lemma touch_tables [frame]:
  "en_defs (touch_instance i f e) = en_defs e" "en_user (touch_instance i f e) = en_user e"
  "en_service (touch_instance i f e) = en_service e" "en_timers (touch_instance i f e) = en_timers e"
  "en_messages (touch_instance i f e) = en_messages e" "en_script (touch_instance i f e) = en_script e"
  "en_now (touch_instance i f e) = en_now e" "en_store (touch_instance i f e) = en_store e"
  by (simp_all add: touch_instance_def inst_put_def split: option.split)

text \<open>What persisting an instance leaves of it: everything but the oldest audit entries.\<close>

definition same_but_audit :: "process_instance \<Rightarrow> process_instance \<Rightarrow> bool" where
  "same_but_audit x y \<longleftrightarrow> (\<exists>a. y = x\<lparr>pi_audit := a\<rparr>)"

lemma same_but_audit_refl [simp]: "same_but_audit x x"
  unfolding same_but_audit_def by (rule exI [of _ "pi_audit x"]) simp

lemma same_but_audit_push [simp]: "same_but_audit x (push_audit_log m x)"
  by (auto simp: same_but_audit_def push_audit_log_def)

lemma same_but_audit_trim [simp]: "same_but_audit x (trim_for_persist x)"
  unfolding trim_for_persist_def Let_def by (auto simp: same_but_audit_def intro: exI [of _ "pi_audit x"])

lemma same_but_audit_trans: "same_but_audit x y \<Longrightarrow> same_but_audit y z \<Longrightarrow> same_but_audit x z"
  by (auto simp: same_but_audit_def)

lemma inst_put_tables [frame]:
  "en_defs (inst_put i x e) = en_defs e" "en_user (inst_put i x e) = en_user e"
  "en_service (inst_put i x e) = en_service e" "en_timers (inst_put i x e) = en_timers e"
  "en_messages (inst_put i x e) = en_messages e" "en_script (inst_put i x e) = en_script e"
  "en_now (inst_put i x e) = en_now e" "en_store (inst_put i x e) = en_store e"
  "reg_get (inst_put i x e) = reg_get e"
  by (simp_all add: inst_put_def reg_get_def fun_eq_iff)

lemma inst_remove_tables [frame]:
  "en_defs (inst_remove i e) = en_defs e" "en_user (inst_remove i e) = en_user e"
  "en_service (inst_remove i e) = en_service e" "en_timers (inst_remove i e) = en_timers e"
  "en_messages (inst_remove i e) = en_messages e"
  by (simp_all add: inst_remove_def)

text \<open>Recording and saving a changed instance, the end of most operations.\<close>

lemma saved_instance:
  assumes "inst_get e i = Some x"
  obtains y where "inst_get (persist_instance ev i (record_history_event ev i ty d a aid old e)) i = Some y"
    "same_but_audit x y"
  using assms that
  by (cases "en_store (record_history_event ev i ty d a aid old e)")
     (auto simp: inst_get_persist_instance kept_by_bookkeeping)

lemma saved_other:
  "j \<noteq> i \<Longrightarrow> inst_get (persist_instance ev i (record_history_event ev i ty d a aid old e)) j = inst_get e j"
  by (simp add: inst_get_persist_instance kept_by_bookkeeping)

end
