(* ===== verification/Gateways.thy ===== *)
theory Gateways
  imports WaitStates
begin

text \<open>
  The routing decisions: the gateway functions of \<open>engine/gateway.rs\<close>, which split a token or
  send it to a join, and the lookups of \<open>engine/executor/helpers.rs\<close> over a definition (next
  target, boundary events, compensation handler, the join that belongs to a split).
\<close>

section \<open>Forking\<close>

text \<open>One token per target, each with a fresh UUID and a copy of the variables.\<close>

fun fork_tokens :: "'p eenv \<Rightarrow> vars \<Rightarrow> string list \<Rightarrow> nat \<Rightarrow> nat \<times> token list" where
  "fork_tokens ev vs [] n = (n, [])"
| "fork_tokens ev vs (t # ts) n =
     (let (n', toks) = fork_tokens ev vs ts (Suc n)
      in (n', token_with_variables (env_uuid_v4 ev n) t vs # toks))"

text \<open>The end of every splitting gateway: one target moves the token, several fork it.\<close>

definition split_to ::
  "'p eenv \<Rightarrow> token \<Rightarrow> string list \<Rightarrow> nat \<Rightarrow> nat \<times> (engine_error, token \<times> next_action) outcome" where
  "split_to ev tok targets n =
     (case targets of
        [t] \<Rightarrow> (n, Ok (tok\<lparr>tk_node := t\<rparr>, Continue (tok\<lparr>tk_node := t\<rparr>)))
      | _ \<Rightarrow> (let (n', toks) = fork_tokens ev (tk_vars tok) targets n
              in (n', Ok (tok, ContinueMultiple toks))))"

section \<open>The gateways (gateway.rs)\<close>

text \<open>The state is the number of UUIDs drawn; the result holds the changed token.\<close>

definition must_join :: "process_definition \<Rightarrow> string \<Rightarrow> token \<Rightarrow> bool" where
  "must_join def n tok \<longleftrightarrow> 2 \<le> incoming_flow_count def n \<and> \<not> tk_merged tok"

definition execute_parallel_gateway ::
  "'p eenv \<Rightarrow> process_definition \<Rightarrow> string \<Rightarrow> token \<Rightarrow> nat
     \<Rightarrow> nat \<times> (engine_error, token \<times> next_action) outcome" where
  "execute_parallel_gateway ev def current_id tok n =
     (if must_join def current_id tok then (n, Ok (tok, WaitForJoin current_id tok))
      else split_to ev (tok\<lparr>tk_merged := False\<rparr>) (map sf_target (next_nodes def current_id)) n)"

definition flow_matches :: "'p eenv \<Rightarrow> vars \<Rightarrow> seq_flow \<Rightarrow> bool" where
  "flow_matches ev vs sf =
     (case sf_condition sf of None \<Rightarrow> False | Some c \<Rightarrow> evaluate_condition ev c vs)"

definition execute_exclusive_gateway ::
  "'p eenv \<Rightarrow> process_definition \<Rightarrow> string \<Rightarrow> token \<Rightarrow> string option
     \<Rightarrow> (engine_error, token \<times> next_action) outcome" where
  "execute_exclusive_gateway ev def current_id tok dflt =
     (let chosen = (case find (flow_matches ev (tk_vars tok)) (next_nodes def current_id) of
                      Some sf \<Rightarrow> Some (sf_target sf)
                    | None \<Rightarrow> dflt)
      in case chosen of
           None \<Rightarrow> Err (NoMatchingCondition current_id)
         | Some t \<Rightarrow> Ok (tok\<lparr>tk_node := t\<rparr>, Continue (tok\<lparr>tk_node := t\<rparr>)))"

definition inclusive_takes :: "'p eenv \<Rightarrow> vars \<Rightarrow> seq_flow \<Rightarrow> bool" where
  "inclusive_takes ev vs sf =
     (case sf_condition sf of None \<Rightarrow> True | Some c \<Rightarrow> evaluate_condition ev c vs)"

definition execute_inclusive_gateway ::
  "'p eenv \<Rightarrow> process_definition \<Rightarrow> string \<Rightarrow> token \<Rightarrow> nat
     \<Rightarrow> nat \<times> (engine_error, token \<times> next_action) outcome" where
  "execute_inclusive_gateway ev def current_id tok n =
     (if must_join def current_id tok then (n, Ok (tok, WaitForJoin current_id tok))
      else
        let targets = map sf_target (filter (inclusive_takes ev (tk_vars tok)) (next_nodes def current_id))
        in if targets = [] then (n, Err (NoMatchingCondition current_id))
           else split_to ev (tok\<lparr>tk_merged := False\<rparr>) targets n)"

definition complex_takes :: "'p eenv \<Rightarrow> vars \<Rightarrow> string option \<Rightarrow> seq_flow \<Rightarrow> bool" where
  "complex_takes ev vs dflt sf =
     (case sf_condition sf of
        Some c \<Rightarrow> evaluate_condition ev c vs
      | None \<Rightarrow> dflt \<noteq> Some (sf_target sf))"

definition execute_complex_gateway ::
  "'p eenv \<Rightarrow> process_definition \<Rightarrow> string \<Rightarrow> token \<Rightarrow> string option \<Rightarrow> nat
     \<Rightarrow> nat \<times> (engine_error, token \<times> next_action) outcome" where
  "execute_complex_gateway ev def current_id tok dflt n =
     (if must_join def current_id tok then (n, Ok (tok, WaitForJoin current_id tok))
      else
        let matched = map sf_target (filter (complex_takes ev (tk_vars tok) dflt) (next_nodes def current_id));
            targets = (if matched = [] then (case dflt of None \<Rightarrow> [] | Some t \<Rightarrow> [t]) else matched)
        in if targets = [] then (n, Err (NoMatchingCondition current_id))
           else split_to ev (tok\<lparr>tk_merged := False\<rparr>) targets n)"

section \<open>Lookups over a definition (executor/helpers.rs)\<close>

definition resolve_next_target ::
  "'p eenv \<Rightarrow> process_definition \<Rightarrow> string \<Rightarrow> vars \<Rightarrow> (engine_error, string) outcome" where
  "resolve_next_target ev def n vs =
     (case find (inclusive_takes ev vs) (next_nodes def n) of
        None \<Rightarrow> Err (InvalidDefinition (Msg ''No matching outgoing flow from {}'' [AStr n]))
      | Some sf \<Rightarrow> Ok (sf_target sf))"

definition find_boundary_error_event :: "process_definition \<Rightarrow> string \<Rightarrow> string \<Rightarrow> string option" where
  "find_boundary_error_event def attached_to_node code =
     first_some
       (\<lambda>(n, el). case el of
          BoundaryErrorEvent a c \<Rightarrow>
            if a = attached_to_node \<and> (c = None \<or> c = Some code) then Some n else None
        | _ \<Rightarrow> None) (pd_nodes def)"

definition find_boundary_escalation_event ::
  "process_definition \<Rightarrow> string \<Rightarrow> string \<Rightarrow> (string \<times> bool) option" where
  "find_boundary_escalation_event def attached_to_node code =
     first_some
       (\<lambda>(n, el). case el of
          BoundaryEscalationEvent a c cancel \<Rightarrow>
            if a = attached_to_node \<and> (c = None \<or> c = Some code) then Some (n, cancel) else None
        | _ \<Rightarrow> None) (pd_nodes def)"

definition find_any_boundary_escalation_event ::
  "process_definition \<Rightarrow> string \<Rightarrow> (string \<times> string \<times> bool) option" where
  "find_any_boundary_escalation_event def code =
     first_some
       (\<lambda>(n, el). case el of
          BoundaryEscalationEvent a c cancel \<Rightarrow>
            if c = None \<or> c = Some code then Some (n, a, cancel) else None
        | _ \<Rightarrow> None) (pd_nodes def)"

definition find_compensation_handler :: "process_definition \<Rightarrow> string \<Rightarrow> string option" where
  "find_compensation_handler def activity_id =
     (case first_some
             (\<lambda>(n, el). if el = BoundaryCompensationEvent activity_id then Some n else None)
             (pd_nodes def) of
        None \<Rightarrow> None
      | Some boundary_id \<Rightarrow>
          (case next_nodes def boundary_id of [] \<Rightarrow> None | sf # rest \<Rightarrow> Some (sf_target sf)))"

datatype gateway_kind = ExclusiveKind | InclusiveKind | ParallelKind

fun kind_of_gateway :: "element \<Rightarrow> gateway_kind option" where
  "kind_of_gateway (ExclusiveGateway d) = Some ExclusiveKind"
| "kind_of_gateway InclusiveGateway = Some InclusiveKind"
| "kind_of_gateway ParallelGateway = Some ParallelKind"
| "kind_of_gateway _ = None"

definition same_gateway_type :: "element \<Rightarrow> element \<Rightarrow> bool" where
  "same_gateway_type a b \<longleftrightarrow> kind_of_gateway a \<noteq> None \<and> kind_of_gateway a = kind_of_gateway b"

subsection \<open>The join of a split\<close>

text \<open>
  A breadth-first search that counts nested splits and joins of the same type. The queue holds
  nodes with their depth; a visited node is never expanded again, so the search ends.
\<close>

definition all_targets :: "process_definition \<Rightarrow> string list" where
  "all_targets def = map sf_target (concat (tvals (pd_flows def)))"

definition successors :: "process_definition \<Rightarrow> string \<Rightarrow> nat \<Rightarrow> (string \<times> nat) list" where
  "successors def n depth = map (\<lambda>sf. (sf_target sf, depth)) (next_nodes def n)"

lemma next_nodes_in_flows: "sf \<in> set (next_nodes def n) \<Longrightarrow> sf \<in> set (concat (tvals (pd_flows def)))"
proof -
  assume "sf \<in> set (next_nodes def n)"
  then obtain fs where "tget (pd_flows def) n = Some fs" and sf: "sf \<in> set fs"
    by (cases "tget (pd_flows def) n") (auto simp: next_nodes_def outgoing_of_def)
  then have "(n, fs) \<in> set (pd_flows def)" by (simp add: tget_SomeD)
  then have "fs \<in> set (tvals (pd_flows def))" by (force simp: tvals_def)
  with sf show ?thesis by auto
qed

lemma successors_in_targets: "fst ` set (successors def n d) \<subseteq> set (all_targets def)"
proof
  fix m assume "m \<in> fst ` set (successors def n d)"
  then obtain sf where "sf \<in> set (next_nodes def n)" "m = sf_target sf"
    by (auto simp: successors_def)
  then show "m \<in> set (all_targets def)"
    unfolding all_targets_def by (metis image_eqI list.set_map next_nodes_in_flows)
qed

text \<open>What the search does with a new node: stop at the join, or go on with the given depth.\<close>

definition join_here :: "process_definition \<Rightarrow> element \<Rightarrow> string \<Rightarrow> bool" where
  "join_here def split n =
     (case get_node def n of
        None \<Rightarrow> False
      | Some el \<Rightarrow> is_join_gateway def n \<and> same_gateway_type split el)"

definition next_depth :: "process_definition \<Rightarrow> element \<Rightarrow> string \<Rightarrow> nat \<Rightarrow> nat" where
  "next_depth def split n depth =
     (case get_node def n of
        None \<Rightarrow> depth
      | Some el \<Rightarrow>
          if is_join_gateway def n \<and> same_gateway_type split el then depth - 1
          else if is_split_gateway def n \<and> same_gateway_type split el then depth + 1
          else depth)"

function join_search ::
  "process_definition \<Rightarrow> element \<Rightarrow> string list \<Rightarrow> (string \<times> nat) list \<Rightarrow> string option" where
  "join_search def split visited [] = None"
| "join_search def split visited ((n, depth) # queue) =
     (if n \<in> set visited then join_search def split visited queue
      else if join_here def split n \<and> depth = 1 then Some n
      else join_search def split (n # visited)
             (queue @ successors def n (next_depth def split n depth)))"
  by pat_completeness auto

lemma search_universe_shrinks:
  assumes "n \<notin> set visited"
  shows "card ((set (all_targets def) \<union> fst ` set (queue @ successors def n d)) - set (n # visited))
       < card ((set (all_targets def) \<union> fst ` set ((n, dn) # queue)) - set visited)"
proof (rule psubset_card_mono)
  show "finite ((set (all_targets def) \<union> fst ` set ((n, dn) # queue)) - set visited)" by simp
  have "(set (all_targets def) \<union> fst ` set (queue @ successors def n d)) - set (n # visited)
      \<subseteq> (set (all_targets def) \<union> fst ` set ((n, dn) # queue)) - set visited"
    using successors_in_targets [of def n d] by auto
  moreover have "n \<in> (set (all_targets def) \<union> fst ` set ((n, dn) # queue)) - set visited"
    using assms by simp
  ultimately show "(set (all_targets def) \<union> fst ` set (queue @ successors def n d)) - set (n # visited)
      \<subset> (set (all_targets def) \<union> fst ` set ((n, dn) # queue)) - set visited"
    by auto
qed

lemma search_universe_mono:
  "n \<in> set visited \<Longrightarrow>
     card ((set (all_targets def) \<union> fst ` set queue) - set visited)
       = card ((set (all_targets def) \<union> fst ` set ((n, d) # queue)) - set visited)"
  by (rule arg_cong [where f = card]) auto

termination join_search
  by (relation "measures [\<lambda>(def, split, visited, queue).
        card ((set (all_targets def) \<union> fst ` set queue) - set visited),
        \<lambda>(def, split, visited, queue). length queue]")
     (auto simp: search_universe_mono search_universe_shrinks
       simp del: set_append image_Un set_simps Un_iff)

definition find_downstream_join :: "process_definition \<Rightarrow> string \<Rightarrow> string option" where
  "find_downstream_join def start_node =
     (case get_node def start_node of
        None \<Rightarrow> None
      | Some split \<Rightarrow> join_search def split [] (successors def start_node 1))"

section \<open>Facts about forking and joining\<close>

lemma fork_tokens_props:
  "fork_tokens ev vs ts n = (n', toks) \<Longrightarrow>
     n' = n + length ts \<and> map tk_node toks = ts \<and> (\<forall>t \<in> set toks. tk_vars t = vs \<and> \<not> tk_merged t) \<and>
     map tk_id toks = map (env_uuid_v4 ev) [n..<n + length ts]"
proof (induction ts arbitrary: n n' toks)
  case Nil
  then show ?case by simp
next
  case (Cons t ts)
  obtain m rest where f: "fork_tokens ev vs ts (Suc n) = (m, rest)" by fastforce
  from Cons.prems f have "n' = m" "toks = token_with_variables (env_uuid_v4 ev n) t vs # rest"
    by auto
  with Cons.IH [OF f] show ?case
    by (simp add: token_with_variables_def upt_conv_Cons del: upt_Suc)
qed

lemma fork_tokens_distinct:
  assumes "inj (env_uuid_v4 ev)" and "fork_tokens ev vs ts n = (n', toks)"
  shows "distinct (map tk_id toks)"
  using fork_tokens_props [OF assms(2)] assms(1)
  by (simp add: distinct_map inj_on_def inj_def del: upt_Suc)

text \<open>The tokens of a fork, flow by flow.\<close>

lemma fork_tokens_flows:
  "fork_tokens ev vs (map sf_target sfs) n =
     (n + length sfs,
      map (\<lambda>(k, sf). token_with_variables (env_uuid_v4 ev (n + k)) (sf_target sf) vs) (enumerate 0 sfs))"
proof (induction sfs arbitrary: n)
  case Nil
  then show ?case by simp
next
  case (Cons sf sfs)
  have "map (\<lambda>(k, sf). token_with_variables (env_uuid_v4 ev (n + k)) (sf_target sf) vs) (enumerate (Suc 0) sfs)
      = map (\<lambda>(k, sf). token_with_variables (env_uuid_v4 ev (Suc n + k)) (sf_target sf) vs) (enumerate 0 sfs)"
    by (rule nth_equalityI) (simp_all add: nth_enumerate_eq)
  with Cons.IH [of "Suc n"] show ?case by simp
qed

lemma split_to_flows:
  "split_to ev tok (map sf_target sfs) n =
     (case sfs of
        [sf] \<Rightarrow> (n, Ok (tok\<lparr>tk_node := sf_target sf\<rparr>, Continue (tok\<lparr>tk_node := sf_target sf\<rparr>)))
      | _ \<Rightarrow> (n + length sfs, Ok (tok, ContinueMultiple
                (map (\<lambda>(k, sf). token_with_variables (env_uuid_v4 ev (n + k)) (sf_target sf) (tk_vars tok))
                  (enumerate 0 sfs)))))"
proof (cases "\<exists>sf. sfs = [sf]")
  case True
  then show ?thesis by (auto simp: split_to_def)
next
  case False
  have "split_to ev tok (map sf_target sfs) n =
      (let (n', toks) = fork_tokens ev (tk_vars tok) (map sf_target sfs) n
       in (n', Ok (tok, ContinueMultiple toks)))"
    using False by (cases sfs; cases "tl sfs") (auto simp: split_to_def simp del: fork_tokens.simps)
  moreover have "(case sfs of [sf] \<Rightarrow> a sf | _ \<Rightarrow> b) = b" for a and b :: "nat \<times> (engine_error, token \<times> next_action) outcome"
    using False by (cases sfs; cases "tl sfs") auto
  ultimately show ?thesis by (simp add: fork_tokens_flows)
qed

inductive reaches :: "process_definition \<Rightarrow> string \<Rightarrow> string \<Rightarrow> bool" for def where
  reaches_flow: "sf \<in> set (next_nodes def a) \<Longrightarrow> reaches def a (sf_target sf)"
| reaches_step: "reaches def a b \<Longrightarrow> sf \<in> set (next_nodes def b) \<Longrightarrow> reaches def a (sf_target sf)"

lemma successors_reaches:
  "(m, k) \<in> set (successors def n d) \<Longrightarrow> reaches def a n \<Longrightarrow> reaches def a m"
  by (auto simp: successors_def intro: reaches_step)

lemma join_search_sound:
  assumes "join_search def split visited queue = Some j"
    and "\<And>m k. (m, k) \<in> set queue \<Longrightarrow> reaches def a m"
  shows "join_here def split j \<and> reaches def a j"
  using assms
proof (induction def split visited queue rule: join_search.induct)
  case (1 def split visited)
  then show ?case by simp
next
  case (2 def split visited n depth queue)
  have n: "reaches def a n" using 2(4) by auto
  consider (seen) "n \<in> set visited" | (found) "n \<notin> set visited" "join_here def split n \<and> depth = 1"
    | (go_on) "n \<notin> set visited" "\<not> (join_here def split n \<and> depth = 1)"
    by blast
  then show ?case
  proof cases
    case seen
    show ?thesis by (rule 2(1) [OF seen]) (use 2(3,4) seen in auto)
  next
    case found
    with 2(3) n show ?thesis by simp
  next
    case go_on
    show ?thesis
      by (rule 2(2) [OF go_on]) (use 2(3,4) go_on n successors_reaches in \<open>auto simp del: join_search.simps(1)\<close>)
  qed
qed

section \<open>Properties\<close>

text \<open>
  A parallel gateway with several incoming flows first collects its tokens; a merged token, or
  any token at a gateway that is no join, takes all outgoing flows: one flow moves the token, and
  otherwise every flow gets exactly one token, in order, with a copy of the variables and its own
  fresh UUID.
\<close>

theorem parallel_gateway_forks_all:
  "execute_parallel_gateway ev def g tok n =
     (if 2 \<le> incoming_flow_count def g \<and> \<not> tk_merged tok then (n, Ok (tok, WaitForJoin g tok))
      else case next_nodes def g of
             [sf] \<Rightarrow> (n, Ok (tok\<lparr>tk_merged := False, tk_node := sf_target sf\<rparr>,
                          Continue (tok\<lparr>tk_merged := False, tk_node := sf_target sf\<rparr>)))
           | _ \<Rightarrow> (n + length (next_nodes def g),
                   Ok (tok\<lparr>tk_merged := False\<rparr>,
                       ContinueMultiple (map (\<lambda>(k, sf). token_with_variables (env_uuid_v4 ev (n + k))
                         (sf_target sf) (tk_vars tok)) (enumerate 0 (next_nodes def g))))))"
  by (simp add: execute_parallel_gateway_def must_join_def split_to_flows cong: list.case_cong)

text \<open>
  C4. An exclusive gateway moves the token along the first flow, in definition order, whose
  condition holds; without one it takes the default; and without a default it fails, naming the
  gateway. It never forks.
\<close>

theorem exclusive_gateway_first_match:
  "execute_exclusive_gateway ev def g tok dflt =
     (let hits = filter (flow_matches ev (tk_vars tok)) (next_nodes def g)
      in case (hits, dflt) of
           (sf # rest, d) \<Rightarrow> Ok (tok\<lparr>tk_node := sf_target sf\<rparr>, Continue (tok\<lparr>tk_node := sf_target sf\<rparr>))
         | ([], Some t) \<Rightarrow> Ok (tok\<lparr>tk_node := t\<rparr>, Continue (tok\<lparr>tk_node := t\<rparr>))
         | ([], None) \<Rightarrow> Err (NoMatchingCondition g))"
proof -
  have "find p xs = (case filter p xs of [] \<Rightarrow> None | x # rest \<Rightarrow> Some x)" for p and xs :: "seq_flow list"
    by (induction xs) auto
  then show ?thesis
    by (auto simp: execute_exclusive_gateway_def Let_def split: list.split option.split)
qed

text \<open>
  C5. An inclusive gateway with several incoming flows first collects its tokens. Otherwise it takes
  exactly the unconditional flows and the flows whose condition holds: a single one moves the token
  itself, several get one new token each, in order, with the variables of the old one and UUIDs that
  differ; and it fails, naming the gateway, just when there is none.
\<close>

theorem inclusive_gateway_takes_all_matches:
  assumes "inj (env_uuid_v4 ev)" and "execute_inclusive_gateway ev def g tok n = (n', r)"
    and "taken = filter (\<lambda>sf. \<forall>c. sf_condition sf = Some c \<longrightarrow> evaluate_condition ev c (tk_vars tok)) (next_nodes def g)"
  shows "if 2 \<le> incoming_flow_count def g \<and> \<not> tk_merged tok then r = Ok (tok, WaitForJoin g tok)
    else case taken of
        [] \<Rightarrow> r = Err (NoMatchingCondition g)
      | [sf] \<Rightarrow> (let t = tok\<lparr>tk_merged := False, tk_node := sf_target sf\<rparr> in r = Ok (t, Continue t))
      | _ \<Rightarrow> (\<exists>toks. r = Ok (tok\<lparr>tk_merged := False\<rparr>, ContinueMultiple toks) \<and>
               map tk_node toks = map sf_target taken \<and> distinct (map tk_id toks) \<and>
               (\<forall>t \<in> set toks. tk_vars t = tk_vars tok \<and> \<not> tk_merged t))"
proof (cases "must_join def g tok")
  case True
  then show ?thesis using assms(2) by (auto simp: execute_inclusive_gateway_def must_join_def)
next
  case False
  have "(\<lambda>sf. \<forall>c. sf_condition sf = Some c \<longrightarrow> evaluate_condition ev c (tk_vars tok)) = inclusive_takes ev (tk_vars tok)"
    by (auto simp: inclusive_takes_def fun_eq_iff split: option.split)
  then have taken: "taken = filter (inclusive_takes ev (tk_vars tok)) (next_nodes def g)" using assms(3) by simp
  consider "taken = []" | sf where "taken = [sf]" | sf sf' sfs where "taken = sf # sf' # sfs"
    by (metis neq_Nil_conv)
  then show ?thesis
  proof cases
    case 1
    then show ?thesis using False assms(2) by (auto simp: execute_inclusive_gateway_def must_join_def taken Let_def)
  next
    case 2
    then show ?thesis
      using False assms(2) unfolding taken by (auto simp: execute_inclusive_gateway_def must_join_def split_to_def Let_def)
  next
    case 3
    obtain m toks where f: "fork_tokens ev (tk_vars tok) (map sf_target taken) n = (m, toks)" by fastforce
    have "r = Ok (tok\<lparr>tk_merged := False\<rparr>, ContinueMultiple toks)"
      using False assms(2) 3 f unfolding taken
      by (auto simp: execute_inclusive_gateway_def split_to_def Let_def split: prod.splits)
    with fork_tokens_props [OF f] fork_tokens_distinct [OF assms(1) f] False 3 show ?thesis
      by (auto simp: must_join_def)
  qed
qed

definition fork_definition :: process_definition where
  "fork_definition = ProcessDefinition 1 ''p'' 1 [(''g'', InclusiveGateway)]
     [(''g'', [simple_flow ''a'', simple_flow ''b''])] [] [] []"

text \<open>Plain functions for the other crates, and the in-memory backend.\<close>

definition memory_env :: "memory eenv" where
  "memory_env =
     \<lparr> env_as_f64 = (\<lambda>n. case n of JInt i \<Rightarrow> Some (of_int i) | JFloat q \<Rightarrow> Some q),
       env_uuid_v4 = Suc, env_uuid_str = show_nat, env_uuid_parse = (\<lambda>s. Some (digits_val 0 s)),
       env_rhai = (\<lambda>c s vs. ScriptScope []), env_cron_next = (\<lambda>s t. None),
       env_chrono_dur = (\<lambda>d. Some (int d)), env_td_seconds = (\<lambda>s. s * 10 ^ 9),
       ee_persist = (\<lambda>c m. (memory_step \<lparr> env_as_f64 = (\<lambda>n. None), env_uuid_v4 = Suc,
          env_uuid_str = show_nat, env_uuid_parse = (\<lambda>s. Some (digits_val 0 s)),
          env_rhai = (\<lambda>c s vs. ScriptTimedOut), env_cron_next = (\<lambda>s t. None),
          env_chrono_dur = (\<lambda>d. None), env_td_seconds = (\<lambda>s. s) \<rparr> c m, None)),
       ee_get_completed = (\<lambda>s m. Ok (tget (me_completed m) (digits_val 0 s))),
       ee_query_completed = (\<lambda>q m. Ok (query_completed_instances q m)),
       ee_ser_instance = (\<lambda>x. Some JNull), ee_inst_bytes = (\<lambda>x. Some 100) \<rparr>"

theorem inclusive_gateway_takes_all_matches_witness:
  "\<exists>toks. snd (execute_inclusive_gateway memory_env fork_definition ''g'' (token_new 3 ''g'') 5)
      = Ok (token_new 3 ''g'', ContinueMultiple toks) \<and>
    map tk_node toks = [''a'', ''b''] \<and> distinct (map tk_id toks)"
proof -
  have inj: "inj (env_uuid_v4 memory_env)" by (simp add: memory_env_def)
  have j: "\<not> 2 \<le> incoming_flow_count fork_definition ''g''"
    by (simp add: fork_definition_def incoming_flow_count_def incoming_count_def tvals_def simple_flow_def)
  have taken: "filter (\<lambda>sf. \<forall>c. sf_condition sf = Some c \<longrightarrow> evaluate_condition memory_env c (tk_vars (token_new 3 ''g'')))
      (next_nodes fork_definition ''g'') = [simple_flow ''a'', simple_flow ''b'']"
    by (simp add: fork_definition_def next_nodes_def outgoing_of_def tget_Cons simple_flow_def)
  obtain n' r where run: "execute_inclusive_gateway memory_env fork_definition ''g'' (token_new 3 ''g'') 5 = (n', r)"
    by fastforce
  from inclusive_gateway_takes_all_matches [OF inj run taken [symmetric]] j run show ?thesis
    by (auto simp: token_new_def simple_flow_def)
qed

text \<open>
  C6. The join found for a split is a node of the same gateway type with at least two incoming
  flows that the split reaches along sequence flows.
\<close>

theorem downstream_join_sound:
  assumes "find_downstream_join def s = Some j"
  shows "\<exists>split el. get_node def s = Some split \<and> get_node def j = Some el \<and>
    same_gateway_type split el \<and> 2 \<le> incoming_flow_count def j \<and> reaches def s j"
proof -
  from assms obtain split where s: "get_node def s = Some split"
    and j: "join_search def split [] (successors def s 1) = Some j"
    by (auto simp: find_downstream_join_def split: option.splits)
  have "reaches def s m" if "(m, k) \<in> set (successors def s 1)" for m k
    using that by (auto simp: successors_def intro: reaches_flow)
  from join_search_sound [OF j this] have "join_here def split j \<and> reaches def s j" .
  with s show ?thesis
    by (cases "get_node def j") (auto simp: join_here_def is_join_gateway_def)
qed

theorem downstream_join_sound_witness:
  "reaches (ProcessDefinition 1 ''p'' 1 [(''s'', ParallelGateway), (''j'', ParallelGateway)]
     [(''s'', [simple_flow ''j'', simple_flow ''j''])] [] [] []) ''s'' ''j''"
proof -
  have "find_downstream_join (ProcessDefinition 1 ''p'' 1 [(''s'', ParallelGateway), (''j'', ParallelGateway)]
     [(''s'', [simple_flow ''j'', simple_flow ''j''])] [] [] []) ''s'' = Some ''j''"
    by (simp add: find_downstream_join_def get_node_def tget_Cons successors_def next_nodes_def
        outgoing_of_def simple_flow_def join_here_def is_join_gateway_def incoming_flow_count_def
        incoming_count_def tvals_def same_gateway_type_def)
  from downstream_join_sound [OF this] show ?thesis by blast
qed

end
