(* ===== verification/Handlers.thy ===== *)
theory Handlers
  imports Gateways
begin

text \<open>
  The node handlers of \<open>engine/handlers\<close> and \<open>engine/boundary.rs\<close>: what one execution step does at
  each kind of node. A handler changes the instance and the pending tables and returns the action
  the executor performs next. A compensation throw runs a nested batch, which is its parameter.
\<close>

type_synonym ('p, 'a) result = "'p engine \<times> (engine_error, 'a) outcome"

text \<open>The nested call of \<open>run_instance_batch\<close>.\<close>

type_synonym 'p batch = "uuid \<Rightarrow> token \<Rightarrow> 'p engine \<Rightarrow> ('p, unit) result"

section \<open>Shared steps\<close>

text \<open>\<open>run_end_scripts\<close> of \<open>executor/completion.rs\<close>; the result is the changed token.\<close>

definition end_scripts ::
  "'p eenv \<Rightarrow> uuid \<Rightarrow> process_definition \<Rightarrow> string \<Rightarrow> token \<Rightarrow> 'p engine \<Rightarrow> ('p, token) result" where
  "end_scripts ev i def n tok e =
     (case inst_get e i of
        None \<Rightarrow> (e, Err (NoSuchInstance i))
      | Some x \<Rightarrow>
          (case run_end_scripts ev (en_script e) def n (tok, pi_audit x, pi_vars x) of
             ((tok', audit, vs), Ok u) \<Rightarrow> (inst_put i (x\<lparr>pi_audit := audit, pi_vars := vs\<rparr>) e, Ok tok')
           | (s, Err er) \<Rightarrow> (e, Err er)
           | (s, Diverged) \<Rightarrow> (e, Diverged)))"

definition note_at :: "string \<Rightarrow> msg \<Rightarrow> process_instance \<Rightarrow> process_instance" where
  "note_at n m x = push_audit_log m (x\<lparr>pi_node := n\<rparr>)"

definition store_token :: "token \<Rightarrow> process_instance \<Rightarrow> process_instance" where
  "store_token tok x = x\<lparr>pi_tokens := tput (tk_id tok) tok (pi_tokens x)\<rparr>"

text \<open>\<open>next_expiry(now).unwrap_or(now)\<close>\<close>

definition expiry_or_now :: "'p eenv \<Rightarrow> timer_def \<Rightarrow> time \<Rightarrow> time" where
  "expiry_or_now ev td now = (case next_expiry ev td now of None \<Rightarrow> now | Some t \<Rightarrow> t)"

definition make_timer :: "'p eenv \<Rightarrow> uuid \<Rightarrow> uuid \<Rightarrow> string \<Rightarrow> timer_def \<Rightarrow> uuid \<Rightarrow> time \<Rightarrow> pending_timer" where
  "make_timer ev u i n td t now =
     \<lparr> tm_id = u, tm_instance_id = i, tm_node_id = n, tm_expires_at = expiry_or_now ev td now,
       tm_token_id = t, tm_timer_def = Some td, tm_remaining = None \<rparr>"

definition make_message :: "uuid \<Rightarrow> uuid \<Rightarrow> string \<Rightarrow> string \<Rightarrow> uuid \<Rightarrow> message_catch" where
  "make_message u i n m t =
     \<lparr> mc_id = u, mc_instance_id = i, mc_node_id = n, mc_message_name = m, mc_token_id = t \<rparr>"

definition insert_timer :: "pending_timer \<Rightarrow> 'p engine \<Rightarrow> 'p engine" where
  "insert_timer t e = e\<lparr>en_timers := tput (tm_id t) t (en_timers e)\<rparr>"

definition insert_message :: "message_catch \<Rightarrow> 'p engine \<Rightarrow> 'p engine" where
  "insert_message c e = e\<lparr>en_messages := tput (mc_id c) c (en_messages e)\<rparr>"

section \<open>Boundary events (boundary.rs)\<close>

definition boundary_timers :: "process_definition \<Rightarrow> string \<Rightarrow> (string \<times> timer_def) list" where
  "boundary_timers def host =
     concat (map (\<lambda>(n, el). case el of
               BoundaryTimerEvent a td c \<Rightarrow> if a = host then [(n, td)] else []
             | _ \<Rightarrow> []) (pd_nodes def))"

definition boundary_messages :: "process_definition \<Rightarrow> string \<Rightarrow> (string \<times> string) list" where
  "boundary_messages def host =
     concat (map (\<lambda>(n, el). case el of
               BoundaryMessageEvent a m c \<Rightarrow> if a = host then [(n, m)] else []
             | _ \<Rightarrow> []) (pd_nodes def))"

text \<open>\<open>setup_boundary_events\<close>: the UUIDs are drawn timer by timer, then message by message.\<close>

definition setup_boundary_events ::
  "'p eenv \<Rightarrow> process_definition \<Rightarrow> string \<Rightarrow> uuid \<Rightarrow> token \<Rightarrow> time \<Rightarrow> nat
     \<Rightarrow> nat \<times> pending_timer list \<times> message_catch list" where
  "setup_boundary_events ev def host i tok now n =
     (let bt = boundary_timers def host; bm = boundary_messages def host
      in (n + length bt + length bm,
          map (\<lambda>(k, (m, td)). make_timer ev (env_uuid_v4 ev (n + k)) i m td (tk_id tok) now)
            (enumerate 0 bt),
          map (\<lambda>(k, (m, name)). make_message (env_uuid_v4 ev (n + length bt + k)) i m name (tk_id tok))
            (enumerate 0 bm)))"

text \<open>The first lines of the task handlers: create the boundary events and put them in the tables.\<close>

definition open_boundary_events ::
  "'p eenv \<Rightarrow> uuid \<Rightarrow> process_definition \<Rightarrow> string \<Rightarrow> token \<Rightarrow> 'p engine \<Rightarrow> 'p engine" where
  "open_boundary_events ev i def n tok e =
     (case setup_boundary_events ev def n i tok (en_now e) (en_draws e) of
        (d, ts, ms) \<Rightarrow> fold insert_message ms (fold insert_timer ts (e\<lparr>en_draws := d\<rparr>)))"

section \<open>Start, end and boundary events (handlers/events.rs)\<close>

text \<open>Leave a pass-through node: next target, end scripts, and the move of token and instance.\<close>

definition pass_through ::
  "'p eenv \<Rightarrow> uuid \<Rightarrow> token \<Rightarrow> process_definition \<Rightarrow> string \<Rightarrow> 'p engine \<Rightarrow> ('p, next_action) result" where
  "pass_through ev i tok def n e =
     bindR (liftR e (resolve_next_target ev def n (tk_vars tok))) (\<lambda>e next.
     bindR (end_scripts ev i def n tok e) (\<lambda>e tok.
     bindR (modify_instance i (\<lambda>x. x\<lparr>pi_node := next\<rparr>) e) (\<lambda>e u.
       (e, Ok (Continue (tok\<lparr>tk_node := next\<rparr>))))))"

definition handle_start_event ::
  "'p eenv \<Rightarrow> uuid \<Rightarrow> token \<Rightarrow> process_definition \<Rightarrow> string \<Rightarrow> 'p engine \<Rightarrow> ('p, next_action) result" where
  "handle_start_event ev i tok def n e = pass_through ev i tok def n e"

definition handle_boundary_event ::
  "'p eenv \<Rightarrow> uuid \<Rightarrow> token \<Rightarrow> process_definition \<Rightarrow> string \<Rightarrow> 'p engine \<Rightarrow> ('p, next_action) result" where
  "handle_boundary_event ev i tok def n e = pass_through ev i tok def n e"

text \<open>The end events run the end scripts, note where the path ended and return an action.\<close>

definition finish_at ::
  "'p eenv \<Rightarrow> uuid \<Rightarrow> token \<Rightarrow> process_definition \<Rightarrow> string \<Rightarrow> msg \<Rightarrow> next_action \<Rightarrow> 'p engine
     \<Rightarrow> ('p, next_action) result" where
  "finish_at ev i tok def n m action e =
     bindR (end_scripts ev i def n tok e) (\<lambda>e tok.
     bindR (modify_instance i (note_at n m) e) (\<lambda>e u. (e, Ok action)))"

definition handle_end_event ::
  "'p eenv \<Rightarrow> uuid \<Rightarrow> token \<Rightarrow> process_definition \<Rightarrow> string \<Rightarrow> 'p engine \<Rightarrow> ('p, next_action) result" where
  "handle_end_event ev i tok def n e =
     finish_at ev i tok def n (Msg ''Process completed at end event {}'' [AStr n]) Complete e"

definition handle_terminate_end_event ::
  "'p eenv \<Rightarrow> uuid \<Rightarrow> token \<Rightarrow> process_definition \<Rightarrow> string \<Rightarrow> 'p engine \<Rightarrow> ('p, next_action) result" where
  "handle_terminate_end_event ev i tok def n e =
     finish_at ev i tok def n
       (Msg ''Terminate end event {} - killing all active tokens'' [AStr n]) Terminate e"

definition handle_error_end_event ::
  "'p eenv \<Rightarrow> uuid \<Rightarrow> token \<Rightarrow> process_definition \<Rightarrow> string \<Rightarrow> string \<Rightarrow> 'p engine
     \<Rightarrow> ('p, next_action) result" where
  "handle_error_end_event ev i tok def n code e =
     finish_at ev i tok def n
       (Msg ''Process completed at error end {} with error {}'' [AStr n, AStr code]) (ErrorEnd code) e"

definition handle_escalation_end_event ::
  "'p eenv \<Rightarrow> uuid \<Rightarrow> token \<Rightarrow> process_definition \<Rightarrow> string \<Rightarrow> string \<Rightarrow> 'p engine
     \<Rightarrow> ('p, next_action) result" where
  "handle_escalation_end_event ev i tok def n code e =
     finish_at ev i tok def n
       (Msg ''Escalation end event {} with code {}'' [AStr n, AStr code]) (EscalationEnd code) e"

section \<open>Catch events\<close>

definition handle_timer_catch_event ::
  "'p eenv \<Rightarrow> uuid \<Rightarrow> token \<Rightarrow> string \<Rightarrow> timer_def \<Rightarrow> 'p engine \<Rightarrow> ('p, next_action) result" where
  "handle_timer_catch_event ev i tok n td e =
     (case draw ev e of (u, e) \<Rightarrow>
       bindR (modify_instance i
                (\<lambda>x. push_audit_log (Msg ''Timer catch event {} - waiting'' [AStr n])
                       (store_token tok (x\<lparr>pi_node := n\<rparr>))) e) (\<lambda>e' w.
         (e', Ok (WaitForTimer (make_timer ev u i n td (tk_id tok) (en_now e))))))"

definition handle_message_catch_event ::
  "'p eenv \<Rightarrow> uuid \<Rightarrow> token \<Rightarrow> string \<Rightarrow> string \<Rightarrow> 'p engine \<Rightarrow> ('p, next_action) result" where
  "handle_message_catch_event ev i tok n message_name e =
     (case draw ev e of (u, e) \<Rightarrow>
       bindR (modify_instance i
                (\<lambda>x. push_audit_log
                       (Msg ''Message catch event {} waiting for {}'' [AStr n, AStr message_name])
                       (store_token tok (x\<lparr>pi_node := n\<rparr>))) e) (\<lambda>e' w.
         (e', Ok (WaitForMessage (make_message u i n message_name (tk_id tok))))))"

section \<open>Escalation\<close>

definition handle_escalation_throw_event ::
  "'p eenv \<Rightarrow> uuid \<Rightarrow> token \<Rightarrow> process_definition \<Rightarrow> string \<Rightarrow> string \<Rightarrow> 'p engine
     \<Rightarrow> ('p, next_action) result" where
  "handle_escalation_throw_event ev i tok0 def n code e =
     bindR (end_scripts ev i def n tok0 e) (\<lambda>e1 tok.
     let e2 = record_history_event ev i HEscalationThrown
                (Msg ''Escalation {} thrown at {}'' [AStr code, AStr n]) ActorEngine None None e1
     in case find_any_boundary_escalation_event def code of
          Some (boundary_id, attached_to, cancel) \<Rightarrow>
            bindR (liftR e2 (resolve_next_target ev def boundary_id (tk_vars tok))) (\<lambda>e3 handler.
              if cancel then
                bindR (modify_instance i
                    (\<lambda>x. (push_audit_log (Msg ''Escalation {} caught (interrupting) by {}''
                            [AStr code, AStr boundary_id]) x)\<lparr>pi_node := handler\<rparr>) e3) (\<lambda>e4 u.
                  (e4, Ok (Continue (tok\<lparr>tk_node := handler\<rparr>))))
              else
                (case draw ev e3 of (w, e4) \<Rightarrow>
                  bindR (liftR e4 (resolve_next_target ev def n (tk_vars tok))) (\<lambda>e5 next.
                  bindR (modify_instance i
                      (\<lambda>x. (push_audit_log
                              (Msg ''Escalation {} caught (non-interrupting) by {} - spawned handler token''
                                [AStr code, AStr boundary_id]) x)\<lparr>pi_node := next\<rparr>) e5) (\<lambda>e6 u.
                    (e6, Ok (SpawnAndContinue (tok\<lparr>tk_node := next\<rparr>)
                               [token_with_variables w handler (tk_vars tok)]))))))
        | None \<Rightarrow>
            bindR (liftR e2 (resolve_next_target ev def n (tk_vars tok))) (\<lambda>e3 next.
            bindR (modify_instance i
                (\<lambda>x. (push_audit_log (Msg ''Escalation {} thrown at {} - no handler found, continuing''
                        [AStr code, AStr n]) x)\<lparr>pi_node := next\<rparr>) e3) (\<lambda>e4 u.
              (e4, Ok (Continue (tok\<lparr>tk_node := next\<rparr>))))))"

section \<open>Compensation\<close>

text \<open>The handlers to run: those of one activity, or all of them, the last registered first.\<close>

definition compensation_handlers ::
  "string option \<Rightarrow> compensation_record list \<Rightarrow> compensation_record list" where
  "compensation_handlers activity_ref recs =
     (case activity_ref of
        Some target \<Rightarrow> filter (\<lambda>r. cr_activity_id r = target) recs
      | None \<Rightarrow> rev recs)"

definition clear_compensation ::
  "string option \<Rightarrow> compensation_record list \<Rightarrow> compensation_record list" where
  "clear_compensation activity_ref recs =
     (case activity_ref of
        Some target \<Rightarrow> filter (\<lambda>r. cr_activity_id r \<noteq> target) recs
      | None \<Rightarrow> [])"

text \<open>The loop over the handlers; each runs a batch and the token takes over the variables.\<close>

fun run_compensation ::
  "'p eenv \<Rightarrow> 'p batch \<Rightarrow> uuid \<Rightarrow> process_definition \<Rightarrow> compensation_record list \<Rightarrow> token
     \<Rightarrow> 'p engine \<Rightarrow> ('p, token) result" where
  "run_compensation ev rec i def [] tok e = (e, Ok tok)"
| "run_compensation ev rec i def (r # rs) tok e =
     (if get_node def (cr_handler_node_id r) = None then run_compensation ev rec i def rs tok e
      else
        (case draw ev e of (u, e1) \<Rightarrow>
          bindR (rec i (token_with_variables u (cr_handler_node_id r) (tk_vars tok)) e1) (\<lambda>e2 w.
            run_compensation ev rec i def rs
              (case inst_get e2 i of None \<Rightarrow> tok | Some x \<Rightarrow> tok\<lparr>tk_vars := pi_vars x\<rparr>) e2)))"

definition handle_compensation_throw_event ::
  "'p eenv \<Rightarrow> 'p batch \<Rightarrow> uuid \<Rightarrow> token \<Rightarrow> process_definition \<Rightarrow> string \<Rightarrow> string option \<Rightarrow> bool
     \<Rightarrow> 'p engine \<Rightarrow> ('p, next_action) result" where
  "handle_compensation_throw_event ev rec i tok0 def n activity_ref is_end_event e =
     bindR (end_scripts ev i def n tok0 e) (\<lambda>e1 tok1.
     bindR (read_instance i e1) (\<lambda>e2 x.
     let handlers = compensation_handlers activity_ref (pi_comp_log x); count = length handlers
     in bindR (modify_instance i
            (\<lambda>x. (push_audit_log (Msg ''Compensation triggered at {} - {} handler(s) to execute''
                    [AStr n, ANat count]) x)\<lparr>pi_node := n\<rparr>) e2) (\<lambda>e3 u.
        let e4 = record_history_event ev i HCompensationTriggered
                   (Msg ''Compensation triggered at {} ({} handlers)'' [AStr n, ANat count])
                   ActorEngine None None e3
        in bindR (run_compensation ev rec i def handlers tok1 e4) (\<lambda>e5 tok.
           bindR (modify_instance i
               (\<lambda>x. push_audit_log (Msg ''Compensation completed - {} handler(s) executed'' [ANat count])
                      (x\<lparr>pi_comp_log := clear_compensation activity_ref (pi_comp_log x)\<rparr>)) e5) (\<lambda>e6 u.
             if is_end_event then (e6, Ok Complete)
             else
               bindR (liftR e6 (resolve_next_target ev def n (tk_vars tok))) (\<lambda>e7 next.
               bindR (modify_instance i (\<lambda>x. x\<lparr>pi_node := next\<rparr>) e7) (\<lambda>e8 u.
                 (e8, Ok (Continue (tok\<lparr>tk_node := next\<rparr>))))))))))"

definition register_compensation_handler ::
  "uuid \<Rightarrow> string \<Rightarrow> process_definition \<Rightarrow> 'p engine \<Rightarrow> 'p engine" where
  "register_compensation_handler i activity_id def e =
     (case find_compensation_handler def activity_id of
        None \<Rightarrow> e
      | Some handler \<Rightarrow>
          touch_instance i
            (\<lambda>x. push_audit_log (Msg ''Registered compensation handler {} for activity {}''
                   [AStr handler, AStr activity_id])
                   (x\<lparr>pi_comp_log := pi_comp_log x @
                       [\<lparr> cr_activity_id = activity_id, cr_handler_node_id = handler \<rparr>]\<rparr>)) e)"

section \<open>The handlers keep the invariant\<close>

lemma keeps_read [keeps_intro]: "engine_wf e \<Longrightarrow> keeps engine_wf (read_instance i e)"
  by (simp add: read_instance_def keeps_def)

text \<open>A read followed by its use, with what the invariant says of the instance read.\<close>

lemma keeps_bind_read:
  assumes "engine_wf e"
    and "\<And>x. inst_get e i = Some x \<Longrightarrow> inst_wf x \<Longrightarrow> pi_id x = i \<Longrightarrow> keeps engine_wf (k e x)"
  shows "keeps engine_wf (bindR (read_instance i e) k)"
proof (cases "inst_get e i")
  case None
  with assms(1) show ?thesis by (simp add: read_instance_def keeps_def)
next
  case (Some x)
  with assms(2) [OF Some] engine_wf_inst [OF assms(1) Some] show ?thesis
    by (simp add: read_instance_def)
qed

lemma keeps_modify [keeps_intro]:
  "engine_wf e \<Longrightarrow> inst_keeps f \<Longrightarrow> keeps engine_wf (modify_instance i f e)"
  by (auto simp: modify_instance_def keeps_def inst_keeps_def split: option.splits
      intro!: engine_wf_put dest: engine_wf_inst)

lemma keeps_draw [keeps_intro]:
  "engine_wf e \<Longrightarrow> (\<And>u e'. engine_wf e' \<Longrightarrow> keeps engine_wf (f u e')) \<Longrightarrow>
     keeps engine_wf (case draw ev e of (u, e') \<Rightarrow> f u e')"
  using same_tables_wf [OF same_tables_draw, of e ev] by (cases "draw ev e") auto

lemma end_scripts_wf [keeps_intro]: "engine_wf e \<Longrightarrow> keeps engine_wf (end_scripts ev i def n tok e)"
proof (cases "inst_get e i")
  case None
  then show "engine_wf e \<Longrightarrow> ?thesis" by (simp add: end_scripts_def keeps_def)
next
  case (Some x)
  obtain tok' a vs r where "run_end_scripts ev (en_script e) def n (tok, pi_audit x, pi_vars x) = ((tok', a, vs), r)"
    by (metis prod.exhaust)
  then show "engine_wf e \<Longrightarrow> ?thesis"
    using engine_wf_inst [of e i x] Some
    by (cases r) (auto simp: end_scripts_def keeps_def inst_wf_def intro!: engine_wf_put)
qed

lemma inst_keeps_comp: "inst_keeps f \<Longrightarrow> inst_keeps g \<Longrightarrow> inst_keeps (\<lambda>x. f (g x))"
  by (simp add: inst_keeps_def)

lemma store_token_id [simp]: "pi_id (store_token tok x) = pi_id x"
  by (simp add: store_token_def)

lemma inst_wf_store [simp]: "inst_wf x \<Longrightarrow> inst_wf (store_token tok x)"
  by (auto simp: inst_wf_def store_token_def tget_tput split: if_splits)

lemma inst_wf_push [simp]: "inst_wf (push_audit_log m x) = inst_wf x"
  by (simp add: inst_wf_def)

lemma inst_wf_simple [simp]:
  "inst_wf (x\<lparr>pi_node := n\<rparr>) = inst_wf x"
  "inst_wf (x\<lparr>pi_vars := vs\<rparr>) = inst_wf x"
  "inst_wf (x\<lparr>pi_audit := a\<rparr>) = inst_wf x"
  "inst_wf (x\<lparr>pi_comp_log := c\<rparr>) = inst_wf x"
  "inst_wf (x\<lparr>pi_active := act\<rparr>) = inst_wf x"
  "inst_wf (x\<lparr>pi_completed_at := t\<rparr>) = inst_wf x"
  "inst_wf (x\<lparr>pi_business_key := b\<rparr>) = inst_wf x"
  "inst_wf (x\<lparr>pi_mi := mi\<rparr>) = inst_wf x"
  "inst_wf (x\<lparr>pi_definition_key := k\<rparr>) = inst_wf x"
  by (simp_all add: inst_wf_def)

lemma inst_wf_state [simp]: "inst_wf x \<Longrightarrow> state_ok s \<Longrightarrow> inst_wf (x\<lparr>pi_state := s\<rparr>)"
  by (simp add: inst_wf_def)

lemma inst_wf_tdel [simp]: "inst_wf x \<Longrightarrow> inst_wf (x\<lparr>pi_tokens := tdel t (pi_tokens x)\<rparr>)"
  by (auto simp: inst_wf_def tget_tdel split: if_splits)

lemma inst_wf_barriers [simp]: "inst_wf x \<Longrightarrow> wf_table b \<Longrightarrow> inst_wf (x\<lparr>pi_barriers := b\<rparr>)"
  by (simp add: inst_wf_def)

lemma note_at_wf [simp]: "inst_wf (note_at n m x) = inst_wf x" "pi_id (note_at n m x) = pi_id x"
  by (simp_all add: note_at_def)

lemma insert_timer_wf [wf_intro]: "engine_wf e \<Longrightarrow> engine_wf (insert_timer t e)"
  by (auto simp: insert_timer_def intro!: engine_wf_timers dest: engine_wf_tables)

lemma insert_message_wf [wf_intro]: "engine_wf e \<Longrightarrow> engine_wf (insert_message c e)"
  by (auto simp: insert_message_def intro!: engine_wf_messages dest: engine_wf_tables)

lemma engine_wf_fold: "(\<And>x e. engine_wf e \<Longrightarrow> engine_wf (f x e)) \<Longrightarrow> engine_wf e \<Longrightarrow> engine_wf (fold f xs e)"
  by (induction xs arbitrary: e) auto

lemma open_boundary_events_wf [wf_intro]:
  "engine_wf e \<Longrightarrow> engine_wf (open_boundary_events ev i def n tok e)"
  by (auto simp: open_boundary_events_def split: prod.splits intro!: engine_wf_fold wf_intro)

lemma register_compensation_handler_wf [wf_intro]:
  "engine_wf e \<Longrightarrow> engine_wf (register_compensation_handler i n def e)"
  by (auto simp: register_compensation_handler_def inst_keeps_def split: option.splits intro!: wf_intro)

lemma pass_through_wf [keeps_intro]: "engine_wf e \<Longrightarrow> keeps engine_wf (pass_through ev i tok def n e)"
  by (auto simp: pass_through_def inst_keeps_def intro!: keeps_intro)

lemma finish_at_wf [keeps_intro]: "engine_wf e \<Longrightarrow> keeps engine_wf (finish_at ev i tok def n m a e)"
  by (auto simp: finish_at_def inst_keeps_def intro!: keeps_intro)

lemma catch_events_wf [keeps_intro]:
  "engine_wf e \<Longrightarrow> keeps engine_wf (handle_timer_catch_event ev i tok n td e)"
  "engine_wf e \<Longrightarrow> keeps engine_wf (handle_message_catch_event ev i tok n name e)"
  by (auto simp: handle_timer_catch_event_def handle_message_catch_event_def inst_keeps_def
      intro!: keeps_intro dest: draw_wf)

lemma escalation_throw_wf [keeps_intro]:
  "engine_wf e \<Longrightarrow> keeps engine_wf (handle_escalation_throw_event ev i tok def n code e)"
  unfolding handle_escalation_throw_event_def Let_def
  by (intro keeps_intro wf_intro) (auto simp: inst_keeps_def intro: wf_intro)

text \<open>
  The interface between a handler and the batch it may start: whatever the nested batch does, it
  keeps the invariant. The operations that start batches are proved correct from this alone.
\<close>

locale nested_batch =
  fixes rec :: "'p batch"
  assumes rec_wf: "engine_wf e \<Longrightarrow> keeps engine_wf (rec i t e)"
begin

lemma run_compensation_wf: "engine_wf e \<Longrightarrow> keeps engine_wf (run_compensation ev rec i def rs tok e)"
proof (induction rs arbitrary: tok e)
  case Nil
  then show ?case by (simp add: keeps_def)
next
  case (Cons r rs)
  then show ?case by (auto intro!: keeps_intro rec_wf Cons.IH dest: draw_wf)
qed

lemma compensation_throw_wf:
  "engine_wf e \<Longrightarrow> keeps engine_wf (handle_compensation_throw_event ev rec i tok def n r is_end e)"
  unfolding handle_compensation_throw_event_def Let_def
  by (intro keeps_intro wf_intro run_compensation_wf) (auto simp: inst_keeps_def intro: wf_intro)

end

end
