(* ===== verification/TaskHandlers.thy ===== *)
theory TaskHandlers
  imports Handlers
begin

text \<open>
  The handlers of gateways (\<open>handlers/gateways.rs\<close>), tasks (\<open>handlers/tasks.rs\<close>) and sub-processes
  (\<open>handlers/sub_processes.rs\<close>), and the dispatch of one execution step (\<open>executor/mod.rs\<close>).
\<close>

section \<open>Gateways\<close>

text \<open>A gateway function on the UUID counter of the engine.\<close>

definition with_draws ::
  "(nat \<Rightarrow> nat \<times> (engine_error, 'a) outcome) \<Rightarrow> 'p engine \<Rightarrow> ('p, 'a) result" where
  "with_draws f e = (case f (en_draws e) of (n, r) \<Rightarrow> (e\<lparr>en_draws := n\<rparr>, r))"

text \<open>The note of a fork, made only when several tokens continue.\<close>

definition note_fork :: "uuid \<Rightarrow> string \<Rightarrow> string \<Rightarrow> next_action \<Rightarrow> 'p engine \<Rightarrow> ('p, next_action) result" where
  "note_fork i n template action e =
     (case action of
        ContinueMultiple toks \<Rightarrow>
          bindR (modify_instance i (note_at n (Msg template [AStr n, ANat (length toks)])) e)
            (\<lambda>e u. (e, Ok action))
      | _ \<Rightarrow> (e, Ok action))"

definition handle_parallel_gateway ::
  "'p eenv \<Rightarrow> uuid \<Rightarrow> token \<Rightarrow> process_definition \<Rightarrow> string \<Rightarrow> 'p engine \<Rightarrow> ('p, next_action) result" where
  "handle_parallel_gateway ev i tok0 def n e =
     bindR (end_scripts ev i def n tok0 e) (\<lambda>e tok.
     bindR (with_draws (execute_parallel_gateway ev def n tok) e) (\<lambda>e ta.
       note_fork i n ''Parallel gateway {} - forked to {} path(s)'' (snd ta) e))"

definition handle_exclusive_gateway ::
  "'p eenv \<Rightarrow> uuid \<Rightarrow> token \<Rightarrow> process_definition \<Rightarrow> string \<Rightarrow> string option \<Rightarrow> 'p engine
     \<Rightarrow> ('p, next_action) result" where
  "handle_exclusive_gateway ev i tok0 def n dflt e =
     bindR (end_scripts ev i def n tok0 e) (\<lambda>e tok.
     bindR (liftR e (execute_exclusive_gateway ev def n tok dflt)) (\<lambda>e ta.
     bindR (modify_instance i
         (\<lambda>x. (push_audit_log (Msg ''Exclusive gateway {} - took path to {}'' [AStr n, AStr (tk_node (fst ta))])
                 x)\<lparr>pi_node := tk_node (fst ta)\<rparr>) e) (\<lambda>e u.
       (e, Ok (snd ta)))))"

definition handle_inclusive_gateway ::
  "'p eenv \<Rightarrow> uuid \<Rightarrow> token \<Rightarrow> process_definition \<Rightarrow> string \<Rightarrow> 'p engine \<Rightarrow> ('p, next_action) result" where
  "handle_inclusive_gateway ev i tok0 def n e =
     bindR (end_scripts ev i def n tok0 e) (\<lambda>e tok.
     bindR (with_draws (execute_inclusive_gateway ev def n tok) e) (\<lambda>e ta.
       note_fork i n ''Inclusive gateway {} - forked to {} path(s)'' (snd ta) e))"

definition handle_complex_gateway ::
  "'p eenv \<Rightarrow> uuid \<Rightarrow> token \<Rightarrow> process_definition \<Rightarrow> string \<Rightarrow> string option \<Rightarrow> 'p engine
     \<Rightarrow> ('p, next_action) result" where
  "handle_complex_gateway ev i tok0 def n dflt e =
     bindR (end_scripts ev i def n tok0 e) (\<lambda>e tok.
     bindR (with_draws (execute_complex_gateway ev def n tok dflt) e) (\<lambda>e ta.
       case snd ta of
         Continue next \<Rightarrow>
           bindR (modify_instance i
               (\<lambda>x. (push_audit_log (Msg ''Complex gateway {} - took path to {}'' [AStr n, AStr (tk_node next)])
                       x)\<lparr>pi_node := tk_node next\<rparr>) e) (\<lambda>e u.
             (e, Ok (snd ta)))
       | _ \<Rightarrow> note_fork i n ''Complex gateway {} - forked to {} path(s)'' (snd ta) e))"

text \<open>The wait actions of an event-based gateway, one per catch event behind it.\<close>

fun event_group ::
  "'p eenv \<Rightarrow> uuid \<Rightarrow> process_definition \<Rightarrow> uuid \<Rightarrow> time \<Rightarrow> seq_flow list \<Rightarrow> nat
     \<Rightarrow> nat \<times> (engine_error, next_action list) outcome" where
  "event_group ev i def t now [] n = (n, Ok [])"
| "event_group ev i def t now (sf # sfs) n =
     (case get_node def (sf_target sf) of
        None \<Rightarrow> event_group ev i def t now sfs n
      | Some (TimerCatchEvent td) \<Rightarrow>
          bindR (event_group ev i def t now sfs (Suc n)) (\<lambda>m acts.
            (m, Ok (WaitForTimer (make_timer ev (env_uuid_v4 ev n) i (sf_target sf) td t now) # acts)))
      | Some (MessageCatchEvent name) \<Rightarrow>
          bindR (event_group ev i def t now sfs (Suc n)) (\<lambda>m acts.
            (m, Ok (WaitForMessage (make_message (env_uuid_v4 ev n) i (sf_target sf) name t) # acts)))
      | Some el \<Rightarrow>
          (n, Err (InvalidDefinition
             (Msg ''EventBasedGateway target {} is not a catch event'' [AStr (sf_target sf)]))))"

definition handle_event_based_gateway ::
  "'p eenv \<Rightarrow> uuid \<Rightarrow> token \<Rightarrow> process_definition \<Rightarrow> string \<Rightarrow> 'p engine \<Rightarrow> ('p, next_action) result" where
  "handle_event_based_gateway ev i tok0 def n e =
     bindR (end_scripts ev i def n tok0 e) (\<lambda>e tok.
     bindR (with_draws (event_group ev i def (tk_id tok) (en_now e) (next_nodes def n)) e) (\<lambda>e actions.
     bindR (modify_instance i
         (\<lambda>x. push_audit_log (Msg ''Event-based gateway {} waiting for {} alternative events''
                 [AStr n, ANat (length actions)]) (store_token tok (x\<lparr>pi_node := n\<rparr>))) e) (\<lambda>e u.
       (e, Ok (WaitForEventGroup actions)))))"

section \<open>Tasks\<close>

definition business_key_of :: "process_instance \<Rightarrow> string option" where
  "business_key_of x = (if pi_business_key x = [] then None else Some (pi_business_key x))"

definition handle_user_task ::
  "'p eenv \<Rightarrow> uuid \<Rightarrow> token \<Rightarrow> process_definition \<Rightarrow> string \<Rightarrow> string \<Rightarrow> 'p engine
     \<Rightarrow> ('p, next_action) result" where
  "handle_user_task ev i tok def n assignee e =
     bindR (read_instance i (open_boundary_events ev i def n tok e)) (\<lambda>e x.
       case draw ev e of (u, e1) \<Rightarrow>
         bindR (modify_instance i
             (\<lambda>x. push_audit_log (Msg ''User task {} assigned to {} - waiting (task_id: {})''
                     [AStr n, AStr assignee, AId u]) (store_token tok (x\<lparr>pi_node := n\<rparr>))) e1) (\<lambda>e2 w.
           (e2, Ok (WaitForUser
              \<lparr> ut_task_id = u, ut_instance_id = i, ut_node_id = n, ut_assignee = assignee,
                ut_token_id = tk_id tok, ut_created_at = en_now e1,
                ut_business_key = business_key_of x \<rparr>))))"

definition handle_script_task ::
  "'p eenv \<Rightarrow> uuid \<Rightarrow> token \<Rightarrow> process_definition \<Rightarrow> string \<Rightarrow> string \<Rightarrow> 'p engine
     \<Rightarrow> ('p, next_action) result" where
  "handle_script_task ev i tok0 def n script e =
     bindR (liftR e (execute_script_safe ev (en_script e) script (tk_vars tok0))) (\<lambda>e vs.
     bindR (end_scripts ev i def n (tok0\<lparr>tk_vars := vs\<rparr>) e) (\<lambda>e tok.
     let e1 = register_compensation_handler i n def e
     in bindR (liftR e1 (resolve_next_target ev def n (tk_vars tok))) (\<lambda>e next.
        bindR (modify_instance i
            (\<lambda>x. push_audit_log (Msg ''Script task {} executed'' [AStr n])
                   (x\<lparr>pi_node := next, pi_vars := tk_vars tok\<rparr>)) e) (\<lambda>e u.
          (e, Ok (Continue (tok\<lparr>tk_node := next\<rparr>)))))))"

definition handle_send_task ::
  "'p eenv \<Rightarrow> uuid \<Rightarrow> token \<Rightarrow> process_definition \<Rightarrow> string \<Rightarrow> string \<Rightarrow> 'p engine
     \<Rightarrow> ('p, next_action) result" where
  "handle_send_task ev i tok0 def n message_name e =
     bindR (end_scripts ev i def n tok0 e) (\<lambda>e tok.
     bindR (liftR e (resolve_next_target ev def n (tk_vars tok))) (\<lambda>e next.
     bindR (modify_instance i
         (\<lambda>x. push_audit_log (Msg ''Send task {} published message {}'' [AStr n, AStr message_name])
                (x\<lparr>pi_node := next\<rparr>)) e) (\<lambda>e u.
       (e, Ok (Continue (tok\<lparr>tk_node := next\<rparr>))))))"

definition new_service_task ::
  "uuid \<Rightarrow> uuid \<Rightarrow> process_definition \<Rightarrow> string \<Rightarrow> string \<Rightarrow> token \<Rightarrow> time \<Rightarrow> process_instance
     \<Rightarrow> service_task" where
  "new_service_task u i def n topic tok now x =
     \<lparr> st_id = u, st_instance_id = i, st_definition_key = pd_key def, st_node_id = n, st_topic = topic,
       st_token_id = tk_id tok, st_business_key = business_key_of x, st_variables_snapshot = tk_vars tok,
       st_created_at = now, st_worker_id = None, st_lock_expiration = None, st_retries = 3,
       st_error_message = None, st_error_details = None \<rparr>"

definition handle_service_task ::
  "'p eenv \<Rightarrow> uuid \<Rightarrow> token \<Rightarrow> process_definition \<Rightarrow> string \<Rightarrow> string \<Rightarrow> 'p engine
     \<Rightarrow> ('p, next_action) result" where
  "handle_service_task ev i tok def n topic e =
     bindR (read_instance i (open_boundary_events ev i def n tok e)) (\<lambda>e x.
       case draw ev e of (u, e1) \<Rightarrow>
         bindR (modify_instance i
             (\<lambda>x. push_audit_log (Msg ''Service task {} created for topic {} (task_id: {})''
                     [AStr n, AStr topic, AId u]) (store_token tok (x\<lparr>pi_node := n\<rparr>))) e1) (\<lambda>e2 w.
           (e2, Ok (WaitForServiceTask (new_service_task u i def n topic tok (en_now e1) x)))))"

section \<open>Sub-processes\<close>

definition handle_call_activity ::
  "'p eenv \<Rightarrow> uuid \<Rightarrow> token \<Rightarrow> process_definition \<Rightarrow> string \<Rightarrow> string \<Rightarrow> 'p engine
     \<Rightarrow> ('p, next_action) result" where
  "handle_call_activity ev i tok def n called_element e =
     bindR (modify_instance i
         (note_at n (Msg ''Call Activity {} invoking {}'' [AStr n, AStr called_element]))
         (open_boundary_events ev i def n tok e)) (\<lambda>e u.
       (e, Ok (WaitForCallActivity called_element tok)))"

definition handle_embedded_sub_process ::
  "token \<Rightarrow> string \<Rightarrow> 'p engine \<Rightarrow> ('p, next_action) result" where
  "handle_embedded_sub_process tok start_node_id e = (e, Ok (Continue (tok\<lparr>tk_node := start_node_id\<rparr>)))"

definition handle_sub_process_end_event ::
  "'p eenv \<Rightarrow> token \<Rightarrow> process_definition \<Rightarrow> string \<Rightarrow> 'p engine \<Rightarrow> ('p, next_action) result" where
  "handle_sub_process_end_event ev tok def sub_process_id e =
     bindR (liftR e (resolve_next_target ev def sub_process_id (tk_vars tok))) (\<lambda>e next.
       (e, Ok (Continue (tok\<lparr>tk_node := next\<rparr>))))"

section \<open>One execution step (executor/mod.rs)\<close>

definition dispatch_element ::
  "'p eenv \<Rightarrow> 'p batch \<Rightarrow> uuid \<Rightarrow> token \<Rightarrow> process_definition \<Rightarrow> string \<Rightarrow> element \<Rightarrow> 'p engine
     \<Rightarrow> ('p, next_action) result" where
  "dispatch_element ev rec i tok def n el e =
     (case el of
        StartEvent \<Rightarrow> handle_start_event ev i tok def n e
      | TimerStartEvent td \<Rightarrow> handle_start_event ev i tok def n e
      | MessageStartEvent m \<Rightarrow> handle_start_event ev i tok def n e
      | EndEvent \<Rightarrow> handle_end_event ev i tok def n e
      | TerminateEndEvent \<Rightarrow> handle_terminate_end_event ev i tok def n e
      | ErrorEndEvent code \<Rightarrow> handle_error_end_event ev i tok def n code e
      | UserTask assignee \<Rightarrow> handle_user_task ev i tok def n assignee e
      | ScriptTask script mi \<Rightarrow> handle_script_task ev i tok def n script e
      | SendTask name mi \<Rightarrow> handle_send_task ev i tok def n name e
      | ServiceTask topic mi \<Rightarrow> handle_service_task ev i tok def n topic e
      | ParallelGateway \<Rightarrow> handle_parallel_gateway ev i tok def n e
      | ExclusiveGateway dflt \<Rightarrow> handle_exclusive_gateway ev i tok def n dflt e
      | InclusiveGateway \<Rightarrow> handle_inclusive_gateway ev i tok def n e
      | ComplexGateway jc dflt \<Rightarrow> handle_complex_gateway ev i tok def n dflt e
      | EventBasedGateway \<Rightarrow> handle_event_based_gateway ev i tok def n e
      | TimerCatchEvent td \<Rightarrow> handle_timer_catch_event ev i tok n td e
      | MessageCatchEvent name \<Rightarrow> handle_message_catch_event ev i tok n name e
      | CallActivity called \<Rightarrow> handle_call_activity ev i tok def n called e
      | EmbeddedSubProcess s \<Rightarrow> handle_embedded_sub_process tok s e
      | SubProcessEndEvent s \<Rightarrow> handle_sub_process_end_event ev tok def s e
      | EscalationEndEvent code \<Rightarrow> handle_escalation_end_event ev i tok def n code e
      | EscalationThrowEvent code \<Rightarrow> handle_escalation_throw_event ev i tok def n code e
      | CompensationThrowEvent r \<Rightarrow> handle_compensation_throw_event ev rec i tok def n r False e
      | CompensationEndEvent r \<Rightarrow> handle_compensation_throw_event ev rec i tok def n r True e
      | BoundaryTimerEvent a td c \<Rightarrow> handle_boundary_event ev i tok def n e
      | BoundaryMessageEvent a m c \<Rightarrow> handle_boundary_event ev i tok def n e
      | BoundaryErrorEvent a c \<Rightarrow> handle_boundary_event ev i tok def n e
      | BoundaryEscalationEvent a c x \<Rightarrow> handle_boundary_event ev i tok def n e
      | BoundaryCompensationEvent a \<Rightarrow> (e, Ok Complete))"

definition execute_step ::
  "'p eenv \<Rightarrow> 'p batch \<Rightarrow> uuid \<Rightarrow> token \<Rightarrow> 'p engine \<Rightarrow> ('p, next_action) result" where
  "execute_step ev rec i tok e =
     bindR (read_instance i e) (\<lambda>e x.
     bindR (liftR e (ok_or (NoSuchDefinition (pi_definition_key x)) (reg_get e (pi_definition_key x))))
       (\<lambda>e def.
     let n = tk_node tok
     in bindR (liftR e (ok_or (NoSuchNode n) (get_node def n))) (\<lambda>e el.
        case run_node_scripts ev (en_script e) def n LStart (tok, []) of
          ((tok1, audits), r) \<Rightarrow>
            bindR (liftR e r) (\<lambda>e u.
              dispatch_element ev rec i tok1 def n el
                (touch_instance i
                  (\<lambda>x. x\<lparr>pi_audit := pi_audit x @ audits,
                         pi_vars := (if tget (pd_listeners def) n \<noteq> None then tk_vars tok1 else pi_vars x)\<rparr>)
                  e)))))"

section \<open>A step keeps the invariant\<close>

lemma with_draws_wf [keeps_intro]: "engine_wf e \<Longrightarrow> keeps engine_wf (with_draws f e)"
  by (auto simp: with_draws_def keeps_def split: prod.splits intro: wf_intro)

lemma note_fork_wf [keeps_intro]: "engine_wf e \<Longrightarrow> keeps engine_wf (note_fork i n m a e)"
  by (cases a) (auto simp: note_fork_def inst_keeps_def intro!: keeps_intro)

lemma gateway_handlers_wf [keeps_intro]:
  assumes "engine_wf e"
  shows "keeps engine_wf (handle_parallel_gateway ev i tok def n e)"
    "keeps engine_wf (handle_inclusive_gateway ev i tok def n e)"
    "keeps engine_wf (handle_event_based_gateway ev i tok def n e)"
  using assms
  by (auto simp: handle_parallel_gateway_def handle_inclusive_gateway_def
      handle_event_based_gateway_def inst_keeps_def intro!: keeps_intro)

lemma exclusive_gateway_wf [keeps_intro]:
  "engine_wf e \<Longrightarrow> keeps engine_wf (handle_exclusive_gateway ev i tok def n d e)"
  by (auto simp: handle_exclusive_gateway_def inst_keeps_def intro!: keeps_intro)

lemma complex_gateway_wf [keeps_intro]:
  "engine_wf e \<Longrightarrow> keeps engine_wf (handle_complex_gateway ev i tok def n d e)"
proof -
  have "keeps engine_wf (case a of
         Continue next \<Rightarrow>
           bindR (modify_instance i
               (\<lambda>x. (push_audit_log (m next) x)\<lparr>pi_node := tk_node next\<rparr>) e') (\<lambda>e u. (e, Ok a))
       | _ \<Rightarrow> note_fork i n s a e')" if "engine_wf e'" for a m s e'
    using that by (cases a) (auto simp: inst_keeps_def intro!: keeps_intro)
  then show "engine_wf e \<Longrightarrow> ?thesis"
    unfolding handle_complex_gateway_def by (intro keeps_intro)
qed

lemma task_handlers_wf [keeps_intro]:
  assumes "engine_wf e"
  shows "keeps engine_wf (handle_user_task ev i tok def n a e)"
    "keeps engine_wf (handle_script_task ev i tok def n a e)"
    "keeps engine_wf (handle_send_task ev i tok def n a e)"
    "keeps engine_wf (handle_service_task ev i tok def n a e)"
    "keeps engine_wf (handle_call_activity ev i tok def n a e)"
    "keeps engine_wf (handle_embedded_sub_process tok a e)"
    "keeps engine_wf (handle_sub_process_end_event ev tok def a e)"
  using assms
  by (auto simp: handle_user_task_def handle_script_task_def handle_send_task_def handle_service_task_def
      handle_call_activity_def handle_embedded_sub_process_def handle_sub_process_end_event_def
      inst_keeps_def Let_def intro!: keeps_intro wf_intro dest: draw_wf)

context nested_batch begin

lemma dispatch_element_wf: "engine_wf e \<Longrightarrow> keeps engine_wf (dispatch_element ev rec i tok def n el e)"
  by (cases el)
     (auto simp: dispatch_element_def handle_start_event_def handle_boundary_event_def
        handle_end_event_def handle_terminate_end_event_def handle_error_end_event_def
        handle_escalation_end_event_def intro!: keeps_intro compensation_throw_wf)

lemma execute_step_wf: "engine_wf e \<Longrightarrow> keeps engine_wf (execute_step ev rec i tok e)"
  unfolding execute_step_def Let_def
  by (intro keeps_intro dispatch_element_wf wf_intro) (auto simp: inst_keeps_def)

end

end
