(* ===== verification/Executor.thy ===== *)
theory Executor
  imports TaskHandlers
begin

text \<open>
  The executor: tokens and joins (\<open>executor/parallel.rs\<close>, \<open>executor/completion.rs\<close>), the effect of
  each action (\<open>executor/next_action.rs\<close>), the start of instances and the return from a call
  activity (\<open>process_start.rs\<close>), and the batch loop (\<open>executor/mod.rs\<close>). The loop is bounded by
  the step limit of the source; the nesting of batches through compensation and call activities
  has no bound in the source, so the depth is fuel and running out of it is \<open>Diverged\<close>.
\<close>

section \<open>Tokens and branches (completion.rs)\<close>

definition complete_active :: "uuid \<Rightarrow> process_instance \<Rightarrow> process_instance" where
  "complete_active t x =
     x\<lparr>pi_active := update_first (\<lambda>a. tk_id (at_token a) = t) (\<lambda>a. a\<lparr>at_completed := True\<rparr>) (pi_active x)\<rparr>"

definition complete_branch_token :: "uuid \<Rightarrow> uuid \<Rightarrow> 'p engine \<Rightarrow> ('p, unit) result" where
  "complete_branch_token i t e = modify_instance i (complete_active t) e"

definition all_completed :: "process_instance \<Rightarrow> bool" where
  "all_completed x \<longleftrightarrow>
     pi_tokens x = [] \<and> (pi_active x = [] \<or> (\<forall>a \<in> set (pi_active x). at_completed a))"

definition all_tokens_completed :: "uuid \<Rightarrow> 'p engine \<Rightarrow> ('p, bool) result" where
  "all_tokens_completed i e = bindR (read_instance i e) (\<lambda>e x. (e, Ok (all_completed x)))"

section \<open>Forks and joins (parallel.rs)\<close>

text \<open>The instance and its definition, as each operation looks them up.\<close>

definition instance_definition :: "uuid \<Rightarrow> 'p engine \<Rightarrow> ('p, process_instance \<times> process_definition) result" where
  "instance_definition i e =
     bindR (read_instance i e) (\<lambda>e x.
     bindR (liftR e (ok_or (NoSuchDefinition (pi_definition_key x)) (reg_get e (pi_definition_key x))))
       (\<lambda>e def. (e, Ok (x, def))))"

definition new_barrier :: "string \<Rightarrow> nat \<Rightarrow> join_barrier" where
  "new_barrier j n = \<lparr> jb_gateway_node_id = j, jb_expected_count = n, jb_arrived_tokens = [] \<rparr>"

definition register_join_barrier_if_needed :: "uuid \<Rightarrow> string \<Rightarrow> nat \<Rightarrow> 'p engine \<Rightarrow> ('p, unit) result" where
  "register_join_barrier_if_needed i split_id branch_count e =
     bindR (instance_definition i e) (\<lambda>e xd.
       case find_downstream_join (snd xd) split_id of
         None \<Rightarrow> (e, Ok ())
       | Some j \<Rightarrow>
           modify_instance i
             (\<lambda>x. x\<lparr>pi_barriers := tput j (new_barrier j branch_count) (pi_barriers x)\<rparr>) e)"

definition register_active_token :: "uuid \<Rightarrow> string \<Rightarrow> nat \<Rightarrow> token \<Rightarrow> 'p engine \<Rightarrow> ('p, unit) result" where
  "register_active_token i fork_id branch_index tok e =
     modify_instance i
       (\<lambda>x. x\<lparr>pi_active := pi_active x @
              [\<lparr> at_token = tok, at_fork_id = Some fork_id, at_branch_index = branch_index,
                 at_completed = False \<rparr>]\<rparr>) e"

text \<open>\<open>for t in tokens { vars.extend(t.variables) }\<close>: later arrivals win.\<close>

definition merge_vars :: "token list \<Rightarrow> vars" where
  "merge_vars toks = fold (\<lambda>t acc. textend acc (tk_vars t)) toks []"

definition join_condition_of :: "process_definition \<Rightarrow> string \<Rightarrow> string option" where
  "join_condition_of def g =
     (case get_node def g of Some (ComplexGateway jc d) \<Rightarrow> jc | _ \<Rightarrow> None)"

text \<open>The arrival at a barrier: the barrier entered, or made, with the token added.\<close>

definition arrived_barrier :: "process_instance \<Rightarrow> string \<Rightarrow> nat \<Rightarrow> token \<Rightarrow> join_barrier" where
  "arrived_barrier x g structural_expected tok =
     (let b = (case tget (pi_barriers x) g of None \<Rightarrow> new_barrier g structural_expected | Some b \<Rightarrow> b)
      in b\<lparr>jb_arrived_tokens := jb_arrived_tokens b @ [tok]\<rparr>)"

definition note_arrival ::
  "'p eenv \<Rightarrow> process_definition \<Rightarrow> string \<Rightarrow> join_barrier \<Rightarrow> process_instance \<Rightarrow> process_instance \<times> bool" where
  "note_arrival ev def g b x =
     (let x1 = x\<lparr>pi_barriers := tput g b (pi_barriers x),
                 pi_audit := pi_audit x @ [Msg ''Token arrived at join {} ({}/{})''
                   [AStr g, ANat (length (jb_arrived_tokens b)), ANat (jb_expected_count b)]]\<rparr>
      in case join_condition_of def g of
           None \<Rightarrow> (x1, False)
         | Some c \<Rightarrow>
             if evaluate_condition ev c (merge_vars (jb_arrived_tokens b)) then
               (x1\<lparr>pi_audit := pi_audit x1 @
                   [Msg ''Complex gateway join condition met early at {}'' [AStr g]]\<rparr>, True)
             else (x1, False))"

text \<open>The firing of a join: the barrier is removed and the arrived tokens complete.\<close>

definition fire_join :: "string \<Rightarrow> join_barrier \<Rightarrow> process_instance \<Rightarrow> process_instance" where
  "fire_join g b x =
     (let x1 = fold complete_active (map tk_id (jb_arrived_tokens b))
                 (x\<lparr>pi_barriers := tdel g (pi_barriers x)\<rparr>)
      in x1\<lparr>pi_audit := pi_audit x1 @ [Msg ''Join {} completed. Tokens merged.'' [AStr g]]\<rparr>)"

definition arrive_at_join ::
  "'p eenv \<Rightarrow> uuid \<Rightarrow> string \<Rightarrow> token \<Rightarrow> 'p engine \<Rightarrow> ('p, token option) result" where
  "arrive_at_join ev i g tok e0 =
     bindR (instance_definition i e0) (\<lambda>e xd.
       case xd of (x, def) \<Rightarrow>
         (let b = arrived_barrier x g (incoming_flow_count def g) tok;
              (x1, condition_met) = note_arrival ev def g b x;
              arrived = length (jb_arrived_tokens b)
          in if arrived \<ge> jb_expected_count b \<or> condition_met then
               (case draw ev (inst_put i (fire_join g b x1) e) of (u, e1) \<Rightarrow>
                  (record_history_event ev i HTokenJoined
                     (Msg ''Joined {} tokens at {}'' [ANat arrived, AStr g]) ActorEngine None None e1,
                   Ok (Some ((token_with_variables u g (merge_vars (jb_arrived_tokens b)))
                              \<lparr>tk_merged := True\<rparr>))))
             else (inst_put i x1 e, Ok None)))"

section \<open>Starting instances (process\_start.rs)\<close>

definition validate_start_request :: "uuid \<Rightarrow> 'p engine \<Rightarrow> (engine_error, process_definition \<times> string) outcome" where
  "validate_start_request dk e =
     and_then (ok_or (NoSuchDefinition dk) (reg_get e dk)) (\<lambda>def.
     and_then (ok_or (InvalidDefinition (Msg ''No start event'' [])) (start_event def)) (\<lambda>se.
       case snd se of
         TimerStartEvent td \<Rightarrow>
           Err (InvalidDefinition (Msg ''Use trigger_timer_start() for timer start events'' []))
       | _ \<Rightarrow> Ok (def, fst se)))"

definition initial_instance ::
  "uuid \<Rightarrow> uuid \<Rightarrow> string \<Rightarrow> string \<Rightarrow> vars \<Rightarrow> uuid option \<Rightarrow> msg \<Rightarrow> time \<Rightarrow> process_instance" where
  "initial_instance dk i bkey start_id vs parent m now =
     \<lparr> pi_id = i, pi_definition_key = dk, pi_business_key = bkey, pi_parent = parent, pi_state = Running,
       pi_node = start_id, pi_audit = [m], pi_vars = vs, pi_tokens = [], pi_active = [],
       pi_barriers = [], pi_mi = [], pi_comp_log = [], pi_started_at = Some now, pi_completed_at = None \<rparr>"

text \<open>
  \<open>build_initial_instance\<close>; it draws a UUID for a business key that its caller overwrites.
\<close>

definition build_initial_instance ::
  "'p eenv \<Rightarrow> uuid \<Rightarrow> uuid \<Rightarrow> string \<Rightarrow> vars \<Rightarrow> uuid option \<Rightarrow> time \<Rightarrow> nat \<Rightarrow> nat \<times> process_instance" where
  "build_initial_instance ev dk i start_id vs parent now n =
     (Suc n, initial_instance dk i (env_uuid_str ev (env_uuid_v4 ev n)) start_id vs parent
        (Msg ''Process started at node {} with {} variable(s)'' [AStr start_id, ANat (length vs)]) now)"

text \<open>\<open>variables.remove("business_key")\<close>, a text or else a fresh UUID.\<close>

definition take_business_key :: "'p eenv \<Rightarrow> vars \<Rightarrow> nat \<Rightarrow> nat \<times> string" where
  "take_business_key ev vs n =
     (case tget vs ''business_key'' of
        Some (JStr s) \<Rightarrow> (n, s)
      | _ \<Rightarrow> (Suc n, env_uuid_str ev (env_uuid_v4 ev n)))"

definition register_scope_listener :: "'p eenv \<Rightarrow> uuid \<Rightarrow> scope_listener \<Rightarrow> 'p engine \<Rightarrow> 'p engine" where
  "register_scope_listener ev i l e =
     (case l of
        SLTimer td intr target \<Rightarrow>
          (case draw ev e of (u, e1) \<Rightarrow> insert_timer (make_timer ev u i target td uuid_nil (en_now e)) e1)
      | SLMessage name intr target \<Rightarrow>
          (case draw ev e of (u, e1) \<Rightarrow> insert_message (make_message u i target name uuid_nil) e1)
      | SLError code target \<Rightarrow> e)"

definition start_with_parent ::
  "'p eenv \<Rightarrow> 'p batch \<Rightarrow> uuid \<Rightarrow> vars \<Rightarrow> uuid option \<Rightarrow> 'p engine \<Rightarrow> ('p, uuid) result" where
  "start_with_parent ev rec dk variables parent e0 =
     bindR (liftR e0 (validate_start_request dk e0)) (\<lambda>e ds.
       case ds of (def, start_id) \<Rightarrow>
       (case draw ev e of (i, e1) \<Rightarrow>
       (case take_business_key ev variables (en_draws e1) of (n2, bkey) \<Rightarrow>
       (let vs = tdel ''business_key'' variables in
       (case build_initial_instance ev dk i start_id vs parent (en_now e1) n2 of (n3, x0) \<Rightarrow>
       (let e2 = inst_put i (x0\<lparr>pi_business_key := bkey\<rparr>) (e1\<lparr>en_draws := n3\<rparr>);
            e3 = record_history_event ev i HInstanceStarted
                   (Msg ''Started instance of process {}'' [AStr (pd_id def)]) ActorEngine None None e2
        in case draw ev e3 of (u, e4) \<Rightarrow>
          (let e5 = fold (register_scope_listener ev i) (pd_event_listeners def) e4
           in bindR (rec i (token_with_variables u start_id vs) e5) (\<lambda>e6 w.
                (persist_instance ev i e6, Ok i)))))))))"

text \<open>\<open>spawn_call_activity\<close>\<close>

definition spawn_call_activity ::
  "'p eenv \<Rightarrow> 'p batch \<Rightarrow> uuid \<Rightarrow> uuid \<Rightarrow> string \<Rightarrow> vars \<Rightarrow> 'p engine \<Rightarrow> ('p, uuid) result" where
  "spawn_call_activity ev rec child_key parent called_node vs e =
     bindR (start_with_parent ev rec child_key vs (Some parent) e) (\<lambda>e child.
       (record_history_event ev parent HCallActivityStarted
          (Msg ''Started Call Activity {} (child instance {})'' [AStr called_node, AId child])
          ActorEngine None None e, Ok child))"

section \<open>Actions (next\_action.rs)\<close>

text \<open>Each action works on the engine and the queue of tokens of the running batch.\<close>

text \<open>\<open>ContinueMultiple\<close>: a barrier at the downstream join, the parent token done, the forks queued.\<close>

fun register_forks :: "uuid \<Rightarrow> string \<Rightarrow> nat \<Rightarrow> token list \<Rightarrow> token list \<Rightarrow> 'p engine \<Rightarrow> ('p, token list) result" where
  "register_forks i g k [] queue e = (e, Ok queue)"
| "register_forks i g k (t # ts) queue e =
     bindR (register_active_token i g k t e) (\<lambda>e u. register_forks i g (Suc k) ts (queue @ [t]) e)"

definition enter_parallel :: "uuid \<Rightarrow> string \<Rightarrow> nat \<Rightarrow> process_instance \<Rightarrow> process_instance" where
  "enter_parallel t g branch_count x =
     (let x1 = complete_active t x
      in x1\<lparr>pi_state := ParallelExecution (length (pi_active x1) + branch_count), pi_node := g\<rparr>)"

definition act_continue_multiple ::
  "uuid \<Rightarrow> uuid \<Rightarrow> string \<Rightarrow> token list \<Rightarrow> token list \<Rightarrow> 'p engine \<Rightarrow> ('p, token list) result" where
  "act_continue_multiple i t g forked queue e =
     bindR (register_join_barrier_if_needed i g (length forked) e) (\<lambda>e u.
       register_forks i g 0 forked queue (touch_instance i (enter_parallel t g (length forked)) e))"

definition act_wait_for_join ::
  "'p eenv \<Rightarrow> uuid \<Rightarrow> string \<Rightarrow> token \<Rightarrow> token list \<Rightarrow> 'p engine \<Rightarrow> ('p, token list) result" where
  "act_wait_for_join ev i g tok queue e =
     bindR (arrive_at_join ev i g tok e) (\<lambda>e merged.
       case merged of
         None \<Rightarrow> (e, Ok queue)
       | Some m \<Rightarrow> (touch_instance i (\<lambda>x. x\<lparr>pi_state := Running, pi_node := g\<rparr>) e, Ok (queue @ [m])))"

text \<open>The wait states; a parallel execution keeps its state.\<close>

definition wait_in :: "instance_state \<Rightarrow> process_instance \<Rightarrow> process_instance" where
  "wait_in s x = (if is_parallel (pi_state x) then x else x\<lparr>pi_state := s\<rparr>)"

definition act_wait_for_user :: "'p eenv \<Rightarrow> uuid \<Rightarrow> user_task \<Rightarrow> 'p engine \<Rightarrow> 'p engine" where
  "act_wait_for_user ev i t e =
     (let e1 = touch_instance i (wait_in (WaitingOnUserTask (ut_task_id t))) e;
          e2 = e1\<lparr>en_user := tput (ut_task_id t) t (en_user e1)\<rparr>
      in emit_event EvTaskChanged (persist_instance ev i (persist_user_task ev (ut_task_id t) e2)))"

definition act_wait_for_service :: "'p eenv \<Rightarrow> uuid \<Rightarrow> service_task \<Rightarrow> 'p engine \<Rightarrow> 'p engine" where
  "act_wait_for_service ev i t e =
     (let e1 = touch_instance i (wait_in (WaitingOnServiceTask (st_id t))) e;
          e2 = e1\<lparr>en_service := tput (st_id t) t (en_service e1)\<rparr>
      in emit_event EvTaskChanged (persist_instance ev i (persist_service_task ev (st_id t) e2)))"

definition act_wait_for_timer :: "'p eenv \<Rightarrow> uuid \<Rightarrow> pending_timer \<Rightarrow> 'p engine \<Rightarrow> 'p engine" where
  "act_wait_for_timer ev i t e =
     (let e1 = insert_timer t (touch_instance i (wait_in (WaitingOnTimer (tm_id t))) e)
      in persist_instance ev i (persist_timer ev (tm_id t) e1))"

definition act_wait_for_message :: "'p eenv \<Rightarrow> uuid \<Rightarrow> message_catch \<Rightarrow> 'p engine \<Rightarrow> 'p engine" where
  "act_wait_for_message ev i c e =
     (let e1 = insert_message c (touch_instance i (wait_in (WaitingOnMessage (mc_id c))) e)
      in persist_instance ev i (persist_message_catch ev (mc_id c) e1))"

fun open_group_event :: "'p eenv \<Rightarrow> next_action \<Rightarrow> 'p engine \<Rightarrow> 'p engine" where
  "open_group_event ev (WaitForTimer t) e = persist_timer ev (tm_id t) (insert_timer t e)"
| "open_group_event ev (WaitForMessage c) e = persist_message_catch ev (mc_id c) (insert_message c e)"
| "open_group_event ev _ e = e"

definition act_wait_for_group :: "'p eenv \<Rightarrow> uuid \<Rightarrow> next_action list \<Rightarrow> 'p engine \<Rightarrow> 'p engine" where
  "act_wait_for_group ev i actions e =
     persist_instance ev i
       (fold (open_group_event ev) actions (touch_instance i (wait_in WaitingOnEventBasedGateway) e))"

text \<open>
  \<open>WaitForCallActivity\<close>: the definition is the first of that BPMN id in the order of the table. An
  error of the child is only traced; a child that never returns keeps the parent from returning.
\<close>

definition set_sub_instance :: "uuid \<Rightarrow> process_instance \<Rightarrow> process_instance" where
  "set_sub_instance child x =
     (case pi_state x of
        WaitingOnCallActivity s tok \<Rightarrow> x\<lparr>pi_state := WaitingOnCallActivity child tok\<rparr>
      | _ \<Rightarrow> x)"

definition act_wait_for_call ::
  "'p eenv \<Rightarrow> 'p batch \<Rightarrow> uuid \<Rightarrow> string \<Rightarrow> token \<Rightarrow> token list \<Rightarrow> 'p engine \<Rightarrow> ('p, token list) result" where
  "act_wait_for_call ev rec i called tok queue e =
     (case find_by_bpmn_id e called of
        None \<Rightarrow> (persist_instance ev i e, Ok queue)
      | Some (child_key, d) \<Rightarrow>
          (case draw ev e of (sub, e1) \<Rightarrow>
          (case spawn_call_activity ev rec child_key i (tk_node tok) (tk_vars tok)
                  (touch_instance i (wait_in (WaitingOnCallActivity sub tok)) e1) of
             (e2, Ok child) \<Rightarrow> (persist_instance ev i (touch_instance i (set_sub_instance child) e2), Ok queue)
           | (e2, Err er) \<Rightarrow> (persist_instance ev i e2, Ok queue)
           | (e2, Diverged) \<Rightarrow> (e2, Diverged))))"

text \<open>
  The ends of a path: the branch is done, its token leaves the store, and the instance ends when
  no token is left. \<open>conclude\<close> is what the three kinds of end write then.
\<close>

definition end_path ::
  "'p eenv \<Rightarrow> uuid \<Rightarrow> uuid \<Rightarrow> (time \<Rightarrow> process_instance \<Rightarrow> process_instance) \<Rightarrow> msg \<Rightarrow> 'p engine
     \<Rightarrow> ('p, unit) result" where
  "end_path ev i t conclude m e =
     bindR (complete_branch_token i t e) (\<lambda>e u.
     bindR (all_tokens_completed i (touch_instance i (\<lambda>x. x\<lparr>pi_tokens := tdel t (pi_tokens x)\<rparr>) e))
       (\<lambda>e done.
       let e1 = (if done then
                   record_history_event ev i HInstanceCompleted m ActorEngine None None
                     (touch_instance i (conclude (en_now e)) e)
                 else e)
       in (persist_instance ev i e1, Ok ())))"

definition act_complete :: "'p eenv \<Rightarrow> uuid \<Rightarrow> uuid \<Rightarrow> 'p engine \<Rightarrow> ('p, unit) result" where
  "act_complete ev i t e =
     end_path ev i t
       (\<lambda>now x. x\<lparr>pi_state := Completed, pi_completed_at := Some now,
                  pi_audit := pi_audit x @ [Msg ''All tokens completed. Process fully completed.'' []]\<rparr>)
       (Msg ''Process fully completed'' []) e"

definition act_error_end :: "'p eenv \<Rightarrow> uuid \<Rightarrow> uuid \<Rightarrow> string \<Rightarrow> 'p engine \<Rightarrow> ('p, unit) result" where
  "act_error_end ev i t code e =
     end_path ev i t
       (\<lambda>now x. x\<lparr>pi_state := CompletedWithError code, pi_completed_at := Some now,
                  pi_audit := pi_audit x @ [Msg ''All tokens completed at Error End with code {}'' [AStr code]]\<rparr>)
       (Msg ''Process completed with error code {}'' [AStr code]) e"

definition act_escalation_end :: "'p eenv \<Rightarrow> uuid \<Rightarrow> uuid \<Rightarrow> string \<Rightarrow> 'p engine \<Rightarrow> ('p, unit) result" where
  "act_escalation_end ev i t code e =
     end_path ev i t
       (\<lambda>now x. push_audit_log (Msg ''All tokens completed with escalation {}'' [AStr code])
                  (x\<lparr>pi_state := Completed, pi_completed_at := Some now\<rparr>))
       (Msg ''Process completed via escalation {}'' [AStr code]) e"

definition act_terminate :: "'p eenv \<Rightarrow> uuid \<Rightarrow> 'p engine \<Rightarrow> 'p engine" where
  "act_terminate ev i e =
     (let e1 = e\<lparr>en_user := tretain (\<lambda>k t. ut_instance_id t \<noteq> i) (en_user e),
                 en_service := tretain (\<lambda>k t. st_instance_id t \<noteq> i) (en_service e),
                 en_timers := tretain (\<lambda>k t. tm_instance_id t \<noteq> i) (en_timers e),
                 en_messages := tretain (\<lambda>k m. mc_instance_id m \<noteq> i) (en_messages e)\<rparr>;
          e2 = touch_instance i
                 (\<lambda>x. x\<lparr>pi_active := map (\<lambda>a. a\<lparr>at_completed := True\<rparr>) (pi_active x),
                        pi_state := Completed, pi_completed_at := Some (en_now e),
                        pi_audit := pi_audit x @ [Msg ''Process terminated. All tokens killed.'' []]\<rparr>) e1;
          e3 = record_history_event ev i HInstanceCompleted
                 (Msg ''Process terminated via TerminateEndEvent'' []) ActorEngine None None e2
      in persist_instance ev i e3)"

definition act_multi_instance_fork ::
  "uuid \<Rightarrow> uuid \<Rightarrow> string \<Rightarrow> token list \<Rightarrow> token list \<Rightarrow> 'p engine \<Rightarrow> ('p, token list) result" where
  "act_multi_instance_fork i t n toks queue e =
     bindR (modify_instance i
         (\<lambda>x. let x1 = complete_active t
                    (x\<lparr>pi_barriers := tput (''MI_JOIN_'' @ n) (new_barrier (''MI_JOIN_'' @ n) (length toks))
                         (pi_barriers x)\<rparr>)
              in x1\<lparr>pi_state := ParallelExecution (length (pi_active x1) + length toks)\<rparr>) e) (\<lambda>e u.
       register_forks i n 0 toks queue e)"

text \<open>An operation that changes the engine only, with the queue unchanged.\<close>

definition keep_queue :: "token list \<Rightarrow> ('p, unit) result \<Rightarrow> ('p, token list) result" where
  "keep_queue queue r = bindR r (\<lambda>e u. (e, Ok queue))"

definition handle_next_action ::
  "'p eenv \<Rightarrow> 'p batch \<Rightarrow> next_action \<Rightarrow> uuid \<Rightarrow> uuid \<Rightarrow> string \<Rightarrow> token list \<Rightarrow> 'p engine
     \<Rightarrow> ('p, token list) result" where
  "handle_next_action ev rec action i t g queue e =
     (case action of
        Continue tok \<Rightarrow> (e, Ok (queue @ [tok]))
      | ContinueMultiple toks \<Rightarrow> act_continue_multiple i t g toks queue e
      | WaitForJoin gid tok \<Rightarrow> act_wait_for_join ev i gid tok queue e
      | WaitForUser ut \<Rightarrow> (act_wait_for_user ev i ut e, Ok queue)
      | WaitForServiceTask st \<Rightarrow> (act_wait_for_service ev i st e, Ok queue)
      | WaitForTimer tm \<Rightarrow> (act_wait_for_timer ev i tm e, Ok queue)
      | WaitForMessage mc \<Rightarrow> (act_wait_for_message ev i mc e, Ok queue)
      | WaitForEventGroup actions \<Rightarrow> (act_wait_for_group ev i actions e, Ok queue)
      | WaitForCallActivity called tok \<Rightarrow> act_wait_for_call ev rec i called tok queue e
      | Complete \<Rightarrow> keep_queue queue (act_complete ev i t e)
      | ErrorEnd code \<Rightarrow> keep_queue queue (act_error_end ev i t code e)
      | EscalationEnd code \<Rightarrow> keep_queue queue (act_escalation_end ev i t code e)
      | SpawnAndContinue main spawned \<Rightarrow> (e, Ok (queue @ [main] @ spawned))
      | Terminate \<Rightarrow> (act_terminate ev i e, Ok [])
      | MultiInstanceFork n toks \<Rightarrow> act_multi_instance_fork i t n toks queue e
      | MultiInstanceNext n tok \<Rightarrow> (e, Ok (queue @ [tok])))"

section \<open>Return from a call activity (process\_start.rs)\<close>

text \<open>
  The parent under its lock: it runs again, and the token to resume takes over the variables of
  the child; an active token of the branch is preferred to the token kept in the state.
\<close>

definition awaits_call :: "string \<Rightarrow> active_token \<Rightarrow> bool" where
  "awaits_call n a \<longleftrightarrow> tk_node (at_token a) = n \<and> \<not> at_completed a"

definition take_over :: "vars \<Rightarrow> token \<Rightarrow> token" where
  "take_over vs tok = tok\<lparr>tk_vars := textend (tk_vars tok) vs\<rparr>"

definition wake_parent :: "vars \<Rightarrow> token \<Rightarrow> process_instance \<Rightarrow> process_instance \<times> token" where
  "wake_parent child_vars tok parent =
     (let called = pi_node parent;
          p1 = push_audit_log (Msg ''Call Activity {} completed successfully'' [AStr called])
                 (parent\<lparr>pi_state := Running\<rparr>)
      in case find (awaits_call called) (pi_active p1) of
           Some a \<Rightarrow>
             (p1\<lparr>pi_active := update_first (awaits_call called)
                   (\<lambda>a. a\<lparr>at_token := take_over child_vars (at_token a)\<rparr>) (pi_active p1)\<rparr>,
              take_over child_vars (at_token a))
         | None \<Rightarrow> (p1, take_over child_vars tok))"

text \<open>
  The unhandled error of a child. The lock of the parent is still held when \<open>persist_instance\<close>
  asks for it again: with a backend attached the call never returns.
\<close>

definition parent_incident ::
  "uuid \<Rightarrow> uuid \<Rightarrow> token \<Rightarrow> string \<Rightarrow> 'p engine \<Rightarrow> ('p, unit) result" where
  "parent_incident parent child tok code e =
     bindR (modify_instance parent
         (\<lambda>x. push_audit_log (Msg ''INCIDENT: Child {} failed with unhandled BPMN error {}'' [AId child, AStr code])
                (x\<lparr>pi_state := WaitingOnCallActivity child tok\<rparr>)) e) (\<lambda>e u.
       if en_store e \<noteq> None then (e, Diverged) else (e, Ok ()))"

definition continue_parent ::
  "'p eenv \<Rightarrow> 'p batch \<Rightarrow> uuid \<Rightarrow> token \<Rightarrow> string \<Rightarrow> 'p engine \<Rightarrow> ('p, unit) result" where
  "continue_parent ev rec parent tok next e =
     rec parent (tok\<lparr>tk_node := next\<rparr>) (touch_instance parent (\<lambda>x. x\<lparr>pi_node := next\<rparr>) e)"

definition call_script_failed :: "'p eenv \<Rightarrow> uuid \<Rightarrow> string \<Rightarrow> engine_error \<Rightarrow> 'p engine \<Rightarrow> 'p engine" where
  "call_script_failed ev parent called er e =
     persist_instance ev parent
       (touch_instance parent
         (\<lambda>x. push_audit_log
                (Msg ''Script-Fehler im End-Listener der Call Activity {}: {}'' [AStr called, AMsg (error_text er)])
                (x\<lparr>pi_state := CompletedWithError (''SCRIPT_ERROR:'' @ called)\<rparr>)) e)"

definition resume_parent_with ::
  "'p eenv \<Rightarrow> 'p batch \<Rightarrow> uuid \<Rightarrow> uuid \<Rightarrow> string option \<Rightarrow> process_definition \<Rightarrow> string \<Rightarrow> token
     \<Rightarrow> 'p engine \<Rightarrow> ('p, unit) result" where
  "resume_parent_with ev rec parent child error_code def called tok0 e =
     (case end_scripts ev parent def called tok0 e of
        (e1, Err er) \<Rightarrow> (call_script_failed ev parent called er e1, Err er)
      | (e1, Diverged) \<Rightarrow> (e1, Diverged)
      | (e1, Ok tok) \<Rightarrow>
          (case error_code of
             Some code \<Rightarrow>
               (case find_boundary_error_event def called code of
                  Some boundary_id \<Rightarrow> continue_parent ev rec parent tok boundary_id e1
                | None \<Rightarrow> parent_incident parent child tok code e1)
           | None \<Rightarrow>
               bindR (liftR e1 (resolve_next_target ev def called (tk_vars tok))) (\<lambda>e2 next.
                 continue_parent ev rec parent tok next e2)))"

definition resume_parent_if_needed ::
  "'p eenv \<Rightarrow> 'p batch \<Rightarrow> uuid \<Rightarrow> string option \<Rightarrow> 'p engine \<Rightarrow> ('p, unit) result" where
  "resume_parent_if_needed ev rec child error_code e0 =
     bindR (read_instance child e0) (\<lambda>e x.
       case pi_parent x of
         None \<Rightarrow> (e, Ok ())
       | Some parent \<Rightarrow>
           bindR (read_instance parent e) (\<lambda>e p.
             case pi_state p of
               WaitingOnCallActivity s tok \<Rightarrow>
                 (case wake_parent (pi_vars x) tok p of
                    (p1, tok1) \<Rightarrow>
                      (let called = pi_node p;
                           e1 = record_history_event ev parent HCallActivityCompleted
                                  (Msg ''Call Activity {} completed (child instance {})'' [AStr called, AId child])
                                  ActorEngine None None (inst_put parent p1 e)
                       in bindR (liftR e1 (ok_or (NoSuchDefinition (pi_definition_key p))
                              (reg_get e1 (pi_definition_key p)))) (\<lambda>e2 def.
                            resume_parent_with ev rec parent child error_code def called tok1 e2)))
             | _ \<Rightarrow> (e, Ok ())))"

section \<open>The batch loop (executor/mod.rs)\<close>

fun describe_action :: "next_action \<Rightarrow> history_event \<times> msg" where
  "describe_action (Continue t) = (HTokenAdvanced, Msg ''Token advanced'' [])"
| "describe_action (ContinueMultiple ts) = (HTokenForked, Msg ''Token forked at gateway'' [])"
| "describe_action (WaitForJoin g t) = (HTokenAdvanced, Msg ''Token arrived at join'' [])"
| "describe_action (WaitForUser p) = (HTokenAdvanced, Msg ''Waiting for user task'' [])"
| "describe_action (WaitForServiceTask p) = (HTokenAdvanced, Msg ''Waiting for service task'' [])"
| "describe_action (WaitForTimer p) = (HTokenAdvanced, Msg ''Waiting for timer'' [])"
| "describe_action (WaitForMessage p) = (HTokenAdvanced, Msg ''Waiting for message'' [])"
| "describe_action (WaitForCallActivity c t) = (HCallActivityStarted, Msg ''Spawned call activity'' [])"
| "describe_action Complete = (HBranchCompleted, Msg ''Execution path completed'' [])"
| "describe_action (ErrorEnd c) =
     (HBranchCompleted, Msg ''Execution path completed with error {}'' [AStr c])"
| "describe_action (EscalationEnd c) =
     (HEscalationThrown, Msg ''Escalation {} thrown at end event'' [AStr c])"
| "describe_action (SpawnAndContinue t ts) =
     (HTokenForked, Msg ''Escalation handler spawned (non-interrupting)'' [])"
| "describe_action Terminate = (HBranchCompleted, Msg ''Process terminated'' [])"
| "describe_action (WaitForEventGroup acts) =
     (HTokenAdvanced, Msg ''Waiting for multiple alternative events'' [])"
| "describe_action (MultiInstanceFork n ts) =
     (HTokenForked, Msg ''Spawned Multi-Instance parallel tokens'' [])"
| "describe_action (MultiInstanceNext n t) =
     (HTokenAdvanced, Msg ''Advanced to next Multi-Instance sequential iteration'' [])"

text \<open>The abort when the step limit is passed.\<close>

definition limit_error :: "uuid \<Rightarrow> engine_error" where
  "limit_error i =
     ExecutionLimitExceeded
       (Msg ''Instance {} exceeded execution step limit ({})'' [AId i, ANat MAX_EXECUTION_STEPS])"

definition abort_batch :: "'p eenv \<Rightarrow> uuid \<Rightarrow> 'p engine \<Rightarrow> ('p, 'a) result" where
  "abort_batch ev i e =
     (persist_instance ev i
        (touch_instance i
          (\<lambda>x. push_audit_log (Msg ''ABORTED: Exceeded {} execution steps'' [ANat MAX_EXECUTION_STEPS])
                 (x\<lparr>pi_state := CompletedWithError ''EXECUTION_LIMIT_EXCEEDED'',
                    pi_completed_at := Some (en_now e)\<rparr>)) e),
      Err (limit_error i))"

text \<open>One round: a step, its history entry, and its action on the rest of the queue.\<close>

definition batch_round ::
  "'p eenv \<Rightarrow> 'p batch \<Rightarrow> uuid \<Rightarrow> token \<Rightarrow> token list \<Rightarrow> 'p engine \<Rightarrow> ('p, token list) result" where
  "batch_round ev rec i tok queue e =
     bindR (execute_step ev rec i tok e) (\<lambda>e1 action.
       handle_next_action ev rec action i (tk_id tok) (tk_node tok) queue
         (record_history_event_from_snapshot ev i (fst (describe_action action))
            (snd (describe_action action)) ActorEngine None
            (map_option snapshot_of (inst_get e i)) e1))"

text \<open>The loop; \<open>left\<close> counts the steps that remain before the limit is passed.\<close>

fun batch_loop ::
  "'p eenv \<Rightarrow> 'p batch \<Rightarrow> uuid \<Rightarrow> nat \<Rightarrow> token list \<Rightarrow> 'p engine \<Rightarrow> ('p, unit) result" where
  "batch_loop ev rec i left [] e = (e, Ok ())"
| "batch_loop ev rec i 0 (tok # queue) e = abort_batch ev i e"
| "batch_loop ev rec i (Suc left) (tok # queue) e =
     bindR (batch_round ev rec i tok queue e) (\<lambda>e1 queue1. batch_loop ev rec i left queue1 e1)"

text \<open>After the loop: the instance is saved, and when it has ended its parent is resumed.\<close>

fun end_code :: "instance_state \<Rightarrow> string option option" where
  "end_code Completed = Some None"
| "end_code (CompletedWithError c) = Some (Some c)"
| "end_code _ = None"

definition finish_batch :: "'p eenv \<Rightarrow> 'p batch \<Rightarrow> uuid \<Rightarrow> 'p engine \<Rightarrow> ('p, unit) result" where
  "finish_batch ev rec i e =
     (let e1 = persist_instance ev i e
      in case (case inst_get e1 i of None \<Rightarrow> None | Some x \<Rightarrow> end_code (pi_state x)) of
           None \<Rightarrow> (emit_event EvInstanceChanged e1, Ok ())
         | Some code \<Rightarrow>
             bindR (resume_parent_if_needed ev rec i code e1) (\<lambda>e2 u.
               (emit_event EvInstanceChanged (archive_completed_instance ev i e2), Ok ())))"

definition batch_body ::
  "'p eenv \<Rightarrow> 'p batch \<Rightarrow> uuid \<Rightarrow> token \<Rightarrow> 'p engine \<Rightarrow> ('p, unit) result" where
  "batch_body ev rec i tok e =
     bindR (batch_loop ev rec i MAX_EXECUTION_STEPS [tok] e) (\<lambda>e1 u. finish_batch ev rec i e1)"

text \<open>\<open>run_instance_batch\<close> with at most \<open>depth\<close> batches nested in one another.\<close>

fun run_instance_batch :: "'p eenv \<Rightarrow> nat \<Rightarrow> 'p batch" where
  "run_instance_batch ev 0 i tok e = (e, Diverged)"
| "run_instance_batch ev (Suc depth) i tok e = batch_body ev (run_instance_batch ev depth) i tok e"

section \<open>A batch keeps the invariant\<close>

lemma complete_active_wf [simp]:
  "inst_wf (complete_active t x) = inst_wf x" "pi_id (complete_active t x) = pi_id x"
  by (simp_all add: complete_active_def)

lemma fold_complete_active_wf [simp]:
  "inst_wf (fold complete_active ts x) = inst_wf x \<and> pi_id (fold complete_active ts x) = pi_id x"
  by (induction ts arbitrary: x) auto

lemma inst_wf_tables: "inst_wf x \<Longrightarrow> wf_table (pi_barriers x)"
  by (simp add: inst_wf_def)

lemma note_arrival_wf:
  "note_arrival ev def g b x = (x1, c) \<Longrightarrow> inst_wf x \<Longrightarrow> inst_wf x1 \<and> pi_id x1 = pi_id x"
  by (auto simp: note_arrival_def Let_def inst_wf_tables split: option.splits if_splits)

lemma fire_join_wf: "inst_wf x \<Longrightarrow> inst_wf (fire_join g b x) \<and> pi_id (fire_join g b x) = pi_id x"
  by (simp add: fire_join_def Let_def inst_wf_tables)

lemma instance_definition_bind_wf:
  assumes "engine_wf e"
    and "\<And>x d. inst_get e i = Some x \<Longrightarrow> inst_wf x \<Longrightarrow> pi_id x = i \<Longrightarrow> keeps engine_wf (k e (x, d))"
  shows "keeps engine_wf (bindR (instance_definition i e) k)"
  unfolding instance_definition_def bindR_assoc
proof (rule keeps_bind_read [OF assms(1)], goal_cases)
  case (1 x)
  then show ?case
    using assms by (cases "reg_get e (pi_definition_key x)") (auto simp: liftR_def keeps_def)
qed

lemma arrive_at_join_wf [keeps_intro]:
  assumes "engine_wf e"
  shows "keeps engine_wf (arrive_at_join ev i g tok e)"
  unfolding arrive_at_join_def
proof (rule instance_definition_bind_wf [OF assms], goal_cases)
  case (1 x def)
  define b where "b = arrived_barrier x g (incoming_flow_count def g) tok"
  obtain x1 c where n: "note_arrival ev def g b x = (x1, c)" by fastforce
  from note_arrival_wf [OF n 1(2)] 1(3) have x1: "inst_wf x1" "pi_id x1 = i" by auto
  with fire_join_wf [OF x1(1), of g b] show ?case
    using assms by (auto simp: b_def [symmetric] n Let_def intro!: keeps_intro wf_intro dest: draw_wf)
qed

lemma register_join_barrier_wf [keeps_intro]:
  "engine_wf e \<Longrightarrow> keeps engine_wf (register_join_barrier_if_needed i s n e)"
  unfolding register_join_barrier_if_needed_def
  by (rule instance_definition_bind_wf)
     (auto simp: inst_keeps_def inst_wf_tables intro!: keeps_intro)

lemma register_forks_wf [keeps_intro]: "engine_wf e \<Longrightarrow> keeps engine_wf (register_forks i g k ts q e)"
proof (induction ts arbitrary: k q e)
  case Nil
  then show ?case by (simp add: keeps_def)
next
  case (Cons t ts)
  then show ?case
    by (auto simp: register_active_token_def inst_keeps_def intro!: keeps_intro Cons.IH)
qed

lemma enter_parallel_wf [simp]:
  "inst_wf x \<Longrightarrow> inst_wf (enter_parallel t g n x)" "pi_id (enter_parallel t g n x) = pi_id x"
  by (simp_all add: enter_parallel_def Let_def)

lemma wait_in_keeps: "state_ok s \<Longrightarrow> inst_keeps (wait_in s)"
  by (simp add: inst_keeps_def wait_in_def)

lemma keyed_user: "engine_wf e \<Longrightarrow> keyed_by ut_task_id (tput (ut_task_id t) t (en_user e))"
  by (auto dest: engine_wf_tables)

lemma keyed_service: "engine_wf e \<Longrightarrow> keyed_by st_id (tput (st_id t) t (en_service e))"
  by (auto dest: engine_wf_tables)

lemma wait_actions_wf [wf_intro]:
  assumes "engine_wf e"
  shows "engine_wf (act_wait_for_user ev i ut e)" "engine_wf (act_wait_for_service ev i st e)"
    "engine_wf (act_wait_for_timer ev i tm e)" "engine_wf (act_wait_for_message ev i mc e)"
  using assms
  by (auto simp: act_wait_for_user_def act_wait_for_service_def act_wait_for_timer_def
      act_wait_for_message_def Let_def intro!: wf_intro keyed_user keyed_service wait_in_keeps)

lemma open_group_event_wf: "engine_wf e \<Longrightarrow> engine_wf (open_group_event ev a e)"
  by (cases a) (auto intro: wf_intro)

lemma wait_for_group_wf [wf_intro]: "engine_wf e \<Longrightarrow> engine_wf (act_wait_for_group ev i acts e)"
  by (auto simp: act_wait_for_group_def intro!: wf_intro engine_wf_fold open_group_event_wf wait_in_keeps)

lemma terminate_wf [wf_intro]: "engine_wf e \<Longrightarrow> engine_wf (act_terminate ev i e)"
  unfolding act_terminate_def Let_def
  by (auto simp: inst_keeps_def intro!: wf_intro keyed_by_tretain dest: engine_wf_tables)

lemma end_path_wf [keeps_intro]:
  "engine_wf e \<Longrightarrow> (\<And>now. inst_keeps (f now)) \<Longrightarrow> keeps engine_wf (end_path ev i t f m e)"
  unfolding end_path_def complete_branch_token_def all_tokens_completed_def Let_def
  by (auto simp: inst_keeps_def intro!: keeps_intro wf_intro)

lemma end_actions_wf [keeps_intro]:
  assumes "engine_wf e"
  shows "keeps engine_wf (act_complete ev i t e)" "keeps engine_wf (act_error_end ev i t c e)"
    "keeps engine_wf (act_escalation_end ev i t c e)"
  using assms
  by (auto simp: act_complete_def act_error_end_def act_escalation_end_def inst_keeps_def
      intro!: keeps_intro)

lemma fork_actions_wf [keeps_intro]:
  assumes "engine_wf e"
  shows "keeps engine_wf (act_continue_multiple i t g toks q e)"
    "keeps engine_wf (act_wait_for_join ev i g tok q e)"
    "keeps engine_wf (act_multi_instance_fork i t n toks q e)"
  using assms
  by (auto simp: act_continue_multiple_def act_wait_for_join_def act_multi_instance_fork_def
      inst_keeps_def inst_wf_tables Let_def intro!: keeps_intro wf_intro)

lemma scope_listener_wf: "engine_wf e \<Longrightarrow> engine_wf (register_scope_listener ev i l e)"
  by (cases l) (auto simp: register_scope_listener_def split: prod.splits intro!: wf_intro dest: draw_wf)

lemma initial_instance_wf [simp]:
  "inst_wf (initial_instance dk i b s vs p m now)" "pi_id (initial_instance dk i b s vs p m now) = i"
  by (simp_all add: initial_instance_def inst_wf_def)

lemma set_sub_instance_keeps [simp]: "inst_keeps (set_sub_instance c)"
  by (auto simp: inst_keeps_def set_sub_instance_def split: instance_state.splits)

lemma wake_parent_wf:
  "wake_parent vs tok p = (p1, t1) \<Longrightarrow> inst_wf p \<Longrightarrow> inst_wf p1 \<and> pi_id p1 = pi_id p"
  by (auto simp: wake_parent_def Let_def split: option.splits)

lemma parent_incident_wf [keeps_intro]:
  "engine_wf e \<Longrightarrow> keeps engine_wf (parent_incident p c tok code e)"
  by (auto simp: parent_incident_def inst_keeps_def intro!: keeps_intro)

lemma call_script_failed_wf [wf_intro]: "engine_wf e \<Longrightarrow> engine_wf (call_script_failed ev p c er e)"
  by (auto simp: call_script_failed_def inst_keeps_def intro!: wf_intro)

lemma abort_batch_wf [keeps_intro]: "engine_wf e \<Longrightarrow> keeps engine_wf (abort_batch ev i e)"
  by (auto simp: abort_batch_def inst_keeps_def intro!: keeps_intro wf_intro)

context nested_batch begin

lemma start_with_parent_wf: "engine_wf e \<Longrightarrow> keeps engine_wf (start_with_parent ev rec dk vs p e)"
  unfolding start_with_parent_def Let_def
  by (intro keeps_intro wf_intro engine_wf_fold scope_listener_wf rec_wf)
     (auto simp: build_initial_instance_def inst_wf_def initial_instance_def intro: wf_intro)

lemma spawn_call_activity_wf:
  "engine_wf e \<Longrightarrow> keeps engine_wf (spawn_call_activity ev rec k p n vs e)"
  unfolding spawn_call_activity_def
  by (intro keeps_intro wf_intro start_with_parent_wf)

lemma wait_for_call_wf:
  assumes "engine_wf e"
  shows "keeps engine_wf (act_wait_for_call ev rec i c tok q e)"
  unfolding act_wait_for_call_def
proof (rule keeps_option, goal_cases)
  case 1
  show ?case by (intro keeps_pair wf_intro assms)
next
  case (2 kd)
  show ?case
  proof (rule keeps_prod, rule keeps_draw [OF assms], rule keeps_outcome, goal_cases)
    case (1 k d sub e1)
    then show ?case by (intro spawn_call_activity_wf wf_intro wait_in_keeps) simp_all
  qed (intro keeps_pair wf_intro set_sub_instance_keeps; assumption)+
qed

lemma handle_next_action_wf:
  "engine_wf e \<Longrightarrow> keeps engine_wf (handle_next_action ev rec a i t g q e)"
  by (cases a)
     (auto simp: handle_next_action_def keep_queue_def intro!: keeps_intro wf_intro wait_for_call_wf)

lemma continue_parent_wf: "engine_wf e \<Longrightarrow> keeps engine_wf (continue_parent ev rec p tok n e)"
  by (auto simp: continue_parent_def inst_keeps_def intro!: rec_wf wf_intro)

lemma resume_parent_with_wf:
  assumes "engine_wf e"
  shows "keeps engine_wf (resume_parent_with ev rec p c code def called tok e)"
proof -
  obtain e1 r where s: "end_scripts ev p def called tok e = (e1, r)" by fastforce
  with end_scripts_wf [OF assms, of ev p def called tok] have e1: "engine_wf e1" by (simp add: keeps_def)
  show ?thesis
  proof (cases r)
    case (Ok t1)
    show ?thesis
      unfolding resume_parent_with_def s Ok using e1
      by (auto split: option.splits intro!: keeps_intro continue_parent_wf)
  qed (use e1 in \<open>auto simp: resume_parent_with_def s intro!: keeps_intro wf_intro\<close>)
qed

lemma resume_parent_wf:
  assumes "engine_wf e"
  shows "keeps engine_wf (resume_parent_if_needed ev rec c code e)"
proof -
  have awake: "keeps engine_wf (case wake_parent vs tok p of (p1, tok1) \<Rightarrow>
      bindR (liftR (rec_at p1) (d (rec_at p1))) (\<lambda>e2 def.
        resume_parent_with ev rec q c code def called tok1 e2))"
    if "inst_wf p" "\<And>p1. inst_wf p1 \<Longrightarrow> pi_id p1 = pi_id p \<Longrightarrow> engine_wf (rec_at p1)"
    for vs tok p q rec_at d called
  proof -
    obtain p1 t1 where w: "wake_parent vs tok p = (p1, t1)" by fastforce
    from wake_parent_wf [OF w that(1)] that(2) have "engine_wf (rec_at p1)" by simp
    then show ?thesis by (simp add: w) (intro keeps_bindR keeps_liftR resume_parent_with_wf)
  qed
  show ?thesis
    unfolding resume_parent_if_needed_def Let_def
  proof (rule keeps_bind_read [OF assms], goal_cases)
    case (1 x)
    show ?case
    proof (rule keeps_option)
      show "keeps engine_wf (e, Ok ())" using assms by (rule keeps_pair)
    next
      fix q
      show "keeps engine_wf (bindR (read_instance q e) (\<lambda>e p. case pi_state p of
          WaitingOnCallActivity s tok \<Rightarrow>
            (case wake_parent (pi_vars x) tok p of (p1, tok1) \<Rightarrow>
              bindR (liftR (record_history_event ev q HCallActivityCompleted
                  (Msg ''Call Activity {} completed (child instance {})'' [AStr (pi_node p), AId c])
                  ActorEngine None None (inst_put q p1 e))
                (ok_or (NoSuchDefinition (pi_definition_key p))
                  (reg_get (record_history_event ev q HCallActivityCompleted
                    (Msg ''Call Activity {} completed (child instance {})'' [AStr (pi_node p), AId c])
                    ActorEngine None None (inst_put q p1 e)) (pi_definition_key p))))
               (\<lambda>e2 def. resume_parent_with ev rec q c code def (pi_node p) tok1 e2))
        | _ \<Rightarrow> (e, Ok ())))"
      proof (rule keeps_bind_read [OF assms], goal_cases)
        case (1 p)
        then show ?case
          using assms
          by (cases "pi_state p") (auto intro!: keeps_pair awake wf_intro)
      qed
    qed
  qed
qed

lemma batch_round_wf: "engine_wf e \<Longrightarrow> keeps engine_wf (batch_round ev rec i tok q e)"
  unfolding batch_round_def
  by (intro keeps_bindR execute_step_wf handle_next_action_wf wf_intro)

lemma batch_loop_wf: "engine_wf e \<Longrightarrow> keeps engine_wf (batch_loop ev rec i left q e)"
proof (induction left arbitrary: q e)
  case 0
  then show ?case by (cases q) (auto intro: keeps_intro)
next
  case (Suc left)
  then show ?case by (cases q) (auto intro!: keeps_intro batch_round_wf Suc.IH)
qed

lemma finish_batch_wf: "engine_wf e \<Longrightarrow> keeps engine_wf (finish_batch ev rec i e)"
  by (auto simp: finish_batch_def Let_def split: option.splits
      intro!: keeps_intro wf_intro resume_parent_wf)

lemma batch_body_wf: "engine_wf e \<Longrightarrow> keeps engine_wf (batch_body ev rec i tok e)"
  unfolding batch_body_def by (intro keeps_bindR batch_loop_wf finish_batch_wf)

end

lemma run_instance_batch_wf: "engine_wf e \<Longrightarrow> keeps engine_wf (run_instance_batch ev d i tok e)"
proof (induction d arbitrary: i tok e)
  case 0
  then show ?case by (simp add: keeps_def)
next
  case (Suc d)
  have "nested_batch (run_instance_batch ev d)"
    by (rule nested_batch.intro) (rule Suc.IH)
  from nested_batch.batch_body_wf [OF this Suc.prems] show ?case by simp
qed

interpretation batch: nested_batch "run_instance_batch ev d" for ev :: "'p eenv" and d
  by unfold_locales (rule run_instance_batch_wf)

end
