(* ===== verification/Nesting.thy ===== *)
theory Nesting
  imports Executor
begin

text \<open>
  How far batches nest in one another. The engine starts a batch inside a batch for a compensation
  handler, for a call activity and for the parent that a finished child wakes, with no bound in the
  source; the model counts the nesting down, and \<open>Diverged\<close> is the outcome of a run that needs
  more. Two results make the count harmless: a run that returns, returns the same at every larger
  depth, and a run over a definition without those elements never nests at all.
\<close>

section \<open>A larger depth changes no result\<close>

text \<open>\<open>below r r'\<close>: the first run did not return, or it ended exactly as the second one.\<close>

definition below :: "'s \<times> ('e, 'a) outcome \<Rightarrow> 's \<times> ('e, 'a) outcome \<Rightarrow> bool" where
  "below r r' \<longleftrightarrow> snd r = Diverged \<or> r = r'"

named_theorems below_intro "introduction rules for below"

lemma below_refl [simp, intro, below_intro]: "below r r"
  by (simp add: below_def)

lemma below_trans: "below r1 r2 \<Longrightarrow> below r2 r3 \<Longrightarrow> below r1 r3"
  by (auto simp: below_def)

lemma belowD: "below (s, y) r \<Longrightarrow> y \<noteq> Diverged \<Longrightarrow> r = (s, y)"
  by (simp add: below_def)

lemma below_bindR [below_intro]:
  assumes "below r r'" and "\<And>s x. below (k s x) (k' s x)"
  shows "below (bindR r k) (bindR r' k')"
  using assms unfolding below_def by (cases "(r, k)" rule: bindR.cases) (auto, blast)

lemma below_if [below_intro]: "below a a' \<Longrightarrow> below b b' \<Longrightarrow> below (if c then a else b) (if c then a' else b')"
  by simp

lemma below_option [below_intro]:
  "below a a' \<Longrightarrow> (\<And>y. below (f y) (f' y)) \<Longrightarrow>
     below (case x of None \<Rightarrow> a | Some y \<Rightarrow> f y) (case x of None \<Rightarrow> a' | Some y \<Rightarrow> f' y)"
  by (cases x) auto

lemma below_prod [below_intro]:
  "(\<And>a b. below (f a b) (f' a b)) \<Longrightarrow> below (case x of (a, b) \<Rightarrow> f a b) (case x of (a, b) \<Rightarrow> f' a b)"
  by (cases x) auto

text \<open>A call whose error is handled, while not returning is passed on.\<close>

lemma below_outcome:
  assumes "below r r'" and "\<And>s x. below (a s x) (a' s x)" and "\<And>s er. below (b s er) (b' s er)"
  shows "below (case r of (s, y) \<Rightarrow> (case y of Ok x \<Rightarrow> a s x | Err er \<Rightarrow> b s er | Diverged \<Rightarrow> (s, Diverged)))
               (case r' of (s, y) \<Rightarrow> (case y of Ok x \<Rightarrow> a' s x | Err er \<Rightarrow> b' s er | Diverged \<Rightarrow> (s, Diverged)))"
  using assms unfolding below_def by (cases r; cases "snd r") (auto, blast+)

locale deeper =
  fixes rec rec' :: "'p batch"
  assumes rec_below [below_intro]: "below (rec i t e) (rec' i t e)"
begin

lemma run_compensation_below [below_intro]:
  "below (run_compensation ev rec i def rs tok e) (run_compensation ev rec' i def rs tok e)"
  by (induction rs arbitrary: tok e) (auto intro!: below_intro)

lemma dispatch_below [below_intro]:
  "below (dispatch_element ev rec i tok def n el e) (dispatch_element ev rec' i tok def n el e)"
  by (cases el) (auto simp: dispatch_element_def handle_compensation_throw_event_def Let_def intro!: below_intro)

lemma execute_step_below [below_intro]: "below (execute_step ev rec i tok e) (execute_step ev rec' i tok e)"
  unfolding execute_step_def Let_def by (intro below_intro)

lemma start_below [below_intro]:
  "below (start_with_parent ev rec dk vs p e) (start_with_parent ev rec' dk vs p e)"
  unfolding start_with_parent_def Let_def by (intro below_intro)

lemma spawn_below [below_intro]:
  "below (spawn_call_activity ev rec k p n vs e) (spawn_call_activity ev rec' k p n vs e)"
  unfolding spawn_call_activity_def by (intro below_intro)

lemma handle_next_action_below [below_intro]:
  "below (handle_next_action ev rec a i t g q e) (handle_next_action ev rec' a i t g q e)"
proof -
  have "below (act_wait_for_call ev rec i c tok q e) (act_wait_for_call ev rec' i c tok q e)" for c tok
    unfolding act_wait_for_call_def by (intro below_intro below_outcome)
  then show ?thesis by (cases a) (auto simp: handle_next_action_def)
qed

lemma resume_parent_below [below_intro]:
  "below (resume_parent_if_needed ev rec c code e) (resume_parent_if_needed ev rec' c code e)"
proof -
  have w: "below (resume_parent_with ev rec p c code def n tok e) (resume_parent_with ev rec' p c code def n tok e)"
    for p def n tok and e :: "'p engine"
    unfolding resume_parent_with_def continue_parent_def by (intro below_outcome below_intro)
  have state: "below (case s of WaitingOnCallActivity u t \<Rightarrow> f t | _ \<Rightarrow> d)
              (case s of WaitingOnCallActivity u t \<Rightarrow> f' t | _ \<Rightarrow> d)"
    if "\<And>t. below (f t) (f' t)" for s and f f' :: "token \<Rightarrow> 'p engine \<times> (engine_error, unit) outcome" and d
    using that by (cases s) auto
  show ?thesis
    unfolding resume_parent_if_needed_def Let_def by (intro below_intro w state)
qed

lemma batch_loop_below [below_intro]:
  "below (batch_loop ev rec i left q e) (batch_loop ev rec' i left q e)"
proof (induction left arbitrary: q e)
  case 0
  then show ?case by (cases q) auto
next
  case (Suc left)
  then show ?case by (cases q) (auto simp: batch_round_def intro!: below_intro)
qed

lemma batch_body_below: "below (batch_body ev rec i tok e) (batch_body ev rec' i tok e)"
proof -
  have "below (finish_batch ev rec i e) (finish_batch ev rec' i e)" for e
    unfolding finish_batch_def Let_def by (intro below_intro)
  then show ?thesis unfolding batch_body_def by (intro below_intro)
qed

end

lemma run_instance_batch_Suc:
  "below (run_instance_batch ev d i tok e) (run_instance_batch ev (Suc d) i tok e)"
proof (induction d arbitrary: i tok e)
  case 0
  then show ?case by (simp add: below_def)
next
  case (Suc d)
  then have "deeper (run_instance_batch ev d) (run_instance_batch ev (Suc d))" by unfold_locales
  from deeper.batch_body_below [OF this] show ?case by simp
qed

lemma run_instance_batch_below:
  "d \<le> d' \<Longrightarrow> below (run_instance_batch ev d i tok e) (run_instance_batch ev d' i tok e)"
proof (induction d' rule: dec_induct)
  case (step n)
  show ?case by (rule below_trans [OF step(3) run_instance_batch_Suc])
qed simp

interpretation nest: deeper "run_instance_batch ev d" "run_instance_batch ev (d + k)" for ev :: "'p eenv" and d k
  by unfold_locales (rule run_instance_batch_below, simp)


section \<open>What a batch leaves alone\<close>

text \<open>
  \<open>alone i e0 e\<close>: between the two states no definition changed, no instance but \<open>i\<close>, and of \<open>i\<close>
  neither its identity nor the process it runs.
\<close>

definition identity :: "process_instance \<Rightarrow> uuid \<times> uuid \<times> string \<times> uuid option" where
  "identity x = (pi_id x, pi_definition_key x, pi_business_key x, pi_parent x)"

definition alone :: "uuid \<Rightarrow> 'p engine \<Rightarrow> 'p engine \<Rightarrow> bool" where
  "alone i e0 e \<longleftrightarrow>
     en_defs e = en_defs e0 \<and> (\<forall>j. j \<noteq> i \<longrightarrow> inst_get e j = inst_get e0 j) \<and>
     map_option identity (inst_get e i) = map_option identity (inst_get e0 i)"

definition keeps_identity :: "(process_instance \<Rightarrow> process_instance) \<Rightarrow> bool" where
  "keeps_identity f \<longleftrightarrow> (\<forall>x. identity (f x) = identity x)"

named_theorems alone_intro "introduction rules for alone"

lemma alone_refl [alone_intro]: "alone i e e"
  by (simp add: alone_def)

lemma alone_trans: "alone i e0 e1 \<Longrightarrow> alone i e1 e2 \<Longrightarrow> alone i e0 e2"
  by (simp add: alone_def)

lemma same_tables_alone: "same_tables e e' \<Longrightarrow> alone i e0 e \<Longrightarrow> alone i e0 e'"
  by (simp add: alone_def same_tables_def inst_get_def)

lemma alone_bookkeeping [alone_intro]:
  assumes "alone i e0 e"
  shows "alone i e0 (emit_event v e)" "alone i e0 (log_persistence_error e)"
    "alone i e0 (delete_each ev c us e)" "alone i e0 (archive_completed_instance ev j e)"
    "alone i e0 (record_history_event ev j ty d a aid old e)"
    "alone i e0 (record_history_event_from_snapshot ev j ty d a aid sn e)"
    "alone i e0 (persist_user_task ev u e)" "alone i e0 (persist_service_task ev u e)"
    "alone i e0 (persist_timer ev u e)" "alone i e0 (persist_message_catch ev u e)"
    "alone i e0 (e\<lparr>en_draws := n\<rparr>)" "alone i e0 (snd (draw ev e))"
  using assms
  by (auto intro: same_tables_alone [OF same_tables_emit] same_tables_alone [OF same_tables_log]
      same_tables_alone [OF same_tables_delete_each] same_tables_alone [OF same_tables_archive]
      same_tables_alone [OF same_tables_record] same_tables_alone [OF same_tables_record_snapshot]
      same_tables_alone [OF same_tables_persist(2)] same_tables_alone [OF same_tables_persist(4)]
      same_tables_alone [OF same_tables_persist(6)] same_tables_alone [OF same_tables_persist(8)]
      same_tables_alone [OF same_tables_draws] same_tables_alone [OF same_tables_draw])

lemma alone_draw: "draw ev e = (u, e') \<Longrightarrow> alone i e0 e \<Longrightarrow> alone i e0 e'"
  using alone_bookkeeping(12) [of i e0 e ev] by simp

lemma alone_pending [alone_intro]:
  assumes "alone i e0 e"
  shows "alone i e0 (e\<lparr>en_user := us\<rparr>)" "alone i e0 (e\<lparr>en_service := ss\<rparr>)"
    "alone i e0 (e\<lparr>en_timers := ts\<rparr>)" "alone i e0 (e\<lparr>en_messages := ms\<rparr>)"
    "alone i e0 (insert_timer t e)" "alone i e0 (insert_message c e)"
  using assms by (simp_all add: alone_def inst_get_def insert_timer_def insert_message_def)

lemma alone_put: "alone i e0 e \<Longrightarrow> inst_get e i = Some x \<Longrightarrow> identity y = identity x \<Longrightarrow> alone i e0 (inst_put i y e)"
  by (auto simp: alone_def insts.get_put frame)

lemma alone_touch [alone_intro]: "alone i e0 e \<Longrightarrow> keeps_identity f \<Longrightarrow> alone i e0 (touch_instance i f e)"
  by (auto simp: touch_instance_def keeps_identity_def intro: alone_put split: option.split)

lemma alone_persist_instance [alone_intro]: "alone i e0 e \<Longrightarrow> alone i e0 (persist_instance ev i e)"
  by (cases "inst_get e i") (auto simp: alone_def frame identity_def)

lemma alone_fold: "(\<And>x e. alone i e0 e \<Longrightarrow> alone i e0 (f x e)) \<Longrightarrow> alone i e0 e \<Longrightarrow> alone i e0 (fold f xs e)"
  by (induction xs arbitrary: e) auto

section \<open>Runs that return\<close>

text \<open>The state satisfies \<open>P\<close>, the operation returned, and a result satisfies \<open>Q\<close>.\<close>

definition settles :: "('s \<Rightarrow> bool) \<Rightarrow> ('a \<Rightarrow> bool) \<Rightarrow> 's \<times> ('e, 'a) outcome \<Rightarrow> bool" where
  "settles P Q r \<longleftrightarrow> P (fst r) \<and> snd r \<noteq> Diverged \<and> (\<forall>x. snd r = Ok x \<longrightarrow> Q x)"

abbreviation returns :: "('s \<Rightarrow> bool) \<Rightarrow> 's \<times> ('e, 'a) outcome \<Rightarrow> bool" where
  "returns P r \<equiv> settles P (\<lambda>x. True) r"

named_theorems settles_intro "introduction rules for settles"

lemma settles_Ok [settles_intro]: "P s \<Longrightarrow> Q x \<Longrightarrow> settles P Q (s, Ok x)"
  by (simp add: settles_def)

lemma settles_Err [settles_intro]: "P s \<Longrightarrow> settles P Q (s, Err er)"
  by (simp add: settles_def)

lemma settles_liftR [settles_intro]: "P s \<Longrightarrow> r \<noteq> Diverged \<Longrightarrow> returns P (liftR s r)"
  by (simp add: settles_def)

lemma settles_bind:
  assumes "settles P R r" and "\<And>s x. P s \<Longrightarrow> R x \<Longrightarrow> settles P Q (k s x)"
  shows "settles P Q (bindR r k)"
  using assms unfolding settles_def by (cases "(r, k)" rule: bindR.cases) auto

lemma settles_bindR [settles_intro]:
  assumes "returns P r" and "\<And>s x. P s \<Longrightarrow> settles P Q (k s x)"
  shows "settles P Q (bindR r k)"
  using assms by (blast intro: settles_bind)

lemma settles_option [settles_intro]:
  "(x = None \<Longrightarrow> settles P Q a) \<Longrightarrow> (\<And>y. x = Some y \<Longrightarrow> settles P Q (f y)) \<Longrightarrow>
     settles P Q (case x of None \<Rightarrow> a | Some y \<Rightarrow> f y)"
  by (cases x) auto

lemma settles_if [settles_intro]:
  "(c \<Longrightarrow> settles P Q a) \<Longrightarrow> (\<not> c \<Longrightarrow> settles P Q b) \<Longrightarrow> settles P Q (if c then a else b)"
  by simp

lemma settles_prod [settles_intro]:
  "(\<And>a b. x = (a, b) \<Longrightarrow> settles P Q (f a b)) \<Longrightarrow> settles P Q (case x of (a, b) \<Rightarrow> f a b)"
  by (cases x) auto

lemma settles_draw [settles_intro]:
  "alone i e0 e \<Longrightarrow> (\<And>u e'. alone i e0 e' \<Longrightarrow> settles P Q (f u e')) \<Longrightarrow>
     settles P Q (case draw ev e of (u, e') \<Rightarrow> f u e')"
  using alone_bookkeeping(12) [of i e0 e ev] by (cases "draw ev e") auto

lemma settles_read [settles_intro]: "P e \<Longrightarrow> returns P (read_instance i e)"
  by (simp add: settles_def read_instance_def)

lemma settles_modify [settles_intro]:
  "alone i e0 e \<Longrightarrow> keeps_identity f \<Longrightarrow> returns (alone i e0) (modify_instance i f e)"
  by (auto simp: settles_def modify_instance_def keeps_identity_def intro: alone_put split: option.split)

lemma settles_with_draws:
  "alone i e0 e \<Longrightarrow> settles (\<lambda>n. True) Q (f (en_draws e)) \<Longrightarrow> settles (alone i e0) Q (with_draws f e)"
  by (auto simp: with_draws_def settles_def alone_bookkeeping(11) split: prod.split)

lemma resolve_returns [simp]: "resolve_next_target ev def n vs \<noteq> Diverged"
  by (auto simp: resolve_next_target_def split: option.split)

lemma end_scripts_returns [settles_intro]:
  assumes "alone i e0 e"
  shows "returns (alone i e0) (end_scripts ev i def n tok e)"
proof (cases "inst_get e i")
  case None
  with assms show ?thesis by (simp add: end_scripts_def settles_def)
next
  case (Some x)
  obtain tok' a vs r where s: "run_end_scripts ev (en_script e) def n (tok, pi_audit x, pi_vars x) = ((tok', a, vs), r)"
    by (metis prod.exhaust)
  have "r \<noteq> Diverged"
    using s by (auto simp: run_end_scripts_def split: prod.splits outcome.splits)
      (metis run_node_scripts_not_Diverged snd_conv)
  with s show ?thesis
    using assms Some
    by (cases r) (auto simp: end_scripts_def settles_def identity_def intro!: alone_put)
qed

lemma identity_record [simp]:
  "identity (x\<lparr>pi_audit := a\<rparr>) = identity x" "identity (x\<lparr>pi_barriers := b\<rparr>) = identity x"
  "identity (x\<lparr>pi_state := s\<rparr>) = identity x" "identity (x\<lparr>pi_node := n\<rparr>) = identity x"
  "identity (x\<lparr>pi_vars := vs\<rparr>) = identity x" "identity (x\<lparr>pi_tokens := t\<rparr>) = identity x"
  "identity (x\<lparr>pi_active := act\<rparr>) = identity x" "identity (x\<lparr>pi_completed_at := c\<rparr>) = identity x"
  "identity (x\<lparr>pi_comp_log := l\<rparr>) = identity x" "identity (push_audit_log m x) = identity x"
  by (simp_all add: identity_def)

lemma identity_updates [simp]:
  "keeps_identity (\<lambda>x. x\<lparr>pi_node := n\<rparr>)" "keeps_identity (note_at n m)"
  "keeps_identity (\<lambda>x. push_audit_log (m1 x) (f x)) \<longleftrightarrow> keeps_identity f"
  "keeps_identity (\<lambda>x. (push_audit_log m x)\<lparr>pi_node := n\<rparr>)"
  "keeps_identity (\<lambda>x. store_token tok (f x)) \<longleftrightarrow> keeps_identity f"
  by (simp_all add: keeps_identity_def identity_def note_at_def store_token_def)


section \<open>The handlers of a flat definition\<close>

text \<open>The elements whose handlers start another batch, and the action that asks for one.\<close>

fun nests :: "element \<Rightarrow> bool" where
  "nests (CallActivity c) = True"
| "nests (CompensationThrowEvent r) = True"
| "nests (CompensationEndEvent r) = True"
| "nests _ = False"

fun is_call :: "next_action \<Rightarrow> bool" where
  "is_call (WaitForCallActivity c t) = True"
| "is_call _ = False"

definition flat_definition :: "process_definition \<Rightarrow> bool" where
  "flat_definition d \<longleftrightarrow> (\<forall>n el. get_node d n = Some el \<longrightarrow> \<not> nests el)"

abbreviation acts :: "uuid \<Rightarrow> 'p engine \<Rightarrow> ('p, next_action) result \<Rightarrow> bool" where
  "acts i e0 r \<equiv> settles (alone i e0) (\<lambda>a. \<not> is_call a) r"

lemma alone_register_handler [alone_intro]:
  "alone i e0 e \<Longrightarrow> alone i e0 (register_compensation_handler i n def e)"
  by (auto simp: register_compensation_handler_def keeps_identity_def identity_def
      intro!: alone_intro split: option.split)

lemma alone_boundary_events [alone_intro]:
  "alone i e0 e \<Longrightarrow> alone i e0 (open_boundary_events ev i def n tok e)"
  by (auto simp: open_boundary_events_def intro!: alone_fold alone_intro split: prod.split)

lemma pass_through_acts [settles_intro]: "alone i e0 e \<Longrightarrow> acts i e0 (pass_through ev i tok def n e)"
  by (auto simp: pass_through_def intro!: settles_intro)

lemma finish_at_acts [settles_intro]: "alone i e0 e \<Longrightarrow> \<not> is_call a \<Longrightarrow> acts i e0 (finish_at ev i tok def n m a e)"
  by (auto simp: finish_at_def intro!: settles_intro)

lemma catch_events_acts [settles_intro]:
  assumes "alone i e0 e"
  shows "acts i e0 (handle_timer_catch_event ev i tok n td e)"
    "acts i e0 (handle_message_catch_event ev i tok n name e)"
  using assms
  by (auto simp: handle_timer_catch_event_def handle_message_catch_event_def intro!: settles_intro
      dest: alone_draw)

lemma escalation_throw_acts [settles_intro]:
  "alone i e0 e \<Longrightarrow> acts i e0 (handle_escalation_throw_event ev i tok def n code e)"
  unfolding handle_escalation_throw_event_def Let_def
  by (auto intro!: settles_intro alone_intro dest: alone_draw)

lemma split_to_acts: "settles (\<lambda>n. True) (\<lambda>ta. \<not> is_call (snd ta)) (split_to ev tok targets n)"
  by (auto simp: split_to_def settles_def Let_def split: list.split prod.split)

lemma gateways_act:
  "settles (\<lambda>n. True) (\<lambda>ta. \<not> is_call (snd ta)) (execute_parallel_gateway ev def g tok n)"
  "settles (\<lambda>n. True) (\<lambda>ta. \<not> is_call (snd ta)) (execute_inclusive_gateway ev def g tok n)"
  "settles (\<lambda>n. True) (\<lambda>ta. \<not> is_call (snd ta)) (execute_complex_gateway ev def g tok d n)"
  by (auto simp: execute_parallel_gateway_def execute_inclusive_gateway_def execute_complex_gateway_def Let_def
      intro!: settles_intro split_to_acts)

lemma exclusive_acts:
  "execute_exclusive_gateway ev def g tok d \<noteq> Diverged \<and>
   (\<forall>ta. execute_exclusive_gateway ev def g tok d = Ok ta \<longrightarrow> \<not> is_call (snd ta))"
  by (auto simp: execute_exclusive_gateway_def Let_def split: option.splits)

lemma event_group_returns: "returns (\<lambda>n. True) (event_group ev i def t now sfs n)"
proof (induction sfs arbitrary: n)
  case Nil
  then show ?case by (simp add: settles_def)
next
  case (Cons sf sfs)
  then show ?case
    by (cases "get_node def (sf_target sf)"; cases "the (get_node def (sf_target sf))")
       (auto intro!: settles_intro)
qed

lemma note_fork_acts [settles_intro]:
  "alone i e0 e \<Longrightarrow> \<not> is_call a \<Longrightarrow> acts i e0 (note_fork i n m a e)"
  by (cases a) (auto simp: note_fork_def intro!: settles_intro)

lemma gateway_handlers_act [settles_intro]:
  assumes "alone i e0 e"
  shows "acts i e0 (handle_parallel_gateway ev i tok def n e)"
    "acts i e0 (handle_inclusive_gateway ev i tok def n e)"
    "acts i e0 (handle_complex_gateway ev i tok def n d e)"
    "acts i e0 (handle_exclusive_gateway ev i tok def n d e)"
    "acts i e0 (handle_event_based_gateway ev i tok def n e)"
proof -
  show "acts i e0 (handle_parallel_gateway ev i tok def n e)"
    unfolding handle_parallel_gateway_def
    by (rule settles_bindR [OF end_scripts_returns [OF assms]],
        rule settles_bind [OF settles_with_draws [OF _ gateways_act(1)]], assumption) (rule note_fork_acts)
  show "acts i e0 (handle_inclusive_gateway ev i tok def n e)"
    unfolding handle_inclusive_gateway_def
    by (rule settles_bindR [OF end_scripts_returns [OF assms]],
        rule settles_bind [OF settles_with_draws [OF _ gateways_act(2)]], assumption) (rule note_fork_acts)
  have complex: "acts i e0 (case a of
         Continue next \<Rightarrow>
           bindR (modify_instance i
               (\<lambda>x. (push_audit_log (m next) x)\<lparr>pi_node := tk_node next\<rparr>) e') (\<lambda>e u. (e, Ok a))
       | _ \<Rightarrow> note_fork i n s a e')" if "alone i e0 e'" "\<not> is_call a" for a m s e'
    using that by (cases a) (auto intro!: settles_intro)
  show "acts i e0 (handle_complex_gateway ev i tok def n d e)"
    unfolding handle_complex_gateway_def
    by (rule settles_bindR [OF end_scripts_returns [OF assms]],
        rule settles_bind [OF settles_with_draws [OF _ gateways_act(3)]], assumption) (rule complex)
  have excl: "settles (alone i e0) (\<lambda>ta. \<not> is_call (snd ta)) (liftR e' (execute_exclusive_gateway ev def n tok' d))"
    if "alone i e0 e'" for e' tok'
    using that exclusive_acts [of ev def n tok' d] by (simp add: settles_def)
  show "acts i e0 (handle_exclusive_gateway ev i tok def n d e)"
    unfolding handle_exclusive_gateway_def
    by (rule settles_bindR [OF end_scripts_returns [OF assms]], rule settles_bind, rule excl)
       (auto intro!: settles_intro)
  show "acts i e0 (handle_event_based_gateway ev i tok def n e)"
    unfolding handle_event_based_gateway_def using assms
    by (auto intro!: settles_intro settles_with_draws event_group_returns)
qed


lemma task_handlers_act [settles_intro]:
  assumes "alone i e0 e"
  shows "acts i e0 (handle_user_task ev i tok def n a e)"
    "acts i e0 (handle_script_task ev i tok def n a e)"
    "acts i e0 (handle_send_task ev i tok def n a e)"
    "acts i e0 (handle_service_task ev i tok def n a e)"
    "acts i e0 (handle_embedded_sub_process tok a e)"
    "acts i e0 (handle_sub_process_end_event ev tok def a e)"
  using assms
  by (auto simp: handle_user_task_def handle_script_task_def handle_send_task_def handle_service_task_def
      handle_embedded_sub_process_def handle_sub_process_end_event_def keeps_identity_def identity_def
      store_token_def Let_def intro!: settles_intro alone_intro dest: alone_draw)

lemma dispatch_acts:
  "alone i e0 e \<Longrightarrow> \<not> nests el \<Longrightarrow> acts i e0 (dispatch_element ev rec i tok def n el e)"
  by (cases el)
     (auto simp: dispatch_element_def handle_start_event_def handle_boundary_event_def
        handle_end_event_def handle_terminate_end_event_def handle_error_end_event_def
        handle_escalation_end_event_def intro!: settles_intro)

text \<open>The instance runs a flat definition.\<close>

definition runs_flat :: "uuid \<Rightarrow> 'p engine \<Rightarrow> bool" where
  "runs_flat i e \<longleftrightarrow>
     (\<forall>x d. inst_get e i = Some x \<longrightarrow> reg_get e (pi_definition_key x) = Some d \<longrightarrow> flat_definition d)"

lemma runs_flat_alone:
  assumes "runs_flat i e0" and "alone i e0 e"
  shows "runs_flat i e"
  unfolding runs_flat_def
proof (intro allI impI)
  fix x d assume x: "inst_get e i = Some x" and d: "reg_get e (pi_definition_key x) = Some d"
  with assms(2) obtain x0 where "inst_get e0 i = Some x0" "identity x = identity x0"
    by (cases "inst_get e0 i") (auto simp: alone_def)
  moreover from assms(2) have "reg_get e = reg_get e0" by (simp add: alone_def reg_get_def fun_eq_iff)
  ultimately show "flat_definition d" using assms(1) d by (simp add: runs_flat_def identity_def)
qed

lemma execute_step_acts:
  assumes "alone i e0 e" and "runs_flat i e"
  shows "acts i e0 (execute_step ev rec i tok e)"
proof (cases "inst_get e i")
  case None
  with assms show ?thesis by (simp add: execute_step_def read_instance_def settles_def)
next
  case (Some x)
  show ?thesis
  proof (cases "reg_get e (pi_definition_key x)")
    case None
    with assms Some show ?thesis by (simp add: execute_step_def read_instance_def liftR_def settles_def)
  next
    case (Some d)
    let ?n = "tk_node tok"
    obtain tok1 audits r where s: "run_node_scripts ev (en_script e) d ?n LStart (tok, []) = ((tok1, audits), r)"
      by (metis prod.exhaust)
    then have r: "r \<noteq> Diverged" by (metis run_node_scripts_not_Diverged snd_conv)
    have "\<not> nests el" if "get_node d ?n = Some el" for el
      using assms(2) \<open>inst_get e i = Some x\<close> Some that by (auto simp: runs_flat_def flat_definition_def)
    then show ?thesis
      using assms(1) \<open>inst_get e i = Some x\<close> Some s r
      by (cases "get_node d ?n"; cases r)
         (auto simp: execute_step_def read_instance_def liftR_def Let_def keeps_identity_def identity_def
           intro!: settles_intro alone_intro dispatch_acts)
  qed
qed

section \<open>The actions and the loop\<close>

lemma keeps_identity_complete [simp]: "keeps_identity (complete_active t)"
  by (simp add: keeps_identity_def identity_def complete_active_def)

lemma identity_fold_complete [simp]: "identity (fold complete_active ts x) = identity x"
  using keeps_identity_complete by (induction ts arbitrary: x) (auto simp: keeps_identity_def)

lemma instance_definition_settles:
  assumes "alone i e0 e" and "\<And>x d. inst_get e i = Some x \<Longrightarrow> settles (alone i e0) Q (k e (x, d))"
  shows "settles (alone i e0) Q (bindR (instance_definition i e) k)"
proof (cases "inst_get e i")
  case None
  with assms show ?thesis by (simp add: instance_definition_def read_instance_def settles_def)
next
  case (Some x)
  with assms show ?thesis
    by (cases "reg_get e (pi_definition_key x)")
       (auto simp: instance_definition_def read_instance_def liftR_def settles_def)
qed

lemma arrive_returns [settles_intro]:
  assumes "alone i e0 e"
  shows "returns (alone i e0) (arrive_at_join ev i g tok e)"
  unfolding arrive_at_join_def
proof (rule instance_definition_settles [OF assms], goal_cases)
  case (1 x def)
  define b where "b = arrived_barrier x g (incoming_flow_count def g) tok"
  obtain x1 c where n: "note_arrival ev def g b x = (x1, c)" by fastforce
  then have "identity x1 = identity x"
    by (auto simp: note_arrival_def Let_def identity_def split: option.splits if_splits)
  moreover have "identity (fire_join g b x1) = identity x1"
    by (simp add: fire_join_def Let_def)
  ultimately show ?case
    using alone_put [OF assms 1, of x1] alone_put [OF assms 1, of "fire_join g b x1"]
    by (auto simp: b_def [symmetric] n Let_def intro!: settles_intro alone_intro dest: alone_draw)
qed

lemma register_barrier_returns [settles_intro]:
  "alone i e0 e \<Longrightarrow> returns (alone i e0) (register_join_barrier_if_needed i s n e)"
  unfolding register_join_barrier_if_needed_def
  by (rule instance_definition_settles) (auto simp: keeps_identity_def identity_def intro!: settles_intro)

lemma register_forks_returns [settles_intro]:
  "alone i e0 e \<Longrightarrow> returns (alone i e0) (register_forks i g k ts q e)"
proof (induction ts arbitrary: k q e)
  case (Cons t ts)
  then show ?case
    by (auto simp: register_active_token_def keeps_identity_def identity_def intro!: settles_intro Cons.IH)
qed (simp add: settles_def)

lemma end_path_returns [settles_intro]:
  "alone i e0 e \<Longrightarrow> (\<And>now. keeps_identity (f now)) \<Longrightarrow> returns (alone i e0) (end_path ev i t f m e)"
  unfolding end_path_def complete_branch_token_def all_tokens_completed_def Let_def
  by (auto simp: keeps_identity_def identity_def complete_active_def intro!: settles_intro alone_intro)

lemma alone_group_event: "alone i e0 e \<Longrightarrow> alone i e0 (open_group_event ev a e)"
  by (cases a) (auto intro!: alone_intro)

lemma wait_in_identity [simp]: "keeps_identity (wait_in s)"
  by (simp add: keeps_identity_def wait_in_def identity_def)

lemma action_returns:
  assumes "alone i e0 e" and "\<not> is_call a"
  shows "returns (alone i e0) (handle_next_action ev rec a i t g q e)"
  using assms
  by (cases a)
     (auto simp: handle_next_action_def keep_queue_def act_continue_multiple_def act_wait_for_join_def
        act_wait_for_user_def act_wait_for_service_def act_wait_for_timer_def act_wait_for_message_def
        act_wait_for_group_def act_complete_def act_error_end_def act_escalation_end_def act_terminate_def
        act_multi_instance_fork_def keeps_identity_def wait_in_def enter_parallel_def complete_active_def Let_def
        intro!: settles_intro alone_intro alone_fold alone_group_event)

lemma batch_round_returns:
  assumes "alone i e0 e" and "runs_flat i e0"
  shows "returns (alone i e0) (batch_round ev rec i tok q e)"
  unfolding batch_round_def
  by (rule settles_bind [OF execute_step_acts [OF assms(1) runs_flat_alone [OF assms(2,1)]]])
     (intro action_returns alone_intro)

lemma batch_loop_returns:
  "alone i e0 e \<Longrightarrow> runs_flat i e0 \<Longrightarrow> returns (alone i e0) (batch_loop ev rec i left q e)"
proof (induction left arbitrary: q e)
  case 0
  then show ?case
    by (cases q) (auto simp: abort_batch_def keeps_identity_def identity_def intro!: settles_intro alone_intro)
next
  case (Suc left)
  then show ?case
    by (cases q) (auto intro!: settles_Ok settles_bindR [OF batch_round_returns])
qed

lemma finish_batch_returns:
  assumes "alone i e0 e" and "\<And>x. inst_get e0 i = Some x \<Longrightarrow> pi_parent x = None"
  shows "returns (alone i e0) (finish_batch ev rec i e)"
proof -
  let ?e1 = "persist_instance ev i e"
  have e1: "alone i e0 ?e1" using assms(1) by (rule alone_persist_instance)
  have "pi_parent x = None" if "inst_get ?e1 i = Some x" for x
    using that e1 assms(2) by (cases "inst_get e0 i") (auto simp: alone_def identity_def)
  then have "returns (alone i e0) (resume_parent_if_needed ev rec i code ?e1)" for code
    using e1 by (cases "inst_get ?e1 i") (auto simp: resume_parent_if_needed_def read_instance_def settles_def)
  then show ?thesis
    unfolding finish_batch_def Let_def using e1 by (auto intro!: settles_intro alone_intro)
qed


lemma batch_body_returns:
  assumes "runs_flat i e" and "\<And>x. inst_get e i = Some x \<Longrightarrow> pi_parent x = None"
  shows "returns (alone i e) (batch_body ev rec i tok e)"
  unfolding batch_body_def
  by (rule settles_bindR [OF batch_loop_returns [OF alone_refl assms(1)]])
     (rule finish_batch_returns [OF _ assms(2)])

section \<open>Properties\<close>

text \<open>
  The nesting depth bounds only the model: a batch that returns at one depth returns the same result and leaves the
  same engine at every larger depth.
\<close>

lemma depth_changes_no_result:
  assumes "run_instance_batch ev d i tok e = (e', r)" and "r \<noteq> Diverged" and "d \<le> d'"
  shows "run_instance_batch ev d' i tok e = (e', r)"
  using run_instance_batch_below [OF assms(3), of ev i tok e] assms(1,2) by (simp add: below_def)


text \<open>A process with one node, and an engine in which an instance of it stands at that node.\<close>

definition dot_definition :: process_definition where
  "dot_definition = ProcessDefinition 7 ''p'' 1 [(''s'', StartEvent), (''a'', EndEvent)]
     [(''s'', [simple_flow ''a''])] [] [] []"

definition dot_engine :: "memory engine" where
  "dot_engine = inst_put 1 blank_instance (reg_insert 7 dot_definition (engine_new (\<lambda>s. None) 0 0))"

lemma dot_flat: "flat_definition dot_definition"
  by (auto simp: flat_definition_def get_node_def dot_definition_def tget_Cons split: if_splits)


lemma missing_instance_at_every_depth:
  "run_instance_batch memory_env 3 9 (token_new 5 ''a'') dot_engine = (dot_engine, Err (NoSuchInstance 9))"
proof -
  have i: "inst_get dot_engine 9 = None" by (simp add: dot_engine_def insts.get_put)
       (simp add: inst_get_def reg_insert_def engine_new_def)
  have "run_instance_batch memory_env (Suc 0) 9 (token_new 5 ''a'') dot_engine = (dot_engine, Err (NoSuchInstance 9))"
    using i by (simp add: batch_body_def MAX_EXECUTION_STEPS_def batch_round_def execute_step_def read_instance_def
        eval_nat_numeral)
  from depth_changes_no_result [OF this, of 3] show ?thesis by simp
qed

end
