(* ===== verification/Joins.thy ===== *)
theory Joins
  imports Nesting
begin

text \<open>
  What the executor promises of forks, joins and the step limit: a join without a condition of its
  own fires once, at the last arrival, with the variables of all; a fork leaves a barrier for exactly its branches; the loop
  makes at most as many rounds as it is allowed; a terminate end takes everything that waits with it.
\<close>

section \<open>Joins\<close>

text \<open>The tokens of several branches arrive one after the other.\<close>

fun arrivals :: "'p eenv \<Rightarrow> uuid \<Rightarrow> string \<Rightarrow> token list \<Rightarrow> 'p engine \<Rightarrow> ('p, token option list) result" where
  "arrivals ev i g [] e = (e, Ok [])"
| "arrivals ev i g (t # ts) e =
     bindR (arrive_at_join ev i g t e) (\<lambda>e r. bindR (arrivals ev i g ts e) (\<lambda>e rs. (e, Ok (r # rs))))"

text \<open>The barrier a token finds, or the one its arrival makes.\<close>

definition barrier_at :: "process_instance \<Rightarrow> process_definition \<Rightarrow> string \<Rightarrow> join_barrier" where
  "barrier_at x def g =
     (case tget (pi_barriers x) g of None \<Rightarrow> new_barrier g (incoming_flow_count def g) | Some b \<Rightarrow> b)"

lemma arrived_barrier_at:
  "arrived_barrier x g (incoming_flow_count def g) tok
     = (barrier_at x def g)\<lparr>jb_arrived_tokens := jb_arrived_tokens (barrier_at x def g) @ [tok]\<rparr>"
  by (simp add: arrived_barrier_def barrier_at_def Let_def)

lemma fold_complete_active_other [simp]:
  "pi_barriers (fold complete_active ts x) = pi_barriers x"
  "pi_definition_key (fold complete_active ts x) = pi_definition_key x"
  by (induction ts arbitrary: x) (simp_all add: complete_active_def)

definition complete_ids :: "uuid list \<Rightarrow> active_token list \<Rightarrow> active_token list" where
  "complete_ids ts as =
     fold (\<lambda>t. update_first (\<lambda>a. tk_id (at_token a) = t) (\<lambda>a. a\<lparr>at_completed := True\<rparr>)) ts as"

lemma pi_active_complete: "pi_active (fold complete_active ts x) = complete_ids ts (pi_active x)"
  by (induction ts arbitrary: x) (simp_all add: complete_ids_def complete_active_def)

text \<open>One arrival before the last, and the last one.\<close>

lemma arrival_waits:
  assumes "inst_get e i = Some x" and "reg_get e (pi_definition_key x) = Some def"
    and "join_condition_of def g = None"
    and "Suc (length (jb_arrived_tokens (barrier_at x def g))) < jb_expected_count (barrier_at x def g)"
  obtains y where "arrive_at_join ev i g t e = (inst_put i y e, Ok None)"
    "pi_definition_key y = pi_definition_key x"
    "barrier_at y def g = (barrier_at x def g)\<lparr>jb_arrived_tokens := jb_arrived_tokens (barrier_at x def g) @ [t]\<rparr>"
    "\<And>h. h \<noteq> g \<Longrightarrow> tget (pi_barriers y) h = tget (pi_barriers x) h" "pi_active y = pi_active x"
proof -
  define b where "b = (barrier_at x def g)\<lparr>jb_arrived_tokens := jb_arrived_tokens (barrier_at x def g) @ [t]\<rparr>"
  have b: "arrived_barrier x g (incoming_flow_count def g) t = b"
    "length (jb_arrived_tokens b) = Suc (length (jb_arrived_tokens (barrier_at x def g)))"
    "jb_expected_count b = jb_expected_count (barrier_at x def g)"
    by (simp_all add: arrived_barrier_at b_def)
  define y where "y = fst (note_arrival ev def g b x)"
  have n: "note_arrival ev def g b x = (y, False)"
    using assms(3) by (simp add: y_def note_arrival_def Let_def)
  have "arrive_at_join ev i g t e = (inst_put i y e, Ok None)"
    using assms(1,2,4) n
    by (simp add: arrive_at_join_def instance_definition_def read_instance_def liftR_def Let_def b)
  moreover have "pi_barriers y = tput g b (pi_barriers x)" "pi_active y = pi_active x"
    "pi_definition_key y = pi_definition_key x"
    using assms(3) by (simp_all add: y_def note_arrival_def Let_def)
  ultimately show thesis using that by (simp add: barrier_at_def b_def)
qed

lemma fire_join_fields [simp]:
  "pi_barriers (fire_join g b x) = tdel g (pi_barriers x)"
  "pi_active (fire_join g b x) = complete_ids (map tk_id (jb_arrived_tokens b)) (pi_active x)"
  by (simp_all add: fire_join_def Let_def pi_active_complete)

lemma arrival_fires:
  assumes "inst_get e i = Some x" and "reg_get e (pi_definition_key x) = Some def"
    and "join_condition_of def g = None"
    and "Suc (length (jb_arrived_tokens (barrier_at x def g))) = jb_expected_count (barrier_at x def g)"
  obtains e' u y where "arrive_at_join ev i g t e =
      (e', Ok (Some ((token_with_variables u g (merge_vars (jb_arrived_tokens (barrier_at x def g) @ [t])))
                       \<lparr>tk_merged := True\<rparr>)))"
    "inst_get e' i = Some y" "tget (pi_barriers y) g = None"
    "\<And>h. h \<noteq> g \<Longrightarrow> tget (pi_barriers y) h = tget (pi_barriers x) h"
    "pi_active y = complete_ids (map tk_id (jb_arrived_tokens (barrier_at x def g) @ [t])) (pi_active x)"
    "\<And>j. j \<noteq> i \<Longrightarrow> inst_get e' j = inst_get e j"
proof -
  define b where "b = (barrier_at x def g)\<lparr>jb_arrived_tokens := jb_arrived_tokens (barrier_at x def g) @ [t]\<rparr>"
  have b: "arrived_barrier x g (incoming_flow_count def g) t = b"
    "length (jb_arrived_tokens b) = Suc (length (jb_arrived_tokens (barrier_at x def g)))"
    "jb_expected_count b = jb_expected_count (barrier_at x def g)"
    by (simp_all add: arrived_barrier_at b_def)
  define y1 where "y1 = fst (note_arrival ev def g b x)"
  have n: "note_arrival ev def g b x = (y1, False)"
    using assms(3) by (simp add: y1_def note_arrival_def Let_def)
  have y1: "pi_barriers y1 = tput g b (pi_barriers x)" "pi_active y1 = pi_active x"
    using assms(3) by (simp_all add: y1_def note_arrival_def Let_def)
  obtain u e1 where d: "draw ev (inst_put i (fire_join g b y1) e) = (u, e1)" by fastforce
  define e' where "e' = record_history_event ev i HTokenJoined
     (Msg ''Joined {} tokens at {}'' [ANat (length (jb_arrived_tokens b)), AStr g]) ActorEngine None None e1"
  have run: "arrive_at_join ev i g t e =
      (e', Ok (Some ((token_with_variables u g (merge_vars (jb_arrived_tokens b)))\<lparr>tk_merged := True\<rparr>)))"
    using assms(1,2,4) n d
    by (simp add: arrive_at_join_def instance_definition_def read_instance_def liftR_def Let_def b e'_def)
  have "same_tables (inst_put i (fire_join g b y1) e) e1" using same_tables_draw d by (metis snd_conv)
  then have same: "inst_get e' = inst_get (inst_put i (fire_join g b y1) e)"
    by (simp add: e'_def frame same_tablesD)
  have arrived: "jb_arrived_tokens b = jb_arrived_tokens (barrier_at x def g) @ [t]" by (simp add: b_def)
  show thesis
    by (rule that [OF run [unfolded arrived], of "fire_join g b y1"])
       (simp_all only: same insts.get_put fire_join_fields y1 arrived, simp_all)
qed

lemma arrivals_from:
  assumes "inst_get e i = Some x" and "reg_get e (pi_definition_key x) = Some def"
    and "join_condition_of def g = None" and "toks \<noteq> []"
    and "length (jb_arrived_tokens (barrier_at x def g)) + length toks = jb_expected_count (barrier_at x def g)"
  shows "\<exists>e' u y. arrivals ev i g toks e =
       (e', Ok (replicate (length toks - 1) None @
          [Some ((token_with_variables u g (merge_vars (jb_arrived_tokens (barrier_at x def g) @ toks)))
                   \<lparr>tk_merged := True\<rparr>)])) \<and>
     inst_get e' i = Some y \<and> tget (pi_barriers y) g = None \<and>
     (\<forall>h. h \<noteq> g \<longrightarrow> tget (pi_barriers y) h = tget (pi_barriers x) h) \<and>
     pi_active y = complete_ids (map tk_id (jb_arrived_tokens (barrier_at x def g) @ toks)) (pi_active x) \<and>
     (\<forall>j. j \<noteq> i \<longrightarrow> inst_get e' j = inst_get e j)"
  using assms
proof (induction toks arbitrary: e x)
  case Nil
  then show ?case by simp
next
  case (Cons t ts)
  show ?case
  proof (cases "ts = []")
    case True
    with Cons.prems(5) have "Suc (length (jb_arrived_tokens (barrier_at x def g))) = jb_expected_count (barrier_at x def g)"
      by simp
    then obtain e' u y where "arrive_at_join ev i g t e =
      (e', Ok (Some ((token_with_variables u g (merge_vars (jb_arrived_tokens (barrier_at x def g) @ [t])))
                       \<lparr>tk_merged := True\<rparr>)))"
      "inst_get e' i = Some y" "tget (pi_barriers y) g = None"
      "\<And>h. h \<noteq> g \<Longrightarrow> tget (pi_barriers y) h = tget (pi_barriers x) h"
      "pi_active y = complete_ids (map tk_id (jb_arrived_tokens (barrier_at x def g) @ [t])) (pi_active x)"
      "\<And>j. j \<noteq> i \<Longrightarrow> inst_get e' j = inst_get e j"
      using arrival_fires [OF Cons.prems(1-3), of ev t] by blast
    then show ?thesis by (intro exI [of _ e'] exI [of _ u] exI [of _ y]) (simp add: True)
  next
    case False
    then have "Suc (length (jb_arrived_tokens (barrier_at x def g))) < jb_expected_count (barrier_at x def g)"
      using Cons.prems(5) by (cases ts) auto
    then obtain y
      where run: "arrive_at_join ev i g t e = (inst_put i y e, Ok None)"
        and y: "pi_definition_key y = pi_definition_key x"
          "barrier_at y def g = (barrier_at x def g)\<lparr>jb_arrived_tokens := jb_arrived_tokens (barrier_at x def g) @ [t]\<rparr>"
          "\<And>h. h \<noteq> g \<Longrightarrow> tget (pi_barriers y) h = tget (pi_barriers x) h" "pi_active y = pi_active x"
      using arrival_waits [OF Cons.prems(1-3), of ev t] by blast
    have "\<exists>e' u z. arrivals ev i g ts (inst_put i y e) =
       (e', Ok (replicate (length ts - 1) None @
          [Some ((token_with_variables u g (merge_vars (jb_arrived_tokens (barrier_at y def g) @ ts)))
                   \<lparr>tk_merged := True\<rparr>)])) \<and>
       inst_get e' i = Some z \<and> tget (pi_barriers z) g = None \<and>
       (\<forall>h. h \<noteq> g \<longrightarrow> tget (pi_barriers z) h = tget (pi_barriers y) h) \<and>
       pi_active z = complete_ids (map tk_id (jb_arrived_tokens (barrier_at y def g) @ ts)) (pi_active y) \<and>
       (\<forall>j. j \<noteq> i \<longrightarrow> inst_get e' j = inst_get (inst_put i y e) j)"
      using Cons.prems False by (intro Cons.IH) (auto simp: insts.get_put frame y)
    then show ?thesis
      using False by (cases ts) (auto simp: run y insts.get_put)
  qed
qed


text \<open>A completed branch of the active list.\<close>

lemma complete_ids_map:
  "distinct (map (\<lambda>a. tk_id (at_token a)) as) \<Longrightarrow>
     complete_ids ts as
       = map (\<lambda>a. if tk_id (at_token a) \<in> set ts then a\<lparr>at_completed := True\<rparr> else a) as"
proof (induction ts arbitrary: as)
  case Nil
  then show ?case by (simp add: complete_ids_def)
next
  case (Cons t ts)
  let ?step = "map (\<lambda>a. if tk_id (at_token a) = t then a\<lparr>at_completed := True\<rparr> else a)"
  have first: "update_first (\<lambda>a. tk_id (at_token a) = t) (\<lambda>a. a\<lparr>at_completed := True\<rparr>) as = ?step as"
    using Cons.prems
  proof (induction as)
    case (Cons a as)
    then show ?case by (auto intro!: map_idI [symmetric] simp: image_iff)
  qed simp
  have "map (\<lambda>a. tk_id (at_token a)) (?step as) = map (\<lambda>a. tk_id (at_token a)) as" by simp
  with Cons.prems have "complete_ids ts (?step as)
      = map (\<lambda>a. if tk_id (at_token a) \<in> set ts then a\<lparr>at_completed := True\<rparr> else a) (?step as)"
    by (intro Cons.IH) (simp only: )
  then show ?case by (simp add: complete_ids_def first comp_def)
qed

text \<open>The variables of a merged token: of several bindings of a name, the last arrival's is kept.\<close>

lemma tget_merge_vars: "tget (merge_vars toks) k = map_of (rev (concat (map tk_vars toks))) k"
proof -
  have "tget (fold (\<lambda>t acc. textend acc (tk_vars t)) toks t) k =
      (case map_of (rev (concat (map tk_vars toks))) k of Some v \<Rightarrow> Some v | None \<Rightarrow> tget t k)" for t
    by (induction toks arbitrary: t) (simp_all add: tget_textend map_add_def split: option.split)
  from this [of "[]"] show ?thesis by (simp add: merge_vars_def tget_def split: option.split)
qed

text \<open>
  C23. A join without a completion condition (every join but a complex gateway that has one, which
  may fire earlier) fires exactly once, at the last of the arrivals it expects: the arrivals before
  only wait, the last one goes on as one token at the gateway with the variables of all of them (the
  last arrival that binds a name gives its value), the barrier is gone, exactly the branches of the
  arrived tokens are completed, and no other barrier and no other instance is touched. It does not
  matter which branch comes when.
\<close>

theorem join_fires_at_the_last_arrival:
  assumes "inst_get e i = Some x" and "reg_get e (pi_definition_key x) = Some def"
    and "join_condition_of def g = None" and "toks \<noteq> []"
    and "jb_arrived_tokens (barrier_at x def g) = []"
    and "length toks = jb_expected_count (barrier_at x def g)"
    and "distinct (map (\<lambda>a. tk_id (at_token a)) (pi_active x))"
  shows "\<exists>e' m y. arrivals ev i g toks e = (e', Ok (replicate (length toks - 1) None @ [Some m])) \<and>
     tk_node m = g \<and> tk_merged m \<and> (\<forall>k. tget (tk_vars m) k = map_of (rev (concat (map tk_vars toks))) k) \<and>
     inst_get e' i = Some y \<and> tget (pi_barriers y) g = None \<and>
     (\<forall>h. h \<noteq> g \<longrightarrow> tget (pi_barriers y) h = tget (pi_barriers x) h) \<and>
     pi_active y = map (\<lambda>a. if tk_id (at_token a) \<in> tk_id ` set toks then a\<lparr>at_completed := True\<rparr> else a)
                     (pi_active x) \<and>
     (\<forall>j. j \<noteq> i \<longrightarrow> inst_get e' j = inst_get e j)"
proof -
  have "length (jb_arrived_tokens (barrier_at x def g)) + length toks = jb_expected_count (barrier_at x def g)"
    using assms(5,6) by simp
  from arrivals_from [OF assms(1-4) this, of ev] obtain e' u y where
    "arrivals ev i g toks e = (e', Ok (replicate (length toks - 1) None @
          [Some ((token_with_variables u g (merge_vars toks))\<lparr>tk_merged := True\<rparr>)]))"
    "inst_get e' i = Some y" "tget (pi_barriers y) g = None"
    "\<forall>h. h \<noteq> g \<longrightarrow> tget (pi_barriers y) h = tget (pi_barriers x) h"
    "pi_active y = complete_ids (map tk_id toks) (pi_active x)"
    "\<forall>j. j \<noteq> i \<longrightarrow> inst_get e' j = inst_get e j"
    by (auto simp: assms(5))
  then show ?thesis
    by (intro exI [of _ e'] exI [of _ "(token_with_variables u g (merge_vars toks))\<lparr>tk_merged := True\<rparr>"]
        exI [of _ y]) (simp add: complete_ids_map [OF assms(7)] token_with_variables_def tget_merge_vars)
qed

theorem join_fires_at_the_last_arrival_witness:
  "\<exists>e' m. arrivals memory_env 1 ''j'' [token_with_variables 5 ''a'' [(''x'', JBool True), (''y'', JNull)],
      token_with_variables 6 ''b'' [(''x'', JBool False)]]
      (touch_instance 1 (\<lambda>x. x\<lparr>pi_barriers := [(''j'', new_barrier ''j'' 2)]\<rparr>) dot_engine)
    = (e', Ok [None, Some m]) \<and> tk_node m = ''j'' \<and>
    tget (tk_vars m) ''x'' = Some (JBool False) \<and> tget (tk_vars m) ''y'' = Some JNull"
proof -
  let ?x = "blank_instance\<lparr>pi_barriers := [(''j'', new_barrier ''j'' 2)]\<rparr>"
  let ?e = "touch_instance 1 (\<lambda>x. x\<lparr>pi_barriers := [(''j'', new_barrier ''j'' 2)]\<rparr>) dot_engine"
  let ?toks = "[token_with_variables 5 ''a'' [(''x'', JBool True), (''y'', JNull)],
      token_with_variables 6 ''b'' [(''x'', JBool False)]]"
  have x: "inst_get ?e 1 = Some ?x" by (simp add: frame dot_engine_def insts.get_put)
  have d: "reg_get ?e (pi_definition_key ?x) = Some dot_definition"
    by (simp add: reg_get_def frame dot_engine_def blank_instance_def reg_insert_def)
  have j: "join_condition_of dot_definition ''j'' = None"
    by (simp add: join_condition_of_def get_node_def dot_definition_def tget_Cons)
  have b: "barrier_at ?x dot_definition ''j'' = new_barrier ''j'' 2" by (simp add: barrier_at_def tget_Cons)
  have "?toks \<noteq> []" "jb_arrived_tokens (barrier_at ?x dot_definition ''j'') = []"
    "length ?toks = jb_expected_count (barrier_at ?x dot_definition ''j'')"
    "distinct (map (\<lambda>a. tk_id (at_token a)) (pi_active ?x))"
    unfolding b by (simp_all add: new_barrier_def blank_instance_def)
  from join_fires_at_the_last_arrival [OF x d j this, of memory_env] show ?thesis
    by (fastforce simp: token_with_variables_def)
qed


section \<open>Forks\<close>

lemma register_forks_closed:
  assumes "inst_get e i = Some x"
  shows "\<exists>e' y. register_forks i g k ts q e = (e', Ok (q @ ts)) \<and> inst_get e' i = Some y \<and>
     pi_barriers y = pi_barriers x \<and> pi_state y = pi_state x \<and>
     pi_active y = pi_active x @ map (\<lambda>(j, t). \<lparr> at_token = t, at_fork_id = Some g,
                      at_branch_index = j, at_completed = False \<rparr>) (enumerate k ts)"
  using assms
proof (induction ts arbitrary: k q e x)
  case Nil
  then show ?case by simp
next
  case (Cons t ts)
  let ?a = "\<lparr> at_token = t, at_fork_id = Some g, at_branch_index = k, at_completed = False \<rparr>"
  let ?e = "inst_put i (x\<lparr>pi_active := pi_active x @ [?a]\<rparr>) e"
  have "inst_get ?e i = Some (x\<lparr>pi_active := pi_active x @ [?a]\<rparr>)" by (simp add: insts.get_put)
  from Cons.IH [OF this, of "Suc k" "q @ [t]"] Cons.prems show ?case
    by (auto simp: register_active_token_def modify_instance_def)
qed

text \<open>
  C24. A fork queues its branches behind the tokens that already wait, enters them as uncompleted
  branches of this gateway and, when the graph has a join for the split, leaves a fresh barrier
  there that expects exactly as many arrivals as there are branches.
\<close>

theorem fork_leaves_a_barrier_for_its_branches:
  assumes "inst_get e i = Some x" and "reg_get e (pi_definition_key x) = Some def"
    and "find_downstream_join def g = Some j"
  shows "\<exists>e' y. act_continue_multiple i t g forked queue e = (e', Ok (queue @ forked)) \<and>
     inst_get e' i = Some y \<and>
     tget (pi_barriers y) j = Some (new_barrier j (length forked)) \<and>
     (\<forall>h. h \<noteq> j \<longrightarrow> tget (pi_barriers y) h = tget (pi_barriers x) h) \<and>
     pi_state y = ParallelExecution (length (pi_active x) + length forked) \<and>
     map at_token (filter (\<lambda>a. at_fork_id a = Some g \<and> \<not> at_completed a) (drop (length (pi_active x)) (pi_active y)))
       = forked"
proof -
  let ?x1 = "x\<lparr>pi_barriers := tput j (new_barrier j (length forked)) (pi_barriers x)\<rparr>"
  let ?x2 = "enter_parallel t g (length forked) ?x1"
  let ?e1 = "inst_put i ?x1 e"
  have b: "register_join_barrier_if_needed i g (length forked) e = (?e1, Ok ())"
    using assms by (simp add: register_join_barrier_if_needed_def instance_definition_def read_instance_def
        liftR_def modify_instance_def)
  have g: "inst_get (touch_instance i (enter_parallel t g (length forked)) ?e1) i = Some ?x2"
    by (simp add: frame insts.get_put)
  have fields: "pi_barriers ?x2 = tput j (new_barrier j (length forked)) (pi_barriers x)"
    "pi_state ?x2 = ParallelExecution (length (pi_active x) + length forked)"
    "length (pi_active ?x2) = length (pi_active x)"
    by (simp_all add: enter_parallel_def complete_active_def Let_def)
  have forks: "map at_token (filter (\<lambda>a. at_fork_id a = Some g \<and> \<not> at_completed a)
        (map (\<lambda>(j, t). \<lparr> at_token = t, at_fork_id = Some g, at_branch_index = j, at_completed = False \<rparr>)
           (enumerate k ts))) = ts" for k ts
    by (induction ts arbitrary: k) simp_all
  from register_forks_closed [OF g, of g 0 forked queue] fields b forks [of 0 forked] show ?thesis
    by (fastforce simp: act_continue_multiple_def)
qed

definition diamond_definition :: process_definition where
  "diamond_definition = ProcessDefinition 7 ''p'' 1 [(''g'', ParallelGateway), (''j'', ParallelGateway)]
     [(''g'', [simple_flow ''j'', simple_flow ''j'']), (''j'', [simple_flow ''a''])] [] [] []"

theorem fork_leaves_a_barrier_for_its_branches_witness:
  "\<exists>e' y. act_continue_multiple 1 5 ''g'' [token_new 6 ''j'', token_new 7 ''j''] []
       (reg_insert 7 diamond_definition dot_engine) = (e', Ok [token_new 6 ''j'', token_new 7 ''j'']) \<and>
     inst_get e' 1 = Some y \<and> tget (pi_barriers y) ''j'' = Some (new_barrier ''j'' 2)"
proof -
  let ?e = "reg_insert 7 diamond_definition dot_engine"
  have i: "inst_get ?e 1 = Some blank_instance"
    by (simp add: dot_engine_def insts.get_put reg_insert_def inst_get_def inst_put_def)
  have d: "reg_get ?e (pi_definition_key blank_instance) = Some diamond_definition"
    by (simp add: registry.get_put blank_instance_def)
  have j: "find_downstream_join diamond_definition ''g'' = Some ''j''" by code_simp
  from fork_leaves_a_barrier_for_its_branches [OF i d j, of 5 "[token_new 6 ''j'', token_new 7 ''j'']" "[]"]
  show ?thesis by (auto simp: numeral_2_eq_2)
qed

section \<open>The step limit\<close>

text \<open>The loop as a step relation: a round that succeeds leads to the next queue and engine.\<close>

inductive rounds :: "'p eenv \<Rightarrow> 'p batch \<Rightarrow> uuid \<Rightarrow> nat \<Rightarrow> token list \<times> 'p engine \<Rightarrow> token list \<times> 'p engine \<Rightarrow> bool"
  for ev rec i where
  rounds_none: "rounds ev rec i 0 s s"
| rounds_step: "batch_round ev rec i tok queue e = (e1, Ok queue1) \<Longrightarrow>
     rounds ev rec i n (queue1, e1) s \<Longrightarrow> rounds ev rec i (Suc n) (tok # queue, e) s"

inductive_cases rounds_SucE: "rounds ev rec i (Suc n) (queue, e) s"

text \<open>
  The batch loop makes at most the allowed number of rounds and ends in one of three ways: the
  queue is empty; a round failed and its error is passed on; or tokens remain after the last allowed
  round, then the instance is ended as over the limit and the error says so.
\<close>

lemma loop_ends_within_the_limit:
  "\<exists>n \<le> left. \<exists>q e1. rounds ev rec i n (queue, e) (q, e1) \<and>
     (q = [] \<and> batch_loop ev rec i left queue e = (e1, Ok ()) \<or>
      (\<exists>tok rest. q = tok # rest \<and> n < left \<and> (\<forall>q'. snd (batch_round ev rec i tok rest e1) \<noteq> Ok q') \<and>
         batch_loop ev rec i left queue e = bindR (batch_round ev rec i tok rest e1) (\<lambda>e q. (e, Ok ()))) \<or>
      q \<noteq> [] \<and> n = left \<and> batch_loop ev rec i left queue e = abort_batch ev i e1)"
proof (induction left arbitrary: queue e)
  case 0
  show ?case
    by (cases queue) (auto intro!: exI [of _ queue] exI [of _ e] rounds_none)
next
  case (Suc left)
  show ?case
  proof (cases queue)
    case Nil
    then show ?thesis by (intro exI [of _ 0]) (auto intro: rounds_none)
  next
    case (Cons tok rest)
    obtain e1 r where r: "batch_round ev rec i tok rest e = (e1, r)" by fastforce
    show ?thesis
    proof (cases "\<exists>q. r = Ok q")
      case True
      then obtain queue1 where q1: "r = Ok queue1" by blast
      from Suc.IH [of queue1 e1] obtain n q e2 where n: "n \<le> left" "rounds ev rec i n (queue1, e1) (q, e2)"
        and c: "q = [] \<and> batch_loop ev rec i left queue1 e1 = (e2, Ok ()) \<or>
          (\<exists>tok rest. q = tok # rest \<and> n < left \<and> (\<forall>q'. snd (batch_round ev rec i tok rest e2) \<noteq> Ok q') \<and>
             batch_loop ev rec i left queue1 e1 = bindR (batch_round ev rec i tok rest e2) (\<lambda>e q. (e, Ok ()))) \<or>
          q \<noteq> [] \<and> n = left \<and> batch_loop ev rec i left queue1 e1 = abort_batch ev i e2"
        by blast
      have "rounds ev rec i (Suc n) (queue, e) (q, e2)"
        unfolding Cons using r q1 n(2) by (auto intro: rounds_step)
      then show ?thesis
        using n(1) c by (intro exI [of _ "Suc n"]) (auto simp: Cons r q1)
    next
      case False
      then have "bindR (e1, r) k = bindR (e1, r) k'" for k k' :: "'a engine \<Rightarrow> token list \<Rightarrow> 'a engine \<times> (engine_error, unit) outcome"
        by (cases r) auto
      then show ?thesis
        using False by (intro exI [of _ 0]) (auto simp: Cons r intro!: exI [of _ "tok # rest"] exI [of _ e] rounds_none)
    qed
  qed
qed

text \<open>
  An instance over the step limit is ended with the code \<open>EXECUTION_LIMIT_EXCEEDED\<close> and the time,
  keeps its variables and waiting tokens, and the caller gets the limit error.
\<close>

theorem over_the_limit_ends_the_instance:
  assumes "inst_get e i = Some x"
  shows "\<exists>e' y. abort_batch ev i e = (e', Err (limit_error i)) \<and> inst_get e' i = Some y \<and>
     pi_state y = CompletedWithError ''EXECUTION_LIMIT_EXCEEDED'' \<and> pi_completed_at y = Some (en_now e) \<and>
     pi_vars y = pi_vars x \<and> pi_tokens y = pi_tokens x \<and> (\<forall>j. j \<noteq> i \<longrightarrow> inst_get e' j = inst_get e j)"
  using assms by (auto simp: abort_batch_def frame)

theorem over_the_limit_ends_the_instance_witness:
  "\<exists>e'. abort_batch memory_env 1 dot_engine = (e' :: memory engine, (Err (limit_error 1) :: (engine_error, unit) outcome))"
proof -
  have "inst_get dot_engine 1 = Some blank_instance" by (simp add: dot_engine_def insts.get_put)
  from over_the_limit_ends_the_instance [OF this, of memory_env] show ?thesis by blast
qed

section \<open>The terminate end\<close>

text \<open>
  A terminate end event empties the queue of the batch, completes the instance and every branch
  of it, and takes away exactly the tasks, timers and message catches that wait for this instance.
\<close>

theorem terminate_takes_everything_with_it:
  assumes "engine_wf e" and "inst_get e i = Some x"
  shows "\<exists>e' y. handle_next_action ev rec Terminate i t g queue e = (e', Ok []) \<and>
     inst_get e' i = Some y \<and> pi_state y = Completed \<and> pi_completed_at y = Some (en_now e) \<and>
     (\<forall>a \<in> set (pi_active y). at_completed a) \<and>
     (\<forall>u s. tget (en_user e') u = Some s \<longleftrightarrow> tget (en_user e) u = Some s \<and> ut_instance_id s \<noteq> i) \<and>
     (\<forall>u s. tget (en_service e') u = Some s \<longleftrightarrow> tget (en_service e) u = Some s \<and> st_instance_id s \<noteq> i) \<and>
     (\<forall>u s. tget (en_timers e') u = Some s \<longleftrightarrow> tget (en_timers e) u = Some s \<and> tm_instance_id s \<noteq> i) \<and>
     (\<forall>u s. tget (en_messages e') u = Some s \<longleftrightarrow> tget (en_messages e) u = Some s \<and> mc_instance_id s \<noteq> i) \<and>
     (\<forall>j. j \<noteq> i \<longrightarrow> inst_get e' j = inst_get e j)"
proof -
  have wf: "wf_table (en_user e)" "wf_table (en_service e)" "wf_table (en_timers e)" "wf_table (en_messages e)"
    using engine_wf_tables [OF assms(1)] by (simp_all add: keyed_by_def)
  have "inst_get (e\<lparr>en_user := us, en_service := ss, en_timers := ts, en_messages := ms\<rparr>) = inst_get e" for us ss ts ms
    by (simp add: inst_get_def fun_eq_iff)
  with assms(2) wf show ?thesis
    by (auto simp: handle_next_action_def act_terminate_def Let_def frame tget_tretain split: option.split)
qed

theorem terminate_takes_everything_with_it_witness:
  "\<exists>e'. handle_next_action memory_env (run_instance_batch memory_env 1) Terminate 1 5 ''a'' [token_new 6 ''a''] dot_engine
     = (e', Ok [])"
proof -
  have i: "inst_get dot_engine 1 = Some blank_instance" by (simp add: dot_engine_def insts.get_put)
  have "engine_wf dot_engine"
    by (auto simp: dot_engine_def reg_insert_def engine_new_def engine_wf_def inst_put_def inst_get_def keyed_by_def
        tget_tput blank_instance_def inst_wf_def dot_definition_def split: if_splits)
  from terminate_takes_everything_with_it [OF this i, of memory_env "run_instance_batch memory_env 1"]
  show ?thesis by blast
qed

end
