(* ===== verification/ProcessStart.thy ===== *)
theory ProcessStart
  imports Joins
begin

text \<open>
  The public ways to start an instance (\<open>process_start.rs\<close>): from a definition, from the latest
  version of a BPMN id, by an external timer trigger, and by a timer start event with its
  background repetitions. The argument \<open>rec\<close> is \<open>run_instance_batch\<close> at some depth.
\<close>

section \<open>Plain starts\<close>

definition start_instance_with_variables ::
  "'p eenv \<Rightarrow> 'p batch \<Rightarrow> uuid \<Rightarrow> vars \<Rightarrow> 'p engine \<Rightarrow> ('p, uuid) result" where
  "start_instance_with_variables ev rec dk vs e = start_with_parent ev rec dk vs None e"

definition start_instance :: "'p eenv \<Rightarrow> 'p batch \<Rightarrow> uuid \<Rightarrow> 'p engine \<Rightarrow> ('p, uuid) result" where
  "start_instance ev rec dk e = start_instance_with_variables ev rec dk [] e"

definition start_instance_latest ::
  "'p eenv \<Rightarrow> 'p batch \<Rightarrow> string \<Rightarrow> vars \<Rightarrow> 'p engine \<Rightarrow> ('p, uuid \<times> uuid) result" where
  "start_instance_latest ev rec bpmn_id vs e =
     (case find_latest_by_bpmn_id e bpmn_id of
        None \<Rightarrow>
          (e, Err (InvalidDefinition (Msg ''No definition found with BPMN ID {}'' [AStr bpmn_id])))
      | Some (dk, d) \<Rightarrow>
          bindR (start_instance_with_variables ev rec dk vs e) (\<lambda>e i. (e, Ok (i, dk))))"

section \<open>Timer starts\<close>

definition secs_of :: "duration \<Rightarrow> nat" where
  "secs_of d = d div 10 ^ 9"

text \<open>The definition and its timer start event, or the errors both operations share.\<close>

definition timer_start_event ::
  "uuid \<Rightarrow> 'p engine \<Rightarrow> (engine_error, process_definition \<times> string \<times> timer_def) outcome" where
  "timer_start_event dk e =
     and_then (ok_or (NoSuchDefinition dk) (reg_get e dk)) (\<lambda>def.
     and_then (ok_or (InvalidDefinition (Msg ''No start event'' [])) (start_event def)) (\<lambda>se.
       case snd se of
         TimerStartEvent td \<Rightarrow> Ok (def, fst se, td)
       | _ \<Rightarrow> Err (InvalidDefinition (Msg ''Start event is not a timer start event'' []))))"

definition timer_mismatch :: "timer_def \<Rightarrow> duration \<Rightarrow> engine_error option" where
  "timer_mismatch td provided =
     (case td of
        TDuration d \<Rightarrow> if d = provided then None else Some (TimerMismatch (secs_of d) (secs_of provided))
      | _ \<Rightarrow> Some (TimerMismatch 0 (secs_of provided)))"

text \<open>Insert the instance, record its start, run its first batch and save it.\<close>

definition launch ::
  "'p eenv \<Rightarrow> 'p batch \<Rightarrow> process_instance \<Rightarrow> msg \<Rightarrow> string \<Rightarrow> 'p engine \<Rightarrow> ('p, uuid) result" where
  "launch ev rec x m start_id e =
     (let i = pi_id x;
          e1 = record_history_event ev i HInstanceStarted m ActorTimer None None (inst_put i x e)
      in case draw ev e1 of (u, e2) \<Rightarrow>
           bindR (rec i (token_new u start_id) e2) (\<lambda>e3 w. (persist_instance ev i e3, Ok i)))"

definition trigger_timer_start ::
  "'p eenv \<Rightarrow> 'p batch \<Rightarrow> uuid \<Rightarrow> duration \<Rightarrow> 'p engine \<Rightarrow> ('p, uuid) result" where
  "trigger_timer_start ev rec dk provided e0 =
     bindR (liftR e0 (timer_start_event dk e0)) (\<lambda>e dst.
       case dst of (def, start_id, td) \<Rightarrow>
         (case timer_mismatch td provided of
            Some er \<Rightarrow> (e, Err er)
          | None \<Rightarrow>
              (case draw ev e of (i, e1) \<Rightarrow>
              (case draw ev e1 of (b, e2) \<Rightarrow>
                 launch ev rec
                   (initial_instance dk i (env_uuid_str ev b) start_id [] None
                      (Msg ''Timer fired ({}s) - started at node {}'' [ANat (secs_of provided), AStr start_id])
                      (en_now e2))
                   (Msg ''Timer fired for instance of process {}'' [AStr (pd_id def)]) start_id e2))))"

text \<open>The variables of a timer instance: the caller's, plus the metadata of the cycle.\<close>

definition timer_vars :: "vars \<Rightarrow> string \<Rightarrow> nat \<Rightarrow> nat \<Rightarrow> nat option \<Rightarrow> vars" where
  "timer_vars vs start_id iteration reps_total secs =
     (let v1 = tput ''_timer_iteration'' (JNum (JInt (int iteration))) (tdel ''business_key'' vs);
          v2 = tput ''_timer_total'' (JNum (JInt (int reps_total))) v1;
          v3 = tput ''_timer_start_node'' (JStr start_id) v2
      in case secs of
           None \<Rightarrow> v3
         | Some s \<Rightarrow> tput ''_timer_interval_secs'' (JNum (JInt (int s))) v3)"

definition spawn_timer_instance ::
  "'p eenv \<Rightarrow> 'p batch \<Rightarrow> uuid \<Rightarrow> string \<Rightarrow> vars \<Rightarrow> nat \<Rightarrow> nat \<Rightarrow> nat option \<Rightarrow> 'p engine
     \<Rightarrow> ('p, uuid) result" where
  "spawn_timer_instance ev rec dk start_id variables iteration reps_total secs e0 =
     bindR (liftR e0 (ok_or (NoSuchDefinition dk) (reg_get e0 dk))) (\<lambda>e def.
       case draw ev e of (i, e1) \<Rightarrow>
       case take_business_key ev variables (en_draws e1) of (n, bkey) \<Rightarrow>
         (let vs = timer_vars variables start_id iteration reps_total secs
          in launch ev rec
               (initial_instance dk i bkey start_id vs None
                  (Msg ''Timer instance #{}/{} started at node {} with {} variable(s)''
                    [ANat iteration, ANat reps_total, AStr start_id, ANat (length vs)]) (en_now e1))
               (Msg ''Timer instance #{} of process {}'' [ANat iteration, AStr (pd_id def)])
               start_id (e1\<lparr>en_draws := n\<rparr>)))"

text \<open>
  The task left running in the background by a repeating start event: the interval, the number of
  repetitions still to come, and what each of them starts.
\<close>

record repeat_task =
  rt_definition :: uuid
  rt_start_id :: string
  rt_vars :: vars
  rt_interval :: duration
  rt_remaining :: nat
  rt_total :: nat
  rt_secs :: "nat option"

definition start_timer_instance ::
  "'p eenv \<Rightarrow> 'p batch \<Rightarrow> uuid \<Rightarrow> vars \<Rightarrow> 'p engine \<Rightarrow> ('p, uuid \<times> repeat_task option) result" where
  "start_timer_instance ev rec dk variables e0 =
     bindR (liftR e0 (timer_start_event dk e0)) (\<lambda>e dst.
       case dst of (def, start_id, td) \<Rightarrow>
         (let (reps_total, secs) = (case td of
                TRepeating reps interval \<Rightarrow>
                  ((case reps of None \<Rightarrow> 1 | Some r \<Rightarrow> r), Some (secs_of interval))
              | _ \<Rightarrow> (1, None))
          in bindR (spawn_timer_instance ev rec dk start_id variables 1 reps_total secs e) (\<lambda>e1 first_id.
               (e1, Ok (first_id,
                  case td of
                    TRepeating reps interval \<Rightarrow>
                      (let remaining = (case reps of None \<Rightarrow> 2 ^ 32 - 1 | Some r \<Rightarrow> r - 1)
                       in if remaining > 0 then
                            Some \<lparr> rt_definition = dk, rt_start_id = start_id, rt_vars = variables,
                                   rt_interval = interval, rt_remaining = remaining, rt_total = reps_total,
                                   rt_secs = secs \<rparr>
                          else None)
                  | _ \<Rightarrow> None)))))"

text \<open>
  The loop of the background task from repetition \<open>k\<close> on: one instance per interval, numbered from
  2, until the repetitions are used up or a start fails. The clock moves by the interval.
\<close>

fun run_repeats ::
  "'p eenv \<Rightarrow> 'p batch \<Rightarrow> repeat_task \<Rightarrow> nat \<Rightarrow> nat \<Rightarrow> 'p engine \<Rightarrow> ('p, unit) result" where
  "run_repeats ev rec t k 0 e = (e, Ok ())"
| "run_repeats ev rec t k (Suc left) e =
     (case spawn_timer_instance ev rec (rt_definition t) (rt_start_id t) (rt_vars t)
             ((k + 2) mod 2 ^ 32) (rt_total t) (rt_secs t)
             (e\<lparr>en_now := en_now e + int (rt_interval t)\<rparr>) of
        (e1, Ok i) \<Rightarrow> run_repeats ev rec t (Suc k) left e1
      | (e1, Err er) \<Rightarrow> (e1, Ok ())
      | (e1, Diverged) \<Rightarrow> (e1, Diverged))"

section \<open>Starting keeps the invariant\<close>

context nested_batch begin

lemma start_instance_wf:
  assumes "engine_wf e"
  shows "keeps engine_wf (start_instance_with_variables ev rec dk vs e)"
    "keeps engine_wf (start_instance ev rec dk e)"
    "keeps engine_wf (start_instance_latest ev rec bid vs e)"
  using assms
  by (auto simp: start_instance_with_variables_def start_instance_def start_instance_latest_def
      split: option.split intro!: keeps_intro start_with_parent_wf)

lemma launch_wf: "engine_wf e \<Longrightarrow> inst_wf x \<Longrightarrow> keeps engine_wf (launch ev rec x m s e)"
  unfolding launch_def Let_def
  by (intro keeps_intro wf_intro rec_wf) auto

lemma trigger_timer_start_wf: "engine_wf e \<Longrightarrow> keeps engine_wf (trigger_timer_start ev rec dk d e)"
  unfolding trigger_timer_start_def
  by (intro keeps_intro launch_wf) auto

lemma spawn_timer_instance_wf:
  "engine_wf e \<Longrightarrow> keeps engine_wf (spawn_timer_instance ev rec dk s vs k n secs e)"
  unfolding spawn_timer_instance_def Let_def
  by (intro keeps_intro launch_wf wf_intro) auto

lemma start_timer_instance_wf: "engine_wf e \<Longrightarrow> keeps engine_wf (start_timer_instance ev rec dk vs e)"
  unfolding start_timer_instance_def Let_def
  by (intro keeps_intro spawn_timer_instance_wf)

lemma run_repeats_wf: "engine_wf e \<Longrightarrow> keeps engine_wf (run_repeats ev rec t k left e)"
proof (induction left arbitrary: k e)
  case 0
  then show ?case by (simp add: keeps_def)
next
  case (Suc left)
  have wf: "engine_wf (e\<lparr>en_now := en_now e + int (rt_interval t)\<rparr>)"
    using Suc.prems by (simp add: engine_wf_def inst_get_def)
  show ?case
    unfolding run_repeats.simps
    by (rule keeps_outcome) (auto intro!: spawn_timer_instance_wf wf Suc.IH keeps_pair)
qed

end

end
