(* ===== verification/UserTasks.thy ===== *)
theory UserTasks
  imports ProcessStart
begin

text \<open>
  Completion of user tasks (\<open>engine/user_task.rs\<close>). The operations on tasks share their middle
  part: the token leaves the store of the instance, takes over the caller's variables, and the
  boundary events of the node are cancelled.
\<close>

section \<open>Shared steps of task completion\<close>

text \<open>\<open>inst.tokens.remove(id).ok_or_else(..)\<close> under the lock of the instance.\<close>

definition take_token :: "uuid \<Rightarrow> uuid \<Rightarrow> 'p engine \<Rightarrow> ('p, token) result" where
  "take_token i t e =
     bindR (read_instance i e) (\<lambda>e x.
       case tget (pi_tokens x) t of
         None \<Rightarrow> (e, Err (InvalidDefinition (Msg ''Token {} not found in instance'' [AId t])))
       | Some tok \<Rightarrow> (inst_put i (x\<lparr>pi_tokens := tdel t (pi_tokens x)\<rparr>) e, Ok tok))"

definition merge_into_token :: "vars \<Rightarrow> token \<Rightarrow> token" where
  "merge_into_token vs tok = tok\<lparr>tk_vars := textend (tk_vars tok) vs\<rparr>"

definition cancel_boundary_events :: "'p eenv \<Rightarrow> uuid \<Rightarrow> string \<Rightarrow> 'p engine \<Rightarrow> 'p engine" where
  "cancel_boundary_events ev i n e =
     cancel_boundary_message_catches ev i n (cancel_boundary_timers ev i n e)"

definition instance_suspended :: "uuid \<Rightarrow> 'p engine \<Rightarrow> bool" where
  "instance_suspended i e = (case inst_get e i of None \<Rightarrow> False | Some x \<Rightarrow> is_suspended (pi_state x))"

text \<open>A task that completes: the instance runs again unless several tokens are on their way.\<close>

definition run_again :: "process_instance \<Rightarrow> process_instance" where
  "run_again x = (if is_parallel (pi_state x) then x else x\<lparr>pi_state := Running\<rparr>)"

text \<open>\<open>definitions.get(&def_key).ok_or(NoSuchDefinition)\<close>, with the key read from the instance.\<close>

definition definition_of :: "uuid \<Rightarrow> 'p engine \<Rightarrow> ('p, process_definition) result" where
  "definition_of i e =
     bindR (read_instance i e) (\<lambda>e x.
       liftR e (ok_or (NoSuchDefinition (pi_definition_key x)) (reg_get e (pi_definition_key x))))"

section \<open>Completing a user task (user\_task.rs)\<close>

text \<open>The rollback after a failed end script: token and task go back, the state waits again.\<close>

definition rollback_user_task :: "user_task \<Rightarrow> token \<Rightarrow> 'p engine \<Rightarrow> 'p engine" where
  "rollback_user_task t tok e =
     (let e1 = touch_instance (ut_instance_id t)
                 (\<lambda>x. store_token tok (x\<lparr>pi_state := WaitingOnUserTask (ut_task_id t)\<rparr>)) e
      in e1\<lparr>en_user := tput (ut_task_id t) t (en_user e1)\<rparr>)"

text \<open>The token as the end scripts that ran before a failure left it.\<close>

definition token_after_scripts ::
  "'p eenv \<Rightarrow> process_definition \<Rightarrow> string \<Rightarrow> token \<Rightarrow> 'p engine \<Rightarrow> token" where
  "token_after_scripts ev def n tok e =
     fst (fst (run_node_scripts ev (en_script e) def n LEnd (tok, [])))"

text \<open>From the end scripts of the task's node to the next batch.\<close>

definition advance_user_task ::
  "'p eenv \<Rightarrow> 'p batch \<Rightarrow> user_task \<Rightarrow> process_instance option \<Rightarrow> process_definition \<Rightarrow> token
     \<Rightarrow> 'p engine \<Rightarrow> ('p, unit) result" where
  "advance_user_task ev rec t old def tok0 e =
     (let i = ut_instance_id t; n = ut_node_id t in
      case end_scripts ev i def n tok0 e of
        (e1, Err er) \<Rightarrow> (rollback_user_task t (token_after_scripts ev def n tok0 e) e1, Err er)
      | (e1, Diverged) \<Rightarrow> (e1, Diverged)
      | (e1, Ok tok) \<Rightarrow>
          (let e2 = register_compensation_handler i n def e1
           in bindR (liftR e2 (resolve_next_target ev def n (tk_vars tok))) (\<lambda>e3 next.
              bindR (modify_instance i (\<lambda>x. x\<lparr>pi_node := next\<rparr>) e3) (\<lambda>e4 u.
                rec i (tok\<lparr>tk_node := next\<rparr>)
                  (record_history_event ev i HTaskCompleted (Msg ''User task {} completed'' [AStr n])
                     ActorUser (Some (ut_assignee t)) old e4)))))"

definition user_task_missing :: "uuid \<Rightarrow> engine_error" where
  "user_task_missing u = TaskNotPending u (Msg ''not found in pending tasks'' [])"

definition complete_user_task ::
  "'p eenv \<Rightarrow> 'p batch \<Rightarrow> uuid \<Rightarrow> vars \<Rightarrow> 'p engine \<Rightarrow> ('p, unit) result" where
  "complete_user_task ev rec task_id additional_vars e0 =
     (case tget (en_user e0) task_id of
        None \<Rightarrow> (e0, Err (user_task_missing task_id))
      | Some t \<Rightarrow>
          (let i = ut_instance_id t; n = ut_node_id t;
               e1 = e0\<lparr>en_user := tdel task_id (en_user e0)\<rparr>
           in if instance_suspended i e1 then
                (e1\<lparr>en_user := tput task_id t (en_user e1)\<rparr>, Err (InstanceSuspended i))
              else
                bindR (take_token i (ut_token_id t) e1) (\<lambda>e2 tok.
                let e3 = cancel_boundary_events ev i n (remove_persisted_user_task ev task_id e2);
                    old = inst_get e3 i
                in bindR (modify_instance i
                       (\<lambda>x. (run_again (x\<lparr>pi_audit := pi_audit x @
                                [Msg ''User task {} completed'' [AStr n]]\<rparr>))\<lparr>pi_node := n\<rparr>) e3) (\<lambda>e4 u.
                   bindR (definition_of i e4) (\<lambda>e5 def.
                     advance_user_task ev rec t old def (merge_into_token additional_vars tok) e5)))))"

section \<open>Completing a user task keeps the invariant\<close>

lemma take_token_wf [keeps_intro]: "engine_wf e \<Longrightarrow> keeps engine_wf (take_token i t e)"
  unfolding take_token_def
  by (rule keeps_bind_read) (auto intro!: keeps_intro wf_intro)

text \<open>A taken token has the id it was stored under.\<close>

lemma take_token_id:
  "take_token i t e = (e', Ok tok) \<Longrightarrow> engine_wf e \<Longrightarrow> tk_id tok = t"
  by (auto simp: take_token_def read_instance_def bindR_Ok_iff inst_wf_def split: option.splits
      dest: engine_wf_inst)

lemma definition_of_wf [keeps_intro]: "engine_wf e \<Longrightarrow> keeps engine_wf (definition_of i e)"
  unfolding definition_of_def by (intro keeps_intro)

lemma cancel_boundary_events_wf [wf_intro]: "engine_wf e \<Longrightarrow> engine_wf (cancel_boundary_events ev i n e)"
  unfolding cancel_boundary_events_def by (intro wf_intro)

lemma run_again_wf [simp]:
  "inst_wf x \<Longrightarrow> inst_wf (run_again x)" "pi_id (run_again x) = pi_id x"
  by (simp_all add: run_again_def)

lemma rollback_user_task_wf [wf_intro]: "engine_wf e \<Longrightarrow> engine_wf (rollback_user_task t tok e)"
  by (auto simp: rollback_user_task_def Let_def inst_keeps_def intro!: wf_intro keyed_user)

context nested_batch begin

lemma advance_user_task_wf: "engine_wf e \<Longrightarrow> keeps engine_wf (advance_user_task ev rec t old def tok e)"
  unfolding advance_user_task_def Let_def
  by (rule keeps_outcome)
     (auto simp: inst_keeps_def intro!: keeps_intro wf_intro rec_wf)

lemma complete_user_task_wf:
  assumes "engine_wf e"
  shows "keeps engine_wf (complete_user_task ev rec u vs e)"
proof (cases "tget (en_user e) u")
  case None
  with assms show ?thesis by (simp add: complete_user_task_def keeps_def)
next
  case (Some t)
  with assms have id: "ut_task_id t = u" and k: "keyed_by ut_task_id (en_user e)"
    by (auto simp: engine_wf_def keyed_by_def)
  have tab: "keyed_by ut_task_id (tput u t (tdel u (en_user e)))"
    using k id by auto
  show ?thesis
    using assms Some k tab
    by (auto simp: complete_user_task_def Let_def inst_keeps_def
        intro!: keeps_intro wf_intro advance_user_task_wf)
qed

end

end
