(* ===== verification/ServiceTasks.thy ===== *)
theory ServiceTasks
  imports UserTasks
begin

text \<open>
  Service tasks for remote workers (\<open>engine/service_task.rs\<close>): fetch-and-lock, completion, failure
  with retries, incidents, lock extension and BPMN errors.
\<close>

section \<open>Locks\<close>

definition verify_lock_ownership :: "uuid \<Rightarrow> string option \<Rightarrow> string \<Rightarrow> (engine_error, unit) outcome" where
  "verify_lock_ownership task_id locked_worker worker_id =
     (case locked_worker of
        Some locked_by \<Rightarrow>
          if locked_by \<noteq> worker_id then Err (ServiceTaskLocked task_id locked_by) else Ok ()
      | None \<Rightarrow> Err (ServiceTaskNotLocked task_id))"

text \<open>A task a worker may take: its topic is asked for and it is not under an unexpired lock.\<close>

definition lockable :: "time \<Rightarrow> string list \<Rightarrow> service_task \<Rightarrow> bool" where
  "lockable now topics t \<longleftrightarrow>
     st_topic t \<in> set topics \<and>
     (case st_lock_expiration t of None \<Rightarrow> True | Some expiration \<Rightarrow> \<not> expiration > now)"

definition lock_task :: "string \<Rightarrow> time \<Rightarrow> service_task \<Rightarrow> service_task" where
  "lock_task worker_id expiration t =
     t\<lparr>st_worker_id := Some worker_id, st_lock_expiration := Some expiration\<rparr>"

text \<open>The walk over the table; \<open>room\<close> is how many more tasks may be handed out.\<close>

fun lock_walk ::
  "(service_task \<Rightarrow> bool) \<Rightarrow> (service_task \<Rightarrow> service_task) \<Rightarrow> nat \<Rightarrow> (uuid, service_task) table
     \<Rightarrow> (uuid, service_task) table \<times> service_task list" where
  "lock_walk p f room [] = ([], [])"
| "lock_walk p f room ((k, t) # rest) =
     (if room = 0 then ((k, t) # rest, [])
      else if p t then
        (case lock_walk p f (room - 1) rest of (rest', got) \<Rightarrow> ((k, f t) # rest', f t # got))
      else
        (case lock_walk p f room rest of (rest', got) \<Rightarrow> ((k, t) # rest', got)))"

definition fetch_and_lock_service_tasks ::
  "'p eenv \<Rightarrow> string \<Rightarrow> nat \<Rightarrow> string list \<Rightarrow> int \<Rightarrow> 'p engine \<Rightarrow> 'p engine \<times> service_task list" where
  "fetch_and_lock_service_tasks ev worker_id max_tasks topics lock_duration e =
     (let now = en_now e;
          (table', got) = lock_walk (lockable now topics)
             (lock_task worker_id (now + env_td_seconds ev lock_duration)) max_tasks (en_service e)
      in (fold (persist_service_task ev) (map st_id got) (e\<lparr>en_service := table'\<rparr>), got))"

section \<open>Taking a task out of the queue\<close>

text \<open>\<open>remove_if(worker_id == ..)\<close>, and the error that tells why it did not remove.\<close>

definition take_locked_task :: "uuid \<Rightarrow> string \<Rightarrow> 'p engine \<Rightarrow> ('p, service_task) result" where
  "take_locked_task task_id worker_id e =
     (case tget (en_service e) task_id of
        None \<Rightarrow> (e, Err (ServiceTaskNotFound task_id))
      | Some t \<Rightarrow>
          if st_worker_id t = Some worker_id then (e\<lparr>en_service := tdel task_id (en_service e)\<rparr>, Ok t)
          else (case st_worker_id t of
                  None \<Rightarrow> (e, Err (ServiceTaskNotLocked task_id))
                | Some locked_by \<Rightarrow> (e, Err (ServiceTaskLocked task_id locked_by))))"

definition not_an_incident :: engine_error where
  "not_an_incident = InvalidDefinition (Msg ''Task is not an incident (retries > 0)'' [])"

definition take_incident :: "uuid \<Rightarrow> 'p engine \<Rightarrow> ('p, service_task) result" where
  "take_incident task_id e =
     (case tget (en_service e) task_id of
        None \<Rightarrow> (e, Err (ServiceTaskNotFound task_id))
      | Some t \<Rightarrow>
          if st_retries t \<le> 0 then (e\<lparr>en_service := tdel task_id (en_service e)\<rparr>, Ok t)
          else (e, Err not_an_incident))"

section \<open>Completion\<close>

text \<open>From the end scripts of the node to the next batch.\<close>

definition advance_service_task ::
  "'p eenv \<Rightarrow> 'p batch \<Rightarrow> service_task \<Rightarrow> string \<Rightarrow> process_instance option \<Rightarrow> process_definition
     \<Rightarrow> token \<Rightarrow> 'p engine \<Rightarrow> ('p, unit) result" where
  "advance_service_task ev rec t worker_id old def tok0 e =
     (let i = st_instance_id t; n = st_node_id t in
      bindR (end_scripts ev i def n tok0 e) (\<lambda>e tok.
      bindR (liftR e (resolve_next_target ev def n (tk_vars tok))) (\<lambda>e next.
      bindR (modify_instance i (\<lambda>x. x\<lparr>pi_node := next\<rparr>) e) (\<lambda>e u.
        rec i (tok\<lparr>tk_node := next\<rparr>)
          (record_history_event ev i HTaskCompleted (Msg ''Service task {} completed'' [AStr n])
             ActorServiceWorker (Some worker_id) old (remove_persisted_service_task ev (st_id t) e))))))"

definition complete_service_task ::
  "'p eenv \<Rightarrow> 'p batch \<Rightarrow> uuid \<Rightarrow> string \<Rightarrow> vars \<Rightarrow> 'p engine \<Rightarrow> ('p, unit) result" where
  "complete_service_task ev rec task_id worker_id variables e0 =
     bindR (take_locked_task task_id worker_id e0) (\<lambda>e1 t.
       let i = st_instance_id t; n = st_node_id t in
       if instance_suspended i e1 then
         (e1\<lparr>en_service := tput (st_id t) t (en_service e1)\<rparr>, Err (InstanceSuspended i))
       else
         let old = inst_get e1 i in
         bindR (take_token i (st_token_id t) e1) (\<lambda>e2 tok0.
         let tok = merge_into_token variables tok0 in
         bindR (modify_instance i
             (\<lambda>x. (run_again (push_audit_log
                     (Msg ''Service task {} completed by worker {}'' [AStr n, AStr worker_id]) x))
                     \<lparr>pi_vars := tk_vars tok\<rparr>) (cancel_boundary_events ev i n e2)) (\<lambda>e3 u.
         bindR (definition_of i e3) (\<lambda>e4 def.
           advance_service_task ev rec t worker_id old def tok e4))))"

section \<open>Failure and incidents\<close>

text \<open>32-bit wrap-around of the retry counter.\<close>

definition wrap_i32 :: "int \<Rightarrow> int" where
  "wrap_i32 n = (n + 2 ^ 31) mod 2 ^ 32 - 2 ^ 31"

definition failed_task ::
  "int option \<Rightarrow> string option \<Rightarrow> string option \<Rightarrow> service_task \<Rightarrow> service_task" where
  "failed_task retries error_message error_details t =
     t\<lparr>st_retries := (case retries of Some r \<Rightarrow> r | None \<Rightarrow> wrap_i32 (st_retries t - 1)),
       st_error_message := error_message, st_error_details := error_details,
       st_worker_id := None, st_lock_expiration := None\<rparr>"

definition fail_service_task ::
  "'p eenv \<Rightarrow> uuid \<Rightarrow> string \<Rightarrow> int option \<Rightarrow> string option \<Rightarrow> string option \<Rightarrow> 'p engine
     \<Rightarrow> ('p, unit) result" where
  "fail_service_task ev task_id worker_id retries error_message error_details e0 =
     bindR (liftR e0 (ok_or (ServiceTaskNotFound task_id) (tget (en_service e0) task_id))) (\<lambda>e t.
     bindR (liftR e (verify_lock_ownership task_id (st_worker_id t) worker_id)) (\<lambda>e u.
       let t1 = failed_task retries error_message error_details t;
           i = st_instance_id t;
           e1 = e\<lparr>en_service := tput task_id t1 (en_service e)\<rparr>;
           e2 = (if st_retries t1 \<le> 0 then
                   touch_instance i
                     (push_audit_log (Msg ''INCIDENT: Service task {} failed with 0 retries - {}''
                        [AStr (st_node_id t),
                         AStr (case error_message of None \<Rightarrow> ''Unknown error'' | Some m \<Rightarrow> m)])) e1
                 else e1);
           e3 = record_history_event ev i HError (Msg ''Service task {} failed'' [AId task_id])
                  ActorServiceWorker (Some worker_id) None e2
       in (persist_instance ev i (persist_service_task ev task_id e3), Ok ())))"

definition retried_task :: "int \<Rightarrow> service_task \<Rightarrow> service_task" where
  "retried_task retries t =
     t\<lparr>st_retries := retries, st_error_message := None, st_error_details := None,
       st_worker_id := None, st_lock_expiration := None\<rparr>"

definition retry_incident :: "'p eenv \<Rightarrow> uuid \<Rightarrow> int option \<Rightarrow> 'p engine \<Rightarrow> ('p, unit) result" where
  "retry_incident ev task_id new_retries e0 =
     bindR (liftR e0 (ok_or (ServiceTaskNotFound task_id) (tget (en_service e0) task_id))) (\<lambda>e t.
       if st_retries t > 0 then (e, Err not_an_incident)
       else
         let retries = (case new_retries of None \<Rightarrow> 3 | Some r \<Rightarrow> r);
             i = st_instance_id t;
             e1 = e\<lparr>en_service := tput task_id (retried_task retries t) (en_service e)\<rparr>;
             e2 = touch_instance i
                    (push_audit_log (Msg ''Incident on service task {} retried ({} retries)''
                       [AStr (st_node_id t), AInt retries])) e1;
             e3 = record_history_event ev i HTaskCompleted (Msg ''Incident retried (task {})'' [AId task_id])
                    ActorUser None None e2
         in (persist_instance ev i (persist_service_task ev task_id e3), Ok ()))"

definition resolve_incident ::
  "'p eenv \<Rightarrow> 'p batch \<Rightarrow> uuid \<Rightarrow> vars \<Rightarrow> 'p engine \<Rightarrow> ('p, unit) result" where
  "resolve_incident ev rec task_id variables e0 =
     bindR (take_incident task_id e0) (\<lambda>e1 t.
       let i = st_instance_id t; n = st_node_id t; old = inst_get e1 i in
       bindR (take_token i (st_token_id t) e1) (\<lambda>e2 tok0.
       bindR (modify_instance i
           (\<lambda>x. (run_again (push_audit_log
                   (Msg ''Incident on service task {} resolved manually'' [AStr n]) x))\<lparr>pi_node := n\<rparr>)
           (cancel_boundary_events ev i n e2)) (\<lambda>e3 u.
       bindR (definition_of i e3) (\<lambda>e4 def.
       bindR (end_scripts ev i def n (merge_into_token variables tok0) e4) (\<lambda>e5 tok.
       let e6 = register_compensation_handler i n def e5 in
       bindR (liftR e6 (resolve_next_target ev def n (tk_vars tok))) (\<lambda>e7 next.
       bindR (modify_instance i (\<lambda>x. x\<lparr>pi_node := next\<rparr>) e7) (\<lambda>e8 u.
         rec i (tok\<lparr>tk_node := next\<rparr>)
           (remove_persisted_service_task ev task_id
             (record_history_event ev i HTaskCompleted
                (Msg ''Incident on service task {} resolved manually'' [AStr n]) ActorUser None old e8)))))))))"

definition extend_lock :: "'p eenv \<Rightarrow> uuid \<Rightarrow> string \<Rightarrow> int \<Rightarrow> 'p engine \<Rightarrow> ('p, unit) result" where
  "extend_lock ev task_id worker_id additional_duration e0 =
     bindR (liftR e0 (ok_or (ServiceTaskNotFound task_id) (tget (en_service e0) task_id))) (\<lambda>e t.
     bindR (liftR e (verify_lock_ownership task_id (st_worker_id t) worker_id)) (\<lambda>e u.
       (persist_service_task ev task_id
          (e\<lparr>en_service := tput task_id
               (t\<lparr>st_lock_expiration := Some (en_now e + env_td_seconds ev additional_duration)\<rparr>)
               (en_service e)\<rparr>), Ok ())))"

section \<open>BPMN errors\<close>

text \<open>A boundary event catches the error: the token goes on behind it.\<close>

definition catch_bpmn_error ::
  "'p eenv \<Rightarrow> 'p batch \<Rightarrow> service_task \<Rightarrow> string \<Rightarrow> string \<Rightarrow> uuid \<Rightarrow> 'p engine \<Rightarrow> ('p, unit) result" where
  "catch_bpmn_error ev rec t code boundary_id dk e =
     (let i = st_instance_id t; old = inst_get e i in
      bindR (modify_instance i
          (\<lambda>x. (push_audit_log (Msg ''BPMN Error {} caught by boundary event {}'' [AStr code, AStr boundary_id])
                  x)\<lparr>pi_state := Running\<rparr>) e) (\<lambda>e1 u.
      bindR (take_token i (st_token_id t)
          (record_history_event ev i HTokenAdvanced (Msg ''Error {} caught'' [AStr code])
             ActorEngine None old e1)) (\<lambda>e2 tok.
      bindR (liftR e2 (ok_or (NoSuchDefinition dk) (reg_get e2 dk))) (\<lambda>e3 def.
      bindR (liftR e3 (resolve_next_target ev def boundary_id (tk_vars tok))) (\<lambda>e4 next.
      bindR (modify_instance i (\<lambda>x. x\<lparr>pi_node := next\<rparr>) e4) (\<lambda>e5 u.
        rec i (tok\<lparr>tk_node := next\<rparr>)
          (persist_instance ev i (remove_persisted_service_task ev (st_id t) e5))))))))"

definition handle_bpmn_error ::
  "'p eenv \<Rightarrow> 'p batch \<Rightarrow> uuid \<Rightarrow> string \<Rightarrow> string \<Rightarrow> 'p engine \<Rightarrow> ('p, unit) result" where
  "handle_bpmn_error ev rec task_id worker_id code e0 =
     bindR (take_locked_task task_id worker_id e0) (\<lambda>e1 t.
     bindR (read_instance (st_instance_id t) e1) (\<lambda>e2 x.
       let i = st_instance_id t; n = st_node_id t;
           e3 = cancel_boundary_events ev i n e2
       in case (case reg_get e3 (pi_definition_key x) of
                  None \<Rightarrow> None
                | Some def \<Rightarrow> find_boundary_error_event def n code) of
            Some boundary_id \<Rightarrow> catch_bpmn_error ev rec t code boundary_id (pi_definition_key x) e3
          | None \<Rightarrow>
              (persist_instance ev i
                (remove_persisted_service_task ev task_id
                  (touch_instance i
                    (push_audit_log
                      (Msg ''BPMN error {} thrown by worker {} at service task {} (No boundary event caught it)''
                        [AStr code, AStr worker_id, AStr n])) e3)), Ok ())))"

section \<open>The operations keep the invariant\<close>

lemma lock_walk_keys:
  "lock_walk p f room t = (t', got) \<Longrightarrow> map fst t' = map fst t"
  by (induction p f room t arbitrary: t' got rule: lock_walk.induct)
     (auto split: if_splits prod.splits)

lemma lock_walk_get:
  "lock_walk p f room t = (t', got) \<Longrightarrow> wf_table t \<Longrightarrow> tget t' k = Some v' \<Longrightarrow>
     \<exists>v. tget t k = Some v \<and> (v' = v \<or> p v \<and> v' = f v)"
proof (induction p f room t arbitrary: t' got rule: lock_walk.induct)
  case (1 p f room)
  then show ?case by simp
next
  case (2 p f room k1 t1 rest)
  then show ?case
    by (auto simp: tget_Cons wf_table_def split: if_splits prod.splits)
qed

lemma lock_task_id [simp]: "st_id (lock_task w x t) = st_id t"
  by (simp add: lock_task_def)

lemma lock_walk_keyed:
  assumes "lock_walk p (lock_task w x) room t = (t', got)" and "keyed_by st_id t"
  shows "keyed_by st_id t'"
  unfolding keyed_by_def
proof (intro conjI allI impI)
  from assms(2) have wf: "wf_table t" by (simp add: keyed_by_def)
  with lock_walk_keys [OF assms(1)] show "wf_table t'" by (simp add: wf_table_def)
  fix k v assume "tget t' k = Some v"
  from lock_walk_get [OF assms(1) wf this] assms(2) show "st_id v = k"
    by (auto simp: keyed_by_def)
qed

lemma fetch_and_lock_wf:
  assumes "engine_wf e"
  shows "engine_wf (fst (fetch_and_lock_service_tasks ev w n ts d e))"
proof -
  obtain t' got where w: "lock_walk (lockable (en_now e) ts)
      (lock_task w (en_now e + env_td_seconds ev d)) n (en_service e) = (t', got)" by fastforce
  have "keyed_by st_id t'"
    by (rule lock_walk_keyed [OF w]) (rule engine_wf_tables(2) [OF assms])
  then have "engine_wf (e\<lparr>en_service := t'\<rparr>)" by (rule engine_wf_service [OF assms])
  then show ?thesis
    by (simp add: fetch_and_lock_service_tasks_def w engine_wf_fold engine_wf_persist)
qed

lemma take_locked_task_wf [keeps_intro]: "engine_wf e \<Longrightarrow> keeps engine_wf (take_locked_task u w e)"
  by (auto simp: take_locked_task_def split: option.split intro!: keeps_intro wf_intro keyed_by_tdel
      dest: engine_wf_tables)

lemma take_incident_wf [keeps_intro]: "engine_wf e \<Longrightarrow> keeps engine_wf (take_incident u e)"
  by (auto simp: take_incident_def split: option.split intro!: keeps_intro wf_intro keyed_by_tdel
      dest: engine_wf_tables)

lemma keyed_service_put:
  "engine_wf e \<Longrightarrow> tget (en_service e) u = Some t \<Longrightarrow> st_id t' = st_id t \<Longrightarrow>
     keyed_by st_id (tput u t' (en_service e))"
  by (auto simp: engine_wf_def keyed_by_def tget_tput split: if_splits)

lemma keeps_bind_service:
  assumes "engine_wf e" and "\<And>t. tget (en_service e) u = Some t \<Longrightarrow> keeps engine_wf (k e t)"
  shows "keeps engine_wf (bindR (liftR e (ok_or er (tget (en_service e) u))) k)"
  using assms by (cases "tget (en_service e) u") (auto simp: liftR_def keeps_def)

lemma keeps_bind_lift:
  assumes "P e" and "\<And>x. r = Ok x \<Longrightarrow> keeps P (k e x)"
  shows "keeps P (bindR (liftR e r) k)"
  using assms by (cases r) (auto simp: liftR_def keeps_def)

lemma fail_service_task_wf: "engine_wf e \<Longrightarrow> keeps engine_wf (fail_service_task ev u w r m d e)"
  unfolding fail_service_task_def Let_def
  by (intro keeps_bind_service keeps_bind_lift)
     (auto simp: failed_task_def intro!: keeps_intro wf_intro keyed_service_put)

lemma retry_incident_wf: "engine_wf e \<Longrightarrow> keeps engine_wf (retry_incident ev u r e)"
  unfolding retry_incident_def Let_def
  by (intro keeps_bind_service)
     (auto simp: retried_task_def intro!: keeps_intro wf_intro keyed_service_put)

lemma extend_lock_wf: "engine_wf e \<Longrightarrow> keeps engine_wf (extend_lock ev u w d e)"
  unfolding extend_lock_def
  by (intro keeps_bind_service keeps_bind_lift)
     (auto intro!: keeps_intro wf_intro keyed_service_put)

context nested_batch begin

lemma advance_service_task_wf:
  "engine_wf e \<Longrightarrow> keeps engine_wf (advance_service_task ev rec t w old def tok e)"
  unfolding advance_service_task_def Let_def
  by (auto simp: inst_keeps_def intro!: keeps_intro wf_intro rec_wf)

lemma complete_service_task_wf: "engine_wf e \<Longrightarrow> keeps engine_wf (complete_service_task ev rec u w vs e)"
  unfolding complete_service_task_def Let_def
  by (auto simp: inst_keeps_def intro!: keeps_intro wf_intro keyed_service advance_service_task_wf)

lemma resolve_incident_wf: "engine_wf e \<Longrightarrow> keeps engine_wf (resolve_incident ev rec u vs e)"
  unfolding resolve_incident_def Let_def
  by (auto simp: inst_keeps_def intro!: keeps_intro wf_intro rec_wf)

lemma catch_bpmn_error_wf: "engine_wf e \<Longrightarrow> keeps engine_wf (catch_bpmn_error ev rec t c b dk e)"
  unfolding catch_bpmn_error_def Let_def
  by (auto simp: inst_keeps_def intro!: keeps_intro wf_intro rec_wf)

lemma handle_bpmn_error_wf: "engine_wf e \<Longrightarrow> keeps engine_wf (handle_bpmn_error ev rec u w c e)"
  unfolding handle_bpmn_error_def Let_def
  by (intro keeps_bindR take_locked_task_wf keeps_read keeps_option)
     (auto intro!: keeps_intro wf_intro catch_bpmn_error_wf)

end

section \<open>Leases, failures and incidents\<close>

lemma lock_walk_chosen:
  "lock_walk p f room t = (t', got) \<Longrightarrow> got = map f (take room (filter p (tvals t)))"
  by (induction p f room t arbitrary: t' got rule: lock_walk.induct)
     (auto simp: tvals_def take_Cons' split: if_splits prod.splits)

lemma lock_walk_table:
  "lock_walk p f room t = (t', got) \<Longrightarrow> wf_table t \<Longrightarrow>
     tget t' k = (case tget t k of None \<Rightarrow> None
                  | Some v \<Rightarrow> Some (if k \<in> set (map fst (take room (filter (\<lambda>kv. p (snd kv)) t)))
                                   then f v else v))"
proof (induction p f room t arbitrary: t' got rule: lock_walk.induct)
  case (1 p f room)
  then show ?case by simp
next
  case (2 p f room k1 t1 rest)
  have wf: "wf_table rest" and new: "k1 \<notin> set (map fst rest)"
    using "2.prems"(2) by (auto simp: wf_table_def)
  have fresh: "k1 \<notin> set (map fst (take n (filter (\<lambda>kv. p (snd kv)) rest)))" for n
    using new by (auto dest!: in_set_takeD simp: image_iff)
  show ?case
  proof (cases "room = 0")
    case True
    then show ?thesis using "2.prems" by (auto split: option.split)
  next
    case False
    then show ?thesis
      using "2.prems"(1) "2.IH" wf fresh
      by (auto simp: tget_Cons take_Cons' simp del: set_map split: if_splits prod.splits option.split)
  qed
qed

lemma same_tables_fold_service: "same_tables e (fold (persist_service_task ev) us e)"
proof (induction us arbitrary: e)
  case Nil
  then show ?case by simp
next
  case (Cons u us)
  show ?case
    using same_tables_trans [OF same_tables_persist(4) Cons.IH] by simp
qed

text \<open>What fetching does to the table, in closed form.\<close>

lemma fetch_and_lock_closed:
  assumes "engine_wf e" and "fetch_and_lock_service_tasks ev w n ts d e = (e', got)"
  defines "x \<equiv> en_now e + env_td_seconds ev d"
  defines "p \<equiv> lockable (en_now e) ts"
  shows "got = map (lock_task w x) (take n (filter p (tvals (en_service e))))"
    and "\<And>k. tget (en_service e') k =
           (case tget (en_service e) k of None \<Rightarrow> None
            | Some v \<Rightarrow> Some (if k \<in> set (map st_id got) then lock_task w x v else v))"
    and "en_now e' = en_now e" and "en_insts e' = en_insts e"
proof -
  obtain t' got' where walk: "lock_walk p (lock_task w x) n (en_service e) = (t', got')" by fastforce
  have e': "e' = fold (persist_service_task ev) (map st_id got) (e\<lparr>en_service := t'\<rparr>)" and got: "got = got'"
    using assms(2) walk by (auto simp: fetch_and_lock_service_tasks_def x_def p_def)
  note same = same_tablesD [OF same_tables_fold_service, of ev _ "e\<lparr>en_service := t'\<rparr>"]
  show "en_now e' = en_now e" and "en_insts e' = en_insts e" by (simp_all add: e' same)
  show closed: "got = map (lock_task w x) (take n (filter p (tvals (en_service e))))"
    using lock_walk_chosen [OF walk] by (simp add: got)
  have keyed: "keyed_by st_id (en_service e)" by (rule engine_wf_tables(2) [OF assms(1)])
  then have wf: "wf_table (en_service e)" by (simp add: keyed_by_def)
  have key: "st_id v = k" if "(k, v) \<in> set (en_service e)" for k v
    using that keyed by (auto simp: keyed_by_def tget_Some_iff)
  have ids: "map st_id (take n (filter p (map snd t))) = map fst (take n (filter (\<lambda>kv. p (snd kv)) t))"
    if "set t \<subseteq> set (en_service e)" for t
    using that by (induction t arbitrary: n) (auto simp: take_Cons' key)
  have map_got: "map st_id got = map st_id (take n (filter p (tvals (en_service e))))"
    by (simp add: closed comp_def)
  show "tget (en_service e') k =
           (case tget (en_service e) k of None \<Rightarrow> None
            | Some v \<Rightarrow> Some (if k \<in> set (map st_id got) then lock_task w x v else v))" for k
    using lock_walk_table [OF walk wf, of k] ids [of "en_service e"]
    unfolding map_got by (cases "tget (en_service e) k") (simp_all add: e' same tvals_def del: set_map)
qed


lemma lockable_locked [simp]: "lockable now ts (lock_task w x t) \<longleftrightarrow> st_topic t \<in> set ts \<and> \<not> x > now"
  by (simp add: lockable_def lock_task_def)

lemma handed_out:
  assumes "engine_wf e" and "fetch_and_lock_service_tasks ev w n ts d e = (e', got)" and "t \<in> set got"
  obtains t0 where "t = lock_task w (en_now e + env_td_seconds ev d) t0" "lockable (en_now e) ts t0"
    "tget (en_service e) (st_id t) = Some t0" "tget (en_service e') (st_id t) = Some t"
proof -
  note closed = fetch_and_lock_closed [OF assms(1,2)]
  from assms(3) obtain t0 where t: "t = lock_task w (en_now e + env_td_seconds ev d) t0"
    and t0: "t0 \<in> set (take n (filter (lockable (en_now e) ts) (tvals (en_service e))))"
    by (auto simp: closed(1))
  from in_set_takeD [OF t0] engine_wf_tables(2) [OF assms(1)]
  have old: "tget (en_service e) (st_id t) = Some t0" "lockable (en_now e) ts t0"
    by (auto simp: t tvals_def keyed_by_def tget_Some_iff)
  have "st_id t \<in> set (map st_id got)" using assms(3) by simp
  with old have "tget (en_service e') (st_id t) = Some t"
    unfolding closed(2) by (simp add: t)
  with t old show thesis using that by blast
qed

text \<open>
  C11. Fetching hands out as many lockable tasks as it was asked for and can find, no task twice,
  each under the lock of the worker until the end of the lease; the table holds them as they were
  handed out, and no other task changes.
\<close>

theorem fetch_and_lock_hands_out:
  assumes "engine_wf e" and "fetch_and_lock_service_tasks ev w n ts d e = (e', got)"
  shows "length got = min n (length (filter (lockable (en_now e) ts) (tvals (en_service e)))) \<and>
         distinct (map st_id got) \<and>
         (\<forall>t \<in> set got. st_worker_id t = Some w \<and>
            st_lock_expiration t = Some (en_now e + env_td_seconds ev d) \<and>
            tget (en_service e') (st_id t) = Some t \<and>
            (\<exists>t0. tget (en_service e) (st_id t) = Some t0 \<and> lockable (en_now e) ts t0)) \<and>
         (\<forall>k. k \<notin> st_id ` set got \<longrightarrow> tget (en_service e') k = tget (en_service e) k)"
proof (intro conjI)
  let ?p = "lockable (en_now e) ts"
  let ?chosen = "take n (filter ?p (tvals (en_service e)))"
  note closed = fetch_and_lock_closed [OF assms]
  have keyed: "keyed_by st_id (en_service e)" by (rule engine_wf_tables(2) [OF assms(1)])
  then have ids: "map st_id (tvals (en_service e)) = map fst (en_service e)"
    by (auto simp: tvals_def keyed_by_def tget_Some_iff)
  then have "distinct (map st_id (tvals (en_service e)))"
    using keyed by (simp add: keyed_by_def wf_table_def)
  then have "distinct (map st_id ?chosen)"
    by (simp add: take_map [symmetric] distinct_map_filter)
  then show "distinct (map st_id got)"
    by (simp add: closed(1) comp_def)
  show "length got = min n (length (filter ?p (tvals (en_service e))))"
    by (simp add: closed(1))
  show "\<forall>t \<in> set got. st_worker_id t = Some w \<and>
            st_lock_expiration t = Some (en_now e + env_td_seconds ev d) \<and>
            tget (en_service e') (st_id t) = Some t \<and>
            (\<exists>t0. tget (en_service e) (st_id t) = Some t0 \<and> ?p t0)"
    by (auto elim!: handed_out [OF assms] simp: lock_task_def)
  show "\<forall>k. k \<notin> st_id ` set got \<longrightarrow> tget (en_service e') k = tget (en_service e) k"
    by (auto simp: closed(2) split: option.split)
qed

text \<open>A task in the table of a small engine, for the examples.\<close>

definition sample_task :: "uuid \<Rightarrow> service_task" where
  "sample_task u = \<lparr> st_id = u, st_instance_id = 1, st_definition_key = 7, st_node_id = ''a'',
     st_topic = ''mail'', st_token_id = 2, st_business_key = None, st_variables_snapshot = [],
     st_created_at = 0, st_worker_id = None, st_lock_expiration = None, st_retries = 1,
     st_error_message = None, st_error_details = None \<rparr>"

definition sample_engine :: "memory engine" where
  "sample_engine = (engine_new (\<lambda>s. None) 0 0)
     \<lparr>en_service := [(3, sample_task 3), (4, sample_task 4)], en_insts := [(1, blank_instance)]\<rparr>"

lemma sample_engine_wf: "engine_wf sample_engine"
  by (auto simp: engine_wf_def sample_engine_def engine_new_def inst_get_def keyed_by_def wf_table_def
      tget_Cons sample_task_def blank_instance_def inst_wf_def split: if_splits)

lemma sample_lockable: "filter (lockable 0 [''mail'']) (tvals (en_service sample_engine)) = [sample_task 3, sample_task 4]"
  by (simp add: sample_engine_def tvals_def lockable_def sample_task_def)

theorem fetch_and_lock_hands_out_witness:
  "length (snd (fetch_and_lock_service_tasks memory_env ''w'' 1 [''mail''] 5 sample_engine)) = 1"
proof -
  obtain e' got where
    f: "fetch_and_lock_service_tasks memory_env ''w'' 1 [''mail''] 5 sample_engine = (e', got)" by fastforce
  have "en_now sample_engine = 0" by (simp add: sample_engine_def engine_new_def)
  with fetch_and_lock_hands_out [OF sample_engine_wf f] show ?thesis
    unfolding f by (simp add: sample_lockable)
qed

text \<open>
  C12. Two workers never hold the same task: a fetch by anyone before the end of a lease hands out
  none of the leased tasks and leaves them as they are.
\<close>

theorem locked_tasks_are_exclusive:
  assumes "engine_wf e"
    and "fetch_and_lock_service_tasks ev w n ts d e = (e1, got)"
    and "later < en_now e + env_td_seconds ev d"
    and "fetch_and_lock_service_tasks ev w2 n2 ts2 d2 (e1\<lparr>en_now := later\<rparr>) = (e2, got2)"
  shows "st_id ` set got \<inter> st_id ` set got2 = {} \<and>
         (\<forall>t \<in> set got. tget (en_service e2) (st_id t) = Some t)"
proof -
  have wf1: "engine_wf e1" using fetch_and_lock_wf [OF assms(1), of ev w n ts d] assms(2) by simp
  then have wf: "engine_wf (e1\<lparr>en_now := later\<rparr>)" by (simp add: engine_wf_def inst_get_def)
  note closed2 = fetch_and_lock_closed [OF wf assms(4)]
  have got: "tget (en_service e1) (st_id t) = Some t \<and> \<not> lockable later ts2 t" if "t \<in> set got" for t
    using assms(3) by (auto intro: handed_out [OF assms(1,2) that])
  have "st_id t \<notin> st_id ` set got2" if "t \<in> set got" for t
  proof
    assume "st_id t \<in> st_id ` set got2"
    then obtain t2 where "t2 \<in> set got2" "st_id t = st_id t2" by auto
    with got [OF that] show False by (auto elim: handed_out [OF wf assms(4)])
  qed
  moreover from this got have "tget (en_service e2) (st_id t) = Some t" if "t \<in> set got" for t
    using closed2(2) [of "st_id t"] that by (simp add: image_iff)
  ultimately show ?thesis by blast
qed

theorem locked_tasks_are_exclusive_witness:
  "\<exists>e1 got e2 got2.
     fetch_and_lock_service_tasks memory_env ''w'' 1 [''mail''] 5 sample_engine = (e1, got) \<and>
     fetch_and_lock_service_tasks memory_env ''v'' 2 [''mail''] 5 (e1\<lparr>en_now := 7\<rparr>) = (e2, got2) \<and>
     st_id ` set got \<inter> st_id ` set got2 = {}"
proof -
  obtain e1 got where
    f: "fetch_and_lock_service_tasks memory_env ''w'' 1 [''mail''] 5 sample_engine = (e1, got)" by fastforce
  obtain e2 got2 where
    g: "fetch_and_lock_service_tasks memory_env ''v'' 2 [''mail''] 5 (e1\<lparr>en_now := 7\<rparr>) = (e2, got2)"
    by fastforce
  have "7 < en_now sample_engine + env_td_seconds memory_env 5"
    by (simp add: sample_engine_def engine_new_def memory_env_def)
  from locked_tasks_are_exclusive [OF sample_engine_wf f this g] f g show ?thesis by blast
qed

definition refusal :: "uuid \<Rightarrow> string option \<Rightarrow> engine_error" where
  "refusal u holder = (case holder of None \<Rightarrow> ServiceTaskNotLocked u | Some h \<Rightarrow> ServiceTaskLocked u h)"

text \<open>
  C13. A worker that does not hold the lock of a task can neither complete it, fail it, extend its
  lock nor throw an error for it: the call returns the reason and the engine is as before.
\<close>

theorem only_the_lock_holder_acts:
  assumes "tget (en_service e) u = Some t" and "st_worker_id t \<noteq> Some w"
  shows "complete_service_task ev rec u w vs e = (e, Err (refusal u (st_worker_id t))) \<and>
         fail_service_task ev u w r m d e = (e, Err (refusal u (st_worker_id t))) \<and>
         extend_lock ev u w dur e = (e, Err (refusal u (st_worker_id t))) \<and>
         handle_bpmn_error ev rec u w code e = (e, Err (refusal u (st_worker_id t)))"
  using assms
  by (auto simp: complete_service_task_def fail_service_task_def extend_lock_def handle_bpmn_error_def
      take_locked_task_def verify_lock_ownership_def refusal_def liftR_def split: option.split)

theorem only_the_lock_holder_acts_witness:
  "complete_service_task memory_env (run_instance_batch memory_env 1) 3 ''w'' [] sample_engine
     = (sample_engine, Err (ServiceTaskNotLocked 3))"
proof -
  have t: "tget (en_service sample_engine) 3 = Some (sample_task 3)" "st_worker_id (sample_task 3) \<noteq> Some ''w''"
    by (simp_all add: sample_engine_def tget_Cons sample_task_def)
  from only_the_lock_holder_acts [OF t, of memory_env "run_instance_batch memory_env 1" "[]"] show ?thesis
    by (simp add: refusal_def sample_task_def)
qed

text \<open>
  A reported failure releases the lock, so any worker of the topic may take the task at once,
  counts the retry down (or takes the given number), and turns the task into an incident exactly
  when none is left; no other task and no token changes.
\<close>

lemma failure_releases_the_task:
  assumes "tget (en_service e) u = Some t" and "st_worker_id t = Some w"
    and "fail_service_task ev u w r m d e = (e1, res)"
  defines "left \<equiv> (case r of Some n \<Rightarrow> n | None \<Rightarrow> wrap_i32 (st_retries t - 1))"
  shows "res = Ok () \<and>
         (\<forall>k. tget (en_service e1) k =
            (if k = u then Some (failed_task r m d t) else tget (en_service e) k)) \<and>
         (\<forall>now ts. lockable now ts (failed_task r m d t) \<longleftrightarrow> st_topic t \<in> set ts) \<and>
         snd (take_incident u e1) = (if left \<le> 0 then Ok (failed_task r m d t) else Err not_an_incident) \<and>
         (\<forall>j. map_option pi_tokens (inst_get e1 j) = map_option pi_tokens (inst_get e j) \<and>
              map_option pi_state (inst_get e1 j) = map_option pi_state (inst_get e j))"
proof -
  let ?t = "failed_task r m d t"
  have left: "st_retries ?t = left" by (simp add: failed_task_def left_def)
  have run: "fail_service_task ev u w r m d e =
     (let e2 = (if left \<le> 0 then
                   touch_instance (st_instance_id t)
                     (push_audit_log (Msg ''INCIDENT: Service task {} failed with 0 retries - {}''
                        [AStr (st_node_id t), AStr (case m of None \<Rightarrow> ''Unknown error'' | Some m \<Rightarrow> m)]))
                     (e\<lparr>en_service := tput u ?t (en_service e)\<rparr>)
                 else e\<lparr>en_service := tput u ?t (en_service e)\<rparr>)
      in (persist_instance ev (st_instance_id t) (persist_service_task ev u
           (record_history_event ev (st_instance_id t) HError (Msg ''Service task {} failed'' [AId u])
                  ActorServiceWorker (Some w) None e2)), Ok ()))"
    using assms(1,2)
    by (simp add: fail_service_task_def liftR_def verify_lock_ownership_def Let_def left)
  have same: "en_service e1 = tput u ?t (en_service e)" "res = Ok ()"
    using assms(3) unfolding run
    by (auto simp: Let_def frame same_tablesD [OF same_tables_persist(4)])
  have inst: "map_option pi_tokens (inst_get e1 j) = map_option pi_tokens (inst_get e j) \<and>
              map_option pi_state (inst_get e1 j) = map_option pi_state (inst_get e j)" for j
    using assms(3) unfolding run
    by (auto simp: Let_def frame same_tablesD [OF same_tables_persist(4)] inst_get_def [of "e\<lparr>en_service := _\<rparr>"]
       inst_get_def [of e, symmetric] option.map_comp comp_def)
  show ?thesis
    using inst by (simp add: same tget_tput lockable_def left take_incident_def failed_task_def left_def)
qed


definition held_engine :: "memory engine" where
  "held_engine = sample_engine\<lparr>en_service := [(3, lock_task ''w'' 9 (sample_task 3)), (4, sample_task 4)]\<rparr>"

lemma failure_releases_the_task_example:
  "\<exists>e1. fail_service_task memory_env 3 ''w'' None None None held_engine = (e1, Ok ()) \<and>
     tget (en_service e1) 4 = Some (sample_task 4) \<and> snd (take_incident 3 e1) \<noteq> Err not_an_incident"
proof -
  obtain e1 res where f: "fail_service_task memory_env 3 ''w'' None None None held_engine = (e1, res)"
    by fastforce
  have t: "tget (en_service held_engine) 3 = Some (lock_task ''w'' 9 (sample_task 3))"
    "st_worker_id (lock_task ''w'' 9 (sample_task 3)) = Some ''w''"
    "tget (en_service held_engine) 4 = Some (sample_task 4)"
    by (simp_all add: held_engine_def tget_Cons lock_task_def)
  from failure_releases_the_task [OF t(1,2) f] f t(3) show ?thesis
    by (simp add: wrap_i32_def lock_task_def sample_task_def)
qed

text \<open>
  Retrying and resolving are refused, without any effect, for a task that is no incident; a
  retried incident is free for every worker of its topic and, with the default, no incident any more.
\<close>

theorem incident_retry_resets_the_task:
  assumes "tget (en_service e) u = Some t"
  shows "(st_retries t > 0 \<longrightarrow>
            retry_incident ev u nr e = (e, Err not_an_incident) \<and>
            resolve_incident ev rec u vs e = (e, Err not_an_incident)) \<and>
         (st_retries t \<le> 0 \<longrightarrow>
            (let (e1, res) = retry_incident ev u nr e;
                 t1 = retried_task (case nr of None \<Rightarrow> 3 | Some n \<Rightarrow> n) t
             in res = Ok () \<and> (\<forall>k. tget (en_service e1) k = (if k = u then Some t1 else tget (en_service e) k)) \<and>
                (\<forall>now ts. lockable now ts t1 \<longleftrightarrow> st_topic t \<in> set ts) \<and>
                (st_retries t1 > 0 \<longrightarrow> snd (take_incident u e1) = Err not_an_incident)))"
  using assms
  by (auto simp: retry_incident_def resolve_incident_def take_incident_def liftR_def Let_def frame
      same_tablesD [OF same_tables_persist(4)] tget_tput lockable_def retried_task_def split: option.split)

theorem incident_retry_resets_the_task_witness:
  "retry_incident memory_env 3 None sample_engine = (sample_engine, Err not_an_incident)"
proof -
  have t: "tget (en_service sample_engine) 3 = Some (sample_task 3)"
    by (simp add: sample_engine_def tget_Cons)
  from incident_retry_resets_the_task [OF t, of memory_env None] show ?thesis
    by (simp add: sample_task_def)
qed

text \<open>
  Completing a task of a suspended instance is refused, and the task that was taken out of the
  queue for it is back under the same key; nothing but the order of the queue can differ.
\<close>

theorem suspended_completion_loses_nothing:
  assumes "tget (en_service e) u = Some t" and "st_worker_id t = Some w" and "st_id t = u"
    and "instance_suspended (st_instance_id t) e"
  shows "snd (complete_service_task ev rec u w vs e) = Err (InstanceSuspended (st_instance_id t)) \<and>
         (\<forall>k. tget (en_service (fst (complete_service_task ev rec u w vs e))) k = tget (en_service e) k) \<and>
         fst (complete_service_task ev rec u w vs e)
           = e\<lparr>en_service := en_service (fst (complete_service_task ev rec u w vs e))\<rparr>"
proof -
  have "instance_suspended (st_instance_id t) (e\<lparr>en_service := tdel u (en_service e)\<rparr>)"
    using assms(4) by (simp add: instance_suspended_def inst_get_def)
  then show ?thesis
    using assms(1-3) tbl.reinsert [OF assms(1)]
    by (simp add: complete_service_task_def take_locked_task_def Let_def)
qed


theorem suspended_completion_loses_nothing_witness:
  "\<exists>e1. complete_service_task memory_env (run_instance_batch memory_env 1) 3 ''w'' []
          (inst_put 1 (blank_instance\<lparr>pi_state := Suspended Running\<rparr>) held_engine) = (e1, Err (InstanceSuspended 1))
        \<and> tget (en_service e1) 3 = Some (lock_task ''w'' 9 (sample_task 3))"
proof -
  let ?e = "inst_put 1 (blank_instance\<lparr>pi_state := Suspended Running\<rparr>) held_engine"
  let ?t = "lock_task ''w'' 9 (sample_task 3)"
  have t: "tget (en_service ?e) 3 = Some ?t" "st_worker_id ?t = Some ''w''" "st_id ?t = 3"
    "instance_suspended (st_instance_id ?t) ?e"
    by (simp_all add: held_engine_def inst_put_def tget_Cons lock_task_def sample_task_def
        instance_suspended_def inst_get_def)
  from suspended_completion_loses_nothing [OF t, of memory_env "run_instance_batch memory_env 1" "[]"] t(1)
  show ?thesis
    by (cases "complete_service_task memory_env (run_instance_batch memory_env 1) 3 ''w'' [] ?e")
       (simp add: lock_task_def sample_task_def)
qed

end
