(* ===== verification/EventDelivery.thy ===== *)
theory EventDelivery
  imports ServiceTasks
begin

text \<open>
  Events that reach waiting instances: expired timers (\<open>engine/timer_processor.rs\<close>) and correlated
  messages (\<open>engine/message_processor.rs\<close>). Both take the waiting token, or a copy of it when the
  boundary event does not interrupt, and run it from the node of the event on.
\<close>

section \<open>The token of an event\<close>

definition token_missing :: "uuid \<Rightarrow> engine_error" where
  "token_missing t = InvalidDefinition (Msg ''Token {} not found in instance'' [AId t])"

text \<open>A copy with a fresh id joins the waiting original, which stays where it is.\<close>

definition add_parallel_copy :: "token \<Rightarrow> process_instance \<Rightarrow> process_instance" where
  "add_parallel_copy tok x =
     (let x1 = store_token tok x;
          x2 = x1\<lparr>pi_active := pi_active x1 @
                 [\<lparr> at_token = tok, at_fork_id = Some (tk_node tok),
                    at_branch_index = length (pi_active x1), at_completed = False \<rparr>]\<rparr>
      in if is_parallel (pi_state x2) then x2
         else x2\<lparr>pi_state := ParallelExecution (length (pi_tokens x2))\<rparr>)"

definition copy_token :: "'p eenv \<Rightarrow> uuid \<Rightarrow> uuid \<Rightarrow> 'p engine \<Rightarrow> ('p, token) result" where
  "copy_token ev i t e0 =
     bindR (read_instance i e0) (\<lambda>e x.
       case tget (pi_tokens x) t of
         None \<Rightarrow> (e, Err (token_missing t))
       | Some tok \<Rightarrow>
           (case draw ev e of (u, e1) \<Rightarrow>
             (inst_put i (add_parallel_copy (tok\<lparr>tk_id := u\<rparr>) x) e1, Ok (tok\<lparr>tk_id := u\<rparr>))))"

definition event_token :: "'p eenv \<Rightarrow> bool \<Rightarrow> uuid \<Rightarrow> uuid \<Rightarrow> 'p engine \<Rightarrow> ('p, token) result" where
  "event_token ev non_interrupting i t e =
     (if non_interrupting then copy_token ev i t e else take_token i t e)"

text \<open>An interrupting event removes the tasks that wait with the token at its node.\<close>

definition user_task_of :: "uuid \<Rightarrow> string \<Rightarrow> uuid \<Rightarrow> user_task \<Rightarrow> bool" where
  "user_task_of i n t ut \<longleftrightarrow> ut_instance_id ut = i \<and> ut_node_id ut = n \<and> ut_token_id ut = t"

definition service_task_of :: "uuid \<Rightarrow> string \<Rightarrow> uuid \<Rightarrow> service_task \<Rightarrow> bool" where
  "service_task_of i n t st \<longleftrightarrow> st_instance_id st = i \<and> st_node_id st = n \<and> st_token_id st = t"

definition drop_user_task :: "'p eenv \<Rightarrow> uuid \<Rightarrow> 'p engine \<Rightarrow> 'p engine" where
  "drop_user_task ev u e = remove_persisted_user_task ev u (e\<lparr>en_user := tdel u (en_user e)\<rparr>)"

definition drop_service_task :: "'p eenv \<Rightarrow> uuid \<Rightarrow> 'p engine \<Rightarrow> 'p engine" where
  "drop_service_task ev u e = remove_persisted_service_task ev u (e\<lparr>en_service := tdel u (en_service e)\<rparr>)"

definition drop_tasks_of_token :: "'p eenv \<Rightarrow> uuid \<Rightarrow> string \<Rightarrow> uuid \<Rightarrow> 'p engine \<Rightarrow> 'p engine" where
  "drop_tasks_of_token ev i n t e =
     (let users = map fst (filter (\<lambda>kv. user_task_of i n t (snd kv)) (en_user e));
          e1 = fold (drop_user_task ev) users e;
          services = map fst (filter (\<lambda>kv. service_task_of i n t (snd kv)) (en_service e1))
      in fold (drop_service_task ev) services e1)"

text \<open>Start the event sub-process a scope listener names, with the variables of the instance.\<close>

definition spawn_scope_event ::
  "'p eenv \<Rightarrow> 'p batch \<Rightarrow> uuid \<Rightarrow> string \<Rightarrow> vars \<Rightarrow> 'p engine \<Rightarrow> ('p, unit) result" where
  "spawn_scope_event ev rec i target extra e =
     (case find_latest_by_bpmn_id e target of
        None \<Rightarrow> (e, Err (InvalidDefinition (Msg ''Event Subprocess {} not found'' [AStr target])))
      | Some (child_key, d) \<Rightarrow>
          bindR (read_instance i e) (\<lambda>e x.
          bindR (spawn_call_activity ev rec child_key i target (textend (pi_vars x) extra) e) (\<lambda>e child.
            (e, Ok ()))))"

section \<open>Timers (timer\_processor.rs)\<close>

definition timer_due :: "'p engine \<Rightarrow> pending_timer \<Rightarrow> bool" where
  "timer_due e t \<longleftrightarrow> tm_expires_at t \<le> en_now e \<and> \<not> instance_suspended (tm_instance_id t) e"

definition non_interrupting_timer :: "process_definition \<Rightarrow> string \<Rightarrow> bool" where
  "non_interrupting_timer def n =
     (case get_node def n of Some (BoundaryTimerEvent a td cancel) \<Rightarrow> \<not> cancel | _ \<Rightarrow> False)"

text \<open>A recurring timer is entered again, unless its counter stands at zero.\<close>

definition reschedule_timer :: "'p eenv \<Rightarrow> pending_timer \<Rightarrow> 'p engine \<Rightarrow> 'p engine" where
  "reschedule_timer ev t e =
     (case tm_timer_def t of
        None \<Rightarrow> e
      | Some td \<Rightarrow>
          if is_recurring td \<and> tm_remaining t \<noteq> Some 0 then
            (case next_expiry ev td (en_now e) of
               None \<Rightarrow> e
             | Some expiry \<Rightarrow>
                 (case draw ev e of (u, e1) \<Rightarrow>
                   insert_timer
                     (t\<lparr>tm_id := u, tm_expires_at := expiry,
                        tm_remaining := map_option (\<lambda>r. r - 1) (tm_remaining t)\<rparr>) e1))
          else e)"

text \<open>From the token of the timer to the batch that runs it.\<close>

definition run_timer_token ::
  "'p eenv \<Rightarrow> 'p batch \<Rightarrow> pending_timer \<Rightarrow> process_definition \<Rightarrow> 'p engine \<Rightarrow> ('p, unit) result" where
  "run_timer_token ev rec t def e0 =
     (let i = tm_instance_id t; n = tm_node_id t; keep = non_interrupting_timer def n in
      bindR (event_token ev keep i (tm_token_id t) e0) (\<lambda>e1 tok.
      let e2 = (if keep then e1 else drop_tasks_of_token ev i (tk_node tok) (tm_token_id t) e1) in
      bindR (liftR e2 (resolve_next_target ev def n (tk_vars tok))) (\<lambda>e3 next.
      bindR (modify_instance i (\<lambda>x. x\<lparr>pi_node := next\<rparr>) e3) (\<lambda>e4 u.
      bindR (rec i (tok\<lparr>tk_node := next\<rparr>) (remove_persisted_timer ev (tm_id t) e4)) (\<lambda>e5 u.
        (reschedule_timer ev t e5, Ok ()))))))"

definition fire_timer :: "'p eenv \<Rightarrow> 'p batch \<Rightarrow> uuid \<Rightarrow> 'p engine \<Rightarrow> ('p, unit) result" where
  "fire_timer ev rec tid e0 =
     (case tget (en_timers e0) tid of
        None \<Rightarrow> (e0, Err (InvalidDefinition (Msg ''Timer {} disappeared'' [AId tid])))
      | Some t \<Rightarrow>
          (let i = tm_instance_id t;
               e1 = clear_wait_states_for_token ev i (tm_token_id t)
                      (e0\<lparr>en_timers := tdel tid (en_timers e0)\<rparr>);
               old = inst_get e1 i
           in bindR (modify_instance i
                  (\<lambda>x. x\<lparr>pi_state := Running,
                         pi_audit := pi_audit x @ [Msg ''Timer {} expired, resuming'' [AStr (tm_node_id t)]]\<rparr>)
                  e1) (\<lambda>e2 u.
              let e3 = record_history_event ev i HTokenAdvanced (Msg ''Timer expired'' []) ActorTimer None old e2
              in if tm_token_id t = uuid_nil then
                   bindR (spawn_scope_event ev rec i (tm_node_id t) [] e3) (\<lambda>e4 u.
                     (remove_persisted_timer ev tid e4, Ok ()))
                 else
                   bindR (definition_of i e3) (\<lambda>e4 def. run_timer_token ev rec t def e4))))"

fun fire_timers :: "'p eenv \<Rightarrow> 'p batch \<Rightarrow> uuid list \<Rightarrow> 'p engine \<Rightarrow> ('p, unit) result" where
  "fire_timers ev rec [] e = (e, Ok ())"
| "fire_timers ev rec (t # ts) e = bindR (fire_timer ev rec t e) (\<lambda>e u. fire_timers ev rec ts e)"

definition process_timers :: "'p eenv \<Rightarrow> 'p batch \<Rightarrow> 'p engine \<Rightarrow> ('p, nat) result" where
  "process_timers ev rec e =
     (let expired = map tm_id (filter (timer_due e) (tvals (en_timers e)))
      in bindR (fire_timers ev rec expired e) (\<lambda>e u. (e, Ok (length expired))))"

section \<open>Messages (message\_processor.rs)\<close>

definition catch_matches :: "'p engine \<Rightarrow> string \<Rightarrow> string option \<Rightarrow> message_catch \<Rightarrow> bool" where
  "catch_matches e name business_key c \<longleftrightarrow>
     mc_message_name c = name \<and>
     (case inst_get e (mc_instance_id c) of
        None \<Rightarrow> False
      | Some x \<Rightarrow> (case business_key of None \<Rightarrow> True | Some bk \<Rightarrow> pi_business_key x = bk))"

definition non_interrupting_message :: "process_definition \<Rightarrow> string \<Rightarrow> bool" where
  "non_interrupting_message def n =
     (case get_node def n of Some (BoundaryMessageEvent a m cancel) \<Rightarrow> \<not> cancel | _ \<Rightarrow> False)"

definition run_message_token ::
  "'p eenv \<Rightarrow> 'p batch \<Rightarrow> message_catch \<Rightarrow> string \<Rightarrow> vars \<Rightarrow> process_definition \<Rightarrow> 'p engine
     \<Rightarrow> ('p, unit) result" where
  "run_message_token ev rec c name variables def e0 =
     (let i = mc_instance_id c; n = mc_node_id c; keep = non_interrupting_message def n in
      bindR (event_token ev keep i (mc_token_id c) e0) (\<lambda>e1 tok0.
      let e2 = (if keep then e1 else drop_tasks_of_token ev i (tk_node tok0) (mc_token_id c) e1);
          tok = merge_into_token variables tok0;
          old = inst_get e2 i
      in bindR (modify_instance i
             (\<lambda>x. push_audit_log (Msg ''Msg {} correlated, resuming {}'' [AStr name, AId (mc_id c)])
                    (run_again x)) e2) (\<lambda>e3 u.
         let e4 = record_history_event ev i HTokenAdvanced (Msg ''Message {} correlated'' [AStr name])
                    ActorEngine None old e3
         in bindR (liftR e4 (resolve_next_target ev def n (tk_vars tok))) (\<lambda>e5 next.
            bindR (modify_instance i (\<lambda>x. x\<lparr>pi_node := next\<rparr>) e5) (\<lambda>e6 u.
              rec i (tok\<lparr>tk_node := next\<rparr>) (remove_persisted_message_catch ev (mc_id c) e6))))))"

definition deliver_message ::
  "'p eenv \<Rightarrow> 'p batch \<Rightarrow> string \<Rightarrow> vars \<Rightarrow> uuid \<Rightarrow> 'p engine \<Rightarrow> ('p, unit) result" where
  "deliver_message ev rec name variables cid e0 =
     (case tget (en_messages e0) cid of
        None \<Rightarrow> (e0, Err (InvalidDefinition (Msg ''Message catch {} disappeared'' [AId cid])))
      | Some c \<Rightarrow>
          (let i = mc_instance_id c;
               e1 = clear_wait_states_for_token ev i (mc_token_id c)
                      (e0\<lparr>en_messages := tdel cid (en_messages e0)\<rparr>)
           in if mc_token_id c = uuid_nil then
                bindR (spawn_scope_event ev rec i (mc_node_id c) variables e1) (\<lambda>e2 u.
                  (remove_persisted_message_catch ev cid e2, Ok ()))
              else
                bindR (definition_of i e1) (\<lambda>e2 def.
                  run_message_token ev rec c name variables def e2)))"

fun deliver_messages ::
  "'p eenv \<Rightarrow> 'p batch \<Rightarrow> string \<Rightarrow> vars \<Rightarrow> uuid list \<Rightarrow> 'p engine \<Rightarrow> ('p, unit) result" where
  "deliver_messages ev rec name variables [] e = (e, Ok ())"
| "deliver_messages ev rec name variables (c # cs) e =
     bindR (deliver_message ev rec name variables c e) (\<lambda>e u. deliver_messages ev rec name variables cs e)"

definition message_starts :: "'p engine \<Rightarrow> string \<Rightarrow> uuid list" where
  "message_starts e name =
     map fst (filter (\<lambda>kd. case start_event (snd kd) of
                        Some (n, MessageStartEvent m) \<Rightarrow> m = name
                      | _ \<Rightarrow> False) (en_defs e))"

fun start_by_message ::
  "'p eenv \<Rightarrow> 'p batch \<Rightarrow> string option \<Rightarrow> vars \<Rightarrow> uuid list \<Rightarrow> uuid list \<Rightarrow> 'p engine
     \<Rightarrow> ('p, uuid list) result" where
  "start_by_message ev rec business_key variables [] acc e = (e, Ok acc)"
| "start_by_message ev rec business_key variables (dk # dks) acc e =
     bindR (start_instance_with_variables ev rec dk variables e) (\<lambda>e1 i.
       start_by_message ev rec business_key variables dks (acc @ [i])
         (case business_key of
            None \<Rightarrow> e1
          | Some bk \<Rightarrow> persist_instance ev i (touch_instance i (\<lambda>x. x\<lparr>pi_business_key := bk\<rparr>) e1)))"

definition correlate_message ::
  "'p eenv \<Rightarrow> 'p batch \<Rightarrow> string \<Rightarrow> string option \<Rightarrow> vars \<Rightarrow> 'p engine \<Rightarrow> ('p, uuid list) result" where
  "correlate_message ev rec name business_key variables e =
     (let hit = filter (catch_matches e name business_key) (tvals (en_messages e))
      in bindR (deliver_messages ev rec name variables (map mc_id hit) e) (\<lambda>e1 u.
           start_by_message ev rec business_key variables (message_starts e1 name)
             (map mc_instance_id hit) e1))"

section \<open>Event delivery keeps the invariant\<close>

lemma add_parallel_copy_wf:
  "inst_wf x \<Longrightarrow> inst_wf (add_parallel_copy tok x) \<and> pi_id (add_parallel_copy tok x) = pi_id x"
  by (simp add: add_parallel_copy_def Let_def)

lemma copy_token_wf [keeps_intro]:
  assumes "engine_wf e"
  shows "keeps engine_wf (copy_token ev i t e)"
  unfolding copy_token_def
proof (rule keeps_bind_read [OF assms], rule keeps_option, goal_cases)
  case 1
  show ?case using assms by (rule keeps_pair)
next
  case (2 x tok)
  show ?case
    by (rule keeps_draw [OF assms]) (use 2 in \<open>auto intro!: keeps_pair wf_intro simp: add_parallel_copy_wf\<close>)
qed

lemma event_token_wf [keeps_intro]: "engine_wf e \<Longrightarrow> keeps engine_wf (event_token ev b i t e)"
  by (auto simp: event_token_def intro: keeps_intro)

lemma drop_task_wf [wf_intro]:
  assumes "engine_wf e"
  shows "engine_wf (drop_user_task ev u e)" "engine_wf (drop_service_task ev u e)"
  using assms by (auto simp: drop_user_task_def drop_service_task_def
      intro!: wf_intro keyed_by_tdel dest: engine_wf_tables)

lemma drop_tasks_of_token_wf [wf_intro]: "engine_wf e \<Longrightarrow> engine_wf (drop_tasks_of_token ev i n t e)"
  unfolding drop_tasks_of_token_def Let_def by (intro engine_wf_fold wf_intro)

lemma reschedule_timer_wf [wf_intro]: "engine_wf e \<Longrightarrow> engine_wf (reschedule_timer ev t e)"
  by (auto simp: reschedule_timer_def split: option.splits prod.splits intro!: wf_intro dest: draw_wf)

context nested_batch begin

lemma spawn_scope_event_wf: "engine_wf e \<Longrightarrow> keeps engine_wf (spawn_scope_event ev rec i t vs e)"
  unfolding spawn_scope_event_def
  by (intro keeps_intro spawn_call_activity_wf)

lemma run_timer_token_wf: "engine_wf e \<Longrightarrow> keeps engine_wf (run_timer_token ev rec t def e)"
  unfolding run_timer_token_def Let_def
  by (auto simp: inst_keeps_def intro!: keeps_intro wf_intro rec_wf)

lemma fire_timer_wf: "engine_wf e \<Longrightarrow> keeps engine_wf (fire_timer ev rec u e)"
  unfolding fire_timer_def Let_def
  by (auto simp: inst_keeps_def intro!: keeps_intro wf_intro spawn_scope_event_wf run_timer_token_wf
      dest: engine_wf_tables)

lemma fire_timers_wf: "engine_wf e \<Longrightarrow> keeps engine_wf (fire_timers ev rec us e)"
  by (induction us arbitrary: e) (auto intro!: keeps_intro fire_timer_wf simp: keeps_def [of _ "(_, Ok ())"])

lemma process_timers_wf: "engine_wf e \<Longrightarrow> keeps engine_wf (process_timers ev rec e)"
  unfolding process_timers_def Let_def by (intro keeps_intro fire_timers_wf)

lemma run_message_token_wf: "engine_wf e \<Longrightarrow> keeps engine_wf (run_message_token ev rec c n vs def e)"
  unfolding run_message_token_def Let_def
  by (auto simp: inst_keeps_def intro!: keeps_intro wf_intro rec_wf)

lemma deliver_message_wf: "engine_wf e \<Longrightarrow> keeps engine_wf (deliver_message ev rec n vs u e)"
  unfolding deliver_message_def Let_def
  by (auto simp: inst_keeps_def intro!: keeps_intro wf_intro spawn_scope_event_wf run_message_token_wf
      dest: engine_wf_tables)

lemma deliver_messages_wf: "engine_wf e \<Longrightarrow> keeps engine_wf (deliver_messages ev rec n vs us e)"
  by (induction us arbitrary: e) (auto intro!: keeps_intro deliver_message_wf simp: keeps_def [of _ "(_, Ok ())"])

lemma start_by_message_wf: "engine_wf e \<Longrightarrow> keeps engine_wf (start_by_message ev rec bk vs ks acc e)"
proof (induction ks arbitrary: acc e)
  case Nil
  then show ?case by (simp add: keeps_def)
next
  case (Cons k ks)
  then show ?case
    by (auto simp: inst_keeps_def intro!: keeps_intro start_instance_wf wf_intro Cons.IH split: option.split)
qed

lemma correlate_message_wf: "engine_wf e \<Longrightarrow> keeps engine_wf (correlate_message ev rec n bk vs e)"
  unfolding correlate_message_def Let_def by (intro keeps_intro deliver_messages_wf start_by_message_wf)

end

end
