(* ===== verification/InstanceOps.thy ===== *)
theory InstanceOps
  imports EventDelivery
begin

text \<open>
  Operations on instances (\<open>engine/instance_ops.rs\<close>): statistics and queries, variable updates,
  suspension, moving the token, migration to another definition, and deletion.
\<close>

section \<open>Queries\<close>

definition count_state :: "(instance_state \<Rightarrow> bool) \<Rightarrow> 'p engine \<Rightarrow> nat" where
  "count_state p e = length (filter (\<lambda>x. p (pi_state x)) (tvals (en_insts e)))"

definition get_stats :: "'p engine \<Rightarrow> engine_stats" where
  "get_stats e =
     \<lparr> es_definitions = reg_len e, es_instances_total = length (en_insts e),
       es_instances_running = count_state (\<lambda>s. s = Running) e,
       es_instances_completed = count_state is_terminal e,
       es_waiting_user = count_state (\<lambda>s. case s of WaitingOnUserTask t \<Rightarrow> True | _ \<Rightarrow> False) e,
       es_waiting_service = count_state (\<lambda>s. case s of WaitingOnServiceTask t \<Rightarrow> True | _ \<Rightarrow> False) e,
       es_pending_user_tasks = length (en_user e), es_pending_service_tasks = length (en_service e),
       es_pending_timers = length (en_timers e), es_pending_messages = length (en_messages e),
       es_persistence_errors = en_perr e, es_pending_retry_jobs = 0 \<rparr>"

definition get_instance_or_archived ::
  "'p eenv \<Rightarrow> uuid \<Rightarrow> 'p engine \<Rightarrow> (engine_error, process_instance) outcome" where
  "get_instance_or_archived ev i e =
     (case inst_get e i of
        Some x \<Rightarrow> Ok x
      | None \<Rightarrow>
          (case en_store e of
             None \<Rightarrow> Err (NoSuchInstance i)
           | Some p \<Rightarrow>
               and_then (ee_get_completed ev (env_uuid_str ev i) p) (\<lambda>r. ok_or (NoSuchInstance i) r)))"

definition get_instance_state ::
  "'p eenv \<Rightarrow> uuid \<Rightarrow> 'p engine \<Rightarrow> (engine_error, instance_state) outcome" where
  "get_instance_state ev i e = and_then (get_instance_or_archived ev i e) (\<lambda>x. Ok (pi_state x))"

definition get_audit_log :: "'p eenv \<Rightarrow> uuid \<Rightarrow> 'p engine \<Rightarrow> (engine_error, msg list) outcome" where
  "get_audit_log ev i e = and_then (get_instance_or_archived ev i e) (\<lambda>x. Ok (pi_audit x))"

definition enrich_key :: "'p engine \<Rightarrow> uuid \<Rightarrow> string option \<Rightarrow> string option" where
  "enrich_key e i k =
     (case k of
        Some b \<Rightarrow> Some b
      | None \<Rightarrow> (case inst_get e i of None \<Rightarrow> None | Some x \<Rightarrow> business_key_of x))"

text \<open>The listings, each a copy of one table.\<close>

definition get_pending_user_tasks :: "'p engine \<Rightarrow> user_task list" where
  "get_pending_user_tasks e = tvals (en_user e)"

definition get_pending_service_tasks :: "'p engine \<Rightarrow> service_task list" where
  "get_pending_service_tasks e = tvals (en_service e)"

definition get_pending_timers :: "'p engine \<Rightarrow> pending_timer list" where
  "get_pending_timers e = tvals (en_timers e)"

definition get_pending_message_catches :: "'p engine \<Rightarrow> message_catch list" where
  "get_pending_message_catches e = tvals (en_messages e)"

definition engine_list_instances :: "'p engine \<Rightarrow> process_instance list" where
  "engine_list_instances e = tvals (en_insts e)"

definition get_instance_details ::
  "'p eenv \<Rightarrow> uuid \<Rightarrow> 'p engine \<Rightarrow> (engine_error, process_instance) outcome" where
  "get_instance_details ev i e = get_instance_or_archived ev i e"

definition get_pending_user_tasks_enriched :: "'p engine \<Rightarrow> user_task list" where
  "get_pending_user_tasks_enriched e =
     map (\<lambda>t. t\<lparr>ut_business_key := enrich_key e (ut_instance_id t) (ut_business_key t)\<rparr>)
       (get_pending_user_tasks e)"

definition get_pending_service_tasks_enriched :: "'p engine \<Rightarrow> service_task list" where
  "get_pending_service_tasks_enriched e =
     map (\<lambda>t. t\<lparr>st_business_key := enrich_key e (st_instance_id t) (st_business_key t)\<rparr>)
       (get_pending_service_tasks e)"

definition query_archived ::
  "'p eenv \<Rightarrow> completed_query \<Rightarrow> 'p engine \<Rightarrow> (engine_error, process_instance list) outcome" where
  "query_archived ev q e = (case en_store e of None \<Rightarrow> Ok [] | Some p \<Rightarrow> ee_query_completed ev q p)"

section \<open>Variables\<close>

record update_counts =
  uc_added :: nat
  uc_modified :: nat
  uc_deleted :: nat

definition update_variable ::
  "string \<times> json \<Rightarrow> vars \<times> update_counts \<Rightarrow> vars \<times> update_counts" where
  "update_variable kv s =
     (case (kv, s) of ((k, v), (vs, c)) \<Rightarrow>
        if v = JNull then
          (tdel k vs, if tget vs k \<noteq> None then c\<lparr>uc_deleted := Suc (uc_deleted c)\<rparr> else c)
        else
          (tput k v vs,
           if tget vs k \<noteq> None then c\<lparr>uc_modified := Suc (uc_modified c)\<rparr>
           else c\<lparr>uc_added := Suc (uc_added c)\<rparr>))"

definition update_variables :: "vars \<Rightarrow> vars \<Rightarrow> vars \<times> update_counts" where
  "update_variables variables vs =
     fold update_variable variables (vs, \<lparr> uc_added = 0, uc_modified = 0, uc_deleted = 0 \<rparr>)"

text \<open>Every waiting token takes over all variables of the instance; a null removes.\<close>

definition overlay_variable :: "string \<times> json \<Rightarrow> vars \<Rightarrow> vars" where
  "overlay_variable kv vs = (if snd kv = JNull then tdel (fst kv) vs else tput (fst kv) (snd kv) vs)"

definition overlay_token :: "vars \<Rightarrow> token \<Rightarrow> token" where
  "overlay_token updated tok = tok\<lparr>tk_vars := fold overlay_variable updated (tk_vars tok)\<rparr>"

definition apply_variables :: "vars \<Rightarrow> process_instance \<Rightarrow> process_instance" where
  "apply_variables variables x =
     (case update_variables variables (pi_vars x) of (vs, c) \<Rightarrow>
        let x1 = push_audit_log (Msg ''Variables updated: +{} ~{} -{}''
                   [ANat (uc_added c), ANat (uc_modified c), ANat (uc_deleted c)]) (x\<lparr>pi_vars := vs\<rparr>)
        in x1\<lparr>pi_tokens := tmapv (overlay_token vs) (pi_tokens x1)\<rparr>)"

definition update_instance_variables :: "'p eenv \<Rightarrow> uuid \<Rightarrow> vars \<Rightarrow> 'p engine \<Rightarrow> ('p, unit) result" where
  "update_instance_variables ev i variables e =
     bindR (modify_instance i (apply_variables variables) e) (\<lambda>e1 u.
       (persist_instance ev i
          (record_history_event ev i HVariableUpdated (Msg ''Variables updated directly'' [])
             ActorUser None (inst_get e i) e1), Ok ()))"

section \<open>Suspension\<close>

text \<open>The guard shared by suspension, token moves and migration.\<close>

definition active_guard :: "uuid \<Rightarrow> instance_state \<Rightarrow> (engine_error, unit) outcome" where
  "active_guard i s =
     (if is_terminal s then Err AlreadyCompleted
      else if is_suspended s then Err (InstanceSuspended i) else Ok ())"

definition suspend_instance :: "'p eenv \<Rightarrow> uuid \<Rightarrow> 'p engine \<Rightarrow> ('p, unit) result" where
  "suspend_instance ev i e0 =
     bindR (read_instance i e0) (\<lambda>e old.
     bindR (liftR e (active_guard i (pi_state old))) (\<lambda>e u.
       (persist_instance ev i
          (record_history_event ev i HInstanceSuspended (Msg ''Instance suspended'' []) ActorUser None
             (Some old)
             (inst_put i (push_audit_log (Msg ''Instance suspended'' [])
                            (old\<lparr>pi_state := Suspended (pi_state old)\<rparr>)) e)), Ok ())))"

definition resume_instance :: "'p eenv \<Rightarrow> uuid \<Rightarrow> 'p engine \<Rightarrow> ('p, unit) result" where
  "resume_instance ev i e0 =
     bindR (read_instance i e0) (\<lambda>e old.
       case pi_state old of
         Suspended previous \<Rightarrow>
           (persist_instance ev i
              (record_history_event ev i HInstanceResumed (Msg ''Instance resumed'' []) ActorUser None
                 (Some old)
                 (inst_put i (push_audit_log (Msg ''Instance resumed'' []) (old\<lparr>pi_state := previous\<rparr>)) e)),
            Ok ())
       | _ \<Rightarrow> (e, Err (InvalidDefinition (Msg ''Instance is not suspended'' []))))"

section \<open>Moving the token\<close>

text \<open>A backend call whose failure is ignored.\<close>

definition call_ignored :: "'p eenv \<Rightarrow> pcall \<Rightarrow> 'p engine \<Rightarrow> 'p engine" where
  "call_ignored ev c e =
     (case en_store e of None \<Rightarrow> e | Some p \<Rightarrow> e\<lparr>en_store := Some (fst (ee_persist ev c p))\<rparr>)"

definition cancel_all_waits :: "'p eenv \<Rightarrow> uuid \<Rightarrow> 'p engine \<Rightarrow> 'p engine" where
  "cancel_all_waits ev i e =
     (let us = map ut_task_id (filter (\<lambda>t. ut_instance_id t = i) (tvals (en_user e)));
          e1 = fold (\<lambda>u e. call_ignored ev (DeleteUserTask u) (e\<lparr>en_user := tdel u (en_user e)\<rparr>)) us e;
          ss = map st_id (filter (\<lambda>t. st_instance_id t = i) (tvals (en_service e1)));
          e2 = fold (\<lambda>u e. call_ignored ev (DeleteServiceTask u) (e\<lparr>en_service := tdel u (en_service e)\<rparr>)) ss e1;
          ts = map tm_id (filter (\<lambda>t. tm_instance_id t = i) (tvals (en_timers e2)));
          e3 = fold (\<lambda>u e. call_ignored ev (DeleteTimer u) (e\<lparr>en_timers := tdel u (en_timers e)\<rparr>)) ts e2;
          ms = map mc_id (filter (\<lambda>t. mc_instance_id t = i) (tvals (en_messages e3)))
      in fold (\<lambda>u e. call_ignored ev (DeleteMessageCatch u) (e\<lparr>en_messages := tdel u (en_messages e)\<rparr>)) ms e3)"

definition place_token :: "token \<Rightarrow> msg \<Rightarrow> process_instance \<Rightarrow> process_instance" where
  "place_token tok m x =
     push_audit_log m
       (x\<lparr>pi_tokens := tput (tk_id tok) tok [], pi_active := [], pi_barriers := [], pi_mi := [],
          pi_state := Running, pi_node := tk_node tok, pi_vars := tk_vars tok\<rparr>)"

definition move_token ::
  "'p eenv \<Rightarrow> 'p batch \<Rightarrow> uuid \<Rightarrow> string \<Rightarrow> vars \<Rightarrow> bool \<Rightarrow> 'p engine \<Rightarrow> ('p, unit) result" where
  "move_token ev rec i target variables cancel_current e0 =
     bindR (read_instance i e0) (\<lambda>e old.
     bindR (liftR e (active_guard i (pi_state old))) (\<lambda>e u.
     bindR (definition_of i e) (\<lambda>e def.
       if get_node def target = None then (e, Err (NoSuchNode target))
       else
         let e1 = (if cancel_current then cancel_all_waits ev i e else e) in
         bindR (read_instance i e1) (\<lambda>e1 x.
           case draw ev e1 of (u, e2) \<Rightarrow>
             let tok = token_with_variables u target (fold overlay_variable variables (pi_vars x)) in
             bindR (modify_instance i
                 (place_token tok (Msg ''Token moved: {} - {}'' [AStr (pi_node old), AStr target])) e2) (\<lambda>e3 u.
               rec i tok
                 (persist_instance ev i
                   (record_history_event ev i HTokenMoved
                      (Msg ''Token manually moved from {} to {}'' [AStr (pi_node old), AStr target])
                      ActorUser None (Some old) e3)))))))"

section \<open>Migration\<close>

definition map_node :: "(string, string) table \<Rightarrow> string \<Rightarrow> string" where
  "map_node m n = (case tget m n of None \<Rightarrow> n | Some n' \<Rightarrow> n')"

text \<open>The nodes checked before anything is written, in the order of the checks.\<close>

definition migrated_nodes :: "(string, string) table \<Rightarrow> process_instance \<Rightarrow> string list" where
  "migrated_nodes m x =
     map (map_node m)
       (pi_node x # map tk_node (tvals (pi_tokens x)) @ map (\<lambda>a. tk_node (at_token a)) (pi_active x))"

definition check_migration ::
  "process_definition \<Rightarrow> (string, string) table \<Rightarrow> process_instance \<Rightarrow> (engine_error, unit) outcome" where
  "check_migration def m x =
     check_all (\<lambda>n. if get_node def n = None then Err (OrphanedToken n) else Ok ()) (migrated_nodes m x)"

definition map_token_node :: "(string, string) table \<Rightarrow> token \<Rightarrow> token" where
  "map_token_node m tok = tok\<lparr>tk_node := map_node m (tk_node tok)\<rparr>"

definition migrated_instance ::
  "uuid \<Rightarrow> (string, string) table \<Rightarrow> msg \<Rightarrow> process_instance \<Rightarrow> process_instance" where
  "migrated_instance target m note x =
     push_audit_log note
       (x\<lparr>pi_definition_key := target, pi_node := map_node m (pi_node x),
          pi_tokens := tmapv (map_token_node m) (pi_tokens x),
          pi_active := map (\<lambda>a. a\<lparr>at_token := map_token_node m (at_token a)\<rparr>) (pi_active x),
          pi_barriers := tcollect (map (\<lambda>(k, b). (map_node m k, b)) (pi_barriers x)),
          pi_mi := tcollect (map (\<lambda>(k, p). (map_node m k, p)) (pi_mi x))\<rparr>)"

definition migrate_user_task :: "uuid \<Rightarrow> (string, string) table \<Rightarrow> user_task \<Rightarrow> user_task" where
  "migrate_user_task i m t =
     (if ut_instance_id t = i then t\<lparr>ut_node_id := map_node m (ut_node_id t)\<rparr> else t)"

definition migrate_service_task :: "uuid \<Rightarrow> uuid \<Rightarrow> (string, string) table \<Rightarrow> service_task \<Rightarrow> service_task" where
  "migrate_service_task i target m t =
     (if st_instance_id t = i
      then t\<lparr>st_node_id := map_node m (st_node_id t), st_definition_key := target\<rparr> else t)"

definition migrate_timer :: "uuid \<Rightarrow> (string, string) table \<Rightarrow> pending_timer \<Rightarrow> pending_timer" where
  "migrate_timer i m t =
     (if tm_instance_id t = i then t\<lparr>tm_node_id := map_node m (tm_node_id t)\<rparr> else t)"

definition migrate_message :: "uuid \<Rightarrow> (string, string) table \<Rightarrow> message_catch \<Rightarrow> message_catch" where
  "migrate_message i m c =
     (if mc_instance_id c = i then c\<lparr>mc_node_id := map_node m (mc_node_id c)\<rparr> else c)"

definition migrate_instance ::
  "'p eenv \<Rightarrow> uuid \<Rightarrow> uuid \<Rightarrow> (string, string) table \<Rightarrow> 'p engine \<Rightarrow> ('p, unit) result" where
  "migrate_instance ev i target m e0 =
     bindR (liftR e0 (ok_or (NoSuchDefinition target) (reg_get e0 target))) (\<lambda>e def.
     bindR (read_instance i e) (\<lambda>e old.
     bindR (liftR e (active_guard i (pi_state old))) (\<lambda>e u.
     bindR (liftR e (check_migration def m old)) (\<lambda>e u.
     let e1 = inst_put i
                (migrated_instance target m
                   (Msg ''Migriert zu Definition {} (v{})'' [AStr (pd_id def), AInt (pd_version def)]) old) e;
         e2 = e1\<lparr>en_user := tmapv (migrate_user_task i m) (en_user e1),
                 en_service := tmapv (migrate_service_task i target m) (en_service e1),
                 en_timers := tmapv (migrate_timer i m) (en_timers e1),
                 en_messages := tmapv (migrate_message i m) (en_messages e1)\<rparr>;
         e3 = record_history_event ev i HInstanceMigrated
                (Msg ''Instanz zu Definition {} (v{}) migriert'' [AStr (pd_id def), AInt (pd_version def)])
                ActorUser None (Some old) e2
     in (persist_instance ev i e3, Ok ())))))"

section \<open>Deletion\<close>

text \<open>A backend call whose error is returned.\<close>

definition try_call :: "'p eenv \<Rightarrow> pcall \<Rightarrow> 'p engine \<Rightarrow> ('p, unit) result" where
  "try_call ev c e =
     (case en_store e of
        None \<Rightarrow> (e, Ok ())
      | Some p \<Rightarrow>
          (case ee_persist ev c p of
             (p', None) \<Rightarrow> (e\<lparr>en_store := Some p'\<rparr>, Ok ())
           | (p', Some er) \<Rightarrow> (e\<lparr>en_store := Some p'\<rparr>, Err er)))"

definition file_keys :: "process_instance \<Rightarrow> string list" where
  "file_keys x =
     concat (map (\<lambda>v. case from_variable_value v of None \<Rightarrow> [] | Some f \<Rightarrow> [fr_object_key f])
       (tvals (pi_vars x)))"

definition instance_cleanup :: "'p engine \<Rightarrow> uuid \<Rightarrow> process_instance \<Rightarrow> pcall list" where
  "instance_cleanup e i x =
     map DeleteFile (file_keys x) @
     map (\<lambda>t. DeleteUserTask (ut_task_id t)) (filter (\<lambda>t. ut_instance_id t = i) (tvals (en_user e))) @
     map (\<lambda>t. DeleteServiceTask (st_id t)) (filter (\<lambda>t. st_instance_id t = i) (tvals (en_service e))) @
     map (\<lambda>t. DeleteTimer (tm_id t)) (filter (\<lambda>t. tm_instance_id t = i) (tvals (en_timers e))) @
     map (\<lambda>c. DeleteMessageCatch (mc_id c)) (filter (\<lambda>c. mc_instance_id c = i) (tvals (en_messages e)))"

definition forget_waits :: "uuid \<Rightarrow> 'p engine \<Rightarrow> 'p engine" where
  "forget_waits i e =
     e\<lparr>en_user := tretain (\<lambda>k t. ut_instance_id t \<noteq> i) (en_user e),
       en_service := tretain (\<lambda>k t. st_instance_id t \<noteq> i) (en_service e),
       en_timers := tretain (\<lambda>k t. tm_instance_id t \<noteq> i) (en_timers e),
       en_messages := tretain (\<lambda>k c. mc_instance_id c \<noteq> i) (en_messages e)\<rparr>"

definition delete_instance :: "'p eenv \<Rightarrow> uuid \<Rightarrow> 'p engine \<Rightarrow> ('p, unit) result" where
  "delete_instance ev i e0 =
     bindR (read_instance i e0) (\<lambda>e x.
       let e1 = fold (call_ignored ev) (instance_cleanup e i x) (inst_remove i e) in
       bindR (try_call ev (DeleteInstance (env_uuid_str ev i)) e1) (\<lambda>e2 u.
         (forget_waits i e2, Ok ())))"

section \<open>The operations keep the invariant\<close>

lemma keyed_by_tmapv:
  "keyed_by key t \<Longrightarrow> (\<And>v. key (f v) = key v) \<Longrightarrow> keyed_by key (tmapv f t)"
  by (auto simp: keyed_by_def)

lemma apply_variables_keeps [simp]: "inst_keeps (apply_variables vs)"
  unfolding inst_keeps_def apply_variables_def Let_def
  by (auto split: prod.split simp: inst_wf_def overlay_token_def)

lemma update_instance_variables_wf [keeps_intro]:
  "engine_wf e \<Longrightarrow> keeps engine_wf (update_instance_variables ev i vs e)"
  unfolding update_instance_variables_def by (intro keeps_intro wf_intro apply_variables_keeps)

lemma suspend_instance_wf [keeps_intro]:
  assumes "engine_wf e"
  shows "keeps engine_wf (suspend_instance ev i e)"
  unfolding suspend_instance_def
proof (rule keeps_bind_read [OF assms], rule keeps_bind_lift [where P = engine_wf, OF assms], goal_cases)
  case (1 x u)
  then have "inst_wf (x\<lparr>pi_state := Suspended (pi_state x)\<rparr>)"
    by (auto simp: active_guard_def split: if_splits)
  with 1 assms show ?case by (auto intro!: keeps_pair wf_intro)
qed

lemma resume_instance_wf [keeps_intro]:
  assumes "engine_wf e"
  shows "keeps engine_wf (resume_instance ev i e)"
  unfolding resume_instance_def
proof (rule keeps_bind_read [OF assms], goal_cases)
  case (1 x)
  show ?case
  proof (cases "pi_state x")
    case (Suspended s)
    with 1 have "state_ok s" by (cases s) (auto simp: inst_wf_def)
    with 1 Suspended assms show ?thesis by (auto intro!: keeps_pair wf_intro)
  qed (use assms in \<open>auto intro: keeps_pair\<close>)
qed

lemma call_ignored_wf [wf_intro]: "engine_wf e \<Longrightarrow> engine_wf (call_ignored ev c e)"
  by (auto simp: call_ignored_def engine_wf_def inst_get_def split: option.splits)

lemma try_call_wf [keeps_intro]: "engine_wf e \<Longrightarrow> keeps engine_wf (try_call ev c e)"
  by (auto simp: try_call_def engine_wf_def inst_get_def keeps_def split: option.splits prod.splits)

lemma cancel_all_waits_wf [wf_intro]: "engine_wf e \<Longrightarrow> engine_wf (cancel_all_waits ev i e)"
  unfolding cancel_all_waits_def Let_def
  by (auto intro!: engine_wf_fold wf_intro keyed_by_tdel dest: engine_wf_tables)

lemma place_token_keeps [simp]: "inst_keeps (place_token tok m)"
  by (auto simp: inst_keeps_def place_token_def inst_wf_def tget_tput split: if_splits)

lemma forget_waits_wf [wf_intro]: "engine_wf e \<Longrightarrow> engine_wf (forget_waits i e)"
  unfolding forget_waits_def
  by (auto intro!: engine_wf_user engine_wf_service engine_wf_timers engine_wf_messages keyed_by_tretain
      dest: engine_wf_tables)

lemma delete_instance_wf [keeps_intro]: "engine_wf e \<Longrightarrow> keeps engine_wf (delete_instance ev i e)"
  unfolding delete_instance_def Let_def
  by (intro keeps_intro engine_wf_fold wf_intro)

lemma migrated_instance_wf:
  "inst_wf x \<Longrightarrow> inst_wf (migrated_instance k m n x) \<and> pi_id (migrated_instance k m n x) = pi_id x"
  by (auto simp: migrated_instance_def inst_wf_def map_token_node_def)

lemma migrate_instance_wf [keeps_intro]:
  assumes "engine_wf e"
  shows "keeps engine_wf (migrate_instance ev i k m e)"
  unfolding migrate_instance_def Let_def
  by (intro keeps_bind_lift [where P = engine_wf] keeps_bind_read assms keeps_pair wf_intro)
     (auto simp: migrated_instance_wf migrate_user_task_def migrate_service_task_def migrate_timer_def
       migrate_message_def intro!: keyed_by_tmapv wf_intro assms
       engine_wf_tables [OF engine_wf_put [OF assms]])

context nested_batch begin

lemma move_token_wf: "engine_wf e \<Longrightarrow> keeps engine_wf (move_token ev rec i n vs c e)"
  unfolding move_token_def Let_def
  by (auto intro!: keeps_intro wf_intro rec_wf dest: draw_wf)

end

section \<open>Suspension and migration\<close>

lemma sample_instance: "inst_get sample_engine 1 = Some blank_instance"
  by (simp add: sample_engine_def inst_get_def tget_Cons)

text \<open>
  C17. Suspending an instance and resuming it gives back exactly the instance there was, its state,
  token, variables and barriers included; only the audit log has grown. Nothing that waits in the
  queues and no other instance changes.
\<close>

theorem suspend_resume_round_trip:
  assumes "inst_get e i = Some x" and "\<not> is_terminal (pi_state x)" and "\<not> is_suspended (pi_state x)"
  shows "\<exists>e1 y e2 z.
     suspend_instance ev i e = (e1, Ok ()) \<and> inst_get e1 i = Some y \<and> pi_state y = Suspended (pi_state x) \<and>
     resume_instance ev i e1 = (e2, Ok ()) \<and> inst_get e2 i = Some z \<and>
     (\<exists>a. z = x\<lparr>pi_audit := a\<rparr>) \<and> (\<forall>j. j \<noteq> i \<longrightarrow> inst_get e2 j = inst_get e j) \<and>
     en_user e2 = en_user e \<and> en_service e2 = en_service e \<and>
     en_timers e2 = en_timers e \<and> en_messages e2 = en_messages e"
proof -
  let ?x1 = "push_audit_log (Msg ''Instance suspended'' []) (x\<lparr>pi_state := Suspended (pi_state x)\<rparr>)"
  let ?e1 = "persist_instance ev i (record_history_event ev i HInstanceSuspended (Msg ''Instance suspended'' [])
                ActorUser None (Some x) (inst_put i ?x1 e))"
  have s: "suspend_instance ev i e = (?e1, Ok ())"
    using assms by (simp add: suspend_instance_def read_instance_def liftR_def active_guard_def)
  have "inst_get (inst_put i ?x1 e) i = Some ?x1" by (simp add: insts.get_put)
  then obtain y where y: "inst_get ?e1 i = Some y" and x1: "same_but_audit ?x1 y"
    by (rule saved_instance)
  from x1 obtain a where ya: "y = x\<lparr>pi_state := Suspended (pi_state x), pi_audit := a\<rparr>"
    by (auto simp: same_but_audit_def push_audit_log_def)
  let ?y1 = "push_audit_log (Msg ''Instance resumed'' []) (y\<lparr>pi_state := pi_state x\<rparr>)"
  let ?e2 = "persist_instance ev i (record_history_event ev i HInstanceResumed (Msg ''Instance resumed'' [])
                ActorUser None (Some y) (inst_put i ?y1 ?e1))"
  have r: "resume_instance ev i ?e1 = (?e2, Ok ())"
    using y by (simp add: ya resume_instance_def read_instance_def)
  have "inst_get (inst_put i ?y1 ?e1) i = Some ?y1" by (simp add: insts.get_put)
  then obtain z where z: "inst_get ?e2 i = Some z" and y1: "same_but_audit ?y1 z"
    by (rule saved_instance)
  from y1 obtain b where "z = x\<lparr>pi_audit := b\<rparr>"
    by (auto simp: same_but_audit_def push_audit_log_def ya)
  moreover have "inst_get ?e2 j = inst_get e j" if "j \<noteq> i" for j
    using that by (simp add: saved_other insts.get_put)
  ultimately show ?thesis using s y ya r z by (simp add: frame) blast
qed

theorem suspend_resume_round_trip_witness:
  "\<exists>e1 e2. suspend_instance memory_env 1 sample_engine = (e1, Ok ()) \<and>
     resume_instance memory_env 1 e1 = (e2, Ok ()) \<and> en_service e2 = en_service sample_engine"
  using suspend_resume_round_trip [OF sample_instance, of memory_env]
  by (auto simp: blank_instance_def)

text \<open>
  An instance that is suspended or has ended can be neither suspended, nor have its token moved,
  nor be migrated: each call reports why and changes nothing. A timer of a suspended instance is not
  due, and an ended instance cannot be resumed.
\<close>

lemma closed_instances_are_left_alone:
  assumes "inst_get e i = Some x" and "is_terminal (pi_state x) \<or> is_suspended (pi_state x)"
  shows "suspend_instance ev i e =
            (e, Err (if is_terminal (pi_state x) then AlreadyCompleted else InstanceSuspended i)) \<and>
         move_token ev rec i n vs c e =
            (e, Err (if is_terminal (pi_state x) then AlreadyCompleted else InstanceSuspended i)) \<and>
         migrate_instance ev i k m e =
            (e, Err (if reg_get e k = None then NoSuchDefinition k
                     else if is_terminal (pi_state x) then AlreadyCompleted else InstanceSuspended i)) \<and>
         (is_suspended (pi_state x) \<longrightarrow> tm_instance_id t = i \<longrightarrow> \<not> timer_due e t) \<and>
         (is_terminal (pi_state x) \<longrightarrow> (\<exists>er. resume_instance ev i e = (e, Err er)))"
  using assms
  by (auto simp: suspend_instance_def move_token_def migrate_instance_def read_instance_def liftR_def
      active_guard_def timer_due_def instance_suspended_def resume_instance_def
      split: instance_state.split option.split)

lemma closed_instance_is_not_suspended:
  "suspend_instance memory_env 1 (inst_put 1 (blank_instance\<lparr>pi_state := Completed\<rparr>) sample_engine)
     = (inst_put 1 (blank_instance\<lparr>pi_state := Completed\<rparr>) sample_engine, Err AlreadyCompleted)"
proof -
  let ?x = "blank_instance\<lparr>pi_state := Completed\<rparr>"
  have x: "inst_get (inst_put 1 ?x sample_engine) 1 = Some ?x" "is_terminal (pi_state ?x) \<or> is_suspended (pi_state ?x)"
    by (simp_all add: insts.get_put)
  from closed_instances_are_left_alone [OF x, of memory_env] show ?thesis by simp
qed

lemma check_migration_returns [simp]: "check_migration def m x \<noteq> Diverged"
proof -
  have "check_all f xs \<noteq> Diverged" if "\<And>n. f n \<noteq> Diverged" for f :: "string \<Rightarrow> (engine_error, unit) outcome" and xs
    by (induction xs) (use that in \<open>auto elim: and_then.elims\<close>)
  then show ?thesis by (simp add: check_migration_def)
qed

text \<open>A checked instance stands on nodes of the target definition after its nodes are mapped.\<close>

lemma migrated_stands_on_nodes:
  assumes "check_migration def m x = Ok ()" and sb: "same_but_audit (migrated_instance k m entry x) y"
  shows "get_node def (pi_node y) \<noteq> None"
    and "\<forall>a \<in> set (pi_active y). get_node def (tk_node (at_token a)) \<noteq> None"
    and "tget (pi_tokens y) t = Some tok \<Longrightarrow> get_node def (tk_node tok) \<noteq> None"
    and "pi_definition_key y = k" "pi_state y = pi_state x" "pi_vars y = pi_vars x"
proof -
  from assms(1) have ok: "\<forall>n \<in> set (migrated_nodes m x). get_node def n \<noteq> None"
    by (auto simp: check_migration_def split: if_splits)
  show "get_node def (tk_node tok) \<noteq> None" if "tget (pi_tokens y) t = Some tok"
  proof -
    from that sb obtain tok0 where "tget (pi_tokens x) t = Some tok0" "tok = map_token_node m tok0"
      by (auto simp: same_but_audit_def migrated_instance_def)
    then have "(t, tok0) \<in> set (pi_tokens x)" and tok: "tk_node tok = map_node m (tk_node tok0)"
      by (auto simp: map_token_node_def dest: tget_SomeD)
    then have "tok0 \<in> set (tvals (pi_tokens x))" by (force simp: tvals_def)
    then have "tk_node tok \<in> set (migrated_nodes m x)" by (simp add: migrated_nodes_def tok)
    with ok show ?thesis by blast
  qed
  show "get_node def (pi_node y) \<noteq> None"
    "\<forall>a \<in> set (pi_active y). get_node def (tk_node (at_token a)) \<noteq> None"
    "pi_definition_key y = k" "pi_state y = pi_state x" "pi_vars y = pi_vars x"
    using sb ok by (auto simp: same_but_audit_def migrated_instance_def migrated_nodes_def map_token_node_def)
qed

text \<open>
  C18. Migration either reports an error and changes nothing, or leaves an instance whose current
  node, stored tokens and branches all stand on nodes of the target definition; its variables and
  its state stay, its pending tasks follow it to the mapped nodes, and no other instance changes.
\<close>

theorem migration_is_all_or_nothing:
  "(\<exists>er. migrate_instance ev i k m e = (e, Err er)) \<or>
   (\<exists>e1 def x y. migrate_instance ev i k m e = (e1, Ok ()) \<and> reg_get e k = Some def \<and>
      inst_get e i = Some x \<and> inst_get e1 i = Some y \<and>
      pi_definition_key y = k \<and> pi_state y = pi_state x \<and> pi_vars y = pi_vars x \<and>
      get_node def (pi_node y) \<noteq> None \<and>
      (\<forall>t tok. tget (pi_tokens y) t = Some tok \<longrightarrow> get_node def (tk_node tok) \<noteq> None) \<and>
      (\<forall>a \<in> set (pi_active y). get_node def (tk_node (at_token a)) \<noteq> None) \<and>
      (\<forall>j. j \<noteq> i \<longrightarrow> inst_get e1 j = inst_get e j) \<and>
      (\<forall>u. tget (en_user e1) u = map_option (migrate_user_task i m) (tget (en_user e) u)) \<and>
      (\<forall>u. tget (en_service e1) u = map_option (migrate_service_task i k m) (tget (en_service e) u)))"
proof (cases "\<exists>er. migrate_instance ev i k m e = (e, Err er)")
  case False
  obtain def x where def: "reg_get e k = Some def" and x: "inst_get e i = Some x"
    and g: "active_guard i (pi_state x) = Ok ()" and c: "check_migration def m x = Ok ()"
    using False
    by (cases "reg_get e k"; cases "inst_get e i"; cases "active_guard i (pi_state (the (inst_get e i)))";
        cases "check_migration (the (reg_get e k)) m (the (inst_get e i))")
       (auto simp: migrate_instance_def read_instance_def liftR_def active_guard_def split: if_splits)
  define entry where "entry = Msg ''Migriert zu Definition {} (v{})'' [AStr (pd_id def), AInt (pd_version def)]"
  define e2 where "e2 = (inst_put i (migrated_instance k m entry x) e)
        \<lparr>en_user := tmapv (migrate_user_task i m) (en_user e),
         en_service := tmapv (migrate_service_task i k m) (en_service e),
         en_timers := tmapv (migrate_timer i m) (en_timers e),
         en_messages := tmapv (migrate_message i m) (en_messages e)\<rparr>"
  define e1 where "e1 = persist_instance ev i (record_history_event ev i HInstanceMigrated
        (Msg ''Instanz zu Definition {} (v{}) migriert'' [AStr (pd_id def), AInt (pd_version def)])
        ActorUser None (Some x) e2)"
  have run: "migrate_instance ev i k m e = (e1, Ok ())"
    using def x g c by (simp add: migrate_instance_def read_instance_def liftR_def e1_def e2_def entry_def
        Let_def inst_put_tables)
  have get2: "inst_get e2 j = (if j = i then Some (migrated_instance k m entry x) else inst_get e j)" for j
    by (simp add: e2_def inst_get_def inst_put_def tget_tput)
  then have "inst_get e2 i = Some (migrated_instance k m entry x)" by simp
  then obtain y where y: "inst_get e1 i = Some y" and sb: "same_but_audit (migrated_instance k m entry x) y"
    unfolding e1_def by (rule saved_instance)
  have tabs: "en_user e1 = tmapv (migrate_user_task i m) (en_user e)"
    "en_service e1 = tmapv (migrate_service_task i k m) (en_service e)"
    by (simp_all add: e1_def e2_def frame)
  have others: "inst_get e1 j = inst_get e j" if "j \<noteq> i" for j
    using that get2 by (simp add: e1_def saved_other)
  note facts = migrated_stands_on_nodes [OF c sb]
  show ?thesis
    by (rule disjI2, intro exI conjI, rule run, rule def, rule x, rule y)
       (auto simp: facts(1,2,4-6) tabs others simp del: not_None_eq dest: facts(3))
qed simp

theorem migration_is_all_or_nothing_witness:
  "\<exists>e1 y. migrate_instance memory_env 1 7 [(''a'', ''s'')] dot_engine = (e1, Ok ()) \<and>
     inst_get e1 1 = Some y \<and> get_node dot_definition (pi_node y) \<noteq> None"
proof -
  let ?run = "migrate_instance memory_env 1 7 [(''a'', ''s'')] dot_engine"
  have i: "inst_get dot_engine 1 = Some blank_instance" by (simp add: dot_engine_def insts.get_put)
  have d: "reg_get dot_engine 7 = Some dot_definition" by (simp add: dot_engine_def frame registry.get_put)
  have "check_migration dot_definition [(''a'', ''s'')] blank_instance = Ok ()"
    by (simp add: check_migration_def migrated_nodes_def blank_instance_def map_node_def tvals_def
        get_node_def dot_definition_def tget_Cons)
  then have "\<nexists>er. ?run = (dot_engine, Err er)"
    using i d by (simp add: migrate_instance_def read_instance_def liftR_def active_guard_def blank_instance_def Let_def)
  with migration_is_all_or_nothing [of memory_env 1 7 "[(''a'', ''s'')]" dot_engine] d
  show ?thesis by auto
qed

section \<open>Variable updates\<close>

lemma map_of_rev: "wf_table t \<Longrightarrow> map_of (rev t) = map_of t"
proof
  fix k assume t: "wf_table t"
  then have "map_of (rev t) k = Some v \<longleftrightarrow> map_of t k = Some v" for v
    by (simp add: wf_table_def rev_map [symmetric])
  then show "map_of (rev t) k = map_of t k"
    by (cases "map_of t k"; cases "map_of (rev t) k") auto
qed

lemma update_variables_get:
  "tget (fst (fold update_variable variables (vs, c))) k =
     (case map_of (rev variables) k of None \<Rightarrow> tget vs k | Some v \<Rightarrow> if v = JNull then None else Some v)"
proof (induction variables arbitrary: vs c)
  case Nil
  then show ?case by simp
next
  case (Cons kv variables)
  obtain k1 v1 where kv: "kv = (k1, v1)" by (cases kv)
  obtain vs1 c1 where s: "update_variable kv (vs, c) = (vs1, c1)" by fastforce
  have "tget vs1 k = (if k = k1 then (if v1 = JNull then None else Some v1) else tget vs k)"
    using s by (auto simp: update_variable_def kv tget_tput tget_tdel split: if_splits)
  then show ?case
    using Cons.IH [of vs1 c1] s by (auto simp: kv map_add_def split: option.split)
qed

lemma overlay_get:
  "tget (fold overlay_variable variables vs) k =
     (case map_of (rev variables) k of None \<Rightarrow> tget vs k | Some v \<Rightarrow> if v = JNull then None else Some v)"
proof (induction variables arbitrary: vs)
  case Nil
  then show ?case by simp
next
  case (Cons kv variables)
  obtain k1 v1 where kv: "kv = (k1, v1)" by (cases kv)
  show ?case
    using Cons.IH [of "overlay_variable kv vs"]
    by (auto simp: kv overlay_variable_def map_add_def tget_tput tget_tdel split: option.split)
qed

lemma update_variables_wf: "wf_table vs \<Longrightarrow> wf_table (fst (fold update_variable variables (vs, c)))"
proof (induction variables arbitrary: vs c)
  case (Cons kv variables)
  obtain vs1 c1 where s: "update_variable kv (vs, c) = (vs1, c1)" by fastforce
  with Cons.prems have "wf_table vs1"
    by (cases kv) (auto simp: update_variable_def split: if_splits)
  then show ?case using Cons.IH by (simp add: s)
qed simp

text \<open>
  C19. An update sets, replaces and (for a null) deletes variables of the instance, and every waiting
  token takes over the variables the instance then has. The last part also shows what it does not
  do: a variable that was deleted from the instance stays on the token, as the values copied to the
  tokens are those left after the deletion.
\<close>

theorem variable_update_reaches_waiting_tokens:
  assumes "inst_get e i = Some x" and "wf_table variables" and "wf_table (pi_vars x)"
  shows "\<exists>e1 y. update_instance_variables ev i variables e = (e1, Ok ()) \<and> inst_get e1 i = Some y \<and>
     (\<forall>k. tget (pi_vars y) k = (case tget variables k of None \<Rightarrow> tget (pi_vars x) k
                                | Some v \<Rightarrow> if v = JNull then None else Some v)) \<and>
     (\<forall>t. tget (pi_tokens y) t = map_option (overlay_token (pi_vars y)) (tget (pi_tokens x) t)) \<and>
     (\<forall>tok k. tget (tk_vars (overlay_token (pi_vars y) tok)) k =
        (case tget (pi_vars y) k of None \<Rightarrow> tget (tk_vars tok) k | Some v \<Rightarrow> if v = JNull then None else Some v))"
proof -
  let ?x1 = "apply_variables variables x"
  let ?vs = "fst (update_variables variables (pi_vars x))"
  let ?e1 = "persist_instance ev i (record_history_event ev i HVariableUpdated
       (Msg ''Variables updated directly'' []) ActorUser None (Some x) (inst_put i ?x1 e))"
  have run: "update_instance_variables ev i variables e = (?e1, Ok ())"
    using assms(1) by (simp add: update_instance_variables_def modify_instance_def)
  have x1: "pi_vars ?x1 = ?vs" "pi_tokens ?x1 = tmapv (overlay_token ?vs) (pi_tokens x)"
    by (simp_all add: apply_variables_def Let_def case_prod_unfold)
  have "inst_get (inst_put i ?x1 e) i = Some ?x1" by (simp add: insts.get_put)
  then obtain y where y: "inst_get ?e1 i = Some y" and "same_but_audit ?x1 y"
    by (rule saved_instance)
  then have same: "pi_vars y = ?vs" "pi_tokens y = tmapv (overlay_token ?vs) (pi_tokens x)"
    by (auto simp: same_but_audit_def x1)
  have vs: "tget ?vs k = (case tget variables k of None \<Rightarrow> tget (pi_vars x) k
                                | Some v \<Rightarrow> if v = JNull then None else Some v)" for k
    using update_variables_get [of variables "pi_vars x" _ k] assms(2)
    by (simp add: update_variables_def map_of_rev tget_def)
  have "wf_table ?vs" using assms(3) by (simp add: update_variables_def update_variables_wf)
  then have ov: "tget (tk_vars (overlay_token ?vs tok)) k =
      (case tget ?vs k of None \<Rightarrow> tget (tk_vars tok) k | Some v \<Rightarrow> if v = JNull then None else Some v)" for tok k
    using overlay_get [of ?vs "tk_vars tok" k] by (simp add: overlay_token_def map_of_rev tget_def)
  show ?thesis
    using run y by (intro exI [of _ ?e1] exI [of _ y]) (simp only: same ov, simp add: vs)
qed

theorem variable_update_reaches_waiting_tokens_witness:
  "\<exists>e1 y. update_instance_variables memory_env 1 [(''a'', JBool True), (''b'', JNull)] sample_engine = (e1, Ok ()) \<and>
     inst_get e1 1 = Some y \<and> tget (pi_vars y) ''a'' = Some (JBool True)"
proof -
  have wf: "wf_table [(''a'', JBool True), (''b'', JNull)]" "wf_table (pi_vars blank_instance)"
    by (simp_all add: wf_table_def blank_instance_def)
  from variable_update_reaches_waiting_tokens [OF sample_instance wf, of memory_env] obtain e1 y
    where "update_instance_variables memory_env 1 [(''a'', JBool True), (''b'', JNull)] sample_engine = (e1, Ok ())"
      and "inst_get e1 1 = Some y"
      and "\<forall>k. tget (pi_vars y) k = (case tget [(''a'', JBool True), (''b'', JNull)] k of
             None \<Rightarrow> tget (pi_vars blank_instance) k | Some v \<Rightarrow> if v = JNull then None else Some v)"
    by blast
  then show ?thesis by (intro exI [of _ e1] exI [of _ y]) (simp add: tget_Cons)
qed

section \<open>Deletion of instances\<close>

lemma same_tables_call_ignored [simp]: "same_tables e (call_ignored ev c e)"
  by (simp add: call_ignored_def same_tables_def split: option.split)

lemma same_tables_ignored_calls: "same_tables e (fold (call_ignored ev) cs e)"
proof (induction cs arbitrary: e)
  case (Cons c cs)
  show ?case using same_tables_trans [OF same_tables_call_ignored Cons.IH] by simp
qed simp

lemma same_tables_try_call: "same_tables e (fst (try_call ev c e))"
  by (simp add: try_call_def same_tables_def split: option.split prod.split)

lemma delete_instance_tables:
  assumes "delete_instance ev i e = (e1, res)"
  shows "(\<forall>j. inst_get e1 j = (if j = i then None else inst_get e j)) \<and> en_defs e1 = en_defs e"
proof (cases "inst_get e i")
  case None
  with assms show ?thesis by (auto simp: delete_instance_def read_instance_def)
next
  case (Some x)
  let ?e1 = "fold (call_ignored ev) (instance_cleanup e i x) (inst_remove i e)"
  note s1 = same_tablesD [OF same_tables_ignored_calls, of ev "instance_cleanup e i x" "inst_remove i e"]
  note s2 = same_tablesD [OF same_tables_try_call, of ev "DeleteInstance (env_uuid_str ev i)" ?e1]
  obtain e2 r where t: "try_call ev (DeleteInstance (env_uuid_str ev i)) ?e1 = (e2, r)" by fastforce
  have "inst_get e2 j = (if j = i then None else inst_get e j)" "en_defs e2 = en_defs e" for j
    by (simp_all add: s2 [unfolded t fst_conv] s1 frame insts.get_remove)
  then show ?thesis
    using assms Some t by (cases r) (auto simp: delete_instance_def read_instance_def forget_waits_def inst_get_def)
qed

text \<open>
  C20. Deleting an instance removes it and exactly the user tasks, service tasks, timers and message
  catches that wait for it.
\<close>

theorem deletion_takes_exactly_one_instance:
  assumes "engine_wf e" and "delete_instance ev i e = (e1, Ok ())"
  shows "inst_get e1 i = None \<and> (\<forall>j. j \<noteq> i \<longrightarrow> inst_get e1 j = inst_get e j) \<and>
         (\<forall>u t. tget (en_user e1) u = Some t \<longleftrightarrow> tget (en_user e) u = Some t \<and> ut_instance_id t \<noteq> i) \<and>
         (\<forall>u t. tget (en_service e1) u = Some t \<longleftrightarrow> tget (en_service e) u = Some t \<and> st_instance_id t \<noteq> i) \<and>
         (\<forall>u t. tget (en_timers e1) u = Some t \<longleftrightarrow> tget (en_timers e) u = Some t \<and> tm_instance_id t \<noteq> i) \<and>
         (\<forall>u t. tget (en_messages e1) u = Some t \<longleftrightarrow> tget (en_messages e) u = Some t \<and> mc_instance_id t \<noteq> i)"
proof -
  from assms(2) obtain x where x: "inst_get e i = Some x"
    by (cases "inst_get e i") (auto simp: delete_instance_def read_instance_def)
  let ?e1 = "fold (call_ignored ev) (instance_cleanup e i x) (inst_remove i e)"
  note s1 = same_tablesD [OF same_tables_ignored_calls, of ev "instance_cleanup e i x" "inst_remove i e"]
  note s2 = same_tablesD [OF same_tables_try_call, of ev "DeleteInstance (env_uuid_str ev i)" ?e1]
  obtain e2 r where t: "try_call ev (DeleteInstance (env_uuid_str ev i)) ?e1 = (e2, r)" by fastforce
  have e1: "e1 = forget_waits i e2"
    using assms(2) x t by (cases r) (auto simp: delete_instance_def read_instance_def)
  have tabs: "en_user e2 = en_user e" "en_service e2 = en_service e" "en_timers e2 = en_timers e"
    "en_messages e2 = en_messages e"
    by (simp_all add: s2 [unfolded t fst_conv] s1 frame)
  have wf: "wf_table (en_user e)" "wf_table (en_service e)" "wf_table (en_timers e)" "wf_table (en_messages e)"
    using engine_wf_tables [OF assms(1)] by (simp_all add: keyed_by_def)
  show ?thesis
    using delete_instance_tables [OF assms(2)]
    by (auto simp: e1 forget_waits_def tabs tget_tretain wf split: option.split)
qed

lemma memory_try_call: "\<exists>e1. try_call memory_env c e = (e1, Ok ())"
  by (simp add: try_call_def memory_env_def split: option.split)

theorem deletion_takes_exactly_one_instance_witness:
  "\<exists>e1. delete_instance memory_env 1 sample_engine = (e1, Ok ()) \<and> tget (en_service e1) 3 = None"
proof -
  have "\<exists>e1. delete_instance memory_env 1 sample_engine = (e1, Ok ())"
    using sample_instance memory_try_call [of "DeleteInstance (env_uuid_str memory_env 1)"
        "fold (call_ignored memory_env) (instance_cleanup sample_engine 1 blank_instance) (inst_remove 1 sample_engine)"]
    by (auto simp: delete_instance_def read_instance_def Let_def)
  then obtain e1 where d: "delete_instance memory_env 1 sample_engine = (e1, Ok ())" by blast
  have "\<not> (\<exists>t. tget (en_service e1) 3 = Some t)"
    using deletion_takes_exactly_one_instance [OF sample_engine_wf d]
    by (auto simp: sample_engine_def tget_Cons sample_task_def)
  with d show ?thesis by auto
qed

end
