(* ===== verification/DefinitionOps.thy ===== *)
theory DefinitionOps
  imports InstanceOps
begin

text \<open>
  Deployment and deletion of process definitions (\<open>engine/definition_ops.rs\<close>): versions per BPMN
  id, the deployment of embedded sub-processes, and the cascade over instances.
\<close>

section \<open>Queries\<close>

definition list_deployed :: "'p engine \<Rightarrow> (uuid \<times> string \<times> int \<times> nat) list" where
  "list_deployed e = reg_list e"

definition get_definition :: "'p engine \<Rightarrow> uuid \<Rightarrow> process_definition option" where
  "get_definition e k = reg_get e k"

definition list_definition_versions :: "'p engine \<Rightarrow> string \<Rightarrow> (uuid \<times> int \<times> nat) list" where
  "list_definition_versions e bpmn_id =
     map (\<lambda>(k, d). (k, pd_version d, length (pd_nodes d))) (all_versions_of e bpmn_id)"

section \<open>Deployment\<close>

fun set_version_of :: "int \<Rightarrow> process_definition \<Rightarrow> process_definition" where
  "set_version_of v (ProcessDefinition k i v0 ns fs ls els sps) = ProcessDefinition k i v ns fs ls els sps"

fun drop_sub_processes :: "process_definition \<Rightarrow> process_definition" where
  "drop_sub_processes (ProcessDefinition k i v ns fs ls els sps) = ProcessDefinition k i v ns fs ls els []"

definition normalize_definition :: "process_definition \<Rightarrow> int option \<Rightarrow> process_definition" where
  "normalize_definition d highest =
     (case highest of None \<Rightarrow> d | Some v \<Rightarrow> set_version_of (wrap_i32 (v + 1)) d)"

text \<open>The nesting of sub-processes, which bounds the recursion of a deployment.\<close>

lemma set_version_of_subs [simp]: "pd_sub_processes (set_version_of v d) = pd_sub_processes d"
  by (cases d) simp

lemma normalize_subs [simp]: "pd_sub_processes (normalize_definition d h) = pd_sub_processes d"
  by (simp add: normalize_definition_def split: option.splits)

fun nesting :: "process_definition \<Rightarrow> nat" where
  "nesting (ProcessDefinition k i v ns fs ls els sps) = Suc (sum_list (map nesting sps))"

lemma nesting_set_version [simp]: "nesting (set_version_of v d) = nesting d"
  by (cases d) simp

lemma nesting_sub:
  "s \<in> set (pd_sub_processes d) \<Longrightarrow> nesting s < nesting d"
  by (cases d) (auto simp: less_Suc_eq_le intro: member_le_sum_list)

text \<open>
  Deploys a list of definitions, each followed by its sub-processes, and returns the key and
  version of each. A sub-process takes the version of its parent before its own is computed.
\<close>

function deploy_all ::
  "'p eenv \<Rightarrow> process_definition list \<Rightarrow> 'p engine \<Rightarrow> 'p engine \<times> (uuid \<times> int) list" where
  "deploy_all ev [] e = (e, [])"
| "deploy_all ev (d # ds) e =
     (let def = normalize_definition d (highest_version e (pd_id d));
          e1 = reg_insert (pd_key def) (drop_sub_processes def) e;
          e2 = fst (deploy_all ev (map (set_version_of (pd_version def)) (pd_sub_processes def)) e1);
          e3 = emit_event EvDefinitionChanged (persist_definition ev (pd_key def) e2);
          (e4, rest) = deploy_all ev ds e3
      in (e4, (pd_key def, pd_version def) # rest))"
  by pat_completeness auto

lemma nesting_pos: "0 < nesting d"
  by (cases d) simp

termination deploy_all
proof (relation "measure (\<lambda>(ev, ds, e). sum_list (map nesting ds))", goal_cases)
  case 1
  show ?case by simp
next
  case (2 ev d ds e def e1)
  have "sum_list (map nesting (map (set_version_of v) (pd_sub_processes d))) < nesting d" for v
    by (cases d) (simp add: comp_def)
  from this [of "pd_version def"] show ?case
    by (simp add: 2 trans_less_add1)
next
  case (3 ev d ds e def e1 e2 e3)
  then show ?case using nesting_pos by simp
qed

definition deploy_definition ::
  "'p eenv \<Rightarrow> process_definition \<Rightarrow> 'p engine \<Rightarrow> 'p engine \<times> (uuid \<times> int)" where
  "deploy_definition ev d e = (case deploy_all ev [d] e of (e', kvs) \<Rightarrow> (e', hd kvs))"

section \<open>Deletion\<close>

definition associated_instances :: "'p engine \<Rightarrow> uuid \<Rightarrow> uuid list" where
  "associated_instances e dk = map pi_id (filter (\<lambda>x. pi_definition_key x = dk) (tvals (en_insts e)))"

fun delete_instances :: "'p eenv \<Rightarrow> uuid list \<Rightarrow> 'p engine \<Rightarrow> ('p, unit) result" where
  "delete_instances ev [] e = (e, Ok ())"
| "delete_instances ev (i # is) e = bindR (delete_instance ev i e) (\<lambda>e u. delete_instances ev is e)"

definition delete_definition :: "'p eenv \<Rightarrow> uuid \<Rightarrow> bool \<Rightarrow> 'p engine \<Rightarrow> ('p, unit) result" where
  "delete_definition ev dk cascade e =
     (if \<not> reg_contains_key e dk then (e, Err (NoSuchDefinition dk))
      else
        let insts = associated_instances e dk in
        if insts \<noteq> [] \<and> \<not> cascade then (e, Err (DefinitionHasInstances (length insts)))
        else
          bindR (delete_instances ev insts e) (\<lambda>e1 u.
          bindR (try_call ev (DeleteDefinition (env_uuid_str ev dk)) (reg_remove dk e1)) (\<lambda>e2 u.
            (emit_event EvDefinitionChanged e2, Ok ()))))"

fun delete_definitions :: "'p eenv \<Rightarrow> uuid list \<Rightarrow> bool \<Rightarrow> 'p engine \<Rightarrow> ('p, unit) result" where
  "delete_definitions ev [] cascade e = (e, Ok ())"
| "delete_definitions ev (k # ks) cascade e =
     bindR (delete_definition ev k cascade e) (\<lambda>e u. delete_definitions ev ks cascade e)"

definition delete_all_definitions :: "'p eenv \<Rightarrow> string \<Rightarrow> bool \<Rightarrow> 'p engine \<Rightarrow> ('p, unit) result" where
  "delete_all_definitions ev bpmn_id cascade e =
     delete_definitions ev (map fst (all_versions_of e bpmn_id)) cascade e"

section \<open>The operations keep the invariant\<close>

lemma set_version_of_key [simp]: "pd_key (set_version_of v d) = pd_key d" "pd_id (set_version_of v d) = pd_id d"
  by (cases d; simp)+

lemma normalize_key [simp]:
  "pd_key (normalize_definition d h) = pd_key d" "pd_id (normalize_definition d h) = pd_id d"
  by (simp_all add: normalize_definition_def split: option.splits)

lemma drop_sub_processes_key [simp]:
  "pd_key (drop_sub_processes d) = pd_key d" "pd_id (drop_sub_processes d) = pd_id d"
  "pd_version (drop_sub_processes d) = pd_version d"
  by (cases d; simp)+

lemma reg_insert_wf [wf_intro]: "engine_wf e \<Longrightarrow> pd_key d = k \<Longrightarrow> engine_wf (reg_insert k d e)"
  by (auto simp: reg_insert_def engine_wf_def inst_get_def)

lemma reg_remove_wf [wf_intro]: "engine_wf e \<Longrightarrow> engine_wf (reg_remove k e)"
  by (auto simp: reg_remove_def engine_wf_def inst_get_def)

text \<open>What the three steps of a deployment keep, the deployment keeps.\<close>

lemma deploy_all_keeps:
  assumes "\<And>d e. P e \<Longrightarrow> P (reg_insert (pd_key d) d e)" and "\<And>k e. P e \<Longrightarrow> P (persist_definition ev k e)"
    and "\<And>e. P e \<Longrightarrow> P (emit_event EvDefinitionChanged e)" and "P e"
  shows "P (fst (deploy_all ev ds e))"
  using assms
proof (induction ev ds e rule: deploy_all.induct)
  case (1 ev e)
  then show ?case by simp
next
  case (2 ev d ds e)
  define def where "def = normalize_definition d (highest_version e (pd_id d))"
  define e1 where "e1 = reg_insert (pd_key def) (drop_sub_processes def) e"
  define e2 where "e2 = fst (deploy_all ev (map (set_version_of (pd_version def)) (pd_sub_processes def)) e1)"
  define e3 where "e3 = emit_event EvDefinitionChanged (persist_definition ev (pd_key def) e2)"
  have "P e1" using "2.prems"(1) [OF "2.prems"(4), of "drop_sub_processes def"] by (simp add: e1_def)
  then have "P e2" unfolding e2_def using "2.IH"(1) [OF def_def e1_def] "2.prems"(1-3) by blast
  then have "P e3" unfolding e3_def by (intro "2.prems"(2,3))
  then have "P (fst (deploy_all ev ds e3))"
    using "2.IH"(2) [OF def_def e1_def e2_def e3_def] "2.prems"(1-3) by blast
  moreover have "fst (deploy_all ev (d # ds) e) = fst (deploy_all ev ds e3)"
    by (simp add: Let_def def_def [symmetric] e1_def [symmetric] e2_def [symmetric] e3_def [symmetric]
        split: prod.split)
  ultimately show ?case by simp
qed

lemma deploy_all_wf: "engine_wf e \<Longrightarrow> engine_wf (fst (deploy_all ev ds e))"
  by (rule deploy_all_keeps [where P = engine_wf]) (auto intro: wf_intro)

lemma deploy_definition_wf: "engine_wf e \<Longrightarrow> engine_wf (fst (deploy_definition ev d e))"
  using deploy_all_wf [of e ev "[d]"]
  by (simp add: deploy_definition_def case_prod_unfold del: deploy_all.simps)

lemma delete_instances_wf [keeps_intro]: "engine_wf e \<Longrightarrow> keeps engine_wf (delete_instances ev is e)"
  by (induction "is" arbitrary: e) (auto intro!: keeps_intro)

lemma delete_definition_wf [keeps_intro]: "engine_wf e \<Longrightarrow> keeps engine_wf (delete_definition ev k c e)"
  unfolding delete_definition_def Let_def by (intro keeps_intro wf_intro)

lemma delete_definitions_wf [keeps_intro]: "engine_wf e \<Longrightarrow> keeps engine_wf (delete_definitions ev ks c e)"
  by (induction ks arbitrary: e) (auto intro!: keeps_intro)

lemma delete_all_definitions_wf [keeps_intro]:
  "engine_wf e \<Longrightarrow> keeps engine_wf (delete_all_definitions ev b c e)"
  unfolding delete_all_definitions_def by (intro keeps_intro)

section \<open>Deletion of definitions\<close>

lemma delete_instances_tables:
  "delete_instances ev is e = (e1, res) \<Longrightarrow>
     en_defs e1 = en_defs e \<and> (\<forall>j. j \<notin> set is \<longrightarrow> inst_get e1 j = inst_get e j) \<and>
     (\<forall>j. inst_get e j = None \<longrightarrow> inst_get e1 j = None) \<and>
     (res = Ok () \<longrightarrow> (\<forall>j \<in> set is. inst_get e1 j = None))"
proof (induction "is" arbitrary: e)
  case (Cons i "is")
  obtain e2 r where d: "delete_instance ev i e = (e2, r)" by fastforce
  from delete_instance_tables [OF d] Cons.prems Cons.IH [of e2] d show ?case
    by (cases r) auto
qed simp

text \<open>
  A definition that instances still run on is not deleted without the cascade; with it, exactly
  this definition and exactly its instances are gone.
\<close>

lemma definition_deletion_respects_instances:
  assumes "engine_wf e"
  shows "(associated_instances e dk \<noteq> [] \<longrightarrow> reg_contains_key e dk \<longrightarrow>
            delete_definition ev dk False e = (e, Err (DefinitionHasInstances (length (associated_instances e dk))))) \<and>
         (\<forall>e1. delete_definition ev dk cascade e = (e1, Ok ()) \<longrightarrow>
            reg_get e1 dk = None \<and> (\<forall>k. k \<noteq> dk \<longrightarrow> reg_get e1 k = reg_get e k) \<and>
            (\<forall>i. inst_get e1 i = (case inst_get e i of None \<Rightarrow> None
                   | Some x \<Rightarrow> if pi_definition_key x = dk then None else Some x)))"
proof (intro conjI impI allI)
  show "delete_definition ev dk False e = (e, Err (DefinitionHasInstances (length (associated_instances e dk))))"
    if "associated_instances e dk \<noteq> []" "reg_contains_key e dk"
    using that by (simp add: delete_definition_def Let_def)
next
  fix e1 assume del: "delete_definition ev dk cascade e = (e1, Ok ())"
  let ?is = "associated_instances e dk"
  have keyed: "keyed_by pi_id (en_insts e)" by (rule engine_wf_tables(6) [OF assms])
  have mem: "i \<in> set ?is \<longleftrightarrow> (\<exists>x. inst_get e i = Some x \<and> pi_definition_key x = dk)" for i
    using keyed by (force simp: associated_instances_def tvals_def keyed_by_def inst_get_def tget_Some_iff)
  obtain e2 r where d: "delete_instances ev ?is e = (e2, r)" by fastforce
  with del have r: "r = Ok ()"
    by (cases r) (auto simp: delete_definition_def Let_def split: if_splits)
  obtain e3 q where t: "try_call ev (DeleteDefinition (env_uuid_str ev dk)) (reg_remove dk e2) = (e3, q)"
    by fastforce
  have e1: "e1 = emit_event EvDefinitionChanged e3"
    using del d r t by (cases q) (auto simp: delete_definition_def Let_def split: if_splits)
  note s1 = same_tablesD [OF same_tables_emit, of EvDefinitionChanged e3]
  note s2 = same_tablesD [OF same_tables_try_call, of ev "DeleteDefinition (env_uuid_str ev dk)" "reg_remove dk e2"]
  note tabs = delete_instances_tables [OF d]
  have "reg_get e1 k = (if k = dk then None else reg_get e k)" for k
    using s1 s2 tabs registry.get_remove [of dk e2 k] by (simp add: e1 t) (simp add: reg_get_def)
  moreover have "inst_get e1 i = inst_get e2 i" for i
    using s1 s2 by (simp add: e1 t) (simp add: reg_remove_def inst_get_def)
  moreover have "inst_get e2 i = (case inst_get e i of None \<Rightarrow> None
                   | Some x \<Rightarrow> if pi_definition_key x = dk then None else Some x)" for i
    using tabs r mem [of i] by (auto split: option.split)
  ultimately show "reg_get e1 dk = None" and "\<And>i. inst_get e1 i = (case inst_get e i of None \<Rightarrow> None
                   | Some x \<Rightarrow> if pi_definition_key x = dk then None else Some x)"
    and "\<And>k. k \<noteq> dk \<Longrightarrow> reg_get e1 k = reg_get e k" by simp_all
qed

lemma definition_deletion_respects_instances_example:
  "delete_definition memory_env 1 False
       (sample_engine\<lparr>en_defs := [(1, fork_definition)], en_insts := [(1, blank_instance\<lparr>pi_definition_key := 1\<rparr>)]\<rparr>)
     = (sample_engine\<lparr>en_defs := [(1, fork_definition)], en_insts := [(1, blank_instance\<lparr>pi_definition_key := 1\<rparr>)]\<rparr>,
        Err (DefinitionHasInstances 1))"
proof -
  let ?e = "sample_engine\<lparr>en_defs := [(1, fork_definition)], en_insts := [(1, blank_instance\<lparr>pi_definition_key := 1\<rparr>)]\<rparr>"
  have wf: "engine_wf ?e"
    using sample_engine_wf
    by (auto simp: engine_wf_def inst_get_def keyed_by_def wf_table_def tget_Cons blank_instance_def
        inst_wf_def fork_definition_def split: if_splits)
  have "associated_instances ?e 1 = [1]" "reg_contains_key ?e 1"
    by (simp_all add: associated_instances_def tvals_def blank_instance_def reg_contains_key_def thas_def tget_Cons)
  with definition_deletion_respects_instances [OF wf, of 1 memory_env] show ?thesis by simp
qed

section \<open>Versions\<close>

lemma max_by_key_None [simp]: "max_by_key f xs = None \<longleftrightarrow> xs = []"
  by (cases xs) (auto split: option.split)

lemma max_by_key_max: "max_by_key f xs = Some y \<Longrightarrow> y \<in> set xs \<and> (\<forall>x \<in> set xs. f x \<le> f y)"
  by (induction xs arbitrary: y) (fastforce split: option.splits if_splits)+

text \<open>The keys and BPMN ids of a definition and of everything embedded in it.\<close>

fun parts :: "process_definition \<Rightarrow> (uuid \<times> string) list" where
  "parts (ProcessDefinition k i v ns fs ls els sps) = (k, i) # concat (map parts sps)"

lemma parts_unfold: "parts d = (pd_key d, pd_id d) # concat (map parts (pd_sub_processes d))"
  by (cases d) simp

lemma parts_set_version [simp]: "parts (set_version_of v d) = parts d"
  by (cases d) simp

lemma deploy_all_other_keys:
  "k \<notin> fst ` set (concat (map parts ds)) \<Longrightarrow> reg_get (fst (deploy_all ev ds e)) k = reg_get e k"
proof (induction ev ds e rule: deploy_all.induct)
  case (1 ev e)
  then show ?case by simp
next
  case (2 ev d ds e)
  define def where "def = normalize_definition d (highest_version e (pd_id d))"
  define e1 where "e1 = reg_insert (pd_key def) (drop_sub_processes def) e"
  define e2 where "e2 = fst (deploy_all ev (map (set_version_of (pd_version def)) (pd_sub_processes def)) e1)"
  define e3 where "e3 = emit_event EvDefinitionChanged (persist_definition ev (pd_key def) e2)"
  have run: "fst (deploy_all ev (d # ds) e) = fst (deploy_all ev ds e3)"
    by (simp add: Let_def def_def [symmetric] e1_def [symmetric] e2_def [symmetric] e3_def [symmetric]
        split: prod.split)
  have k: "k \<noteq> pd_key d" "k \<notin> fst ` set (concat (map parts (pd_sub_processes d)))"
    "k \<notin> fst ` set (concat (map parts ds))"
    using "2.prems" by (auto simp: parts_unfold [of d])
  have "reg_get (fst (deploy_all ev ds e3)) k = reg_get e3 k"
    by (rule "2.IH"(2) [OF def_def e1_def e2_def e3_def k(3)])
  moreover have "reg_get e2 k = reg_get e1 k"
    unfolding e2_def by (rule "2.IH"(1) [OF def_def e1_def]) (use k(2) in \<open>simp add: def_def comp_def\<close>)
  moreover have "reg_get e3 = reg_get e2"
    by (simp add: e3_def same_tablesD [OF same_tables_emit] same_tablesD [OF same_tables_persist(1)])
  moreover have "reg_get e1 k = reg_get e k"
    using k(1) by (simp add: e1_def def_def registry.get_put)
  ultimately show ?case unfolding run by simp
qed

lemma deploy_all_origin:
  "reg_get (fst (deploy_all ev ds e)) k = Some d' \<Longrightarrow>
     reg_get e k = Some d' \<or> (k, pd_id d') \<in> set (concat (map parts ds))"
proof (induction ev ds e rule: deploy_all.induct)
  case (1 ev e)
  then show ?case by simp
next
  case (2 ev d ds e)
  define def where "def = normalize_definition d (highest_version e (pd_id d))"
  define e1 where "e1 = reg_insert (pd_key def) (drop_sub_processes def) e"
  define e2 where "e2 = fst (deploy_all ev (map (set_version_of (pd_version def)) (pd_sub_processes def)) e1)"
  define e3 where "e3 = emit_event EvDefinitionChanged (persist_definition ev (pd_key def) e2)"
  have run: "fst (deploy_all ev (d # ds) e) = fst (deploy_all ev ds e3)"
    by (simp add: Let_def def_def [symmetric] e1_def [symmetric] e2_def [symmetric] e3_def [symmetric]
        split: prod.split)
  have "reg_get e3 = reg_get e2"
    by (simp add: e3_def same_tablesD [OF same_tables_emit] same_tablesD [OF same_tables_persist(1)])
  with "2.IH"(2) [OF def_def e1_def e2_def e3_def] "2.prems" run
  have "reg_get e2 k = Some d' \<or> (k, pd_id d') \<in> set (concat (map parts ds))" by simp
  moreover have "reg_get e1 k = Some d' \<or> (k, pd_id d') \<in> set (concat (map parts (pd_sub_processes d)))"
    if "reg_get e2 k = Some d'"
    using "2.IH"(1) [OF def_def e1_def] that by (simp add: e2_def def_def comp_def)
  moreover have "reg_get e k = Some d' \<or> (k, pd_id d') = (pd_key d, pd_id d)" if "reg_get e1 k = Some d'"
    using that by (auto simp: e1_def def_def registry.get_put split: if_splits)
  ultimately show ?case by (auto simp: parts_unfold [of d])
qed

lemma versions_of_mem: "engine_wf e \<Longrightarrow> (k, d) \<in> set (versions_of e b) \<longleftrightarrow> reg_get e k = Some d \<and> pd_id d = b"
  using engine_wf_tables(5) [of e]
  by (auto simp: versions_of_def reg_get_def keyed_by_def tget_Some_iff)

text \<open>What a deployment leaves in the registry, when the sub-processes have keys and identifiers of their own.\<close>

lemma deployed_registry:
  fixes e :: "'p engine"
  assumes "\<forall>(k, b) \<in> set (concat (map parts (pd_sub_processes d))). k \<noteq> pd_key d \<and> b \<noteq> pd_id d"
  defines "def \<equiv> normalize_definition d (highest_version e (pd_id d))"
  obtains e3 where "deploy_definition ev d e = (e3, (pd_key d, pd_version def))"
    and "reg_get e3 (pd_key d) = Some (drop_sub_processes def)"
    and "\<And>k d'. reg_get e3 k = Some d' \<Longrightarrow> pd_id d' = pd_id d \<Longrightarrow>
          (k, d') = (pd_key d, drop_sub_processes def) \<or> reg_get e k = Some d'"
    and "\<And>k. k \<notin> fst ` set (parts d) \<Longrightarrow> reg_get e3 k = reg_get e k"
proof -
  define e1 where "e1 = reg_insert (pd_key def) (drop_sub_processes def) e"
  define e2 where "e2 = fst (deploy_all ev (map (set_version_of (pd_version def)) (pd_sub_processes def)) e1)"
  define e3 where "e3 = emit_event EvDefinitionChanged (persist_definition ev (pd_key def) e2)"
  have run: "deploy_definition ev d e = (e3, (pd_key d, pd_version def))"
    by (simp add: deploy_definition_def Let_def def_def [symmetric] e1_def [symmetric] e2_def [symmetric]
        e3_def [symmetric]) (simp add: def_def)
  define S where "S = set (concat (map parts (pd_sub_processes d)))"
  have subs: "set (concat (map parts (map (set_version_of (pd_version def)) (pd_sub_processes def)))) = S"
    by (simp add: def_def comp_def S_def)
  have apart: "k \<noteq> pd_key d" "b \<noteq> pd_id d" if "(k, b) \<in> S" for k b
    using assms(1) that unfolding S_def [symmetric] by auto
  have get3: "reg_get e3 = reg_get e2"
    by (simp add: e3_def same_tablesD [OF same_tables_emit] same_tablesD [OF same_tables_persist(1)])
  have get2: "reg_get e2 k = reg_get e1 k" if "k \<notin> fst ` S" for k
    unfolding e2_def by (rule deploy_all_other_keys) (use that subs in simp)
  have get1: "reg_get e1 k = (if k = pd_key d then Some (drop_sub_processes def) else reg_get e k)" for k
    by (simp add: e1_def def_def registry.get_put)
  have "pd_key d \<notin> fst ` S" by (auto dest: apart(1))
  with get1 get2 get3 have own: "reg_get e3 (pd_key d) = Some (drop_sub_processes def)" by simp
  have origin: "(k, d') = (pd_key d, drop_sub_processes def) \<or> reg_get e k = Some d'"
    if "reg_get e3 k = Some d'" "pd_id d' = pd_id d" for k d'
  proof -
    have "reg_get e1 k = Some d' \<or> (k, pd_id d') \<in> S"
      using deploy_all_origin [of ev "map (set_version_of (pd_version def)) (pd_sub_processes def)" e1 k d']
        that(1) unfolding get3 e2_def subs .
    with apart that(2) get1 [of k] show ?thesis by (auto split: if_splits)
  qed
  have "reg_get e3 k = reg_get e k" if "k \<notin> fst ` set (parts d)" for k
    using that get1 get2 get3 by (auto simp: parts_unfold [of d] S_def)
  with run own origin show ?thesis by (rule that)
qed

text \<open>No version of a process is above its highest one.\<close>

lemma highest_version_bounds:
  assumes "engine_wf e" and "reg_get e k = Some d'"
  shows "\<exists>h. highest_version e (pd_id d') = Some h \<and> pd_version d' \<le> h"
proof -
  from assms have m: "(k, d') \<in> set (versions_of e (pd_id d'))" by (simp add: versions_of_mem)
  then obtain h where h: "highest_version e (pd_id d') = Some h"
    by (cases "highest_version e (pd_id d')") (auto simp: highest_version_def)
  then show ?thesis using max_by_key_max [of id _ h] m by (force simp: highest_version_def)
qed

text \<open>
  C21. A deployment gets the version after the highest one deployed under its BPMN id (its own when
  there is none), is from then on the latest version, and leaves every definition under another key
  as it is.
\<close>

theorem deployment_takes_the_next_version:
  assumes "engine_wf e"
    and "\<forall>(k, b) \<in> set (concat (map parts (pd_sub_processes d))). k \<noteq> pd_key d \<and> b \<noteq> pd_id d"
    and "reg_get e (pd_key d) = None"
    and "\<forall>h. highest_version e (pd_id d) = Some h \<longrightarrow> - (2 ^ 31) \<le> h \<and> h < 2 ^ 31 - 1"
  shows "\<exists>e1 v. deploy_definition ev d e = (e1, (pd_key d, v)) \<and>
     v = (case highest_version e (pd_id d) of None \<Rightarrow> pd_version d | Some h \<Rightarrow> h + 1) \<and>
     find_latest_by_bpmn_id e1 (pd_id d) = Some (pd_key d, drop_sub_processes (set_version_of v d)) \<and>
     (\<forall>k. k \<notin> fst ` set (parts d) \<longrightarrow> get_definition e1 k = get_definition e k)"
proof -
  let ?def = "normalize_definition d (highest_version e (pd_id d))"
  define v where "v = (case highest_version e (pd_id d) of None \<Rightarrow> pd_version d | Some h \<Rightarrow> h + 1)"
  obtain e3 where run: "deploy_definition ev d e = (e3, (pd_key d, pd_version ?def))"
    and own: "reg_get e3 (pd_key d) = Some (drop_sub_processes ?def)"
    and origin: "\<And>k d'. reg_get e3 k = Some d' \<Longrightarrow> pd_id d' = pd_id d \<Longrightarrow>
          (k, d') = (pd_key d, drop_sub_processes ?def) \<or> reg_get e k = Some d'"
    and others: "\<And>k. k \<notin> fst ` set (parts d) \<Longrightarrow> reg_get e3 k = reg_get e k"
    by (rule deployed_registry [OF assms(2), of ev e]) (rule that)
  have wrap: "wrap_i32 (h + 1) = h + 1" if "highest_version e (pd_id d) = Some h" for h
    using assms(4) that by (simp add: wrap_i32_def)
  have def: "?def = set_version_of v d"
    using wrap by (cases d) (simp add: v_def normalize_definition_def split: option.split)
  have newest: "pd_version (drop_sub_processes ?def) = v" "pd_version ?def = v" "pd_id (drop_sub_processes ?def) = pd_id d"
    unfolding def by (cases d; simp)+
  have wf3: "engine_wf e3"
    using deploy_definition_wf [OF assms(1), of ev d] by (simp add: run)
  have older: "pd_version d' < v" if "reg_get e k = Some d'" "pd_id d' = pd_id d" for k d'
    using highest_version_bounds [OF assms(1) that(1)] that(2) by (auto simp: v_def)
  have mem: "(pd_key d, drop_sub_processes ?def) \<in> set (versions_of e3 (pd_id d))"
    using own newest(3) by (simp add: versions_of_mem wf3)
  then obtain k d' where l: "find_latest_by_bpmn_id e3 (pd_id d) = Some (k, d')"
    by (cases "find_latest_by_bpmn_id e3 (pd_id d)") (auto simp: find_latest_by_bpmn_id_def)
  from max_by_key_max [OF l [unfolded find_latest_by_bpmn_id_def]] mem
  have "reg_get e3 k = Some d'" "pd_id d' = pd_id d" "v \<le> pd_version d'"
    using newest(1) by (fastforce simp: versions_of_mem wf3)+
  with origin older have "(k, d') = (pd_key d, drop_sub_processes ?def)" by fastforce
  then show ?thesis
    using run l newest(2) def others v_def by (auto simp: get_definition_def)
qed

theorem deployment_takes_the_next_version_witness:
  "\<exists>e1. deploy_definition memory_env fork_definition sample_engine = (e1, (1, 1))"
proof -
  have h: "highest_version sample_engine (pd_id fork_definition) = None"
    "reg_get sample_engine (pd_key fork_definition) = None"
    "\<forall>(k, b) \<in> set (concat (map parts (pd_sub_processes fork_definition))).
        k \<noteq> pd_key fork_definition \<and> b \<noteq> pd_id fork_definition"
    by (simp_all add: highest_version_def versions_of_def sample_engine_def engine_new_def reg_get_def
        fork_definition_def)
  from deployment_takes_the_next_version [OF sample_engine_wf h(3,2), of memory_env] h(1) show ?thesis
    by (auto simp: fork_definition_def)
qed

end
