(* ===== verification/RetryQueue.thy ===== *)
theory RetryQueue
  imports DefinitionOps
begin

text \<open>
  The background worker for failed persistence calls (\<open>engine/retry_queue.rs\<close>): the execution of
  one job on the current state, its attempts with exponential backoff, and the worker's loop over
  the queue, together with the shutdown of the engine (\<open>engine/mod.rs\<close>).
\<close>

section \<open>One job\<close>

definition MAX_RETRIES :: nat where
  "MAX_RETRIES = 50"

definition INITIAL_BACKOFF_MS :: nat where
  "INITIAL_BACKOFF_MS = 1000"

definition MAX_BACKOFF_MS :: nat where
  "MAX_BACKOFF_MS = 60000"

text \<open>
  The call of a job: a save re-reads the entity from the engine and is skipped when it is gone.
\<close>

definition job_call :: "'p engine \<Rightarrow> persist_job \<Rightarrow> pcall option" where
  "job_call e job =
     (case job of
        JobSaveInstance i \<Rightarrow> map_option SaveInstance (inst_get e i)
      | JobSaveDefinition k \<Rightarrow> map_option SaveDefinition (reg_get e k)
      | JobSaveUserTask u \<Rightarrow> map_option SaveUserTask (tget (en_user e) u)
      | JobDeleteUserTask u \<Rightarrow> Some (DeleteUserTask u)
      | JobSaveServiceTask u \<Rightarrow> map_option SaveServiceTask (tget (en_service e) u)
      | JobDeleteServiceTask u \<Rightarrow> Some (DeleteServiceTask u)
      | JobSaveTimer u \<Rightarrow> map_option SaveTimer (tget (en_timers e) u)
      | JobDeleteTimer u \<Rightarrow> Some (DeleteTimer u)
      | JobSaveMessageCatch u \<Rightarrow> map_option SaveMessageCatch (tget (en_messages e) u)
      | JobDeleteMessageCatch u \<Rightarrow> Some (DeleteMessageCatch u)
      | JobAppendHistoryEntry en \<Rightarrow> Some (AppendHistoryEntry en)
      | JobShutdown \<Rightarrow> None)"

definition execute_job :: "'p eenv \<Rightarrow> persist_job \<Rightarrow> 'p engine \<Rightarrow> 'p engine \<times> engine_error option" where
  "execute_job ev job e =
     (case (job_call e job, en_store e) of
        (Some c, Some p) \<Rightarrow>
          (case ee_persist ev c p of (p', r) \<Rightarrow> (e\<lparr>en_store := Some p'\<rparr>, r))
      | _ \<Rightarrow> (e, None))"

text \<open>
  The attempts of one job. \<open>spare\<close> counts the attempts left after the current one; the result holds
  the pauses made, in milliseconds. The engine may change during a pause: \<open>env_step k\<close> is what the
  other tasks do to it in the pause after attempt \<open>k\<close>.
\<close>

definition next_backoff :: "nat \<Rightarrow> nat" where
  "next_backoff ms = min (ms * 2) MAX_BACKOFF_MS"

fun job_attempts ::
  "'p eenv \<Rightarrow> (nat \<Rightarrow> 'p engine \<Rightarrow> 'p engine) \<Rightarrow> persist_job \<Rightarrow> nat \<Rightarrow> nat \<Rightarrow> nat \<Rightarrow> 'p engine
     \<Rightarrow> 'p engine \<times> nat list" where
  "job_attempts ev env_step job spare k backoff_ms e =
     (case execute_job ev job e of
        (e1, None) \<Rightarrow> (e1, [])
      | (e1, Some er) \<Rightarrow>
          (case spare of
             0 \<Rightarrow> (log_persistence_error e1, [])
           | Suc spare1 \<Rightarrow>
               (case job_attempts ev env_step job spare1 (Suc k) (next_backoff backoff_ms) (env_step k e1) of
                  (e2, pauses) \<Rightarrow> (e2, backoff_ms # pauses))))"

declare job_attempts.simps [simp del]

definition retry_job ::
  "'p eenv \<Rightarrow> (nat \<Rightarrow> 'p engine \<Rightarrow> 'p engine) \<Rightarrow> persist_job \<Rightarrow> 'p engine \<Rightarrow> 'p engine \<times> nat list" where
  "retry_job ev env_step job e =
     job_attempts ev env_step job (MAX_RETRIES - 1) 1 INITIAL_BACKOFF_MS e"

section \<open>The worker\<close>

text \<open>
  The loop of the worker over the jobs in its channel; a shutdown job ends it and closes the
  channel, the jobs behind it are lost.
\<close>

fun worker_loop ::
  "'p eenv \<Rightarrow> (nat \<Rightarrow> 'p engine \<Rightarrow> 'p engine) \<Rightarrow> persist_job list \<Rightarrow> 'p engine \<Rightarrow> 'p engine \<times> bool" where
  "worker_loop ev env_step [] e = (e, True)"
| "worker_loop ev env_step (job # jobs) e =
     (if job = JobShutdown then (e, False)
      else worker_loop ev env_step jobs (fst (retry_job ev env_step job e)))"

definition shutdown :: "'p eenv \<Rightarrow> (nat \<Rightarrow> 'p engine \<Rightarrow> 'p engine) \<Rightarrow> 'p engine \<Rightarrow> 'p engine" where
  "shutdown ev env_step e =
     (case en_retry e of
        None \<Rightarrow> e
      | Some jobs \<Rightarrow>
          (case worker_loop ev env_step (jobs @ [JobShutdown]) (e\<lparr>en_retry := Some []\<rparr>) of
             (e1, still_open) \<Rightarrow> e1\<lparr>en_retry := None\<rparr>))"

section \<open>The attempts of a job\<close>

text \<open>The engine as attempt number \<open>k\<close> (from 0) finds it, when the attempts before it failed.\<close>

fun before_attempt ::
  "'p eenv \<Rightarrow> (nat \<Rightarrow> 'p engine \<Rightarrow> 'p engine) \<Rightarrow> persist_job \<Rightarrow> nat \<Rightarrow> 'p engine \<Rightarrow> 'p engine" where
  "before_attempt ev env_step job 0 e = e"
| "before_attempt ev env_step job (Suc k) e =
     env_step (Suc k) (fst (execute_job ev job (before_attempt ev env_step job k e)))"

definition attempt :: "'p eenv \<Rightarrow> (nat \<Rightarrow> 'p engine \<Rightarrow> 'p engine) \<Rightarrow> persist_job \<Rightarrow> nat \<Rightarrow> 'p engine
    \<Rightarrow> 'p engine \<times> engine_error option" where
  "attempt ev env_step job k e = execute_job ev job (before_attempt ev env_step job k e)"

definition backoff_ms :: "nat \<Rightarrow> nat" where
  "backoff_ms k = min (1000 * 2 ^ k) 60000"

lemma next_backoff_ms: "next_backoff (backoff_ms k) = backoff_ms (Suc k)"
  by (simp add: next_backoff_def backoff_ms_def MAX_BACKOFF_MS_def min_def)

lemma job_attempts_succeed:
  assumes "snd (attempt ev env_step job (k + n) e) = None"
    and "\<And>j. j < n \<Longrightarrow> snd (attempt ev env_step job (k + j) e) \<noteq> None" and "n \<le> spare"
  shows "job_attempts ev env_step job spare (Suc k) (backoff_ms k) (before_attempt ev env_step job k e)
       = (fst (attempt ev env_step job (k + n) e), map backoff_ms [k..<k + n])"
  using assms
proof (induction n arbitrary: k spare)
  case 0
  then show ?case
    by (subst job_attempts.simps)
       (cases "execute_job ev job (before_attempt ev env_step job k e)"; auto simp: attempt_def)
next
  case (Suc n)
  obtain e1 er where now: "execute_job ev job (before_attempt ev env_step job k e) = (e1, Some er)"
    using Suc.prems(2) [of 0] by (cases "execute_job ev job (before_attempt ev env_step job k e)") (auto simp: attempt_def)
  obtain spare1 where sp: "spare = Suc spare1" using Suc.prems(3) by (cases spare) auto
  have "job_attempts ev env_step job spare1 (Suc (Suc k)) (backoff_ms (Suc k)) (before_attempt ev env_step job (Suc k) e)
      = (fst (attempt ev env_step job (Suc k + n) e), map backoff_ms [Suc k..<Suc k + n])"
    using Suc.prems Suc.prems(2) [of "Suc _"] by (intro Suc.IH) (auto simp: sp)
  then show ?case
    by (subst job_attempts.simps) (simp add: now sp next_backoff_ms upt_conv_Cons del: upt_Suc)
qed

lemma job_attempts_fail:
  assumes "\<And>j. j \<le> spare \<Longrightarrow> snd (attempt ev env_step job (k + j) e) \<noteq> None"
  shows "job_attempts ev env_step job spare (Suc k) (backoff_ms k) (before_attempt ev env_step job k e)
       = (log_persistence_error (fst (attempt ev env_step job (k + spare) e)), map backoff_ms [k..<k + spare])"
  using assms
proof (induction spare arbitrary: k)
  case 0
  then show ?case
    by (subst job_attempts.simps)
       (cases "execute_job ev job (before_attempt ev env_step job k e)"; auto simp: attempt_def)
next
  case (Suc spare)
  obtain e1 er where now: "execute_job ev job (before_attempt ev env_step job k e) = (e1, Some er)"
    using Suc.prems [of 0] by (cases "execute_job ev job (before_attempt ev env_step job k e)") (auto simp: attempt_def)
  have "job_attempts ev env_step job spare (Suc (Suc k)) (backoff_ms (Suc k)) (before_attempt ev env_step job (Suc k) e)
      = (log_persistence_error (fst (attempt ev env_step job (Suc k + spare) e)), map backoff_ms [Suc k..<Suc k + spare])"
    using Suc.prems [of "Suc _"] by (intro Suc.IH) auto
  then show ?case
    by (subst job_attempts.simps) (simp add: now next_backoff_ms upt_conv_Cons del: upt_Suc)
qed

text \<open>
  C25. A failed call is tried at most fifty times. The job is done at the first attempt that
  succeeds, whatever the rest of the engine did in between; when all fifty fail it is dropped and
  one more persistence error is counted. The pauses double from one second up to a minute.
\<close>

theorem failed_calls_are_retried_until_they_succeed:
  "(\<forall>n < 50. snd (attempt ev env_step job n e) = None \<longrightarrow>
        (\<forall>j < n. snd (attempt ev env_step job j e) \<noteq> None) \<longrightarrow>
        retry_job ev env_step job e
          = (fst (attempt ev env_step job n e), map (\<lambda>k. min (1000 * 2 ^ k) 60000) [0..<n])) \<and>
   ((\<forall>j < 50. snd (attempt ev env_step job j e) \<noteq> None) \<longrightarrow>
        retry_job ev env_step job e
          = (log_persistence_error (fst (attempt ev env_step job 49 e)),
             map (\<lambda>k. min (1000 * 2 ^ k) 60000) [0..<49]))"
proof -
  have b: "map (\<lambda>k. min (1000 * 2 ^ k) 60000) xs = map backoff_ms xs" for xs
    by (simp add: backoff_ms_def)
  have run: "retry_job ev env_step job e
      = job_attempts ev env_step job 49 (Suc 0) (backoff_ms 0) (before_attempt ev env_step job 0 e)"
    by (simp add: retry_job_def MAX_RETRIES_def INITIAL_BACKOFF_MS_def backoff_ms_def)
  show ?thesis
    using job_attempts_succeed [of ev env_step job 0 _ e 49] job_attempts_fail [of 49 ev env_step job 0 e]
    unfolding run b by (auto simp: less_Suc_eq_le)
qed

text \<open>A backend whose first two calls fail.\<close>

definition flaky_env :: "memory eenv" where
  "flaky_env = memory_env\<lparr>ee_persist := (\<lambda>c m.
     if length (me_xmls m) < 2 then (m\<lparr>me_xmls := (''try'', []) # me_xmls m\<rparr>, Some (PersistenceError (Msg ''down'' [])))
     else (m, None))\<rparr>"

theorem failed_calls_are_retried_until_they_succeed_witness:
  "snd (retry_job flaky_env (\<lambda>k e. e) (JobDeleteTimer 9) (with_persistence memory_new dot_engine)) = [1000, 2000]"
proof -
  let ?e = "with_persistence memory_new dot_engine"
  have tries: "snd (attempt flaky_env (\<lambda>k e. e) (JobDeleteTimer 9) j ?e) = None \<longleftrightarrow> j = 2" if "j < 3" for j
    using that
    by (auto simp: attempt_def execute_job_def job_call_def flaky_env_def with_persistence_def memory_new_def
        less_Suc_eq numeral_3_eq_3 numeral_2_eq_2)
  have "retry_job flaky_env (\<lambda>k e. e) (JobDeleteTimer 9) ?e
      = (fst (attempt flaky_env (\<lambda>k e. e) (JobDeleteTimer 9) 2 ?e), map (\<lambda>k. min (1000 * 2 ^ k) 60000) [0..<2])"
    by (rule conjunct1 [OF failed_calls_are_retried_until_they_succeed, rule_format]) (simp_all add: tries)
  then show ?thesis by (simp add: upt_rec)
qed

end
