(* ===== verification/System.thy ===== *)
theory System
  imports RetryQueue
begin

text \<open>
  The engine as a state machine: one step is one call of its public interface, one round of the
  background worker, one repetition of a timer start, or the passing of time. The states reached
  from a new engine are the ones the invariant is about.
\<close>

section \<open>Steps\<close>

text \<open>
  The calls run to their end or until they hang, at any nesting depth \<open>d\<close>; an instance that is
  restored was saved by an engine before and is well-formed. The last two steps are the server's: it
  stores files and BPMN texts through its own handle of the backend, and the parser draws a UUID.
\<close>

inductive engine_step :: "'p eenv \<Rightarrow> 'p engine \<Rightarrow> 'p engine \<Rightarrow> bool" for ev where
  step_clock: "now \<ge> en_now e \<Longrightarrow> engine_step ev e (e\<lparr>en_now := now\<rparr>)"
| step_attach: "engine_step ev e (with_persistence p e)"
| step_restore_instance: "inst_wf x \<Longrightarrow> engine_step ev e (restore_instance x e)"
| step_restore_user_task: "engine_step ev e (restore_user_task ut e)"
| step_restore_service_task: "engine_step ev e (restore_service_task st e)"
| step_restore_timer: "engine_step ev e (restore_timer tm e)"
| step_restore_message: "engine_step ev e (restore_message_catch mc e)"
| step_deploy: "engine_step ev e (fst (deploy_definition ev d e))"
| step_delete_definition: "engine_step ev e (fst (delete_definition ev k cascade e))"
| step_delete_all_definitions: "engine_step ev e (fst (delete_all_definitions ev b cascade e))"
| step_start: "engine_step ev e (fst (start_instance_with_variables ev (run_instance_batch ev n) k vs e))"
| step_start_latest: "engine_step ev e (fst (start_instance_latest ev (run_instance_batch ev n) b vs e))"
| step_trigger_timer: "engine_step ev e (fst (trigger_timer_start ev (run_instance_batch ev n) k dur e))"
| step_start_timer: "engine_step ev e (fst (start_timer_instance ev (run_instance_batch ev n) k vs e))"
| step_repeat: "engine_step ev e (fst (run_repeats ev (run_instance_batch ev n) rt k left e))"
| step_complete_user_task:
    "engine_step ev e (fst (complete_user_task ev (run_instance_batch ev n) u vs e))"
| step_fetch_and_lock: "engine_step ev e (fst (fetch_and_lock_service_tasks ev w m topics lock e))"
| step_complete_service_task:
    "engine_step ev e (fst (complete_service_task ev (run_instance_batch ev n) u w vs e))"
| step_fail: "engine_step ev e (fst (fail_service_task ev u w retries message details e))"
| step_retry_incident: "engine_step ev e (fst (retry_incident ev u new_retries e))"
| step_resolve_incident: "engine_step ev e (fst (resolve_incident ev (run_instance_batch ev n) u vs e))"
| step_extend_lock: "engine_step ev e (fst (extend_lock ev u w lock e))"
| step_bpmn_error: "engine_step ev e (fst (handle_bpmn_error ev (run_instance_batch ev n) u w code e))"
| step_timers: "engine_step ev e (fst (process_timers ev (run_instance_batch ev n) e))"
| step_correlate: "engine_step ev e (fst (correlate_message ev (run_instance_batch ev n) name bk vs e))"
| step_update_variables: "engine_step ev e (fst (update_instance_variables ev i vs e))"
| step_suspend: "engine_step ev e (fst (suspend_instance ev i e))"
| step_resume: "engine_step ev e (fst (resume_instance ev i e))"
| step_move: "engine_step ev e (fst (move_token ev (run_instance_batch ev n) i target vs cancel e))"
| step_migrate: "engine_step ev e (fst (migrate_instance ev i target m e))"
| step_delete_instance: "engine_step ev e (fst (delete_instance ev i e))"
| step_retry_job: "en_retry e = Some (job # jobs) \<Longrightarrow>
    engine_step ev e (fst (execute_job ev job (e\<lparr>en_retry := Some jobs\<rparr>)))"
| step_shutdown: "engine_step ev e (shutdown ev (\<lambda>k. id) e)"
| step_backend_call: "engine_step ev e (call_ignored ev c e)"
| step_draw: "engine_step ev e (snd (draw ev e))"

inductive reachable :: "'p eenv \<Rightarrow> 'p engine \<Rightarrow> bool" for ev where
  reachable_new: "reachable ev (engine_new getenv now draws)"
| reachable_step: "reachable ev e \<Longrightarrow> engine_step ev e e' \<Longrightarrow> reachable ev e'"

section \<open>Every step keeps the invariant\<close>

lemma keeps_fst: "keeps engine_wf r \<Longrightarrow> engine_wf (fst r)"
  by (simp add: keeps_def)

lemma engine_wf_others:
  assumes "engine_wf e"
  shows "engine_wf (e\<lparr>en_now := now\<rparr>)" "engine_wf (with_persistence p e)"
    "engine_wf (e\<lparr>en_store := s\<rparr>)" "engine_wf (e\<lparr>en_retry := q\<rparr>)"
  using assms by (simp_all add: engine_wf_def inst_get_def with_persistence_def)

lemma engine_wf_restore:
  assumes "engine_wf e"
  shows "inst_wf x \<Longrightarrow> engine_wf (restore_instance x e)"
    "engine_wf (restore_user_task ut e)" "engine_wf (restore_service_task st e)"
    "engine_wf (restore_timer tm e)" "engine_wf (restore_message_catch mc e)"
  using assms
  by (auto simp: restore_instance_def restore_user_task_def restore_service_task_def
      restore_timer_def restore_message_catch_def intro!: wf_intro keyed_by_tput
      dest: engine_wf_tables)

lemma execute_job_wf: "engine_wf e \<Longrightarrow> engine_wf (fst (execute_job ev job e))"
  by (auto simp: execute_job_def engine_wf_others split: option.splits prod.splits)

lemma job_attempts_wf:
  assumes "\<And>k e. engine_wf e \<Longrightarrow> engine_wf (env_step k e)" and "engine_wf e"
  shows "engine_wf (fst (job_attempts ev env_step job spare k ms e))"
  using assms(2)
proof (induction spare arbitrary: k ms e)
  case 0
  obtain e1 r where x: "execute_job ev job e = (e1, r)" by fastforce
  with execute_job_wf [OF 0, of ev job] have "engine_wf e1" by simp
  then show ?case
    by (cases r) (simp_all add: job_attempts.simps [of ev env_step job 0] x engine_wf_log)
next
  case (Suc spare)
  obtain e1 r where x: "execute_job ev job e = (e1, r)" by fastforce
  with execute_job_wf [OF Suc.prems, of ev job] have e1: "engine_wf e1" by simp
  have "engine_wf (fst (job_attempts ev env_step job spare (Suc k) (next_backoff ms) (env_step k e1)))"
    by (rule Suc.IH) (rule assms(1) [OF e1])
  with e1 show ?case
    by (cases r) (simp_all add: job_attempts.simps [of ev env_step job "Suc spare"] x case_prod_unfold)
qed

lemma worker_loop_wf:
  assumes "\<And>k e. engine_wf e \<Longrightarrow> engine_wf (env_step k e)" and "engine_wf e"
  shows "engine_wf (fst (worker_loop ev env_step jobs e))"
  using assms(2) by (induction jobs arbitrary: e) (auto simp: retry_job_def job_attempts_wf [OF assms(1)])

lemma shutdown_wf:
  assumes "engine_wf e"
  shows "engine_wf (shutdown ev (\<lambda>k. id) e)"
proof -
  have "engine_wf (fst (worker_loop ev (\<lambda>k. id) jobs (e\<lparr>en_retry := Some []\<rparr>)))" for jobs
    by (rule worker_loop_wf) (simp_all add: engine_wf_others assms)
  then show ?thesis
    by (simp add: shutdown_def assms engine_wf_others case_prod_unfold split: option.split)
qed

lemma engine_wf_draw: "engine_wf e \<Longrightarrow> engine_wf (snd (draw ev e))"
  using draw_wf [of ev e] by (cases "draw ev e") auto

lemma engine_step_wf: "engine_step ev e e' \<Longrightarrow> engine_wf e \<Longrightarrow> engine_wf e'"
  by (induction rule: engine_step.induct)
     (auto intro!: keeps_fst engine_wf_others engine_wf_restore deploy_definition_wf
      delete_definition_wf delete_all_definitions_wf update_instance_variables_wf suspend_instance_wf
      resume_instance_wf migrate_instance_wf delete_instance_wf
      batch.start_instance_wf batch.trigger_timer_start_wf batch.start_timer_instance_wf
      batch.run_repeats_wf batch.complete_user_task_wf fetch_and_lock_wf
      batch.complete_service_task_wf fail_service_task_wf retry_incident_wf batch.resolve_incident_wf
      extend_lock_wf batch.handle_bpmn_error_wf batch.process_timers_wf batch.correlate_message_wf
      batch.move_token_wf execute_job_wf shutdown_wf call_ignored_wf engine_wf_draw)

end
