(* ===== verification/LogBuffer.thy ===== *)
theory LogBuffer
  imports Text "HOL-Library.Multiset"
begin

text \<open>
  The rolling log of the server (\<open>engine-server/src/log_buffer.rs\<close>): a buffer of the last 5000
  entries, written through to a file of JSON lines that is compacted from time to time, or to a NATS
  stream (\<open>engine-server/src/log_nats.rs\<close>). Files are strings of bytes. The JSON text of an entry,
  the case tables of Unicode and the success of file operations are parameters. A line is written
  whole or not at all. The lock of the buffer makes the first half of a push atomic; the compaction
  and the send to NATS happen after the lock is released, so they are steps of their own.
\<close>

section \<open>Entries, levels and the state\<close>

definition MAX_ENTRIES :: nat where
  "MAX_ENTRIES = 5000"

definition COMPACT_AFTER :: nat where
  "COMPACT_AFTER = 500"

record log_entry =
  le_timestamp :: string
  le_level :: string
  le_target :: string
  le_message :: string

text \<open>The levels of \<open>tracing\<close>, ordered from the least to the most verbose.\<close>

datatype level = ERROR | WARN | INFO | DEBUG | TRACE

fun verbosity :: "level \<Rightarrow> nat" where
  "verbosity ERROR = 0"
| "verbosity WARN = 1"
| "verbosity INFO = 2"
| "verbosity DEBUG = 3"
| "verbosity TRACE = 4"

lemma verbosity_inject [simp]: "verbosity a = verbosity b \<longleftrightarrow> a = b"
  by (cases a; cases b) simp_all

instantiation level :: linorder
begin

definition less_eq_level :: "level \<Rightarrow> level \<Rightarrow> bool" where
  "less_eq_level a b \<longleftrightarrow> verbosity a \<le> verbosity b"

definition less_level :: "level \<Rightarrow> level \<Rightarrow> bool" where
  "less_level a b \<longleftrightarrow> verbosity a < verbosity b"

instance
  by standard (auto simp: less_eq_level_def less_level_def)

end

record persist_state =
  ps_path :: string
  ps_written :: nat

record log_buffer =
  lb_entries :: "log_entry list"
  lb_persist :: "persist_state option"
  lb_nats :: "nat option"

text \<open>
  The world outside the buffer: the files, and the channels to NATS with the entries waiting in them
  (a channel whose receiver is gone is not in the table).
\<close>

record log_world =
  lw_files :: "string \<rightharpoonup> string"
  lw_channels :: "nat \<rightharpoonup> log_entry list"

record log_io =
  io_encode :: "log_entry \<Rightarrow> string option"
  io_decode :: "string \<Rightarrow> log_entry option"
  io_opens :: "string \<Rightarrow> bool"
  io_writes :: "string \<Rightarrow> string \<Rightarrow> bool"
  io_renames :: "string \<Rightarrow> string \<Rightarrow> bool"
  io_lower :: "string \<Rightarrow> string"

section \<open>Files\<close>

definition newline :: char where
  "newline = CHR 0x0A"

definition strip_cr :: "string \<Rightarrow> string" where
  "strip_cr l = (if l \<noteq> [] \<and> last l = CHR 0x0D then butlast l else l)"

text \<open>\<open>BufRead::lines\<close>; \<open>acc\<close> holds the current line, last byte first.\<close>

fun file_lines :: "string \<Rightarrow> string \<Rightarrow> string list" where
  "file_lines acc [] = (if acc = [] then [] else [rev acc])"
| "file_lines acc (c # cs) =
     (if c = newline then strip_cr (rev acc) # file_lines [] cs else file_lines (c # acc) cs)"

definition push_bounded :: "log_entry list \<Rightarrow> log_entry \<Rightarrow> log_entry list" where
  "push_bounded es e = (if MAX_ENTRIES \<le> length es then tl es else es) @ [e]"

text \<open>A line that is not UTF-8 ends the reading.\<close>

fun load_lines :: "(string \<Rightarrow> log_entry option) \<Rightarrow> string list \<Rightarrow> log_entry list \<Rightarrow> log_entry list" where
  "load_lines dec [] es = es"
| "load_lines dec (l # ls) es =
     (if \<not> utf8 l then es
      else if trim l = [] then load_lines dec ls es
      else (case dec l of
              Some e \<Rightarrow> load_lines dec ls (push_bounded es e)
            | None \<Rightarrow> load_lines dec ls es))"

definition load_entries_from_file :: "log_io \<Rightarrow> log_world \<Rightarrow> string \<Rightarrow> log_entry list" where
  "load_entries_from_file io w path =
     (case lw_files w path of
        None \<Rightarrow> []
      | Some s \<Rightarrow> load_lines (io_decode io) (file_lines [] s) [])"

definition write_entry :: "log_io \<Rightarrow> string \<Rightarrow> log_entry \<Rightarrow> log_world \<Rightarrow> log_world" where
  "write_entry io path e w =
     (case io_encode io e of
        None \<Rightarrow> w
      | Some l \<Rightarrow>
          if io_writes io path l
          then w\<lparr>lw_files := (lw_files w)(path \<mapsto> the (lw_files w path) @ l @ [newline])\<rparr> else w)"

definition append_entry_to_file :: "log_io \<Rightarrow> string \<Rightarrow> log_entry \<Rightarrow> log_world \<Rightarrow> log_world" where
  "append_entry_to_file io path e w =
     (if \<not> io_opens io path then w
      else write_entry io path e
             (if lw_files w path = None then w\<lparr>lw_files := (lw_files w)(path \<mapsto> [])\<rparr> else w))"

text \<open>
  \<open>Path::with_extension\<close> for a path without a trailing slash: the text after the last dot of the file
  name is replaced, unless that dot starts the name.
\<close>

definition file_name_of :: "string \<Rightarrow> string" where
  "file_name_of path = rev (takeWhile (\<lambda>c. c \<noteq> CHR ''/'') (rev path))"

definition with_extension :: "string \<Rightarrow> string \<Rightarrow> string" where
  "with_extension path ext =
     (let name = file_name_of path;
          dir = take (length path - length name) path;
          stem = rev (drop 1 (dropWhile (\<lambda>c. c \<noteq> CHR ''.'') (rev name)))
      in if name = [] \<or> name = ''.'' \<or> name = ''..'' then path
         else dir @ (if stem = [] then name else stem) @ ''.'' @ ext)"

definition compact_file :: "log_io \<Rightarrow> string \<Rightarrow> log_entry list \<Rightarrow> log_world \<Rightarrow> log_world" where
  "compact_file io path es w =
     (let temp = with_extension path ''jsonl.tmp''
      in if \<not> io_opens io temp then w
         else let w1 = fold (write_entry io temp) es (w\<lparr>lw_files := (lw_files w)(temp \<mapsto> [])\<rparr>)
              in if io_renames io temp path
                 then w1\<lparr>lw_files := (lw_files w1)(temp := None, path := lw_files w1 temp)\<rparr> else w1)"

section \<open>The operations of the buffer\<close>

definition log_new :: log_buffer where
  "log_new = \<lparr>lb_entries = [], lb_persist = None, lb_nats = None\<rparr>"

definition new_with_persistence :: "log_io \<Rightarrow> log_world \<Rightarrow> string \<Rightarrow> log_buffer" where
  "new_with_persistence io w path =
     \<lparr>lb_entries = load_entries_from_file io w path,
      lb_persist = Some \<lparr>ps_path = path, ps_written = 0\<rparr>, lb_nats = None\<rparr>"

definition enable_nats :: "nat \<Rightarrow> log_buffer \<Rightarrow> log_buffer" where
  "enable_nats tx b = b\<lparr>lb_persist := None, lb_nats := Some tx\<rparr>"

definition populate :: "log_entry list \<Rightarrow> log_buffer \<Rightarrow> log_buffer" where
  "populate es b = b\<lparr>lb_entries := fold (\<lambda>e acc. push_bounded acc e) es []\<rparr>"

text \<open>
  \<open>load_recent\<close> of the NATS sink on the payloads the stream delivers, a receive error being \<open>None\<close>,
  and \<open>attach_nats_sink\<close> with the channel it makes; \<open>forward_one\<close> is a turn of the task it spawns.
\<close>

definition load_recent :: "log_io \<Rightarrow> string option list \<Rightarrow> nat \<Rightarrow> log_entry list" where
  "load_recent io msgs n =
     (let es = List.map_filter (\<lambda>m. Option.bind m (io_decode io)) msgs
      in if n < length es then drop (length es - n) es else es)"

definition attach_nats_sink ::
  "log_entry list \<Rightarrow> nat \<Rightarrow> log_buffer \<Rightarrow> log_world \<Rightarrow> (log_buffer \<times> log_world) \<times> nat" where
  "attach_nats_sink recent tx b w =
     ((enable_nats tx (populate recent b), w\<lparr>lw_channels := (lw_channels w)(tx \<mapsto> [])\<rparr>), length recent)"

definition publish :: "log_io \<Rightarrow> (string \<Rightarrow> 's \<Rightarrow> 's) \<Rightarrow> log_entry \<Rightarrow> 's \<Rightarrow> 's" where
  "publish io send e s = (case io_encode io e of None \<Rightarrow> s | Some l \<Rightarrow> send l s)"

definition forward_one ::
  "log_io \<Rightarrow> (string \<Rightarrow> 's \<Rightarrow> 's) \<Rightarrow> nat \<Rightarrow> log_world \<Rightarrow> 's \<Rightarrow> log_world \<times> 's" where
  "forward_one io send tx w s =
     (case lw_channels w tx of
        Some (e # q) \<Rightarrow> (w\<lparr>lw_channels := (lw_channels w)(tx \<mapsto> q)\<rparr>, publish io send e s)
      | _ \<Rightarrow> (w, s))"

text \<open>
  \<open>parse_level\<close>: the upper-case mapping of Unicode gives an ASCII word exactly for its letters in either
  case, where the dotless i (\<open>C4 B1\<close>) also counts as an i (the long s does not occur in the words).
\<close>

fun upper_word :: "string \<Rightarrow> string" where
  "upper_word [] = []"
| "upper_word (c # cs) =
     (if c = CHR 0xC4 \<and> cs \<noteq> [] \<and> hd cs = CHR 0xB1 then CHR ''I'' # upper_word (tl cs)
      else (if in_range 97 122 c then char_of ((of_char c :: nat) - 32) else c) # upper_word cs)"

definition parse_level :: "string \<Rightarrow> level option" where
  "parse_level s =
     (let u = upper_word s
      in if u = ''ERROR'' then Some ERROR
         else if u = ''WARN'' then Some WARN
         else if u = ''INFO'' then Some INFO
         else if u = ''DEBUG'' then Some DEBUG
         else if u = ''TRACE'' then Some TRACE
         else None)"

definition level_or_trace :: "level option \<Rightarrow> level" where
  "level_or_trace l = (case l of Some v \<Rightarrow> v | None \<Rightarrow> TRACE)"

definition entry_matches :: "log_io \<Rightarrow> string option \<Rightarrow> string option \<Rightarrow> log_entry \<Rightarrow> bool" where
  "entry_matches io level_filter search e \<longleftrightarrow>
     level_or_trace (parse_level (le_level e)) \<le> level_or_trace (Option.bind level_filter parse_level) \<and>
     (case map_option (io_lower io) search of
        None \<Rightarrow> True
      | Some q \<Rightarrow> contains_str (io_lower io (le_message e)) q \<or> contains_str (io_lower io (le_target e)) q)"

definition log_entries :: "log_io \<Rightarrow> log_buffer \<Rightarrow> string option \<Rightarrow> string option \<Rightarrow> log_entry list" where
  "log_entries io b level_filter search = filter (entry_matches io level_filter search) (lb_entries b)"

text \<open>
  A push under the lock, and the rest of it after the lock is released: the compaction of the file
  with the entries as they were, and the send to NATS.
\<close>

record push_rest =
  pr_compact :: "(string \<times> log_entry list) option"
  pr_nats :: "(nat \<times> log_entry) option"

definition push_locked ::
  "log_io \<Rightarrow> log_entry \<Rightarrow> log_buffer \<Rightarrow> log_world \<Rightarrow> (log_buffer \<times> log_world) \<times> push_rest" where
  "push_locked io e b w =
     (let es = push_bounded (lb_entries b) e;
          b1 = b\<lparr>lb_entries := es\<rparr>;
          nats = map_option (\<lambda>tx. (tx, e)) (lb_nats b)
      in case (lb_nats b, lb_persist b) of
           (None, Some ps) \<Rightarrow>
             (let w1 = append_entry_to_file io (ps_path ps) e w;
                  n = ps_written ps + 1
              in if COMPACT_AFTER \<le> n
                 then ((b1\<lparr>lb_persist := Some (ps\<lparr>ps_written := 0\<rparr>)\<rparr>, w1),
                       \<lparr>pr_compact = Some (ps_path ps, es), pr_nats = nats\<rparr>)
                 else ((b1\<lparr>lb_persist := Some (ps\<lparr>ps_written := n\<rparr>)\<rparr>, w1),
                       \<lparr>pr_compact = None, pr_nats = nats\<rparr>))
         | _ \<Rightarrow> ((b1, w), \<lparr>pr_compact = None, pr_nats = nats\<rparr>))"

definition channel_send :: "nat \<times> log_entry \<Rightarrow> log_world \<Rightarrow> log_world" where
  "channel_send m w =
     (case lw_channels w (fst m) of
        None \<Rightarrow> w
      | Some q \<Rightarrow> w\<lparr>lw_channels := (lw_channels w)(fst m \<mapsto> q @ [snd m])\<rparr>)"

definition push_unlocked :: "log_io \<Rightarrow> push_rest \<Rightarrow> log_world \<Rightarrow> log_world" where
  "push_unlocked io r w =
     (let w1 = (case pr_compact r of None \<Rightarrow> w | Some (path, es) \<Rightarrow> compact_file io path es w)
      in case pr_nats r of None \<Rightarrow> w1 | Some m \<Rightarrow> channel_send m w1)"

definition log_push :: "log_io \<Rightarrow> log_entry \<Rightarrow> log_buffer \<times> log_world \<Rightarrow> log_buffer \<times> log_world" where
  "log_push io e s =
     (case push_locked io e (fst s) (snd s) of
        ((b1, w1), r) \<Rightarrow> (b1, push_unlocked io r w1))"

text \<open>
  The layer that \<open>tracing\<close> calls for an event: the visitor takes the text of the field \<open>message\<close>, or
  of another field printed with \<open>Debug\<close> while it has none.
\<close>

datatype log_field = DebugField string string | StrField string string

definition trim_quotes :: "string \<Rightarrow> string" where
  "trim_quotes s =
     (let quote = (\<lambda>c. c = CHR 0x22) in rev (dropWhile quote (rev (dropWhile quote s))))"

definition visit :: "log_field \<Rightarrow> string \<Rightarrow> string" where
  "visit f msg =
     (case f of
        DebugField n v \<Rightarrow>
          if n = ''message'' then trim_quotes v
          else if msg = [] then n @ ''='' @ v else msg
      | StrField n v \<Rightarrow> if n = ''message'' then v else msg)"

definition on_event ::
  "log_io \<Rightarrow> string \<Rightarrow> string \<Rightarrow> string \<Rightarrow> log_field list
     \<Rightarrow> log_buffer \<times> log_world \<Rightarrow> log_buffer \<times> log_world" where
  "on_event io now lev target flds s =
     log_push io
       \<lparr>le_timestamp = now, le_level = lev, le_target = target, le_message = fold visit flds []\<rparr> s"

section \<open>The bounded log\<close>

text \<open>The specification: the last \<open>n\<close> of everything pushed.\<close>

definition last_n :: "nat \<Rightarrow> 'a list \<Rightarrow> 'a list" where
  "last_n n xs = drop (length xs - n) xs"

lemma length_last_n [simp]: "length (last_n n xs) = min n (length xs)"
  by (simp add: last_n_def)

lemma last_n_short [simp]: "length xs \<le> n \<Longrightarrow> last_n n xs = xs"
  by (simp add: last_n_def)

lemma last_n_snoc: "0 < n \<Longrightarrow> last_n n (xs @ [x]) = (if n \<le> length xs then tl (last_n n xs) else xs) @ [x]"
proof (cases "n \<le> length xs")
  case True
  assume "0 < n"
  with True have "Suc (length xs) - n = Suc (length xs - n)" and "length xs - n < length xs" by simp_all
  then show ?thesis using True by (simp add: last_n_def drop_Suc tl_drop)
qed (simp add: last_n_def)

lemma push_bounded_last_n [simp]: "push_bounded (last_n MAX_ENTRIES hs) e = last_n MAX_ENTRIES (hs @ [e])"
  by (subst last_n_snoc) (auto simp: push_bounded_def MAX_ENTRIES_def)

lemma fold_push_bounded:
  "fold (\<lambda>e acc. push_bounded acc e) es (last_n MAX_ENTRIES hs) = last_n MAX_ENTRIES (hs @ es)"
  by (induction es arbitrary: hs) simp_all

lemma populate_entries: "lb_entries (populate es b) = last_n MAX_ENTRIES es"
  using fold_push_bounded [of es "[]"] by (simp add: populate_def)

text \<open>
  The buffer with the threads that push into it and the task that forwards to NATS: the pushes that have
  released the lock and still have to do their second half, the payloads published so far, in order, and
  everything pushed so far.
\<close>

record log_system =
  ls_buffer :: log_buffer
  ls_world :: log_world
  ls_pending :: "push_rest list"
  ls_published :: "string list"
  ls_pushed :: "log_entry list"

inductive log_step :: "log_io \<Rightarrow> log_system \<Rightarrow> log_system \<Rightarrow> bool" for io where
  step_locked: "push_locked io e (ls_buffer s) (ls_world s) = ((b, w), r) \<Longrightarrow>
     log_step io s (s\<lparr>ls_buffer := b, ls_world := w, ls_pending := ls_pending s @ [r],
                      ls_pushed := ls_pushed s @ [e]\<rparr>)"
| step_unlocked: "ls_pending s = rs @ r # qs \<Longrightarrow>
     log_step io s (s\<lparr>ls_world := push_unlocked io r (ls_world s), ls_pending := rs @ qs\<rparr>)"
| step_forward: "lb_nats (ls_buffer s) = Some tx \<Longrightarrow>
     forward_one io (\<lambda>l ps. ps @ [l]) tx (ls_world s) (ls_published s) = (w, ps) \<Longrightarrow>
     log_step io s (s\<lparr>ls_world := w, ls_published := ps\<rparr>)"

definition pending_for :: "nat \<Rightarrow> push_rest \<Rightarrow> log_entry multiset" where
  "pending_for tx r = (case pr_nats r of Some (t, e) \<Rightarrow> if t = tx then {#e#} else {#} | None \<Rightarrow> {#})"

definition on_the_way :: "nat \<Rightarrow> log_system \<Rightarrow> log_entry multiset" where
  "on_the_way tx s =
     mset (the (lw_channels (ls_world s) tx)) + (\<Sum>r \<leftarrow> ls_pending s. pending_for tx r)"

lemma write_entry_channels [simp]: "lw_channels (write_entry io p e w) = lw_channels w"
  by (simp add: write_entry_def split: option.split)

lemma fold_write_channels [simp]: "lw_channels (fold (write_entry io p) es w) = lw_channels w"
  by (induction es arbitrary: w) simp_all

lemma file_steps_keep_channels [simp]:
  "lw_channels (append_entry_to_file io p e w) = lw_channels w"
  "lw_channels (compact_file io p es w) = lw_channels w"
  by (simp_all add: append_entry_to_file_def compact_file_def Let_def)

lemma push_locked_entries:
  assumes "push_locked io e b w = ((b', w'), r)"
  shows "lb_entries b' = push_bounded (lb_entries b) e" "lb_nats b' = lb_nats b"
    "lw_channels w' = lw_channels w" "pr_nats r = map_option (\<lambda>tx. (tx, e)) (lb_nats b)"
  using assms by (auto simp: push_locked_def Let_def split: option.splits if_splits)

lemma push_unlocked_channel:
  assumes "lw_channels w tx = Some q"
  shows "\<exists>q'. lw_channels (push_unlocked io r w) tx = Some q' \<and> mset q' = mset q + pending_for tx r"
  using assms
  by (auto simp: push_unlocked_def channel_send_def pending_for_def Let_def split: option.splits prod.splits)

lemma log_step_refines:
  assumes "log_step io s s'" "lb_entries (ls_buffer s) = last_n MAX_ENTRIES (ls_pushed s)"
  shows "lb_entries (ls_buffer s') = last_n MAX_ENTRIES (ls_pushed s')"
  using assms by (induction rule: log_step.induct) (simp_all add: push_locked_entries)

text \<open>
  \<open>P\<close> are the entries the forwarding task has taken out of the channel: what it published is their text, in their order.
\<close>

definition forwarded :: "log_io \<Rightarrow> nat \<Rightarrow> log_entry multiset \<Rightarrow> log_entry multiset \<Rightarrow> log_system \<Rightarrow> bool" where
  "forwarded io tx old sent s \<longleftrightarrow>
     lb_nats (ls_buffer s) = Some tx \<and> (\<exists>q. lw_channels (ls_world s) tx = Some q) \<and>
     (\<exists>P. ls_published s = List.map_filter (io_encode io) P \<and>
        mset P + on_the_way tx s + old = sent + mset (ls_pushed s))"

lemma log_step_nats:
  assumes "log_step io s s'" "forwarded io tx old sent s"
  shows "forwarded io tx old sent s'"
  using assms
proof (induction rule: log_step.induct)
  case (step_locked e s b w r)
  then show ?case
    by (auto simp: forwarded_def push_locked_entries on_the_way_def pending_for_def)
next
  case (step_unlocked s rs r qs)
  then obtain q where "lw_channels (ls_world s) tx = Some q" by (auto simp: forwarded_def)
  then obtain q' where "lw_channels (push_unlocked io r (ls_world s)) tx = Some q'"
    "mset q' = mset q + pending_for tx r"
    using push_unlocked_channel by blast
  with step_unlocked \<open>lw_channels (ls_world s) tx = Some q\<close> show ?case
    by (auto simp: forwarded_def on_the_way_def ac_simps)
next
  case (step_forward s tx' w ps)
  then obtain q P where q: "lw_channels (ls_world s) tx = Some q" "tx' = tx"
    and P: "ls_published s = List.map_filter (io_encode io) P"
      "mset P + on_the_way tx s + old = sent + mset (ls_pushed s)"
    by (auto simp: forwarded_def)
  show ?case
  proof (cases q)
    case Nil
    with step_forward q P show ?thesis by (auto simp: forwarded_def forward_one_def on_the_way_def)
  next
    case (Cons e q')
    with step_forward(2) q have w: "lw_channels w tx = Some q'" "ps = List.map_filter (io_encode io) (P @ [e])"
      by (auto simp: forward_one_def publish_def P(1) map_filter_def split: option.split)
    have "mset (P @ [e]) + on_the_way tx (s\<lparr>ls_world := w, ls_published := ps\<rparr>) + old = sent + mset (ls_pushed s)"
      using P(2) q Cons w(1) by (simp add: on_the_way_def)
    with step_forward q w show ?thesis
      unfolding forwarded_def by (intro conjI, simp, simp, intro exI [of _ "P @ [e]"], simp)
  qed
qed

text \<open>
  C26. Whatever the threads do and in whatever order they get the lock, the buffer holds the last 5000
  of the entries pushed, in the order of the lock, and a query returns those of them that match. With
  a NATS channel that is open, each entry pushed since the start \<open>b\<close>, \<open>w\<close> is in exactly one place: the
  thread that pushed it is about to put it into the channel, it waits there, or the forwarding task has
  taken it out (\<open>P\<close>) and handed its text to NATS, once.
\<close>

theorem buffer_refines_the_pushed_log:
  assumes "(log_step io)\<^sup>*\<^sup>* \<lparr>ls_buffer = b, ls_world = w, ls_pending = [], ls_published = [], ls_pushed = lb_entries b\<rparr> s"
    and "length (lb_entries b) \<le> MAX_ENTRIES"
  shows "log_entries io (ls_buffer s) lev q
           = filter (entry_matches io lev q) (last_n MAX_ENTRIES (ls_pushed s)) \<and>
    length (lb_entries (ls_buffer s)) \<le> MAX_ENTRIES \<and>
    (\<forall>tx sent. lb_nats b = Some tx \<longrightarrow> lw_channels w tx = Some sent \<longrightarrow>
       (\<exists>P. ls_published s = List.map_filter (io_encode io) P \<and>
          mset P + on_the_way tx s + mset (lb_entries b) = mset sent + mset (ls_pushed s)))"
proof -
  from assms have e: "lb_entries (ls_buffer s) = last_n MAX_ENTRIES (ls_pushed s)"
    by (induction rule: rtranclp_induct) (simp_all add: log_step_refines)
  have "\<exists>P. ls_published s = List.map_filter (io_encode io) P \<and>
      mset P + on_the_way tx s + mset (lb_entries b) = mset sent + mset (ls_pushed s)"
    if "lb_nats b = Some tx" "lw_channels w tx = Some sent" for tx sent
  proof -
    from assms(1) have "forwarded io tx (mset (lb_entries b)) (mset sent) s"
    proof (induction rule: rtranclp_induct)
      case base
      show ?case using that by (auto simp: forwarded_def on_the_way_def map_filter_simps intro!: exI [of _ "[]"])
    qed (rule log_step_nats)
    then show ?thesis by (simp add: forwarded_def)
  qed
  with e show ?thesis by (simp add: log_entries_def)
qed

section \<open>The log file\<close>

text \<open>
  What the file steps rely on: serde writes an entry as one line of text that it reads back, and the
  file system does what it is asked.
\<close>

definition lossless :: "log_io \<Rightarrow> bool" where
  "lossless io \<longleftrightarrow>
     (\<forall>e. \<exists>l. io_encode io e = Some l \<and> io_decode io l = Some e \<and>
        utf8 l \<and> newline \<notin> set l \<and> strip_cr l = l \<and> trim l \<noteq> [])"

definition healthy :: "log_io \<Rightarrow> bool" where
  "healthy io \<longleftrightarrow> (\<forall>p. io_opens io p) \<and> (\<forall>p l. io_writes io p l) \<and> (\<forall>p q. io_renames io p q)"

text \<open>A file the reader gets through: it ends with a full line, and all its lines are UTF-8.\<close>

definition readable :: "string \<Rightarrow> bool" where
  "readable s \<longleftrightarrow> (s = [] \<or> last s = newline) \<and> list_all utf8 (file_lines [] s)"

definition line_of :: "log_io \<Rightarrow> log_entry \<Rightarrow> string" where
  "line_of io e = the (io_encode io e)"

lemma line_of_lossless:
  assumes "lossless io"
  shows "io_encode io e = Some (line_of io e)" "io_decode io (line_of io e) = Some e"
    "utf8 (line_of io e)" "newline \<notin> set (line_of io e)" "strip_cr (line_of io e) = line_of io e"
    "trim (line_of io e) \<noteq> []"
  using assms [unfolded lossless_def, rule_format, of e] by (auto simp: line_of_def)

lemma file_lines_append:
  "file_lines acc (s @ [newline] @ t) = file_lines acc (s @ [newline]) @ file_lines [] t"
  by (induction acc s rule: file_lines.induct) auto

lemma file_lines_line: "newline \<notin> set l \<Longrightarrow> file_lines acc (l @ [newline]) = [strip_cr (rev acc @ l)]"
  by (induction l arbitrary: acc) (auto simp: newline_def)

lemma file_lines_readable:
  assumes "readable s"
  shows "file_lines [] (s @ t) = file_lines [] s @ file_lines [] t"
proof (cases "s = []")
  case False
  with assms have "s = butlast s @ [newline]" by (metis append_butlast_last_id readable_def)
  then show ?thesis using file_lines_append [of "[]" "butlast s" t] by (metis append.assoc)
qed simp

lemma readable_line:
  assumes "lossless io" "readable s"
  shows "readable (s @ line_of io e @ [newline])"
    "file_lines [] (s @ line_of io e @ [newline]) = file_lines [] s @ [line_of io e]"
  using assms file_lines_readable [OF assms(2), of "line_of io e @ [newline]"]
  by (simp_all add: readable_def file_lines_line line_of_lossless)

text \<open>The entries in a file, and what the loader keeps of them.\<close>

definition parsed :: "log_io \<Rightarrow> string \<Rightarrow> log_entry list" where
  "parsed io s = List.map_filter (\<lambda>l. if trim l = [] then None else io_decode io l) (file_lines [] s)"

lemma load_lines_parsed:
  assumes "list_all utf8 ls"
  shows "load_lines dec ls (last_n MAX_ENTRIES hs)
    = last_n MAX_ENTRIES (hs @ List.map_filter (\<lambda>l. if trim l = [] then None else dec l) ls)"
  using assms by (induction ls arbitrary: hs) (auto split: option.split)

definition file_text :: "log_world \<Rightarrow> string \<Rightarrow> string" where
  "file_text w p = (case lw_files w p of None \<Rightarrow> [] | Some s \<Rightarrow> s)"

lemma load_readable:
  assumes "readable (file_text w p)"
  shows "load_entries_from_file io w p = last_n MAX_ENTRIES (parsed io (file_text w p))"
  using assms load_lines_parsed [of "file_lines [] (file_text w p)" "io_decode io" "[]"]
  by (auto simp: load_entries_from_file_def parsed_def readable_def file_text_def map_filter_def
      split: option.splits)

lemma parsed_line:
  assumes "lossless io" "readable s"
  shows "parsed io (s @ line_of io e @ [newline]) = parsed io s @ [e]"
  using assms by (simp add: parsed_def readable_line line_of_lossless map_filter_def)

lemma write_entry_line:
  assumes "lossless io" "healthy io" "lw_files w p = Some s"
  shows "lw_files (write_entry io p e w) = (lw_files w)(p \<mapsto> s @ line_of io e @ [newline])"
  using assms by (simp add: write_entry_def line_of_lossless healthy_def)

lemma fold_write_entry:
  assumes "lossless io" "healthy io" "lw_files w p = Some s" "readable s"
  shows "\<exists>s'. lw_files (fold (write_entry io p) es w) = (lw_files w)(p \<mapsto> s') \<and> readable s' \<and>
    parsed io s' = parsed io s @ es \<and>
    length (file_lines [] s') = length (file_lines [] s) + length es"
  using assms(3,4)
proof (induction es arbitrary: w s)
  case Nil
  then show ?case by (metis add.right_neutral append.right_neutral fold_simps(1) fun_upd_triv list.size(3))
next
  case (Cons e es)
  let ?w = "write_entry io p e w" and ?s = "s @ line_of io e @ [newline]"
  have w: "lw_files ?w = (lw_files w)(p \<mapsto> ?s)" by (rule write_entry_line) (use assms Cons.prems in auto)
  then have at: "lw_files ?w p = Some ?s" by simp
  obtain s' where "lw_files (fold (write_entry io p) es ?w) = (lw_files ?w)(p \<mapsto> s')" "readable s'"
    "parsed io s' = parsed io ?s @ es" "length (file_lines [] s') = length (file_lines [] ?s) + length es"
    using Cons.IH [OF at readable_line(1) [OF assms(1) Cons.prems(2)]] by blast
  then show ?case
    using parsed_line [OF assms(1) Cons.prems(2)] readable_line(2) [OF assms(1) Cons.prems(2)]
    by (simp add: w) blast
qed

text \<open>The state between two pushes of a buffer that writes to a file.\<close>

definition in_step :: "log_io \<Rightarrow> string \<Rightarrow> nat \<Rightarrow> log_buffer \<times> log_world \<Rightarrow> bool" where
  "in_step io p n0 st \<longleftrightarrow>
     (\<exists>s k. file_text (snd st) p = s \<and> readable s \<and>
        lb_nats (fst st) = None \<and> lb_persist (fst st) = Some \<lparr>ps_path = p, ps_written = k\<rparr> \<and>
        k < COMPACT_AFTER \<and> length (file_lines [] s) \<le> max n0 MAX_ENTRIES + k \<and>
        lb_entries (fst st) = last_n MAX_ENTRIES (parsed io s))"

lemma readable_Nil [simp]: "readable []" "parsed io [] = []"
  by (simp_all add: readable_def parsed_def map_filter_def)

lemma compact_file_result:
  assumes "lossless io" "healthy io"
  shows "\<exists>s. lw_files (compact_file io p es w) p = Some s \<and> readable s \<and> parsed io s = es \<and>
    length (file_lines [] s) = length es"
proof -
  let ?t = "with_extension p ''jsonl.tmp''"
  obtain s where "lw_files (fold (write_entry io ?t) es (w\<lparr>lw_files := (lw_files w)(?t \<mapsto> [])\<rparr>))
      = (lw_files w)(?t \<mapsto> s)" "readable s" "parsed io s = es" "length (file_lines [] s) = length es"
    using fold_write_entry [OF assms, of "w\<lparr>lw_files := (lw_files w)(?t \<mapsto> [])\<rparr>" ?t "[]" es] by auto
  with assms(2) show ?thesis by (auto simp: compact_file_def Let_def healthy_def)
qed

lemma push_in_step:
  assumes "lossless io" "healthy io" "in_step io p n0 st"
  shows "in_step io p n0 (log_push io e st)"
    "lb_entries (fst (log_push io e st)) = push_bounded (lb_entries (fst st)) e"
proof -
  obtain b w where st: "st = (b, w)" by (cases st)
  from assms(3) obtain s k where f: "file_text w p = s" and s: "readable s"
    and n: "lb_nats b = None" and ps: "lb_persist b = Some \<lparr>ps_path = p, ps_written = k\<rparr>"
    and k: "k < COMPACT_AFTER" and len: "length (file_lines [] s) \<le> max n0 MAX_ENTRIES + k"
    and es: "lb_entries b = last_n MAX_ENTRIES (parsed io s)"
    unfolding in_step_def st by auto
  define w1 where "w1 = append_entry_to_file io p e w"
  define s1 where "s1 = s @ line_of io e @ [newline]"
  have w1: "lw_files w1 = (lw_files w)(p \<mapsto> s1)"
    using write_entry_line [OF assms(1,2), of _ p s e] assms(2) f
    by (auto simp: w1_def s1_def append_entry_to_file_def healthy_def file_text_def split: option.splits)
  have es1: "push_bounded (lb_entries b) e = last_n MAX_ENTRIES (parsed io s1)"
    by (simp add: es s1_def parsed_line [OF assms(1) s])
  have s1: "readable s1" "length (file_lines [] s1) \<le> max n0 MAX_ENTRIES + Suc k"
    using readable_line [OF assms(1) s] len by (simp_all add: s1_def)
  obtain sc where sc: "lw_files (compact_file io p (last_n MAX_ENTRIES (parsed io s1)) w1) p = Some sc" "readable sc"
    "parsed io sc = last_n MAX_ENTRIES (parsed io s1)" "length (file_lines [] sc) \<le> MAX_ENTRIES"
    using compact_file_result [OF assms(1,2), of p "last_n MAX_ENTRIES (parsed io s1)" w1] by auto
  have push: "log_push io e st =
      (if COMPACT_AFTER \<le> Suc k
       then (b\<lparr>lb_entries := last_n MAX_ENTRIES (parsed io s1), lb_persist := Some \<lparr>ps_path = p, ps_written = 0\<rparr>\<rparr>,
             compact_file io p (last_n MAX_ENTRIES (parsed io s1)) w1)
       else (b\<lparr>lb_entries := last_n MAX_ENTRIES (parsed io s1), lb_persist := Some \<lparr>ps_path = p, ps_written = Suc k\<rparr>\<rparr>, w1))"
    by (simp add: log_push_def st push_locked_def n ps Let_def push_unlocked_def es1 w1_def)
  show "in_step io p n0 (log_push io e st)"
    using n sc s1 w1 by (auto simp: push in_step_def COMPACT_AFTER_def file_text_def)
  show "lb_entries (fst (log_push io e st)) = push_bounded (lb_entries (fst st)) e"
    unfolding push by (simp add: st es1)
qed

lemma pushes_in_step:
  assumes "lossless io" "healthy io" "in_step io p n0 st" "lb_entries (fst st) = last_n MAX_ENTRIES hs"
  shows "in_step io p n0 (fold (log_push io) es st) \<and>
    lb_entries (fst (fold (log_push io) es st)) = last_n MAX_ENTRIES (hs @ es)"
  using assms(3,4)
  by (induction es arbitrary: st hs) (simp_all add: push_in_step [OF assms(1,2)])

text \<open>
  C27. As long as the pushes do not overlap, a server that restarts finds exactly the log it had: the last
  5000 of the entries in the file and the entries pushed since. During one run of the server the file
  grows to less than 500 lines over the larger of 5000 and its length at the start.
\<close>

theorem log_survives_a_restart:
  assumes "lossless io" "healthy io" "readable (file_text w p)"
    and run: "fold (log_push io) es (new_with_persistence io w p, w) = (b, w')"
  shows "lb_entries b = last_n MAX_ENTRIES (parsed io (file_text w p) @ es) \<and>
    lb_entries (new_with_persistence io w' p) = lb_entries b \<and>
    length (file_lines [] (file_text w' p))
      < max (length (file_lines [] (file_text w p))) MAX_ENTRIES + COMPACT_AFTER"
proof -
  let ?n = "length (file_lines [] (file_text w p))" and ?st = "(new_with_persistence io w p, w)"
  have l: "lb_entries (fst ?st) = last_n MAX_ENTRIES (parsed io (file_text w p))"
    by (simp add: new_with_persistence_def load_readable assms(3))
  have "in_step io p ?n ?st"
    using assms(3) l by (simp add: in_step_def new_with_persistence_def COMPACT_AFTER_def)
  from pushes_in_step [OF assms(1,2) this l, of es]
  have "in_step io p ?n (b, w')" and "lb_entries b = last_n MAX_ENTRIES (parsed io (file_text w p) @ es)"
    by (simp_all add: run)
  then show ?thesis by (auto simp: in_step_def new_with_persistence_def load_readable)
qed

text \<open>
  Overlapping pushes can lose an entry from the file: the thread that compacts writes the entries it saw
  under the lock over whatever another thread has appended since.
\<close>

lemma compaction_overwrites_a_concurrent_entry:
  assumes "lossless io" "healthy io"
    and "push_locked io a b w = ((b1, w1), r)" "pr_compact r = Some (p, lb_entries b1)" "pr_nats r = None"
    and "push_locked io c b1 w1 = ((b2, w2), r2)"
    and "length (lb_entries b1) \<le> MAX_ENTRIES"
  shows "lb_entries b2 = push_bounded (lb_entries b1) c"
    "load_entries_from_file io (push_unlocked io r w2) p = lb_entries b1"
proof -
  show "lb_entries b2 = push_bounded (lb_entries b1) c"
    using push_locked_entries(1) [OF assms(6)] .
  obtain s where "lw_files (compact_file io p (lb_entries b1) w2) p = Some s" "readable s"
    "parsed io s = lb_entries b1"
    using compact_file_result [OF assms(1,2)] by blast
  then show "load_entries_from_file io (push_unlocked io r w2) p = lb_entries b1"
    using assms(4,5,7) by (simp add: push_unlocked_def load_readable file_text_def)
qed

section \<open>Concrete runs\<close>

text \<open>A plain encoding of entries: the bytes of each field as pairs of letters.\<close>

fun to_hex :: "string \<Rightarrow> string" where
  "to_hex [] = []"
| "to_hex (c # cs) =
     char_of (65 + (of_char c :: nat) div 16) # char_of (65 + (of_char c :: nat) mod 16) # to_hex cs"

fun of_hex :: "string \<Rightarrow> string" where
  "of_hex (a # b # r) = char_of (16 * ((of_char a :: nat) - 65) + (of_char b - 65)) # of_hex r"
| "of_hex _ = []"

definition bar :: "char \<Rightarrow> bool" where
  "bar c \<longleftrightarrow> c \<noteq> CHR ''|''"

definition sample_io :: log_io where
  "sample_io =
     \<lparr>io_encode = (\<lambda>e. Some (CHR ''{'' # to_hex (le_timestamp e) @ CHR ''|'' # to_hex (le_level e) @
         CHR ''|'' # to_hex (le_target e) @ CHR ''|'' # to_hex (le_message e) @ ''}'')),
      io_decode = (\<lambda>l. let b = butlast (tl l); next = (\<lambda>s. tl (dropWhile bar s)); field = (\<lambda>s. of_hex (takeWhile bar s))
         in Some \<lparr>le_timestamp = field b, le_level = field (next b), le_target = field (next (next b)),
                  le_message = field (next (next (next b)))\<rparr>),
      io_opens = (\<lambda>p. True), io_writes = (\<lambda>p l. True), io_renames = (\<lambda>p q. True), io_lower = id\<rparr>"

lemma of_char_small: "(of_char c :: nat) < 256"
  by (rule nat_of_char_less_256)

lemma hex_digit:
  "(of_char c :: nat) div 16 < 16" "(of_char c :: nat) mod 16 < 16"
  using of_char_small [of c] by (simp_all add: div_less_iff_less_mult)

lemma of_hex_to_hex: "of_hex (to_hex s) = s"
proof (induction s)
  case (Cons c cs)
  then show ?case using hex_digit [of c] by simp
qed simp

lemma to_hex_letters: "c \<in> set (to_hex s) \<Longrightarrow> 65 \<le> (of_char c :: nat) \<and> (of_char c :: nat) \<le> 80"
proof (induction s)
  case (Cons d s)
  then show ?case using hex_digit [of d] by auto
qed simp

lemma to_hex_plain: "list_all bar (to_hex s)" "list_all (in_range 0 0x7F) (to_hex s)"
  "newline \<notin> set (to_hex s)"
proof -
  have 1: "bar c \<and> in_range 0 0x7F c \<and> c \<noteq> newline" if "c \<in> set (to_hex s)" for c
    using to_hex_letters [OF that] by (auto simp: bar_def in_range_def newline_def)
  then show "list_all bar (to_hex s)" "list_all (in_range 0 0x7F) (to_hex s)" "newline \<notin> set (to_hex s)"
    by (auto simp: list_all_iff)
qed

lemma takeWhile_all: "list_all P xs \<Longrightarrow> takeWhile P (xs @ ys) = xs @ takeWhile P ys"
  "list_all P xs \<Longrightarrow> dropWhile P (xs @ ys) = dropWhile P ys"
  by (induction xs) auto

lemma takeWhile_field: "takeWhile bar (to_hex s) = to_hex s"
  using takeWhile_all(1) [OF to_hex_plain(1), of s "[]"] by simp

lemma trim_braces: "trim (CHR ''{'' # s @ ''}'') \<noteq> []"
proof -
  have front0: "trim_start (CHR ''{'' # r) = CHR ''{'' # r" for r
    unfolding trim_start_def by (subst strip_front.simps) (simp add: white_space_def)
  have rear: "strip_front (map rev white_space) (CHR ''}'' # r) = CHR ''}'' # r" for r
    by (subst strip_front.simps) (simp add: white_space_def)
  show ?thesis by (simp add: trim_def front0 trim_end_def rear)
qed

lemma io_encode_sample: "io_encode sample_io e = Some (the (io_encode sample_io e))"
  by (simp add: sample_io_def)

lemma sample_io_lossless: "lossless sample_io" "healthy sample_io"
proof -
  have "io_decode sample_io (the (io_encode sample_io e)) = Some e" for e
    by (simp add: sample_io_def Let_def butlast_append takeWhile_all to_hex_plain of_hex_to_hex bar_def
        takeWhile_field)
  moreover have "utf8 (the (io_encode sample_io e))" "newline \<notin> set (the (io_encode sample_io e))" for e
    by (rule ascii_utf8, simp_all add: sample_io_def to_hex_plain) (simp_all add: in_range_def newline_def)
  moreover have "strip_cr (the (io_encode sample_io e)) = the (io_encode sample_io e)" for e
    by (simp add: sample_io_def strip_cr_def)
  moreover have "trim (the (io_encode sample_io e)) \<noteq> []" for e
    using trim_braces [of "to_hex (le_timestamp e) @ CHR ''|'' # to_hex (le_level e) @
         CHR ''|'' # to_hex (le_target e) @ CHR ''|'' # to_hex (le_message e)"]
    by (simp add: sample_io_def)
  ultimately show "lossless sample_io"
    unfolding lossless_def by (metis io_encode_sample)
  show "healthy sample_io" by (simp add: healthy_def sample_io_def)
qed

definition sample_entry :: log_entry where
  "sample_entry = \<lparr>le_timestamp = ''t'', le_level = ''INFO'', le_target = ''srv'', le_message = ''up''\<rparr>"

definition empty_world :: log_world where
  "empty_world = \<lparr>lw_files = (\<lambda>p. None), lw_channels = [7 \<mapsto> []]\<rparr>"

theorem buffer_refines_the_pushed_log_witness:
  "\<exists>s. (log_step sample_io)\<^sup>*\<^sup>* \<lparr>ls_buffer = enable_nats 7 log_new, ls_world = empty_world, ls_pending = [],
        ls_published = [], ls_pushed = []\<rparr> s \<and>
     log_entries sample_io (ls_buffer s) (Some ''warn'') None = [] \<and>
     log_entries sample_io (ls_buffer s) (Some ''Debug'') (Some ''r'') = [sample_entry] \<and>
     ls_published s = [line_of sample_io sample_entry]"
proof -
  let ?b = "enable_nats 7 log_new"
  let ?s = "\<lparr>ls_buffer = ?b, ls_world = empty_world, ls_pending = [], ls_published = [], ls_pushed = lb_entries ?b\<rparr>"
  have e: "lb_entries ?b = []" by (simp add: enable_nats_def log_new_def)
  obtain b w r where p: "push_locked sample_io sample_entry ?b empty_world = ((b, w), r)"
    by (metis surj_pair)
  note push = push_locked_entries [OF p]
  define s1 where "s1 = ?s\<lparr>ls_buffer := b, ls_world := w, ls_pending := [r], ls_pushed := [sample_entry]\<rparr>"
  define s2 where "s2 = s1\<lparr>ls_world := push_unlocked sample_io r w, ls_pending := []\<rparr>"
  obtain w3 ps where f: "forward_one sample_io (\<lambda>l ps. ps @ [l]) 7 (ls_world s2) (ls_published s2) = (w3, ps)" by fastforce
  define s3 where "s3 = s2\<lparr>ls_world := w3, ls_published := ps\<rparr>"
  have "log_step sample_io ?s s1"
    using log_step.step_locked [of sample_io sample_entry ?s b w r] p e by (simp add: s1_def)
  moreover have "log_step sample_io s1 s2"
    using log_step.step_unlocked [of s1 "[]" r "[]" sample_io] by (simp add: s1_def s2_def)
  moreover have "log_step sample_io s2 s3"
    unfolding s3_def by (rule log_step.step_forward [OF _ f]) (simp add: s1_def s2_def push enable_nats_def)
  ultimately have run: "(log_step sample_io)\<^sup>*\<^sup>* ?s s3"
    by (meson converse_rtranclp_into_rtranclp r_into_rtranclp)
  have q: "lw_channels (ls_world s2) 7 = Some [sample_entry]"
    using push(3,4) file_steps_keep_channels by (auto simp: s2_def push_unlocked_def channel_send_def enable_nats_def
        empty_world_def Let_def split: option.split)
  have left: "on_the_way 7 s3 = {#}" using f q by (auto simp: on_the_way_def s3_def s2_def forward_one_def)
  have pushed: "ls_pushed s3 = [sample_entry]" by (simp add: s1_def s2_def s3_def)
  have "length (lb_entries ?b) \<le> MAX_ENTRIES" by (simp add: e)
  note facts = buffer_refines_the_pushed_log [OF run this]
  obtain P where P: "ls_published s3 = List.map_filter (io_encode sample_io) P" "mset P = {#sample_entry#}"
    using facts [of None None] e left pushed by (auto simp: enable_nats_def empty_world_def)
  then have "ls_published s3 = [line_of sample_io sample_entry]"
    using line_of_lossless(1) [OF sample_io_lossless(1), of sample_entry] by (auto simp: map_filter_simps)
  moreover have l: "parse_level ''INFO'' = Some INFO" "parse_level ''warn'' = Some WARN" "parse_level ''Debug'' = Some DEBUG"
    by code_simp+
  moreover have "entry_matches sample_io (Some ''warn'') None sample_entry = False"
    "entry_matches sample_io (Some ''Debug'') (Some ''r'') sample_entry = True"
    by (simp_all add: entry_matches_def sample_entry_def sample_io_def level_or_trace_def l less_eq_level_def)
  ultimately show ?thesis
    using run e facts [of "Some ''warn''" None] facts [of "Some ''Debug''" "Some ''r''"]
    by (intro exI [of _ s3]) (simp add: pushed MAX_ENTRIES_def)
qed

theorem log_survives_a_restart_witness:
  "let st = log_push sample_io sample_entry (new_with_persistence sample_io empty_world ''log'', empty_world)
   in lb_entries (new_with_persistence sample_io (snd st) ''log'') = [sample_entry]"
proof -
  let ?st = "log_push sample_io sample_entry (new_with_persistence sample_io empty_world ''log'', empty_world)"
  have "file_text empty_world ''log'' = []" by (simp add: file_text_def empty_world_def)
  then have "readable (file_text empty_world ''log'')" by simp
  from log_survives_a_restart [OF sample_io_lossless this, of "[sample_entry]" "fst ?st" "snd ?st"]
  show ?thesis by (simp add: \<open>file_text empty_world ''log'' = []\<close> MAX_ENTRIES_def)
qed

end
