(* ===== verification/BpmnModels.thy ===== *)
theory BpmnModels
  imports Prelude
begin

text \<open>
  The document model of \<open>bpmn-parser/src/models.rs\<close>: what serde reads from BPMN XML. One record per
  struct, with its fields in the order of the source; the struct of sub-processes contains itself and
  is a datatype.
\<close>

section \<open>Parts shared by elements\<close>

record bpmn_loop_cardinality =
  lc_value :: "string option"

record bpmn_multi_instance =
  bmi_is_sequential :: "bool option"
  bmi_loop_cardinality :: "bpmn_loop_cardinality option"
  bmi_collection :: "string option"
  bmi_element_variable :: "string option"

record bpmn_script =
  bsc_script_format :: string
  bsc_content :: string

record bpmn_execution_listener =
  bel_event :: string
  bel_script :: "bpmn_script option"

record bpmn_extension_elements =
  bx_execution_listeners :: "bpmn_execution_listener list"

record ignored_element =
  ig_id :: "string option"

record bpmn_message =
  bm_id :: string
  bm_name :: string

record bpmn_error_def =
  bed_id :: string
  bed_name :: "string option"
  bed_error_code :: "string option"

record bpmn_escalation_def =
  bsd_id :: string
  bsd_name :: "string option"
  bsd_escalation_code :: "string option"

section \<open>Event definitions\<close>

record bpmn_timer_event_definition =
  td_time_duration :: "string option"
  td_time_date :: "string option"
  td_time_cycle :: "string option"

record bpmn_message_event_definition =
  md_message_ref :: "string option"

record bpmn_error_event_definition =
  erd_error_ref :: "string option"

record bpmn_escalation_event_definition =
  esd_escalation_ref :: "string option"

record bpmn_compensate_event_definition =
  cpd_activity_ref :: "string option"

section \<open>Events\<close>

record bpmn_start_event =
  se_id :: string
  se_extension_elements :: "bpmn_extension_elements option"
  se_timer :: "bpmn_timer_event_definition option"
  se_message :: "bpmn_message_event_definition option"

record bpmn_end_event =
  ee_id :: string
  ee_extension_elements :: "bpmn_extension_elements option"
  ee_error :: "bpmn_error_event_definition option"
  ee_message :: "bpmn_message_event_definition option"
  ee_escalation :: "bpmn_escalation_event_definition option"
  ee_compensate :: "bpmn_compensate_event_definition option"
  ee_terminate :: "ignored_element option"

record bpmn_intermediate_throw_event =
  ite_id :: string
  ite_extension_elements :: "bpmn_extension_elements option"
  ite_message :: "bpmn_message_event_definition option"
  ite_escalation :: "bpmn_escalation_event_definition option"
  ite_compensate :: "bpmn_compensate_event_definition option"

record bpmn_intermediate_catch_event =
  ice_id :: string
  ice_extension_elements :: "bpmn_extension_elements option"
  ice_timer :: "bpmn_timer_event_definition option"
  ice_message :: "bpmn_message_event_definition option"

record bpmn_boundary_event =
  be_id :: string
  be_attached_to_ref :: string
  be_cancel_activity :: "bool option"
  be_timer :: "bpmn_timer_event_definition option"
  be_error :: "bpmn_error_event_definition option"
  be_message :: "bpmn_message_event_definition option"
  be_escalation :: "bpmn_escalation_event_definition option"
  be_compensate :: "bpmn_compensate_event_definition option"

section \<open>Tasks, flows and gateways\<close>

record bpmn_script_content =
  bct_content :: "string option"

record bpmn_script_task =
  sct_id :: string
  sct_extension_elements :: "bpmn_extension_elements option"
  sct_name :: "string option"
  sct_script_format :: "string option"
  sct_data_script :: "string option"
  sct_script :: "bpmn_script_content option"
  sct_multi_instance :: "bpmn_multi_instance option"

record bpmn_send_task =
  snd_id :: string
  snd_extension_elements :: "bpmn_extension_elements option"
  snd_name :: "string option"
  snd_message :: "bpmn_message_event_definition option"
  snd_multi_instance :: "bpmn_multi_instance option"

record bpmn_service_task =
  svt_id :: string
  svt_extension_elements :: "bpmn_extension_elements option"
  svt_handler :: "string option"
  svt_topic :: "string option"
  svt_multi_instance :: "bpmn_multi_instance option"

record bpmn_user_task =
  ust_id :: string
  ust_extension_elements :: "bpmn_extension_elements option"
  ust_assignee :: "string option"

record bpmn_condition_expression =
  bce_value :: string

record bpmn_sequence_flow =
  bsf_id :: string
  bsf_source_ref :: string
  bsf_target_ref :: string
  bsf_condition_expression :: "bpmn_condition_expression option"

record bpmn_generic_task =
  gt_id :: string
  gt_extension_elements :: "bpmn_extension_elements option"
  gt_name :: "string option"
  gt_multi_instance :: "bpmn_multi_instance option"

record bpmn_call_activity =
  cla_id :: string
  cla_called_element :: "string option"
  cla_extension_elements :: "bpmn_extension_elements option"

record bpmn_exclusive_gateway =
  xg_id :: string
  xg_extension_elements :: "bpmn_extension_elements option"
  xg_default :: "string option"

record bpmn_complex_gateway =
  cg_id :: string
  cg_extension_elements :: "bpmn_extension_elements option"
  cg_default :: "string option"
  cg_activation_condition :: "bpmn_condition_expression option"

record bpmn_gateway =
  gw_id :: string
  gw_extension_elements :: "bpmn_extension_elements option"

section \<open>Scopes\<close>

datatype bpmn_sub_process =
  BpmnSubProcess
    (sp_id: string)
    (sp_triggered_by_event: "bool option")
    (sp_extension_elements: "bpmn_extension_elements option")
    (sp_start_events: "bpmn_start_event list")
    (sp_end_events: "bpmn_end_event list")
    (sp_service_tasks: "bpmn_service_task list")
    (sp_user_tasks: "bpmn_user_task list")
    (sp_sequence_flows: "bpmn_sequence_flow list")
    (sp_boundary_events: "bpmn_boundary_event list")
    (sp_generic_tasks: "bpmn_generic_task list")
    (sp_script_tasks: "bpmn_script_task list")
    (sp_send_tasks: "bpmn_send_task list")
    (sp_receive_tasks: "bpmn_generic_task list")
    (sp_manual_tasks: "bpmn_generic_task list")
    (sp_business_rule_tasks: "bpmn_generic_task list")
    (sp_call_activities: "bpmn_call_activity list")
    (sp_exclusive_gateways: "bpmn_exclusive_gateway list")
    (sp_parallel_gateways: "bpmn_gateway list")
    (sp_inclusive_gateways: "bpmn_gateway list")
    (sp_event_based_gateways: "bpmn_gateway list")
    (sp_complex_gateways: "bpmn_complex_gateway list")
    (sp_throw_events: "bpmn_intermediate_throw_event list")
    (sp_catch_events: "bpmn_intermediate_catch_event list")
    (sp_sub_processes: "bpmn_sub_process list")

lemma sub_process_smaller [termination_simp]: "x \<in> set (sp_sub_processes sp) \<Longrightarrow> size x < size sp"
  by (cases sp) (auto dest: size_list_estimation' [where f = size, OF _ order_refl])

record bpmn_process =
  pr_id :: string
  pr_is_executable :: "bool option"
  pr_extension_elements :: "bpmn_extension_elements option"
  pr_start_events :: "bpmn_start_event list"
  pr_end_events :: "bpmn_end_event list"
  pr_service_tasks :: "bpmn_service_task list"
  pr_user_tasks :: "bpmn_user_task list"
  pr_sequence_flows :: "bpmn_sequence_flow list"
  pr_data_object_references :: "ignored_element list"
  pr_data_store_references :: "ignored_element list"
  pr_text_annotations :: "ignored_element list"
  pr_associations :: "ignored_element list"
  pr_sub_processes :: "bpmn_sub_process list"
  pr_boundary_events :: "bpmn_boundary_event list"
  pr_generic_tasks :: "bpmn_generic_task list"
  pr_script_tasks :: "bpmn_script_task list"
  pr_send_tasks :: "bpmn_send_task list"
  pr_receive_tasks :: "bpmn_generic_task list"
  pr_manual_tasks :: "bpmn_generic_task list"
  pr_business_rule_tasks :: "bpmn_generic_task list"
  pr_call_activities :: "bpmn_call_activity list"
  pr_exclusive_gateways :: "bpmn_exclusive_gateway list"
  pr_parallel_gateways :: "bpmn_gateway list"
  pr_inclusive_gateways :: "bpmn_gateway list"
  pr_event_based_gateways :: "bpmn_gateway list"
  pr_complex_gateways :: "bpmn_complex_gateway list"
  pr_throw_events :: "bpmn_intermediate_throw_event list"
  pr_catch_events :: "bpmn_intermediate_catch_event list"

record bpmn_definitions =
  bd_id :: "string option"
  bd_processes :: "bpmn_process list"
  bd_collaborations :: "ignored_element list"
  bd_bpmndiagrams :: "ignored_element list"
  bd_messages :: "bpmn_message list"
  bd_errors :: "bpmn_error_def list"
  bd_escalations :: "bpmn_escalation_def list"

end
