(* ===== verification/BpmnParser.thy ===== *)
theory BpmnParser
  imports Definition BpmnModels
begin

text \<open>
  The parser of \<open>bpmn-parser/src/parser.rs\<close>: durations, timers and repeating intervals, and the
  translation of a document into a process definition with its sub-processes flattened. The XML reader
  (\<open>quick-xml\<close> with serde), the date parser of \<open>chrono\<close> and the cron parser are parameters.
\<close>

record parser_env =
  px_from_str :: "string \<Rightarrow> string + bpmn_definitions"
  px_date_time :: "string \<Rightarrow> string + time"
  px_cron :: "string \<Rightarrow> string option"

fun unwrap_or :: "'a \<Rightarrow> 'a option \<Rightarrow> 'a" where
  "unwrap_or d None = d"
| "unwrap_or d (Some x) = x"

fun opt_or :: "'a option \<Rightarrow> 'a option \<Rightarrow> 'a option" where
  "opt_or None y = y"
| "opt_or (Some x) y = Some x"

definition invalid :: "string \<Rightarrow> arg list \<Rightarrow> engine_error" where
  "invalid fmt args = InvalidDefinition (Msg fmt args)"

section \<open>Durations\<close>

text \<open>The first character of a text: a byte with the continuation bytes that follow it.\<close>

definition first_char :: "string \<Rightarrow> string" where
  "first_char s = take 1 s @ takeWhile (\<lambda>c. 128 \<le> (of_char c :: nat) \<and> (of_char c :: nat) < 192) (drop 1 s)"

definition unit_secs :: "bool \<Rightarrow> char \<Rightarrow> nat option" where
  "unit_secs in_time c =
     (if \<not> in_time \<and> c = CHR ''Y'' then Some (365 * 86400)
      else if \<not> in_time \<and> c = CHR ''M'' then Some (30 * 86400)
      else if \<not> in_time \<and> c = CHR ''W'' then Some (7 * 86400)
      else if \<not> in_time \<and> c = CHR ''D'' then Some 86400
      else if in_time \<and> c = CHR ''H'' then Some 3600
      else if in_time \<and> c = CHR ''M'' then Some 60
      else if in_time \<and> c = CHR ''S'' then Some 1
      else None)"

text \<open>
  The loop over the characters after the \<open>P\<close>: \<open>num\<close> holds the digits read since the last unit, \<open>secs\<close>
  the seconds so far.
\<close>

fun duration_loop ::
  "string \<Rightarrow> string \<Rightarrow> nat \<Rightarrow> string \<Rightarrow> bool \<Rightarrow> bool \<Rightarrow> (engine_error, nat) outcome" where
  "duration_loop s [] secs num in_time has_value =
     (if num \<noteq> [] then Err (invalid ''Invalid ISO 8601 duration '{}': trailing digits without unit'' [AStr s])
      else if \<not> has_value then
        Err (invalid ''Invalid ISO 8601 duration '{}': no duration components found'' [AStr s])
      else Ok secs)"
| "duration_loop s (c # cs) secs num in_time has_value =
     (if c = CHR ''T'' then
        if num \<noteq> [] then Err (invalid ''Invalid ISO 8601 duration '{}': digits before 'T' without unit'' [AStr s])
        else duration_loop s cs secs num True has_value
      else if is_digit c then duration_loop s cs secs (num @ [c]) in_time has_value
      else if num = [] then
        Err (invalid (''Invalid ISO 8601 duration '{}': missing number before '{}'' @ [CHR 0x27])
               [AStr s, AStr (first_char (c # cs))])
      else and_then (ok_or (invalid (''Invalid number in duration '{}'' @ [CHR 0x27]) [AStr s]) (parse_unsigned 64 num)) (\<lambda>val.
           and_then
             (ok_or
               (invalid ''Invalid ISO 8601 duration '{}': unknown unit '{}' (time_part={})''
                 [AStr s, AStr (first_char (c # cs)), AVal (JBool in_time)])
               (unit_secs in_time c)) (\<lambda>multiplier.
           if 2 ^ 64 \<le> val * multiplier then
             Err (invalid ''Duration segment '{}{}' overflows seconds'' [ANat val, AStr [c]])
           else if 2 ^ 64 \<le> secs + val * multiplier then
             Err (invalid ''Total duration '{}' overflows maximum allowed seconds'' [AStr s])
           else duration_loop s cs (secs + val * multiplier) [] in_time True)))"

definition from_secs :: "nat \<Rightarrow> duration" where
  "from_secs n = n * 10 ^ 9"

definition parse_iso8601_duration :: "string \<Rightarrow> (engine_error, duration) outcome" where
  "parse_iso8601_duration s0 =
     (let s = trim s0
      in if s = [] then Err (invalid ''Timer duration is empty'' [])
         else if \<not> starts_with s ''P'' then
           Err (invalid (''Invalid ISO 8601 duration '{}': must start with 'P'' @ [CHR 0x27]) [AStr s])
         else if drop 1 s = [] then
           Err (invalid (''Invalid ISO 8601 duration '{}': no value after 'P'' @ [CHR 0x27]) [AStr s])
         else and_then (duration_loop s (drop 1 s) 0 [] False False) (\<lambda>n. Ok (from_secs n)))"

section \<open>Timers\<close>

definition interval_parts :: "string \<Rightarrow> (engine_error, string \<times> string) outcome" where
  "interval_parts s =
     (case split_at ''/'' s of
        Some (r, d) \<Rightarrow> Ok (r, d)
      | None \<Rightarrow>
          (case split_at ''PT'' (drop 1 s) of
             Some (r, d) \<Rightarrow> Ok (take 1 s @ r, ''PT'' @ d)
           | None \<Rightarrow> Err (invalid
               ''Invalid repeating interval '{}': expected R[n]/duration or R[n]PTduration'' [AStr s])))"

definition parse_repeating_interval :: "string \<Rightarrow> (engine_error, timer_def) outcome" where
  "parse_repeating_interval s =
     and_then (interval_parts s) (\<lambda>(r_part, dur_part).
     and_then
       (if r_part = ''R'' then Ok None
        else and_then
               (ok_or (invalid ''Invalid repetition count in '{}': '{}' is not a number''
                         [AStr s, AStr (drop 1 r_part)])
                  (parse_unsigned 32 (drop 1 r_part))) (\<lambda>n. Ok (Some n))) (\<lambda>repetitions.
     and_then (parse_iso8601_duration dur_part) (\<lambda>interval. Ok (TRepeating repetitions interval))))"

definition parse_timer_definition ::
  "parser_env \<Rightarrow> bpmn_timer_event_definition \<Rightarrow> (engine_error, timer_def) outcome" where
  "parse_timer_definition px timer =
     (case td_time_duration timer of
        Some dur \<Rightarrow> and_then (parse_iso8601_duration dur) (\<lambda>d. Ok (TDuration d))
      | None \<Rightarrow>
     (case td_time_date timer of
        Some date \<Rightarrow>
          (case px_date_time px (trim date) of
             Inl er \<Rightarrow> Err (invalid ''Invalid timeDate '{}': {}'' [AStr date, AStr er])
           | Inr t \<Rightarrow> Ok (TAbsoluteDate t))
      | None \<Rightarrow>
     (case td_time_cycle timer of
        Some cycle \<Rightarrow>
          (let s = trim cycle
           in if starts_with s ''R'' then parse_repeating_interval s
              else (case px_cron px s of
                      Some er \<Rightarrow> Err (invalid ''Invalid cron expression '{}': {}'' [AStr s, AStr er])
                    | None \<Rightarrow> Ok (TCronCycle s None)))
      | None \<Rightarrow> Ok (TDuration (from_secs 0)))))"

section \<open>The parts of an element\<close>

definition listener_event_of :: "string \<Rightarrow> listener_event option" where
  "listener_event_of ev =
     (if ev = ''start'' then Some LStart else if ev = ''end'' then Some LEnd else None)"

definition add_execution_listener ::
  "string \<Rightarrow> bpmn_execution_listener \<Rightarrow> definition_builder \<Rightarrow> definition_builder" where
  "add_execution_listener n l b =
     (case (listener_event_of (bel_event l), bel_script l) of
        (Some ev, Some s) \<Rightarrow> add_listener n ev (trim (bsc_content s)) b
      | _ \<Rightarrow> b)"

definition add_listeners ::
  "string \<Rightarrow> bpmn_extension_elements option \<Rightarrow> definition_builder \<Rightarrow> definition_builder" where
  "add_listeners n ext b =
     (case ext of None \<Rightarrow> b | Some x \<Rightarrow> fold (add_execution_listener n) (bx_execution_listeners x) b)"

definition parse_multi_instance :: "bpmn_multi_instance option \<Rightarrow> multi_instance_def option" where
  "parse_multi_instance =
     map_option (\<lambda>m.
       \<lparr> mid_is_sequential = unwrap_or False (bmi_is_sequential m),
         mid_loop_cardinality = map_option trim (Option.bind (bmi_loop_cardinality m) lc_value),
         mid_collection = map_option trim (bmi_collection m),
         mid_element_variable = map_option trim (bmi_element_variable m) \<rparr>)"

text \<open>The tables from references to names and codes, and the resolution of a reference.\<close>

record lookups =
  lk_messages :: "(string, string) table"
  lk_errors :: "(string, string) table"
  lk_escalations :: "(string, string) table"

definition message_lookup :: "bpmn_message list \<Rightarrow> (string, string) table" where
  "message_lookup ms = tcollect (map (\<lambda>m. (bm_id m, bm_name m)) ms)"

definition error_lookup :: "bpmn_error_def list \<Rightarrow> (string, string) table" where
  "error_lookup es =
     tcollect (map (\<lambda>e. (bed_id e, unwrap_or (bed_id e) (opt_or (bed_error_code e) (bed_name e)))) es)"

definition escalation_lookup :: "bpmn_escalation_def list \<Rightarrow> (string, string) table" where
  "escalation_lookup es =
     tcollect (map (\<lambda>e. (bsd_id e, unwrap_or (bsd_id e) (opt_or (bsd_escalation_code e) (bsd_name e)))) es)"

definition resolve_ref :: "(string, string) table \<Rightarrow> string option \<Rightarrow> string option" where
  "resolve_ref lookup r = Option.bind r (tget lookup)"

section \<open>The elements of a process\<close>

definition start_element ::
  "parser_env \<Rightarrow> lookups \<Rightarrow> bpmn_start_event \<Rightarrow> (engine_error, element) outcome" where
  "start_element px lk start =
     (case (se_timer start, se_message start) of
        (Some timer, _) \<Rightarrow> and_then (parse_timer_definition px timer) (\<lambda>t. Ok (TimerStartEvent t))
      | (None, Some m) \<Rightarrow>
          Ok (MessageStartEvent (unwrap_or ''generic_message'' (resolve_ref (lk_messages lk) (md_message_ref m))))
      | (None, None) \<Rightarrow> Ok StartEvent)"

definition end_element :: "lookups \<Rightarrow> bpmn_end_event \<Rightarrow> element" where
  "end_element lk e =
     (if ee_terminate e \<noteq> None then TerminateEndEvent
      else case ee_error e of
        Some er \<Rightarrow> ErrorEndEvent (unwrap_or ''generic_error'' (resolve_ref (lk_errors lk) (erd_error_ref er)))
      | None \<Rightarrow>
      (case ee_escalation e of
        Some es \<Rightarrow>
          EscalationEndEvent
            (unwrap_or ''generic_escalation'' (resolve_ref (lk_escalations lk) (esd_escalation_ref es)))
      | None \<Rightarrow>
      (case ee_compensate e of
        Some cp \<Rightarrow> CompensationEndEvent (cpd_activity_ref cp)
      | None \<Rightarrow> EndEvent)))"

definition service_element :: "bpmn_service_task \<Rightarrow> element" where
  "service_element t =
     ServiceTask (unwrap_or (svt_id t) (opt_or (svt_topic t) (svt_handler t)))
       (parse_multi_instance (svt_multi_instance t))"

definition user_element :: "bpmn_user_task \<Rightarrow> element" where
  "user_element t = UserTask (unwrap_or ''unassigned'' (ust_assignee t))"

definition script_content :: "bpmn_script_task \<Rightarrow> string" where
  "script_content t = unwrap_or [] (opt_or (Option.bind (sct_script t) bct_content) (sct_data_script t))"

definition script_element :: "bpmn_script_task \<Rightarrow> element" where
  "script_element t =
     (if trim (script_content t) = []
      then ServiceTask (unwrap_or (sct_id t) (sct_name t)) (parse_multi_instance (sct_multi_instance t))
      else ScriptTask (script_content t) (parse_multi_instance (sct_multi_instance t)))"

definition send_element :: "lookups \<Rightarrow> bpmn_send_task \<Rightarrow> element" where
  "send_element lk t =
     SendTask
       (unwrap_or (''send_'' @ snd_id t)
         (opt_or (resolve_ref (lk_messages lk) (Option.bind (snd_message t) md_message_ref)) (snd_name t)))
       (parse_multi_instance (snd_multi_instance t))"

definition generic_element :: "bpmn_generic_task \<Rightarrow> element" where
  "generic_element t =
     ServiceTask (unwrap_or (gt_id t) (gt_name t)) (parse_multi_instance (gt_multi_instance t))"

definition call_element :: "bpmn_call_activity \<Rightarrow> element" where
  "call_element t = CallActivity (unwrap_or (cla_id t) (cla_called_element t))"

definition flow_lookup :: "bpmn_sequence_flow list \<Rightarrow> (string, string) table" where
  "flow_lookup fs = tcollect (map (\<lambda>f. (bsf_id f, bsf_target_ref f)) fs)"

definition exclusive_element :: "(string, string) table \<Rightarrow> bpmn_exclusive_gateway \<Rightarrow> element" where
  "exclusive_element fl g = ExclusiveGateway (resolve_ref fl (xg_default g))"

definition activation_condition_of :: "bpmn_complex_gateway \<Rightarrow> string option" where
  "activation_condition_of g = map_option (\<lambda>c. trim (bce_value c)) (cg_activation_condition g)"

definition complex_element :: "(string, string) table \<Rightarrow> bpmn_complex_gateway \<Rightarrow> element" where
  "complex_element fl g = ComplexGateway (resolve_ref fl (cg_default g)) (activation_condition_of g)"

definition catch_element ::
  "parser_env \<Rightarrow> lookups \<Rightarrow> bpmn_intermediate_catch_event \<Rightarrow> (engine_error, element) outcome" where
  "catch_element px lk e =
     (case (ice_timer e, ice_message e) of
        (Some timer, _) \<Rightarrow> and_then (parse_timer_definition px timer) (\<lambda>t. Ok (TimerCatchEvent t))
      | (None, Some m) \<Rightarrow>
          Ok (MessageCatchEvent (unwrap_or ''generic_message'' (resolve_ref (lk_messages lk) (md_message_ref m))))
      | (None, None) \<Rightarrow> Ok (ServiceTask ''event_passthrough'' None))"

definition throw_element :: "lookups \<Rightarrow> bpmn_intermediate_throw_event \<Rightarrow> element" where
  "throw_element lk e =
     (case ite_message e of
        Some m \<Rightarrow>
          SendTask (unwrap_or ''generic_throw'' (resolve_ref (lk_messages lk) (md_message_ref m))) None
      | None \<Rightarrow>
     (case ite_escalation e of
        Some es \<Rightarrow>
          EscalationThrowEvent
            (unwrap_or ''generic_escalation'' (resolve_ref (lk_escalations lk) (esd_escalation_ref es)))
      | None \<Rightarrow>
     (case ite_compensate e of
        Some cp \<Rightarrow> CompensationThrowEvent (cpd_activity_ref cp)
      | None \<Rightarrow> ServiceTask ''event_passthrough'' None)))"

text \<open>The boundary events that are no timers; \<open>None\<close> for a kind the parser does not know.\<close>

definition boundary_message_name :: "lookups \<Rightarrow> bpmn_message_event_definition \<Rightarrow> string" where
  "boundary_message_name lk m =
     unwrap_or ''unknown''
       (map_option (\<lambda>r. unwrap_or r (tget (lk_messages lk) r)) (md_message_ref m))"

definition untimed_boundary :: "lookups \<Rightarrow> bpmn_boundary_event \<Rightarrow> element option" where
  "untimed_boundary lk e =
     (let attached_to = be_attached_to_ref e; cancel_activity = unwrap_or True (be_cancel_activity e)
      in case be_message e of
           Some m \<Rightarrow> Some (BoundaryMessageEvent attached_to (boundary_message_name lk m) cancel_activity)
         | None \<Rightarrow>
        (case be_error e of
           Some er \<Rightarrow> Some (BoundaryErrorEvent attached_to (resolve_ref (lk_errors lk) (erd_error_ref er)))
         | None \<Rightarrow>
        (case be_escalation e of
           Some es \<Rightarrow>
             Some (BoundaryEscalationEvent attached_to
               (resolve_ref (lk_escalations lk) (esd_escalation_ref es)) cancel_activity)
         | None \<Rightarrow>
             if be_compensate e \<noteq> None then Some (BoundaryCompensationEvent attached_to) else None)))"

definition boundary_element ::
  "parser_env \<Rightarrow> lookups \<Rightarrow> bpmn_boundary_event \<Rightarrow> (engine_error, element) outcome" where
  "boundary_element px lk e =
     (case be_timer e of
        Some timer \<Rightarrow>
          and_then (parse_timer_definition px timer) (\<lambda>t.
            Ok (BoundaryTimerEvent (be_attached_to_ref e) t (unwrap_or True (be_cancel_activity e))))
      | None \<Rightarrow> Ok (unwrap_or (ServiceTask ''noop'' None) (untimed_boundary lk e)))"

section \<open>Building the definition\<close>

definition place ::
  "('x \<Rightarrow> string) \<Rightarrow> ('x \<Rightarrow> bpmn_extension_elements option) \<Rightarrow> ('x \<Rightarrow> element) \<Rightarrow> 'x
     \<Rightarrow> definition_builder \<Rightarrow> definition_builder" where
  "place ident ext el x b = add_listeners (ident x) (ext x) (add_node (ident x) (el x) b)"

text \<open>A loop whose body can leave the function with an error.\<close>

fun try_place ::
  "('x \<Rightarrow> string) \<Rightarrow> ('x \<Rightarrow> bpmn_extension_elements option) \<Rightarrow> ('x \<Rightarrow> (engine_error, element) outcome)
     \<Rightarrow> 'x list \<Rightarrow> definition_builder \<Rightarrow> (engine_error, definition_builder) outcome" where
  "try_place ident ext el [] b = Ok b"
| "try_place ident ext el (x # xs) b =
     and_then (el x) (\<lambda>y. try_place ident ext el xs (place ident ext (\<lambda>x. y) x b))"

definition add_sequence_flow :: "bpmn_sequence_flow \<Rightarrow> definition_builder \<Rightarrow> definition_builder" where
  "add_sequence_flow f b =
     (case bsf_condition_expression f of
        Some c \<Rightarrow> add_conditional_flow (bsf_source_ref f) (bsf_target_ref f) (trim (bce_value c)) b
      | None \<Rightarrow> add_flow (bsf_source_ref f) (bsf_target_ref f) b)"

definition nested_boundary ::
  "parser_env \<Rightarrow> lookups \<Rightarrow> bpmn_boundary_event \<Rightarrow> definition_builder \<Rightarrow> definition_builder" where
  "nested_boundary px lk e b =
     (case be_timer e of
        Some timer \<Rightarrow>
          (case parse_timer_definition px timer of
             Ok t \<Rightarrow>
               add_node (be_id e)
                 (BoundaryTimerEvent (be_attached_to_ref e) t (unwrap_or True (be_cancel_activity e))) b
           | _ \<Rightarrow> b)
      | None \<Rightarrow> (case untimed_boundary lk e of Some el \<Rightarrow> add_node (be_id e) el b | None \<Rightarrow> b))"

definition add_each :: "('x \<Rightarrow> string) \<Rightarrow> ('x \<Rightarrow> element) \<Rightarrow> 'x list \<Rightarrow> definition_builder \<Rightarrow> definition_builder" where
  "add_each ident el xs b = fold (\<lambda>x. add_node (ident x) (el x)) xs b"

definition sub_process_start :: "bpmn_sub_process \<Rightarrow> string" where
  "sub_process_start sp =
     (case sp_start_events sp of [] \<Rightarrow> sp_id sp @ ''_start'' | s # ss \<Rightarrow> se_id s)"

definition sub_process_generic_tasks :: "bpmn_sub_process \<Rightarrow> bpmn_generic_task list" where
  "sub_process_generic_tasks sp =
     sp_generic_tasks sp @ sp_receive_tasks sp @ sp_manual_tasks sp @ sp_business_rule_tasks sp"

text \<open>The body of \<open>flatten_subprocess\<close> before the nested sub-processes.\<close>

definition flatten_scope ::
  "parser_env \<Rightarrow> lookups \<Rightarrow> bpmn_sub_process \<Rightarrow> definition_builder \<Rightarrow> definition_builder" where
  "flatten_scope px lk sp b0 =
     (let b1 = add_node (sp_id sp) (EmbeddedSubProcess (sub_process_start sp)) b0;
          b2 = add_each se_id (\<lambda>s. ServiceTask ''noop'' None) (sp_start_events sp) b1;
          b3 = add_each ee_id (\<lambda>e. SubProcessEndEvent (sp_id sp)) (sp_end_events sp) b2;
          b4 = add_each svt_id service_element (sp_service_tasks sp) b3;
          b5 = add_each sct_id (\<lambda>t. ScriptTask (script_content t) (parse_multi_instance (sct_multi_instance t)))
                 (sp_script_tasks sp) b4;
          b6 = add_each ust_id user_element (sp_user_tasks sp) b5;
          b7 = add_each gt_id generic_element (sub_process_generic_tasks sp) b6;
          b8 = add_each cla_id call_element (sp_call_activities sp) b7;
          b9 = add_each xg_id (\<lambda>g. ExclusiveGateway (xg_default g)) (sp_exclusive_gateways sp) b8;
          b10 = add_each gw_id (\<lambda>g. ParallelGateway) (sp_parallel_gateways sp) b9;
          b11 = add_each cg_id (\<lambda>g. ComplexGateway (cg_default g) (activation_condition_of g)) (sp_complex_gateways sp) b10;
          b12 = fold (nested_boundary px lk) (sp_boundary_events sp) b11
      in fold add_sequence_flow (sp_sequence_flows sp) b12)"

function flatten_subprocess ::
  "parser_env \<Rightarrow> lookups \<Rightarrow> string \<Rightarrow> bpmn_sub_process \<Rightarrow> definition_builder \<Rightarrow> definition_builder" where
  "flatten_subprocess px lk parent sp b =
     fold (flatten_subprocess px lk (sp_id sp)) (sp_sub_processes sp) (flatten_scope px lk sp b)"
  by pat_completeness auto
termination
  by (relation "measure (\<lambda>(px, lk, parent, sp, b). size sp)") (auto intro: sub_process_smaller)

declare flatten_subprocess.simps [simp del]

definition process_generic_tasks :: "bpmn_process \<Rightarrow> bpmn_generic_task list" where
  "process_generic_tasks p =
     pr_generic_tasks p @ pr_receive_tasks p @ pr_manual_tasks p @ pr_business_rule_tasks p"

text \<open>The phases of \<open>parse_bpmn_xml\<close> on the chosen process, up to the validation.\<close>

definition place_tasks :: "lookups \<Rightarrow> bpmn_process \<Rightarrow> definition_builder \<Rightarrow> definition_builder" where
  "place_tasks lk p b =
     (let b1 = fold (place ee_id ee_extension_elements (end_element lk)) (pr_end_events p) b;
          b2 = fold (place svt_id svt_extension_elements service_element) (pr_service_tasks p) b1;
          b3 = fold (place ust_id ust_extension_elements user_element) (pr_user_tasks p) b2;
          b4 = fold (place sct_id sct_extension_elements script_element) (pr_script_tasks p) b3;
          b5 = fold (place snd_id snd_extension_elements (send_element lk)) (pr_send_tasks p) b4;
          b6 = fold (place gt_id gt_extension_elements generic_element) (process_generic_tasks p) b5
      in fold (place cla_id cla_extension_elements call_element) (pr_call_activities p) b6)"

definition place_gateways :: "bpmn_process \<Rightarrow> definition_builder \<Rightarrow> definition_builder" where
  "place_gateways p b =
     (let fl = flow_lookup (pr_sequence_flows p);
          b1 = fold (place xg_id xg_extension_elements (exclusive_element fl)) (pr_exclusive_gateways p) b;
          b2 = fold (place gw_id gw_extension_elements (\<lambda>g. InclusiveGateway)) (pr_inclusive_gateways p) b1;
          b3 = fold (place gw_id gw_extension_elements (\<lambda>g. ParallelGateway)) (pr_parallel_gateways p) b2;
          b4 = fold (place gw_id gw_extension_elements (\<lambda>g. EventBasedGateway)) (pr_event_based_gateways p) b3
      in fold (place cg_id cg_extension_elements (complex_element fl)) (pr_complex_gateways p) b4)"

definition translate_process ::
  "parser_env \<Rightarrow> lookups \<Rightarrow> bpmn_process \<Rightarrow> (engine_error, definition_builder) outcome" where
  "translate_process px lk p =
     and_then
       (try_place se_id se_extension_elements (start_element px lk) (pr_start_events p)
          (add_listeners (pr_id p) (pr_extension_elements p) (builder_new (pr_id p)))) (\<lambda>b1.
     and_then
       (try_place ice_id ice_extension_elements (catch_element px lk) (pr_catch_events p)
          (place_gateways p (place_tasks lk p b1))) (\<lambda>b2.
     and_then
       (try_place be_id (\<lambda>e. None) (boundary_element px lk) (pr_boundary_events p)
          (fold (place ite_id ite_extension_elements (throw_element lk)) (pr_throw_events p) b2)) (\<lambda>b3.
     Ok (fold (flatten_subprocess px lk (pr_id p)) (pr_sub_processes p)
           (fold add_sequence_flow (pr_sequence_flows p) b3)))))"

definition chosen_process :: "bpmn_process list \<Rightarrow> bpmn_process option" where
  "chosen_process ps =
     (case find (\<lambda>p. pr_is_executable p = Some True) ps of
        Some p \<Rightarrow> Some p
      | None \<Rightarrow> (case ps of [] \<Rightarrow> None | p # _ \<Rightarrow> Some p))"

definition lookups_of :: "bpmn_definitions \<Rightarrow> lookups" where
  "lookups_of defs =
     \<lparr> lk_messages = message_lookup (bd_messages defs), lk_errors = error_lookup (bd_errors defs),
       lk_escalations = escalation_lookup (bd_escalations defs) \<rparr>"

definition parse_bpmn_xml ::
  "parser_env \<Rightarrow> uuid \<Rightarrow> string \<Rightarrow> (engine_error, process_definition) outcome" where
  "parse_bpmn_xml px fresh xml =
     (case px_from_str px xml of
        Inl er \<Rightarrow>
          Err (invalid ''BPMN XML parsing failed (hint: ensure the XML contains a valid <process> element and supported entities): {}''
                 [AStr er])
      | Inr defs \<Rightarrow>
          (case chosen_process (bd_processes defs) of
             None \<Rightarrow> Err (invalid ''No <process> element found in BPMN XML'' [])
           | Some p \<Rightarrow> and_then (translate_process px (lookups_of defs) p) (build fresh)))"

section \<open>Durations: the grammar\<close>

text \<open>
  The texts after the \<open>P\<close> with their value in seconds and their number of parts, read from the left:
  a \<open>T\<close> switches to the units of time, digits and a unit count that many of it.
\<close>

inductive duration_text :: "bool \<Rightarrow> string \<Rightarrow> nat \<Rightarrow> nat \<Rightarrow> bool" where
  dt_end: "duration_text t [] 0 0"
| dt_time: "duration_text True s v k \<Longrightarrow> duration_text t (CHR ''T'' # s) v k"
| dt_part: "ds \<noteq> [] \<Longrightarrow> list_all is_digit ds \<Longrightarrow> unit_secs t u = Some m \<Longrightarrow> duration_text t s v k \<Longrightarrow>
    duration_text t (ds @ u # s) (digits_val 0 ds * m + v) (Suc k)"

lemma not_digits [simp]: "\<not> is_digit CHR ''T''" "\<not> is_digit CHR ''P''" "\<not> is_digit CHR ''+''"
  by (simp_all add: is_digit_def)

lemma unit_not_digit: "unit_secs t u = Some m \<Longrightarrow> \<not> is_digit u \<and> u \<noteq> CHR ''T'' \<and> 0 < m"
  by (auto simp: unit_secs_def is_digit_def split: if_splits)

lemma parse_unsigned_digits:
  assumes "ds \<noteq> []" "list_all is_digit ds"
  shows "parse_unsigned n ds = (if digits_val 0 ds < 2 ^ n then Some (digits_val 0 ds) else None)"
  using assms by (cases ds) (auto simp: parse_unsigned_def)

lemma duration_loop_digits:
  "list_all is_digit ds \<Longrightarrow>
    duration_loop s0 (ds @ r) secs num t hv = duration_loop s0 r secs (num @ ds) t hv"
  by (induction ds arbitrary: num) auto

lemma duration_loop_complete:
  assumes "duration_text t s v k" "secs + v < 2 ^ 64" "hv \<or> 0 < k"
  shows "duration_loop s0 s secs [] t hv = Ok (secs + v)"
  using assms
proof (induction arbitrary: secs hv rule: duration_text.induct)
  case (dt_part ds t u m s v k)
  have m: "digits_val 0 ds * m < 2 ^ 64" "secs + digits_val 0 ds * m < 2 ^ 64" using dt_part.prems by simp_all
  have "digits_val 0 ds \<le> digits_val 0 ds * m" using unit_not_digit [OF dt_part.hyps(3)] by simp
  with m have "digits_val 0 ds < 2 ^ 64" by linarith
  with m show ?case
    using dt_part.IH [of "secs + digits_val 0 ds * m" True] dt_part.hyps dt_part.prems unit_not_digit [OF dt_part.hyps(3)]
    by (simp add: duration_loop_digits parse_unsigned_digits add.assoc)
qed auto

lemma duration_loop_sound:
  assumes "duration_loop s0 s secs num t hv = Ok n" "list_all is_digit num" "secs < 2 ^ 64"
  shows "\<exists>v k. duration_text t (num @ s) v k \<and> n = secs + v \<and> (hv \<or> 0 < k) \<and> n < 2 ^ 64"
  using assms
proof (induction s0 s secs num t hv rule: duration_loop.induct)
  case (1 s secs num t hv)
  then show ?case using dt_end by (auto split: if_splits)
next
  case (2 s c cs secs num t hv)
  consider "c = CHR ''T''" | "c \<noteq> CHR ''T''" "is_digit c" | "c \<noteq> CHR ''T''" "\<not> is_digit c" by blast
  then show ?case
  proof cases
    case 1
    with "2.prems" have "num = []" "duration_loop s cs secs num True hv = Ok n" by (auto split: if_splits)
    with "2.IH"(1) [OF 1] "2.prems"(3) 1 show ?thesis by (auto intro: dt_time)
  next
    case 2
    with "2.prems" "2.IH"(2) [OF 2] show ?thesis by simp
  next
    case 3
    from "2.prems"(1) 3 obtain val m where v: "num \<noteq> []" "parse_unsigned 64 num = Some val" "unit_secs t c = Some m"
      and le: "\<not> 2 ^ 64 \<le> val * m" "\<not> 2 ^ 64 \<le> secs + val * m"
      and run: "duration_loop s cs (secs + val * m) [] t True = Ok n"
      by (auto simp: and_then_Ok_iff split: if_splits)
    have val: "val = digits_val 0 num"
      using v "2.prems"(2) by (auto simp: parse_unsigned_digits split: if_splits)
    from "2.IH"(3) [OF 3 v(1) le run] v(2,3) le obtain w k
      where "duration_text t cs w k" "n = secs + val * m + w" "n < 2 ^ 64" by auto
    with dt_part [OF v(1) "2.prems"(2) v(3)] val show ?thesis by fastforce
  qed
qed

text \<open>
  C28. The duration parser accepts exactly the texts of the grammar with at least one part whose value
  fits into 64 bits, and returns that value: it never wraps around, and rejects what would.
\<close>

theorem duration_parser_meets_the_grammar:
  "parse_iso8601_duration s = Ok d \<longleftrightarrow>
     (\<exists>body v k. trim s = CHR ''P'' # body \<and> duration_text False body v k \<and> 0 < k \<and>
        v < 2 ^ 64 \<and> d = from_secs v)"
proof
  assume "parse_iso8601_duration s = Ok d"
  then obtain n where p: "starts_with (trim s) ''P''" "trim s \<noteq> []"
    and run: "duration_loop (trim s) (drop 1 (trim s)) 0 [] False False = Ok n" and d: "d = from_secs n"
    by (auto simp: parse_iso8601_duration_def Let_def and_then_Ok_iff split: if_splits)
  from p obtain body where b: "trim s = CHR ''P'' # body" by (auto simp: starts_with_iff)
  from duration_loop_sound [OF run] b d
  show "\<exists>body v k. trim s = CHR ''P'' # body \<and> duration_text False body v k \<and> 0 < k \<and>
      v < 2 ^ 64 \<and> d = from_secs v"
    by auto
next
  assume "\<exists>body v k. trim s = CHR ''P'' # body \<and> duration_text False body v k \<and> 0 < k \<and>
      v < 2 ^ 64 \<and> d = from_secs v"
  then obtain body v k where b: "trim s = CHR ''P'' # body" "duration_text False body v k" "0 < k"
    "v < 2 ^ 64" "d = from_secs v" by blast
  then have "duration_loop (trim s) body 0 [] False False = Ok v"
    using duration_loop_complete [of False body v k 0 False] by simp
  moreover have "body \<noteq> []" using b(2,3) by (auto elim: duration_text.cases)
  ultimately show "parse_iso8601_duration s = Ok d"
    using b(1,5) by (simp add: parse_iso8601_duration_def Let_def)
qed

section \<open>What a parsed document becomes\<close>

text \<open>
  The graph the document describes, written down in one piece: the nodes of a process and its
  sub-processes in the order the parser visits them, and their flows.
\<close>

fun the_ok :: "(engine_error, 'a) outcome \<Rightarrow> 'a" where
  "the_ok (Ok x) = x"

definition nodes_by :: "('x \<Rightarrow> string) \<Rightarrow> ('x \<Rightarrow> element) \<Rightarrow> 'x list \<Rightarrow> (string \<times> element) list" where
  "nodes_by ident el = map (\<lambda>x. (ident x, el x))"

definition nested_boundary_element :: "parser_env \<Rightarrow> lookups \<Rightarrow> bpmn_boundary_event \<Rightarrow> element option" where
  "nested_boundary_element px lk e =
     (case be_timer e of
        None \<Rightarrow> untimed_boundary lk e
      | Some timer \<Rightarrow>
          (case parse_timer_definition px timer of
             Ok t \<Rightarrow> Some (BoundaryTimerEvent (be_attached_to_ref e) t (unwrap_or True (be_cancel_activity e)))
           | _ \<Rightarrow> None))"

definition scope_nodes :: "parser_env \<Rightarrow> lookups \<Rightarrow> bpmn_sub_process \<Rightarrow> (string \<times> element) list" where
  "scope_nodes px lk sp =
     (sp_id sp, EmbeddedSubProcess (sub_process_start sp)) #
     nodes_by se_id (\<lambda>s. ServiceTask ''noop'' None) (sp_start_events sp) @
     nodes_by ee_id (\<lambda>e. SubProcessEndEvent (sp_id sp)) (sp_end_events sp) @
     nodes_by svt_id service_element (sp_service_tasks sp) @
     nodes_by sct_id (\<lambda>t. ScriptTask (script_content t) (parse_multi_instance (sct_multi_instance t)))
       (sp_script_tasks sp) @
     nodes_by ust_id user_element (sp_user_tasks sp) @
     nodes_by gt_id generic_element (sub_process_generic_tasks sp) @
     nodes_by cla_id call_element (sp_call_activities sp) @
     nodes_by xg_id (\<lambda>g. ExclusiveGateway (xg_default g)) (sp_exclusive_gateways sp) @
     nodes_by gw_id (\<lambda>g. ParallelGateway) (sp_parallel_gateways sp) @
     nodes_by cg_id (\<lambda>g. ComplexGateway (cg_default g) (activation_condition_of g)) (sp_complex_gateways sp) @
     List.map_filter (\<lambda>e. map_option (Pair (be_id e)) (nested_boundary_element px lk e)) (sp_boundary_events sp)"

function sub_nodes :: "parser_env \<Rightarrow> lookups \<Rightarrow> bpmn_sub_process \<Rightarrow> (string \<times> element) list" where
  "sub_nodes px lk sp = scope_nodes px lk sp @ concat (map (sub_nodes px lk) (sp_sub_processes sp))"
  by pat_completeness auto
termination
  by (relation "measure (\<lambda>(px, lk, sp). size sp)") (auto intro: sub_process_smaller)

function sub_flows :: "bpmn_sub_process \<Rightarrow> bpmn_sequence_flow list" where
  "sub_flows sp = sp_sequence_flows sp @ concat (map sub_flows (sp_sub_processes sp))"
  by pat_completeness auto
termination
  by (relation "measure size") (auto intro: sub_process_smaller)

declare sub_nodes.simps [simp del] sub_flows.simps [simp del]

definition task_nodes :: "lookups \<Rightarrow> bpmn_process \<Rightarrow> (string \<times> element) list" where
  "task_nodes lk p =
     nodes_by ee_id (end_element lk) (pr_end_events p) @
     nodes_by svt_id service_element (pr_service_tasks p) @
     nodes_by ust_id user_element (pr_user_tasks p) @
     nodes_by sct_id script_element (pr_script_tasks p) @
     nodes_by snd_id (send_element lk) (pr_send_tasks p) @
     nodes_by gt_id generic_element (process_generic_tasks p) @
     nodes_by cla_id call_element (pr_call_activities p)"

definition gateway_nodes :: "bpmn_process \<Rightarrow> (string \<times> element) list" where
  "gateway_nodes p =
     (let fl = flow_lookup (pr_sequence_flows p)
      in nodes_by xg_id (exclusive_element fl) (pr_exclusive_gateways p) @
         nodes_by gw_id (\<lambda>g. InclusiveGateway) (pr_inclusive_gateways p) @
         nodes_by gw_id (\<lambda>g. ParallelGateway) (pr_parallel_gateways p) @
         nodes_by gw_id (\<lambda>g. EventBasedGateway) (pr_event_based_gateways p) @
         nodes_by cg_id (complex_element fl) (pr_complex_gateways p))"

definition process_nodes :: "parser_env \<Rightarrow> lookups \<Rightarrow> bpmn_process \<Rightarrow> (string \<times> element) list" where
  "process_nodes px lk p =
     nodes_by se_id (\<lambda>x. the_ok (start_element px lk x)) (pr_start_events p) @
     task_nodes lk p @ gateway_nodes p @
     nodes_by ice_id (\<lambda>x. the_ok (catch_element px lk x)) (pr_catch_events p) @
     nodes_by ite_id (throw_element lk) (pr_throw_events p) @
     nodes_by be_id (\<lambda>x. the_ok (boundary_element px lk x)) (pr_boundary_events p) @
     concat (map (sub_nodes px lk) (pr_sub_processes p))"

definition process_flows :: "bpmn_process \<Rightarrow> bpmn_sequence_flow list" where
  "process_flows p = pr_sequence_flows p @ concat (map sub_flows (pr_sub_processes p))"

definition flow_of :: "bpmn_sequence_flow \<Rightarrow> seq_flow" where
  "flow_of f =
     \<lparr>sf_target = bsf_target_ref f,
      sf_condition = map_option (\<lambda>c. trim (bce_value c)) (bsf_condition_expression f)\<rparr>"

definition outgoing_flows :: "bpmn_sequence_flow list \<Rightarrow> string \<Rightarrow> seq_flow list" where
  "outgoing_flows fs n = map flow_of (filter (\<lambda>f. bsf_source_ref f = n) fs)"

text \<open>One step of the builder: \<open>adds b ns fs b'\<close> says that \<open>b'\<close> is \<open>b\<close> with these nodes and flows.\<close>

definition adds ::
  "definition_builder \<Rightarrow> (string \<times> element) list \<Rightarrow> bpmn_sequence_flow list \<Rightarrow> definition_builder \<Rightarrow> bool" where
  "adds b ns fs b' \<longleftrightarrow>
     db_nodes b' = textend (db_nodes b) ns \<and>
     (\<forall>n. outgoing_of (db_flows b') n = outgoing_of (db_flows b) n @ outgoing_flows fs n) \<and>
     db_id b' = db_id b \<and> db_key b' = db_key b \<and> db_version b' = db_version b \<and>
     db_sub_processes b' = db_sub_processes b \<and> db_event_listeners b' = db_event_listeners b"

lemma adds_refl [simp]: "adds b [] [] b"
  by (simp add: adds_def outgoing_flows_def)

lemma adds_trans: "adds b ns fs b1 \<Longrightarrow> adds b1 ns' fs' b2 \<Longrightarrow> adds b (ns @ ns') (fs @ fs') b2"
  by (simp add: adds_def outgoing_flows_def textend_append)

lemma adds_node: "adds b [(n, el)] [] (add_node n el b)"
  by (simp add: adds_def add_node_def outgoing_flows_def)

lemma adds_listeners: "adds b [] [] (add_listeners n ext b)"
proof -
  have "adds b [] [] (fold (add_execution_listener n) ls b)" for ls
  proof (induction ls arbitrary: b)
    case (Cons l ls)
    have "adds b [] [] (add_execution_listener n l b)"
      by (simp add: add_execution_listener_def add_listener_def adds_def outgoing_flows_def split: option.split)
    from adds_trans [OF this Cons] show ?case by simp
  qed simp
  then show ?thesis by (simp add: add_listeners_def split: option.split)
qed

lemma adds_place: "adds b [(ident x, el x)] [] (place ident ext el x b)"
  using adds_trans [OF adds_node adds_listeners] by (simp add: place_def)

lemma adds_fold:
  assumes "\<And>x b. x \<in> set xs \<Longrightarrow> adds b (ns x) (fs x) (step x b)"
  shows "adds b (concat (map ns xs)) (concat (map fs xs)) (fold step xs b)"
  using assms
proof (induction xs arbitrary: b)
  case (Cons x xs)
  then show ?case using adds_trans [OF Cons.prems [of x b] Cons.IH [of "step x b"]] by simp
qed simp

lemma concat_singles [simp]:
  "concat (map (\<lambda>x. [f x]) xs) = map f xs" "concat (map (\<lambda>x. []) xs) = []"
  by (induction xs) auto

lemma adds_places: "adds b (nodes_by ident el xs) [] (fold (place ident ext el) xs b)"
  using adds_fold [of xs "\<lambda>x. [(ident x, el x)]" "\<lambda>x. []" "place ident ext el" b, OF adds_place]
  by (simp add: nodes_by_def)

lemma adds_each: "adds b (nodes_by ident el xs) [] (add_each ident el xs b)"
  using adds_fold [of xs "\<lambda>x. [(ident x, el x)]" "\<lambda>x. []" "\<lambda>x. add_node (ident x) (el x)" b, OF adds_node]
  by (simp add: nodes_by_def add_each_def)

lemma try_place_Ok:
  "try_place ident ext el xs b = Ok b' \<Longrightarrow>
    b' = fold (place ident ext (\<lambda>x. the_ok (el x))) xs b \<and> (\<forall>x \<in> set xs. \<exists>y. el x = Ok y)"
  by (induction xs arbitrary: b) (auto simp: and_then_Ok_iff place_def)

lemma outgoing_tpush: "outgoing_of (tpush k x t) n = outgoing_of t n @ (if k = n then [x] else [])"
  by (simp add: tpush_def outgoing_of_def tget_tput split: option.split)

lemma adds_flow: "adds b [] [f] (add_sequence_flow f b)"
  by (simp add: adds_def add_sequence_flow_def add_flow_def add_conditional_flow_def outgoing_tpush
      outgoing_flows_def flow_of_def simple_flow_def conditional_flow_def split: option.split)

lemma adds_flows: "adds b [] fs (fold add_sequence_flow fs b)"
  using adds_fold [of fs "\<lambda>f. []" "\<lambda>f. [f]" add_sequence_flow b, OF adds_flow] by simp

lemma adds_nested_boundaries:
  "adds b (List.map_filter (\<lambda>e. map_option (Pair (be_id e)) (nested_boundary_element px lk e)) es) []
     (fold (nested_boundary px lk) es b)"
proof (induction es arbitrary: b)
  case (Cons e es)
  have "adds b (case nested_boundary_element px lk e of None \<Rightarrow> [] | Some el \<Rightarrow> [(be_id e, el)]) []
      (nested_boundary px lk e b)"
    by (auto simp: nested_boundary_def nested_boundary_element_def adds_node split: option.split outcome.split)
  from adds_trans [OF this Cons.IH] show ?case
    by (cases "nested_boundary_element px lk e") (simp_all add: map_filter_simps)
qed (simp add: map_filter_simps)

text \<open>The same, as rules that go through the loops from the front.\<close>

lemma adds_then: "adds b ns [] b1 \<Longrightarrow> adds b1 ns' fs b2 \<Longrightarrow> adds b (ns @ ns') fs b2"
  using adds_trans [of b ns "[]" b1 ns' fs b2] by simp

lemma adds_first: "adds (add_node n el b) ns fs b1 \<Longrightarrow> adds b ((n, el) # ns) fs b1"
  using adds_trans [OF adds_node] by fastforce

lemma adds_last: "adds b ns [] b1 \<Longrightarrow> adds b1 [] fs b2 \<Longrightarrow> adds b ns fs b2"
  using adds_trans [of b ns "[]" b1 "[]" fs b2] by simp

lemma adds_scope: "adds b (scope_nodes px lk sp) (sp_sequence_flows sp) (flatten_scope px lk sp b)"
  unfolding flatten_scope_def Let_def scope_nodes_def
  by (rule adds_first, (rule adds_then [OF adds_each])+, rule adds_last [OF adds_nested_boundaries], rule adds_flows)

lemma adds_sub_process: "adds b (sub_nodes px lk sp) (sub_flows sp) (flatten_subprocess px lk parent sp b)"
proof (induction px lk parent sp b rule: flatten_subprocess.induct)
  case (1 px lk parent sp b)
  have "adds (flatten_scope px lk sp b) (concat (map (sub_nodes px lk) (sp_sub_processes sp)))
      (concat (map sub_flows (sp_sub_processes sp)))
      (fold (flatten_subprocess px lk (sp_id sp)) (sp_sub_processes sp) (flatten_scope px lk sp b))"
    by (rule adds_fold) (rule 1)
  from adds_trans [OF adds_scope this] show ?case
    by (simp add: flatten_subprocess.simps [of px lk parent] sub_nodes.simps [of px lk sp] sub_flows.simps [of sp])
qed

lemma adds_tasks: "adds b (task_nodes lk p) [] (place_tasks lk p b)"
  unfolding place_tasks_def Let_def task_nodes_def by (rule adds_then adds_places)+

lemma adds_gateways: "adds b (gateway_nodes p) [] (place_gateways p b)"
  unfolding place_gateways_def Let_def gateway_nodes_def by (rule adds_then adds_places)+

lemma adds_try_place:
  "try_place ident ext el xs b = Ok b' \<Longrightarrow> adds b (nodes_by ident (\<lambda>x. the_ok (el x)) xs) [] b'"
  by (drule try_place_Ok) (simp add: adds_places)

lemma translate_adds:
  assumes "translate_process px lk p = Ok b"
  shows "adds (builder_new (pr_id p)) (process_nodes px lk p) (process_flows p) b"
    and "\<forall>e \<in> set (pr_start_events p). \<exists>el. start_element px lk e = Ok el"
    and "\<forall>e \<in> set (pr_catch_events p). \<exists>el. catch_element px lk e = Ok el"
    and "\<forall>e \<in> set (pr_boundary_events p). \<exists>el. boundary_element px lk e = Ok el"
proof -
  let ?b0 = "add_listeners (pr_id p) (pr_extension_elements p) (builder_new (pr_id p))"
  from assms obtain b1 b2 b3 where
    s: "try_place se_id se_extension_elements (start_element px lk) (pr_start_events p) ?b0 = Ok b1"
    and c: "try_place ice_id ice_extension_elements (catch_element px lk) (pr_catch_events p)
          (place_gateways p (place_tasks lk p b1)) = Ok b2"
    and e: "try_place be_id (\<lambda>e. None) (boundary_element px lk) (pr_boundary_events p)
          (fold (place ite_id ite_extension_elements (throw_element lk)) (pr_throw_events p) b2) = Ok b3"
    and b: "b = fold (flatten_subprocess px lk (pr_id p)) (pr_sub_processes p)
           (fold add_sequence_flow (pr_sequence_flows p) b3)"
    by (auto simp: translate_process_def and_then_Ok_iff)
  show "\<forall>e \<in> set (pr_start_events p). \<exists>el. start_element px lk e = Ok el"
    "\<forall>e \<in> set (pr_catch_events p). \<exists>el. catch_element px lk e = Ok el"
    "\<forall>e \<in> set (pr_boundary_events p). \<exists>el. boundary_element px lk e = Ok el"
    using try_place_Ok [OF s] try_place_Ok [OF c] try_place_Ok [OF e] by simp_all
  have subs: "adds b' (concat (map (sub_nodes px lk) (pr_sub_processes p)))
      (concat (map sub_flows (pr_sub_processes p)))
      (fold (flatten_subprocess px lk (pr_id p)) (pr_sub_processes p) b')" for b'
    by (rule adds_fold) (rule adds_sub_process)
  have flows: "adds b3 (concat (map (sub_nodes px lk) (pr_sub_processes p))) (process_flows p) b"
    using adds_trans [OF adds_flows subs] by (simp add: b process_flows_def)
  have start: "adds (builder_new (pr_id p)) (nodes_by se_id (\<lambda>x. the_ok (start_element px lk x)) (pr_start_events p)) [] b1"
    using adds_then [OF adds_listeners adds_try_place [OF s]] by simp
  show "adds (builder_new (pr_id p)) (process_nodes px lk p) (process_flows p) b"
    unfolding process_nodes_def
    by (rule adds_then start adds_tasks adds_gateways adds_try_place [OF c] adds_places adds_try_place [OF e] flows)+
qed

lemma parse_Ok:
  assumes "parse_bpmn_xml px fresh xml = Ok d"
  obtains defs p b where "px_from_str px xml = Inr defs" "chosen_process (bd_processes defs) = Some p"
    "translate_process px (lookups_of defs) p = Ok b" "build fresh b = Ok d"
  using assms by (auto simp: parse_bpmn_xml_def and_then_Ok_iff split: sum.splits option.splits)

lemma build_adds:
  assumes "build fresh b = Ok d" "adds (builder_new i) ns fs b"
  shows "pd_key d = fresh" "pd_id d = i" "pd_version d = 1" "pd_nodes d = tcollect ns"
    "next_nodes d n = outgoing_flows fs n" "well_formed_graph (pd_nodes d) (pd_flows d)"
  using assms
  by (auto simp: build_def and_then_Ok_iff new_definition_Ok_iff adds_def builder_new_def next_nodes_def
      outgoing_of_def [of "[]"] tcollect_def split: option.splits)

lemma chosen_process_cases:
  "chosen_process ps = Some p \<Longrightarrow>
    p \<in> set ps \<and> (pr_is_executable p = Some True \<or> (\<forall>q \<in> set ps. pr_is_executable q \<noteq> Some True) \<and> p = hd ps)"
  by (auto simp: chosen_process_def find_Some_iff find_None_iff split: option.splits list.splits)

text \<open>
  C29. A document that is accepted gives a definition of one of its processes, the executable one if it
  has any, under that process's identifier, in version 1 and with a fresh key, whose graph passes every
  check of the engine; and none of the start, catch and boundary events that stand in that process itself
  has a timer that cannot be parsed. (Inside a sub-process the parser does not read the timers of start and
  catch events, and passes over a boundary event whose timer it cannot parse: see the next property.)
\<close>

theorem parsed_documents_are_valid:
  assumes "parse_bpmn_xml px fresh xml = Ok d"
  shows "\<exists>defs p. px_from_str px xml = Inr defs \<and> p \<in> set (bd_processes defs) \<and>
    (pr_is_executable p \<noteq> Some True \<longrightarrow> (\<forall>q \<in> set (bd_processes defs). pr_is_executable q \<noteq> Some True)) \<and>
    pd_id d = pr_id p \<and> pd_version d = 1 \<and> pd_key d = fresh \<and>
    well_formed_graph (pd_nodes d) (pd_flows d) \<and>
    (\<forall>t. Some t \<in> set (map se_timer (pr_start_events p) @ map ice_timer (pr_catch_events p) @
               map be_timer (pr_boundary_events p)) \<longrightarrow>
       (\<exists>def. parse_timer_definition px t = Ok def))"
proof -
  from assms obtain defs p b where defs: "px_from_str px xml = Inr defs"
    and p: "chosen_process (bd_processes defs) = Some p"
    and tr: "translate_process px (lookups_of defs) p = Ok b" and bd: "build fresh b = Ok d" by (rule parse_Ok)
  note facts = build_adds [OF bd translate_adds(1) [OF tr]]
  have timers: "\<exists>def. parse_timer_definition px t = Ok def"
    if "Some t \<in> set (map se_timer (pr_start_events p) @ map ice_timer (pr_catch_events p) @
               map be_timer (pr_boundary_events p))" for t
    using that translate_adds(2-4) [OF tr]
    by (fastforce simp: start_element_def catch_element_def boundary_element_def and_then_Ok_iff
        split: option.splits)
  show ?thesis
    by (rule exI [of _ defs], rule exI [of _ p]) (use facts defs chosen_process_cases [OF p] timers in blast)
qed

text \<open>
  The nodes as the parser translates them, a later one replacing an earlier one of the same identifier.
\<close>

lemma parsed_nodes:
  assumes "px_from_str px xml = Inr defs" and "chosen_process (bd_processes defs) = Some p"
    and "parse_bpmn_xml px fresh xml = Ok d"
  shows "pd_nodes d = tcollect (process_nodes px (lookups_of defs) p) \<and>
    get_node d n = map_of (rev (process_nodes px (lookups_of defs) p)) n \<and>
    next_nodes d n = outgoing_flows (process_flows p) n"
proof -
  from assms obtain b where tr: "translate_process px (lookups_of defs) p = Ok b" and bd: "build fresh b = Ok d"
    by (auto elim: parse_Ok)
  from build_adds [OF bd translate_adds(1) [OF tr]] show ?thesis
    by (simp add: get_node_def tget_tcollect)
qed

section \<open>The document, kind by kind\<close>

text \<open>
  The kinds of elements a document has, and the elements of the engine each of them may become. A task whose
  script is empty, and an event without a definition, become service tasks.
\<close>

datatype doc_kind =
    DStart | DEnd | DServiceTask | DUserTask | DScriptTask | DSendTask | DOtherTask | DCall
  | DExclusive | DInclusive | DParallel | DEventBased | DComplex | DCatch | DThrow | DBoundary string
  | DSubProcess | DInnerStart | DInnerEnd string

fun becomes :: "doc_kind \<Rightarrow> element \<Rightarrow> bool" where
  "becomes DStart el = (case el of StartEvent \<Rightarrow> True | TimerStartEvent t \<Rightarrow> True | MessageStartEvent m \<Rightarrow> True | _ \<Rightarrow> False)"
| "becomes DEnd el =
     (case el of EndEvent \<Rightarrow> True | TerminateEndEvent \<Rightarrow> True | ErrorEndEvent c \<Rightarrow> True | EscalationEndEvent c \<Rightarrow> True
      | CompensationEndEvent a \<Rightarrow> True | _ \<Rightarrow> False)"
| "becomes DServiceTask el = (case el of ServiceTask t m \<Rightarrow> True | _ \<Rightarrow> False)"
| "becomes DUserTask el = (case el of UserTask a \<Rightarrow> True | _ \<Rightarrow> False)"
| "becomes DScriptTask el = (case el of ScriptTask s m \<Rightarrow> True | ServiceTask t m \<Rightarrow> True | _ \<Rightarrow> False)"
| "becomes DSendTask el = (case el of SendTask t m \<Rightarrow> True | _ \<Rightarrow> False)"
| "becomes DOtherTask el = (case el of ServiceTask t m \<Rightarrow> True | _ \<Rightarrow> False)"
| "becomes DCall el = (case el of CallActivity c \<Rightarrow> True | _ \<Rightarrow> False)"
| "becomes DExclusive el = (case el of ExclusiveGateway d \<Rightarrow> True | _ \<Rightarrow> False)"
| "becomes DInclusive el = (el = InclusiveGateway)"
| "becomes DParallel el = (el = ParallelGateway)"
| "becomes DEventBased el = (el = EventBasedGateway)"
| "becomes DComplex el = (case el of ComplexGateway c d \<Rightarrow> True | _ \<Rightarrow> False)"
| "becomes DCatch el =
     (case el of TimerCatchEvent t \<Rightarrow> True | MessageCatchEvent m \<Rightarrow> True | ServiceTask t m \<Rightarrow> True | _ \<Rightarrow> False)"
| "becomes DThrow el =
     (case el of SendTask t m \<Rightarrow> True | EscalationThrowEvent c \<Rightarrow> True | CompensationThrowEvent a \<Rightarrow> True
      | ServiceTask t m \<Rightarrow> True | _ \<Rightarrow> False)"
| "becomes (DBoundary host) el = (boundary_host el = Some host \<or> (\<exists>t m. el = ServiceTask t m))"
| "becomes DSubProcess el = (case el of EmbeddedSubProcess s \<Rightarrow> True | _ \<Rightarrow> False)"
| "becomes DInnerStart el = (el = ServiceTask ''noop'' None)"
| "becomes (DInnerEnd sub) el = (el = SubProcessEndEvent sub)"

text \<open>The elements of a process, and those of a sub-process that the engine knows inside one.\<close>

definition boundary_known :: "parser_env \<Rightarrow> bpmn_boundary_event \<Rightarrow> bool" where
  "boundary_known px e \<longleftrightarrow>
     (case be_timer e of
        Some t \<Rightarrow> (case parse_timer_definition px t of Ok d \<Rightarrow> True | _ \<Rightarrow> False)
      | None \<Rightarrow> be_message e \<noteq> None \<or> be_error e \<noteq> None \<or> be_escalation e \<noteq> None \<or> be_compensate e \<noteq> None)"

definition scope_elements :: "parser_env \<Rightarrow> bpmn_sub_process \<Rightarrow> (string \<times> doc_kind) list" where
  "scope_elements px sp =
     (sp_id sp, DSubProcess) #
     map (\<lambda>x. (se_id x, DInnerStart)) (sp_start_events sp) @
     map (\<lambda>x. (ee_id x, DInnerEnd (sp_id sp))) (sp_end_events sp) @
     map (\<lambda>x. (svt_id x, DServiceTask)) (sp_service_tasks sp) @
     map (\<lambda>x. (sct_id x, DScriptTask)) (sp_script_tasks sp) @
     map (\<lambda>x. (ust_id x, DUserTask)) (sp_user_tasks sp) @
     map (\<lambda>x. (gt_id x, DOtherTask))
       (sp_generic_tasks sp @ sp_receive_tasks sp @ sp_manual_tasks sp @ sp_business_rule_tasks sp) @
     map (\<lambda>x. (cla_id x, DCall)) (sp_call_activities sp) @
     map (\<lambda>x. (xg_id x, DExclusive)) (sp_exclusive_gateways sp) @
     map (\<lambda>x. (gw_id x, DParallel)) (sp_parallel_gateways sp) @
     map (\<lambda>x. (cg_id x, DComplex)) (sp_complex_gateways sp) @
     map (\<lambda>x. (be_id x, DBoundary (be_attached_to_ref x))) (filter (boundary_known px) (sp_boundary_events sp))"

text \<open>The sub-processes of a process with those inside them, each before its own.\<close>

function inner_scopes :: "bpmn_sub_process \<Rightarrow> bpmn_sub_process list" where
  "inner_scopes sp = sp # concat (map inner_scopes (sp_sub_processes sp))"
  by pat_completeness auto
termination
  by (relation "measure size") (auto intro: sub_process_smaller)

declare inner_scopes.simps [simp del]

definition process_scopes :: "bpmn_process \<Rightarrow> bpmn_sub_process list" where
  "process_scopes p = concat (map inner_scopes (pr_sub_processes p))"

definition process_elements :: "parser_env \<Rightarrow> bpmn_process \<Rightarrow> (string \<times> doc_kind) list" where
  "process_elements px p =
     map (\<lambda>x. (se_id x, DStart)) (pr_start_events p) @
     map (\<lambda>x. (ee_id x, DEnd)) (pr_end_events p) @
     map (\<lambda>x. (svt_id x, DServiceTask)) (pr_service_tasks p) @
     map (\<lambda>x. (ust_id x, DUserTask)) (pr_user_tasks p) @
     map (\<lambda>x. (sct_id x, DScriptTask)) (pr_script_tasks p) @
     map (\<lambda>x. (snd_id x, DSendTask)) (pr_send_tasks p) @
     map (\<lambda>x. (gt_id x, DOtherTask))
       (pr_generic_tasks p @ pr_receive_tasks p @ pr_manual_tasks p @ pr_business_rule_tasks p) @
     map (\<lambda>x. (cla_id x, DCall)) (pr_call_activities p) @
     map (\<lambda>x. (xg_id x, DExclusive)) (pr_exclusive_gateways p) @
     map (\<lambda>x. (gw_id x, DInclusive)) (pr_inclusive_gateways p) @
     map (\<lambda>x. (gw_id x, DParallel)) (pr_parallel_gateways p) @
     map (\<lambda>x. (gw_id x, DEventBased)) (pr_event_based_gateways p) @
     map (\<lambda>x. (cg_id x, DComplex)) (pr_complex_gateways p) @
     map (\<lambda>x. (ice_id x, DCatch)) (pr_catch_events p) @
     map (\<lambda>x. (ite_id x, DThrow)) (pr_throw_events p) @
     map (\<lambda>x. (be_id x, DBoundary (be_attached_to_ref x))) (pr_boundary_events p) @
     concat (map (scope_elements px) (process_scopes p))"

text \<open>The elements inside sub-processes that the parser passes over.\<close>

definition scope_left_out :: "parser_env \<Rightarrow> bpmn_sub_process \<Rightarrow> string list" where
  "scope_left_out px sp =
     map snd_id (sp_send_tasks sp) @ map gw_id (sp_inclusive_gateways sp) @ map gw_id (sp_event_based_gateways sp) @
     map ice_id (sp_catch_events sp) @ map ite_id (sp_throw_events sp) @
     map be_id (filter (\<lambda>e. \<not> boundary_known px e) (sp_boundary_events sp))"

text \<open>Element by element, what the parser makes is of the kind the document says.\<close>

definition same_node :: "string \<times> doc_kind \<Rightarrow> string \<times> element \<Rightarrow> bool" where
  "same_node dk ne \<longleftrightarrow> fst dk = fst ne \<and> becomes (snd dk) (snd ne)"

lemma same_nodes_by:
  "(\<And>x. x \<in> set xs \<Longrightarrow> becomes (k x) (el x)) \<Longrightarrow>
     list_all2 same_node (map (\<lambda>x. (ident x, k x)) xs) (nodes_by ident el xs)"
  by (simp add: nodes_by_def list_all2_conv_all_nth same_node_def)

lemma same_lookup:
  "list_all2 same_node ks ns \<Longrightarrow> rel_option becomes (map_of (rev ks) n) (map_of (rev ns) n)"
proof -
  assume "list_all2 same_node ks ns"
  then have "list_all2 same_node (rev ks) (rev ns)" by simp
  then show ?thesis
    by (induction rule: list_all2_induct) (auto simp: same_node_def)
qed

lemma becomes_translated:
  "becomes DEnd (end_element lk x1)" "becomes DServiceTask (service_element x2)" "becomes DUserTask (user_element x3)"
  "becomes DScriptTask (script_element x4)" "becomes DSendTask (send_element lk x5)" "becomes DOtherTask (generic_element x6)"
  "becomes DCall (call_element x7)" "becomes DExclusive (exclusive_element fl x8)" "becomes DComplex (complex_element fl x9)"
  "becomes DThrow (throw_element lk x10)"
  "start_element px lk x11 = Ok el11 \<Longrightarrow> becomes DStart el11"
  "catch_element px lk x12 = Ok el12 \<Longrightarrow> becomes DCatch el12"
  by (auto simp: end_element_def service_element_def user_element_def script_element_def send_element_def
      generic_element_def call_element_def exclusive_element_def complex_element_def throw_element_def
      start_element_def catch_element_def and_then_Ok_iff split: option.splits)

lemma untimed_boundary_cases:
  "untimed_boundary lk x = None \<longleftrightarrow>
     \<not> (be_message x \<noteq> None \<or> be_error x \<noteq> None \<or> be_escalation x \<noteq> None \<or> be_compensate x \<noteq> None)"
  "untimed_boundary lk x = Some el \<Longrightarrow> boundary_host el = Some (be_attached_to_ref x)"
  by (auto simp: untimed_boundary_def Let_def split: option.splits if_splits)

lemma becomes_boundary:
  "boundary_element px lk x = Ok el \<Longrightarrow> becomes (DBoundary (be_attached_to_ref x)) el"
  using untimed_boundary_cases(2) [of lk x]
  by (cases "untimed_boundary lk x") (auto simp: boundary_element_def and_then_Ok_iff split: option.splits)

lemma becomes_nested_boundary:
  "nested_boundary_element px lk x = Some el \<Longrightarrow> becomes (DBoundary (be_attached_to_ref x)) el"
  using untimed_boundary_cases(2) [of lk x el]
  by (auto simp: nested_boundary_element_def split: option.splits outcome.splits)

lemma nested_boundary_known: "nested_boundary_element px lk x = None \<longleftrightarrow> \<not> boundary_known px x"
  by (simp add: nested_boundary_element_def boundary_known_def untimed_boundary_cases(1)
      split: option.splits outcome.splits)

lemma same_boundaries:
  "list_all2 same_node (map (\<lambda>x. (be_id x, DBoundary (be_attached_to_ref x))) (filter (boundary_known px) es))
     (List.map_filter (\<lambda>e. map_option (Pair (be_id e)) (nested_boundary_element px lk e)) es)"
proof (induction es)
  case (Cons e es)
  then show ?case
    using becomes_nested_boundary [of px lk e] nested_boundary_known [of px lk e]
    by (cases "nested_boundary_element px lk e") (auto simp: map_filter_simps same_node_def)
qed (simp add: map_filter_simps)

lemma same_scope: "list_all2 same_node (scope_elements px sp) (scope_nodes px lk sp)"
  unfolding scope_elements_def scope_nodes_def sub_process_generic_tasks_def
  by (intro list_all2_Cons [THEN iffD2] conjI list_all2_appendI same_boundaries same_nodes_by becomes_translated)
     (simp_all add: same_node_def)

lemma same_concat:
  "(\<And>x. x \<in> set xs \<Longrightarrow> list_all2 same_node (f x) (g x)) \<Longrightarrow> list_all2 same_node (concat (map f xs)) (concat (map g xs))"
  by (induction xs) (simp_all add: list_all2_appendI)

lemma concat_in_parts:
  "(\<And>x. x \<in> set xs \<Longrightarrow> f x = concat (map g (h x))) \<Longrightarrow> concat (map f xs) = concat (map g (concat (map h xs)))"
  by (induction xs) simp_all

lemma sub_nodes_scopes: "sub_nodes px lk sp = concat (map (scope_nodes px lk) (inner_scopes sp))"
proof (induction px lk sp rule: sub_nodes.induct)
  case (1 px lk sp)
  from concat_in_parts [OF 1] show ?case by (simp add: sub_nodes.simps [of px lk sp] inner_scopes.simps [of sp])
qed

lemma same_process:
  assumes "translate_process px lk p = Ok b"
  shows "list_all2 same_node (process_elements px p) (process_nodes px lk p)"
proof -
  note ok = translate_adds(2-4) [OF assms]
  have s: "becomes DStart (the_ok (start_element px lk x))" if "x \<in> set (pr_start_events p)" for x
    using ok(1) that becomes_translated(11) by fastforce
  have c: "becomes DCatch (the_ok (catch_element px lk x))" if "x \<in> set (pr_catch_events p)" for x
    using ok(2) that becomes_translated(12) by fastforce
  have e: "becomes (DBoundary (be_attached_to_ref x)) (the_ok (boundary_element px lk x))" if "x \<in> set (pr_boundary_events p)" for x
    using ok(3) that becomes_boundary by fastforce
  have subs: "concat (map (sub_nodes px lk) sps) = concat (map (scope_nodes px lk) (concat (map inner_scopes sps)))" for sps
    by (rule concat_in_parts) (rule sub_nodes_scopes)
  show ?thesis
    unfolding subs process_scopes_def process_elements_def process_nodes_def task_nodes_def gateway_nodes_def Let_def append_assoc
      process_generic_tasks_def
    by (intro list_all2_appendI same_nodes_by s c e same_concat same_scope becomes_translated becomes.simps [THEN iffD2] refl)
       simp_all
qed

lemma flow_ends:
  assumes "well_formed_graph (pd_nodes d) (pd_flows d)" and "\<And>n. next_nodes d n = outgoing_flows fs n" and "f \<in> set fs"
  shows "get_node d (bsf_source_ref f) \<noteq> None" and "get_node d (bsf_target_ref f) \<noteq> None"
proof -
  have f: "flow_of f \<in> set (outgoing_of (pd_flows d) (bsf_source_ref f))"
    using assms(2) [of "bsf_source_ref f"] assms(3) by (auto simp: next_nodes_def outgoing_flows_def)
  then obtain sfs where "(bsf_source_ref f, sfs) \<in> set (pd_flows d)" "flow_of f \<in> set sfs"
    by (cases "tget (pd_flows d) (bsf_source_ref f)") (auto simp: outgoing_of_def dest: tget_SomeD)
  with assms(1) have "thas (pd_nodes d) (bsf_source_ref f)" "thas (pd_nodes d) (sf_target (flow_of f))"
    unfolding well_formed_graph_def by blast+
  then show "get_node d (bsf_source_ref f) \<noteq> None" "get_node d (bsf_target_ref f) \<noteq> None"
    by (auto simp: thas_def get_node_def flow_of_def)
qed

text \<open>Every identifier of the document, whatever its element.\<close>

definition scope_ids :: "bpmn_sub_process \<Rightarrow> string set" where
  "scope_ids sp =
     {sp_id sp} \<union> se_id ` set (sp_start_events sp) \<union> ee_id ` set (sp_end_events sp) \<union>
     svt_id ` set (sp_service_tasks sp) \<union> ust_id ` set (sp_user_tasks sp) \<union> sct_id ` set (sp_script_tasks sp) \<union>
     snd_id ` set (sp_send_tasks sp) \<union>
     gt_id ` (set (sp_generic_tasks sp) \<union> set (sp_receive_tasks sp) \<union> set (sp_manual_tasks sp) \<union> set (sp_business_rule_tasks sp)) \<union>
     cla_id ` set (sp_call_activities sp) \<union> xg_id ` set (sp_exclusive_gateways sp) \<union>
     gw_id ` (set (sp_parallel_gateways sp) \<union> set (sp_inclusive_gateways sp) \<union> set (sp_event_based_gateways sp)) \<union>
     cg_id ` set (sp_complex_gateways sp) \<union> ite_id ` set (sp_throw_events sp) \<union> ice_id ` set (sp_catch_events sp) \<union>
     be_id ` set (sp_boundary_events sp)"

lemma filtered_both: "f ` set es = f ` set (filter P es) \<union> f ` set (filter (\<lambda>e. \<not> P e) es)"
  by auto

lemma scope_ids_split:
  "scope_ids sp = fst ` set (scope_elements px sp) \<union> set (scope_left_out px sp)"
  unfolding scope_ids_def scope_elements_def scope_left_out_def filtered_both [of be_id "sp_boundary_events sp" "boundary_known px"]
  by (simp only: set_append set_map list.set image_Un image_insert image_image image_comp comp_def fst_conv) blast

text \<open>
  C30. The definition is the document. Its nodes are the elements of the process, and of the sub-processes inside
  it, each as an engine element of its kind (a later one replaces an earlier one of the same identifier); the flows
  that leave a node are those of the document with that source, in document order, those of the process before
  those of its sub-processes; and both ends of every flow are nodes. Left out is nothing of the process itself, and
  of a sub-process exactly its send tasks, inclusive and event-based gateways, catch and throw events, and boundary
  events without a known definition or with a timer that cannot be parsed: these are not in the definition, and an
  accepted document has no flow from or to one of them.
\<close>

theorem parsed_graph_is_the_document:
  assumes "px_from_str px xml = Inr defs" and "chosen_process (bd_processes defs) = Some p"
    and "parse_bpmn_xml px fresh xml = Ok d"
    and "left_out = \<Union> (set ` scope_left_out px ` set (process_scopes p)) - fst ` set (process_elements px p)"
  shows "(\<forall>n. rel_option becomes (map_of (rev (process_elements px p)) n) (get_node d n)) \<and>
    (\<forall>n. next_nodes d n = outgoing_flows (process_flows p) n) \<and>
    (\<forall>f \<in> set (process_flows p). get_node d (bsf_source_ref f) \<noteq> None \<and> get_node d (bsf_target_ref f) \<noteq> None) \<and>
    (\<forall>sp \<in> set (process_scopes p). scope_ids sp \<subseteq> dom (get_node d) \<union> left_out) \<and>
    (\<forall>n \<in> left_out. get_node d n = None \<and>
       (\<forall>f \<in> set (process_flows p). bsf_source_ref f \<noteq> n \<and> bsf_target_ref f \<noteq> n))"
proof -
  from assms obtain b where tr: "translate_process px (lookups_of defs) p = Ok b" and bd: "build fresh b = Ok d"
    by (auto elim: parse_Ok)
  note facts = build_adds [OF bd translate_adds(1) [OF tr]]
  have node: "get_node d n = map_of (rev (process_nodes px (lookups_of defs) p)) n" for n
    by (simp add: get_node_def facts(4) tget_tcollect)
  have kinds: "rel_option becomes (map_of (rev (process_elements px p)) n) (get_node d n)" for n
    unfolding node by (rule same_lookup [OF same_process [OF tr]])
  have known: "get_node d n = None \<longleftrightarrow> n \<notin> fst ` set (process_elements px p)" for n
    using kinds [of n] by (cases "map_of (rev (process_elements px p)) n"; cases "get_node d n")
      (force simp: map_of_eq_None_iff dest!: map_of_SomeD)+
  note ends = flow_ends [OF facts(6,5)]
  have scopes: "scope_ids sp \<subseteq> dom (get_node d) \<union> left_out" if "sp \<in> set (process_scopes p)" for sp
  proof
    fix n
    assume n: "n \<in> scope_ids sp"
    show "n \<in> dom (get_node d) \<union> left_out"
    proof (cases "get_node d n")
      case None
      then have out: "n \<notin> fst ` set (process_elements px p)" by (simp add: known)
      have "set (scope_elements px sp) \<subseteq> set (process_elements px p)"
        using that by (auto simp: process_elements_def)
      with n out have "n \<in> set (scope_left_out px sp)" unfolding scope_ids_split [of sp px] by auto
      with that out assms(4) show ?thesis by auto
    qed auto
  qed
  have out: "get_node d n = None" if "n \<in> left_out" for n
    using that assms(4) known by auto
  show ?thesis using kinds facts(5) ends scopes out by blast
qed
section \<open>A document with a sub-process\<close>

definition plain_process :: bpmn_process where
  "plain_process =
     \<lparr> pr_id = ''p'', pr_is_executable = Some True, pr_extension_elements = None,
       pr_start_events = [\<lparr>se_id = ''s'', se_extension_elements = None, se_timer = None, se_message = None\<rparr>],
       pr_end_events = [\<lparr>ee_id = ''e'', ee_extension_elements = None, ee_error = None, ee_message = None,
         ee_escalation = None, ee_compensate = None, ee_terminate = None\<rparr>],
       pr_service_tasks = [], pr_user_tasks = [], pr_sequence_flows = [],
       pr_data_object_references = [], pr_data_store_references = [], pr_text_annotations = [],
       pr_associations = [], pr_sub_processes = [], pr_boundary_events = [], pr_generic_tasks = [],
       pr_script_tasks = [], pr_send_tasks = [], pr_receive_tasks = [], pr_manual_tasks = [],
       pr_business_rule_tasks = [], pr_call_activities = [], pr_exclusive_gateways = [],
       pr_parallel_gateways = [], pr_inclusive_gateways = [], pr_event_based_gateways = [],
       pr_complex_gateways = [], pr_throw_events = [], pr_catch_events = [] \<rparr>"

definition plain_flow :: "string \<Rightarrow> string \<Rightarrow> string \<Rightarrow> bpmn_sequence_flow" where
  "plain_flow i a b =
     \<lparr>bsf_id = i, bsf_source_ref = a, bsf_target_ref = b, bsf_condition_expression = None\<rparr>"

definition nested_choice :: bpmn_sub_process where
  "nested_choice =
     BpmnSubProcess ''sub'' None None
       [\<lparr>se_id = ''s1'', se_extension_elements = None, se_timer = None, se_message = None\<rparr>]
       [\<lparr>ee_id = ''e1'', ee_extension_elements = None, ee_error = None, ee_message = None,
         ee_escalation = None, ee_compensate = None, ee_terminate = None\<rparr>]
       [] [] [plain_flow ''f1'' ''s1'' ''g'', plain_flow ''f2'' ''g'' ''e1'', plain_flow ''f3'' ''g'' ''e1'']
       [] [] [] [] [] [] [] []
       [\<lparr>xg_id = ''g'', xg_extension_elements = None, xg_default = Some ''f2''\<rparr>]
       [] [] [] [] [] [] []"

definition sample_document :: bpmn_definitions where
  "sample_document =
     \<lparr> bd_id = None,
       bd_processes = [plain_process\<lparr>pr_is_executable := None\<rparr>,
         plain_process\<lparr>pr_id := ''main'', pr_sub_processes := [nested_choice],
           pr_sequence_flows := [plain_flow ''a'' ''s'' ''sub'', plain_flow ''b'' ''sub'' ''e'']\<rparr>],
       bd_collaborations = [], bd_bpmndiagrams = [], bd_messages = [], bd_errors = [], bd_escalations = [] \<rparr>"

definition sample_parser :: parser_env where
  "sample_parser =
     \<lparr>px_from_str = (\<lambda>s. Inr sample_document), px_date_time = (\<lambda>s. Inl ''no date''), px_cron = (\<lambda>s. None)\<rparr>"

lemma sample_parses: "\<exists>d. parse_bpmn_xml sample_parser 7 '''' = Ok d"
proof -
  have "case parse_bpmn_xml sample_parser 7 '''' of Ok d \<Rightarrow> True | _ \<Rightarrow> False"
    by code_simp
  then show ?thesis by (simp split: outcome.splits)
qed

theorem parsed_documents_are_valid_witness:
  "\<exists>d. parse_bpmn_xml sample_parser 7 '''' = Ok d \<and> pd_id d = ''main'' \<and>
     well_formed_graph (pd_nodes d) (pd_flows d)"
proof -
  from sample_parses obtain d where d: "parse_bpmn_xml sample_parser 7 '''' = Ok d" by blast
  from parsed_documents_are_valid [OF d] obtain p where p: "p \<in> set (bd_processes sample_document)"
    "pr_is_executable p \<noteq> Some True \<longrightarrow> (\<forall>q \<in> set (bd_processes sample_document). pr_is_executable q \<noteq> Some True)"
    "pd_id d = pr_id p" "well_formed_graph (pd_nodes d) (pd_flows d)"
    by (auto simp: sample_parser_def)
  from p(1-3) have "pd_id d = ''main''" by (auto simp: sample_document_def plain_process_def)
  with d p(4) show ?thesis by blast
qed

text \<open>
  The gateway in the sub-process keeps the identifier of its default flow, where a gateway of the
  process itself gets the target of the flow: the executor then looks for a node of that name.
\<close>

lemma nested_gateway_keeps_its_flow:
  "\<exists>d. parse_bpmn_xml sample_parser 7 '''' = Ok d \<and>
     get_node d ''g'' = Some (ExclusiveGateway (Some ''f2'')) \<and> get_node d ''f2'' = None \<and>
     next_nodes d ''g'' = [simple_flow ''e1'', simple_flow ''e1'']"
proof -
  from sample_parses obtain d where d: "parse_bpmn_xml sample_parser 7 '''' = Ok d" by blast
  let ?lk = "lookups_of sample_document" and ?p = "bd_processes sample_document ! 1"
  have x: "px_from_str sample_parser '''' = Inr sample_document" by (simp add: sample_parser_def)
  have c: "chosen_process (bd_processes sample_document) = Some ?p"
    by (simp add: chosen_process_def sample_document_def plain_process_def)
  have "map_of (rev (process_nodes sample_parser ?lk ?p)) ''g'' = Some (ExclusiveGateway (Some ''f2''))"
    "map_of (rev (process_nodes sample_parser ?lk ?p)) ''f2'' = None"
    "outgoing_flows (process_flows ?p) ''g'' = [simple_flow ''e1'', simple_flow ''e1'']"
    by code_simp+
  with parsed_nodes [OF x c d] d show ?thesis by metis
qed

theorem parsed_graph_is_the_document_witness:
  "\<exists>d fl. parse_bpmn_xml sample_parser 7 '''' = Ok d \<and> get_node d ''g'' = Some (ExclusiveGateway fl) \<and>
     next_nodes d ''g'' = [simple_flow ''e1'', simple_flow ''e1''] \<and> get_node d ''e1'' \<noteq> None"
proof -
  from sample_parses obtain d where d: "parse_bpmn_xml sample_parser 7 '''' = Ok d" by blast
  let ?p = "bd_processes sample_document ! 1"
  have x: "px_from_str sample_parser '''' = Inr sample_document" by (simp add: sample_parser_def)
  have c: "chosen_process (bd_processes sample_document) = Some ?p"
    by (simp add: chosen_process_def sample_document_def plain_process_def)
  have "map_of (rev (process_elements sample_parser ?p)) ''g'' = Some DExclusive"
    "outgoing_flows (process_flows ?p) ''g'' = [simple_flow ''e1'', simple_flow ''e1'']"
    "plain_flow ''f2'' ''g'' ''e1'' \<in> set (process_flows ?p)"
    by code_simp+
  note doc = this
  note facts = parsed_graph_is_the_document [OF x c d refl]
  from facts doc(1) have "rel_option becomes (Some DExclusive) (get_node d ''g'')" by metis
  then obtain fl where "get_node d ''g'' = Some (ExclusiveGateway fl)"
    by (cases "get_node d ''g''") (auto split: element.splits)
  moreover have "next_nodes d ''g'' = [simple_flow ''e1'', simple_flow ''e1'']" using facts doc(2) by metis
  moreover have "get_node d ''e1'' \<noteq> None" using facts doc(3) by (auto simp: plain_flow_def)
  ultimately show ?thesis using d by blast
qed

text \<open>
  A send task inside a sub-process gets lost without an error when no flow touches it; a flow to it makes the
  document invalid.
\<close>

definition nested_send :: "bpmn_sequence_flow list \<Rightarrow> bpmn_sub_process" where
  "nested_send fs =
     BpmnSubProcess ''sub'' None None
       [\<lparr>se_id = ''s1'', se_extension_elements = None, se_timer = None, se_message = None\<rparr>]
       [\<lparr>ee_id = ''e1'', ee_extension_elements = None, ee_error = None, ee_message = None,
         ee_escalation = None, ee_compensate = None, ee_terminate = None\<rparr>]
       [] [] (plain_flow ''f1'' ''s1'' ''e1'' # fs) [] [] []
       [\<lparr>snd_id = ''m'', snd_extension_elements = None, snd_name = None, snd_message = None, snd_multi_instance = None\<rparr>]
       [] [] [] [] [] [] [] [] [] [] [] []"

definition send_parser :: "bpmn_sequence_flow list \<Rightarrow> parser_env" where
  "send_parser fs = sample_parser\<lparr>px_from_str := (\<lambda>x. Inr
     (sample_document\<lparr>bd_processes :=
        [plain_process\<lparr>pr_sub_processes := [nested_send fs],
           pr_sequence_flows := [plain_flow ''f'' ''s'' ''sub'', plain_flow ''f0'' ''sub'' ''e'']\<rparr>]\<rparr>))\<rparr>"

lemma nested_send_task_is_lost:
  "case parse_bpmn_xml (send_parser []) 7 '''' of Ok d \<Rightarrow> get_node d ''m'' = None | _ \<Rightarrow> False"
  "case parse_bpmn_xml (send_parser [plain_flow ''f2'' ''s1'' ''m'', plain_flow ''f3'' ''m'' ''e1'']) 7 '''' of
     Err er \<Rightarrow> True | _ \<Rightarrow> False"
  by code_simp+

end
