(* ===== verification/StorageViews.thy ===== *)
theory StorageViews
  imports Persistence
begin

text \<open>
  The monitoring side of the persistence port: the records a backend reports about its storage
  (\<open>engine-core/src/port/persistence.rs\<close>), and what the in-memory store reports
  (\<open>persistence-memory/src/lib.rs\<close>). Counters are \<open>u64\<close> values of table sizes, far from their bound.
\<close>

record bucket_entry =
  bk_key :: string
  bk_size_bytes :: "nat option"
  bk_created_at :: "time option"

record bucket_entry_detail =
  bkd_key :: string
  bkd_data :: string
  bkd_encoding :: string

record bucket_info =
  bi_name :: string
  bi_bucket_type :: string
  bi_entries :: nat
  bi_size_bytes :: nat

record storage_info =
  si_backend_name :: string
  si_version :: string
  si_host :: string
  si_port :: nat
  si_memory_bytes :: nat
  si_storage_bytes :: nat
  si_streams :: nat
  si_consumers :: nat
  si_buckets :: "bucket_info list"

definition bucket_of :: "string \<Rightarrow> string \<Rightarrow> nat \<Rightarrow> nat \<Rightarrow> bucket_info" where
  "bucket_of name kind n bytes =
     \<lparr>bi_name = name, bi_bucket_type = kind, bi_entries = n, bi_size_bytes = bytes\<rparr>"

definition history_length :: "memory \<Rightarrow> nat" where
  "history_length m = sum_list (map length (tvals (me_history m)))"

definition memory_buckets :: "memory \<Rightarrow> bucket_info list" where
  "memory_buckets m =
     [bucket_of ''instances'' ''kv'' (length (me_instances m)) (length (me_instances m) * 512),
      bucket_of ''definitions'' ''kv'' (length (me_definitions m)) (length (me_definitions m) * 256),
      bucket_of ''user_tasks'' ''kv'' (length (me_user_tasks m)) (length (me_user_tasks m) * 128),
      bucket_of ''service_tasks'' ''kv'' (length (me_service_tasks m)) (length (me_service_tasks m) * 128),
      bucket_of ''timers'' ''kv'' (length (me_timers m)) (length (me_timers m) * 128),
      bucket_of ''messages'' ''kv'' (length (me_messages m)) (length (me_messages m) * 128),
      bucket_of ''bpmn_xml'' ''object_store'' (length (me_xmls m)) 0,
      bucket_of ''instance_files'' ''object_store'' (length (me_files m)) 0,
      bucket_of ''history'' ''stream'' (history_length m) 0]"

definition get_storage_info :: "memory \<Rightarrow> storage_info option" where
  "get_storage_info m = Some
     \<lparr>si_backend_name = ''InMemoryPersistence'', si_version = ''1.0.0'', si_host = ''localhost'',
      si_port = 0, si_memory_bytes = length (me_files m) * 1024 + length (me_instances m) * 512,
      si_storage_bytes = 0, si_streams = 0, si_consumers = 0, si_buckets = memory_buckets m\<rparr>"

definition get_bucket_entries ::
  "string \<Rightarrow> nat \<Rightarrow> nat \<Rightarrow> memory \<Rightarrow> (engine_error, bucket_entry list) outcome" where
  "get_bucket_entries bucket offset limit m =
     Err (PersistenceError (Msg ''Bucket browsing not implemented for in-memory persistence'' []))"

definition get_bucket_entry_detail ::
  "string \<Rightarrow> string \<Rightarrow> memory \<Rightarrow> (engine_error, bucket_entry_detail) outcome" where
  "get_bucket_entry_detail bucket key m =
     Err (PersistenceError (Msg ''Bucket detail browsing not implemented for in-memory persistence'' []))"

end
