(* ===== verification/NatsRefinement.thy ===== *)
theory NatsRefinement
  imports NatsPersistence "HOL-Library.Multiset"
begin

text \<open>
  The NATS store does what the in-memory store does, as long as the server does what its documentation
  says, except that it refuses files over 50 MB and deletes the BPMN text of a definition with it: a
  represented state is kept by every call, and the queries give the same answers.
\<close>

section \<open>A server that works as documented\<close>

text \<open>What a server state holds: the live keys of the buckets, the objects, the messages of a subject.\<close>

definition kv_at :: "('s, 'b) nats_client \<Rightarrow> 's \<Rightarrow> string \<Rightarrow> string \<Rightarrow> 'b option" where
  "kv_at cl s bucket k = (case nc_kv_get cl bucket k s of Inr v \<Rightarrow> v | Inl er \<Rightarrow> None)"

definition obj_at :: "('s, 'b) nats_client \<Rightarrow> 's \<Rightarrow> string \<Rightarrow> string \<Rightarrow> nat list option" where
  "obj_at cl s bucket k = (case nc_obj_get cl bucket k s of Inr (Inr d) \<Rightarrow> Some d | _ \<Rightarrow> None)"

definition history_at :: "('s, 'b) nats_client \<Rightarrow> 's \<Rightarrow> string \<Rightarrow> 'b list" where
  "history_at cl s subject =
     (case nc_consumer cl ''WORKFLOW_HISTORY'' subject s of Inr (Inr ms) \<Rightarrow> oks ms | _ \<Rightarrow> [])"

definition view :: "('s, 'b) nats_client \<Rightarrow> 's
    \<Rightarrow> (string \<Rightarrow> string \<Rightarrow> 'b option) \<times> (string \<Rightarrow> string \<Rightarrow> nat list option) \<times> (string \<Rightarrow> 'b list)" where
  "view cl s = (kv_at cl s, obj_at cl s, history_at cl s)"

definition update2 :: "(string \<Rightarrow> string \<Rightarrow> 'v) \<Rightarrow> string \<Rightarrow> string \<Rightarrow> 'v \<Rightarrow> string \<Rightarrow> string \<Rightarrow> 'v" where
  "update2 f b k v = f(b := (f b)(k := v))"

definition reliable :: "('s, 'b) nats_client \<Rightarrow> bool" where
  "reliable cl \<longleftrightarrow>
     (\<forall>b s. nc_kv_open cl b s = None \<and> nc_obj_open cl b s = None \<and> nc_stream_open cl b s = None) \<and>
     (\<forall>b k p s. \<exists>s'. nc_kv_put cl b k p s = (s', None) \<and>
        view cl s' = (update2 (kv_at cl s) b k (Some p), obj_at cl s, history_at cl s)) \<and>
     (\<forall>b k s. \<exists>s'. nc_kv_delete cl b k s = (s', None) \<and>
        view cl s' = (update2 (kv_at cl s) b k None, obj_at cl s, history_at cl s)) \<and>
     (\<forall>b k d s. \<exists>s'. nc_obj_put cl b k d s = (s', None) \<and>
        view cl s' = (kv_at cl s, update2 (obj_at cl s) b k (Some d), history_at cl s)) \<and>
     (\<forall>b k s. \<exists>s' r. nc_obj_delete cl b k s = (s', r) \<and>
        view cl s' = (kv_at cl s, update2 (obj_at cl s) b k None, history_at cl s)) \<and>
     (\<forall>j p s. \<exists>s'. nc_publish cl j p s = (s', None) \<and>
        view cl s' = (kv_at cl s, obj_at cl s, (history_at cl s)(j := history_at cl s j @ [p]))) \<and>
     (\<forall>b k s. nc_kv_get cl b k s = Inr (kv_at cl s b k)) \<and>
     (\<forall>b s. \<exists>ks. nc_kv_keys cl b s = Inr (map Inr ks) \<and> distinct ks \<and> set ks = dom (kv_at cl s b)) \<and>
     (\<forall>j s. \<exists>ms. nc_consumer cl ''WORKFLOW_HISTORY'' j s = Inr (Inr ms))"

definition lossless_codec :: "('a, 'b) codec \<Rightarrow> bool" where
  "lossless_codec cd \<longleftrightarrow> (\<forall>x. \<exists>p. fst cd x = Inr p \<and> snd cd p = Inr x)"

definition lossless_serde :: "'b nats_serde \<Rightarrow> bool" where
  "lossless_serde sd \<longleftrightarrow>
     lossless_codec (sd_token sd) \<and> lossless_codec (sd_instance sd) \<and> lossless_codec (sd_definition sd) \<and>
     lossless_codec (sd_user_task sd) \<and> lossless_codec (sd_service_task sd) \<and>
     lossless_codec (sd_timer sd) \<and> lossless_codec (sd_message sd) \<and> lossless_codec (sd_history sd)"

section \<open>The state a server represents\<close>

definition decoded :: "('a, 'b) codec \<Rightarrow> 'b option \<Rightarrow> 'a option" where
  "decoded cd p = Option.bind p (\<lambda>p. case snd cd p of Inr x \<Rightarrow> Some x | Inl er \<Rightarrow> None)"

text \<open>A bucket with the entities of a table under the text of their identifiers.\<close>

definition holds_table ::
  "'z env_scheme \<Rightarrow> ('a, 'b) codec \<Rightarrow> (string \<Rightarrow> 'b option) \<Rightarrow> (uuid, 'a) table \<Rightarrow> bool" where
  "holds_table ev cd kv t \<longleftrightarrow>
     (\<forall>u. decoded cd (kv (env_uuid_str ev u)) = tget t u) \<and>
     (\<forall>k. kv k \<noteq> None \<longrightarrow> (\<exists>u. k = env_uuid_str ev u \<and> tget t u \<noteq> None))"

definition represents ::
  "'z env_scheme \<Rightarrow> ('s, 'b) nats_client \<Rightarrow> 'b nats_serde \<Rightarrow> 's \<Rightarrow> memory \<Rightarrow> bool" where
  "represents ev cl sd s m \<longleftrightarrow>
     holds_table ev (sd_instance sd) (kv_at cl s ''instances'') (me_instances m) \<and>
     holds_table ev (sd_definition sd) (kv_at cl s ''definitions'') (me_definitions m) \<and>
     holds_table ev (sd_user_task sd) (kv_at cl s ''user_tasks'') (me_user_tasks m) \<and>
     holds_table ev (sd_service_task sd) (kv_at cl s ''service_tasks'') (me_service_tasks m) \<and>
     holds_table ev (sd_timer sd) (kv_at cl s ''timers'') (me_timers m) \<and>
     holds_table ev (sd_message sd) (kv_at cl s ''messages'') (me_messages m) \<and>
     holds_table ev (sd_instance sd) (kv_at cl s ''history_instances'') (me_completed m) \<and>
     (\<forall>k. map_option (\<lambda>t. [t]) (decoded (sd_token sd) (kv_at cl s ''tokens'' k)) = tget (me_tokens m) k) \<and>
     (\<forall>k. obj_at cl s ''instance_files'' k = tget (me_files m) k) \<and>
     (\<forall>k. map_option bytes_to_file (obj_at cl s ''bpmn_xml'' k) = tget (me_xmls m) k) \<and>
     (\<forall>i. oks (map (snd (sd_history sd)) (history_at cl s (history_subject ev i))) =
        (case tget (me_history m) i of None \<Rightarrow> [] | Some hs \<Rightarrow> hs))"

text \<open>
  The calls the engine makes: an identifier is passed as its text, and a file fits into the limit. Where
  the two stores differ, the reference is the in-memory step changed accordingly: NATS removes the BPMN
  text together with the definition.
\<close>

definition proper_call :: "'z env_scheme \<Rightarrow> pcall \<Rightarrow> bool" where
  "proper_call ev c \<longleftrightarrow>
     (case c of
        DeleteInstance k \<Rightarrow> k \<in> range (env_uuid_str ev)
      | DeleteDefinition k \<Rightarrow> k \<in> range (env_uuid_str ev)
      | SaveFile k bs \<Rightarrow> length bs \<le> MAX_FILE_SIZE
      | _ \<Rightarrow> True)"

definition nats_reference :: "'z env_scheme \<Rightarrow> pcall \<Rightarrow> memory \<Rightarrow> memory" where
  "nats_reference ev c m =
     (case c of
        DeleteDefinition k \<Rightarrow> (memory_step ev c m)\<lparr>me_xmls := tdel k (me_xmls m)\<rparr>
      | _ \<Rightarrow> memory_step ev c m)"

definition uuid_text :: "'z env_scheme \<Rightarrow> bool" where
  "uuid_text ev \<longleftrightarrow> (\<forall>u. env_uuid_parse ev (env_uuid_str ev u) = Some u)"

lemma uuid_str_eq [simp]: "uuid_text ev \<Longrightarrow> env_uuid_str ev u = env_uuid_str ev v \<longleftrightarrow> u = v"
  by (metis option.inject uuid_text_def)

section \<open>The calls\<close>

lemma reliableD:
  assumes "reliable cl"
  shows "nc_kv_open cl b s = None" "nc_obj_open cl b s = None" "nc_stream_open cl b s = None"
    "\<exists>s'. nc_kv_put cl b k p s = (s', None) \<and>
        view cl s' = (update2 (kv_at cl s) b k (Some p), obj_at cl s, history_at cl s)"
    "\<exists>s'. nc_kv_delete cl b k s = (s', None) \<and>
        view cl s' = (update2 (kv_at cl s) b k None, obj_at cl s, history_at cl s)"
    "\<exists>s'. nc_obj_put cl b k d s = (s', None) \<and>
        view cl s' = (kv_at cl s, update2 (obj_at cl s) b k (Some d), history_at cl s)"
    "\<exists>s' r. nc_obj_delete cl b k s = (s', r) \<and>
        view cl s' = (kv_at cl s, update2 (obj_at cl s) b k None, history_at cl s)"
    "\<exists>s'. nc_publish cl j p s = (s', None) \<and>
        view cl s' = (kv_at cl s, obj_at cl s, (history_at cl s)(j := history_at cl s j @ [p]))"
    "nc_kv_get cl b k s = Inr (kv_at cl s b k)"
    "\<exists>ks. nc_kv_keys cl b s = Inr (map Inr ks) \<and> distinct ks \<and> set ks = dom (kv_at cl s b)"
    "\<exists>ms. nc_consumer cl ''WORKFLOW_HISTORY'' j s = Inr (Inr ms)"
  using assms [unfolded reliable_def] by simp_all

lemma decoded_Some: "fst cd x = Inr p \<Longrightarrow> lossless_codec cd \<Longrightarrow> decoded cd (Some p) = Some x"
  by (auto simp: lossless_codec_def decoded_def dest!: spec [of _ x])

lemma decoded_None [simp]: "decoded cd None = None"
  by (simp add: decoded_def)

lemma holds_table_put:
  assumes "holds_table ev cd kv t" "uuid_text ev" "decoded cd (Some p) = Some x"
  shows "holds_table ev cd (kv(env_uuid_str ev u := Some p)) (tput u x t)"
proof -
  have "\<exists>v. k = env_uuid_str ev v \<and> tget (tput u x t) v \<noteq> None" if "kv k \<noteq> None" for k
    using that assms(1) unfolding holds_table_def by (metis option.distinct(1) tget_tput)
  moreover have "\<exists>v. env_uuid_str ev u = env_uuid_str ev v \<and> tget (tput u x t) v \<noteq> None"
    by (rule exI [of _ u]) (simp add: tget_tput)
  ultimately show ?thesis using assms by (auto simp: holds_table_def tget_tput)
qed

lemma holds_table_delete:
  assumes "holds_table ev cd kv t" "uuid_text ev"
  shows "holds_table ev cd (kv(env_uuid_str ev u := None)) (tdel u t)"
proof -
  have "\<exists>v. k = env_uuid_str ev v \<and> tget (tdel u t) v \<noteq> None" if "kv k \<noteq> None" "k \<noteq> env_uuid_str ev u" for k
    using that assms(1) unfolding holds_table_def by (metis tget_tdel)
  then show ?thesis using assms by (auto simp: holds_table_def tget_tdel)
qed

lemma kv_save_reliable:
  assumes "reliable cl" "lossless_codec cd"
  shows "\<exists>s' p. kv_save cl b what cd k x s = (s', None) \<and> decoded cd (Some p) = Some x \<and>
    view cl s' = (update2 (kv_at cl s) b k (Some p), obj_at cl s, history_at cl s)"
proof -
  from assms(2) obtain p where p: "fst cd x = Inr p" by (auto simp: lossless_codec_def)
  from reliableD(4) [OF assms(1), of b k p s] obtain s' where "nc_kv_put cl b k p s = (s', None)"
    "view cl s' = (update2 (kv_at cl s) b k (Some p), obj_at cl s, history_at cl s)" by blast
  then show ?thesis using p decoded_Some [OF p assms(2)] reliableD(1) [OF assms(1)]
    by (auto simp: kv_save_def kv_act_def failed_as_def)
qed

lemma kv_remove_reliable:
  assumes "reliable cl"
  shows "\<exists>s'. kv_remove cl b what k s = (s', None) \<and>
    view cl s' = (update2 (kv_at cl s) b k None, obj_at cl s, history_at cl s)"
  using reliableD(5) [OF assms, of b k s] reliableD(1) [OF assms]
  by (fastforce simp: kv_remove_def kv_act_def failed_as_def)

lemma view_eqs: "view cl s' = (kv, ob, hi) \<Longrightarrow> kv_at cl s' = kv \<and> obj_at cl s' = ob \<and> history_at cl s' = hi"
  by (simp add: view_def)

lemma bytes_of_text [simp]: "bytes_to_file (file_to_bytes x) = x"
  by (simp add: bytes_to_file_def file_to_bytes_def comp_def)

lemmas represents_updates =
  represents_def nats_reference_def update2_def holds_table_put holds_table_delete tget_tput tget_tdel
  delete_parsed_def token_key_def

text \<open>Bringing the call of a bucket and the step of its table together.\<close>

lemma represents_save:
  assumes "reliable cl" "lossless_codec cd" "uuid_text ev" "represents ev cl sd s m"
    and "\<And>s' p. decoded cd (Some p) = Some x \<Longrightarrow>
      kv_at cl s' = update2 (kv_at cl s) b k (Some p) \<Longrightarrow> obj_at cl s' = obj_at cl s \<Longrightarrow>
      history_at cl s' = history_at cl s \<Longrightarrow> represents ev cl sd s' m'"
  shows "\<exists>s'. kv_save cl b what cd k x s = (s', None) \<and> represents ev cl sd s' m'"
  using kv_save_reliable [OF assms(1,2), of b what k x s] assms(5) view_eqs by metis

lemma represents_remove:
  assumes "reliable cl"
    and "\<And>s'. kv_at cl s' = update2 (kv_at cl s) b k None \<Longrightarrow> obj_at cl s' = obj_at cl s \<Longrightarrow>
      history_at cl s' = history_at cl s \<Longrightarrow> represents ev cl sd s' m'"
  shows "\<exists>s'. kv_remove cl b what k s = (s', None) \<and> represents ev cl sd s' m'"
  using kv_remove_reliable [OF assms(1), of b what k s] assms(2) view_eqs by metis

lemma nats_call_refines:
  assumes "reliable cl" "lossless_serde sd" "uuid_text ev" "represents ev cl sd s m" "proper_call ev c"
  shows "\<exists>s'. nats_call ev cl sd c s = (s', None) \<and> represents ev cl sd s' (nats_reference ev c m)"
proof (cases c)
  case (SaveToken i t)
  show ?thesis unfolding SaveToken nats_call.simps nats_methods
    by (rule represents_save [OF assms(1) _ assms(3,4)])
       (use assms in \<open>auto simp: represents_updates lossless_serde_def\<close>)
next
  case (DeleteToken i t)
  show ?thesis unfolding DeleteToken nats_call.simps nats_methods
    by (rule represents_remove [OF assms(1)]) (use assms in \<open>auto simp: represents_updates\<close>)
next
  case (SaveInstance x)
  show ?thesis unfolding SaveInstance nats_call.simps nats_methods
    by (rule represents_save [OF assms(1) _ assms(3,4)])
       (use assms in \<open>auto simp: represents_updates lossless_serde_def\<close>)
next
  case (DeleteInstance k)
  with assms(5) obtain u where "k = env_uuid_str ev u" by (auto simp: proper_call_def)
  with assms(3) show ?thesis unfolding DeleteInstance nats_call.simps nats_methods
    by (intro represents_remove [OF assms(1)]) (use assms in \<open>auto simp: represents_updates uuid_text_def\<close>)
next
  case (SaveDefinition d)
  show ?thesis unfolding SaveDefinition nats_call.simps nats_methods
    by (rule represents_save [OF assms(1) _ assms(3,4)])
       (use assms in \<open>auto simp: represents_updates lossless_serde_def\<close>)
next
  case (DeleteDefinition k)
  with assms(5) obtain u where u: "k = env_uuid_str ev u" by (auto simp: proper_call_def)
  obtain s1 where s1: "kv_remove cl ''definitions'' ''definition'' k s = (s1, None)"
    and v1: "view cl s1 = (update2 (kv_at cl s) ''definitions'' k None, obj_at cl s, history_at cl s)"
    using kv_remove_reliable [OF assms(1)] by blast
  obtain s2 r where s2: "nc_obj_delete cl ''bpmn_xml'' k s1 = (s2, r)"
    and v2: "view cl s2 = (kv_at cl s1, update2 (obj_at cl s1) ''bpmn_xml'' k None, history_at cl s1)"
    using reliableD(7) [OF assms(1)] by blast
  have "nats_call ev cl sd c s = (s2, None)"
    using s1 s2 reliableD(2) [OF assms(1)] by (simp add: DeleteDefinition obj_act_def nats_methods)
  moreover have "represents ev cl sd s2 (nats_reference ev c m)"
    using assms view_eqs [OF v1] view_eqs [OF v2]
    by (auto simp: represents_updates DeleteDefinition u uuid_text_def)
  ultimately show ?thesis by blast
next
  case (SaveUserTask t)
  show ?thesis unfolding SaveUserTask nats_call.simps nats_methods
    by (rule represents_save [OF assms(1) _ assms(3,4)])
       (use assms in \<open>auto simp: represents_updates lossless_serde_def\<close>)
next
  case (DeleteUserTask u)
  show ?thesis unfolding DeleteUserTask nats_call.simps nats_methods
    by (rule represents_remove [OF assms(1)]) (use assms in \<open>auto simp: represents_updates\<close>)
next
  case (SaveServiceTask t)
  show ?thesis unfolding SaveServiceTask nats_call.simps nats_methods
    by (rule represents_save [OF assms(1) _ assms(3,4)])
       (use assms in \<open>auto simp: represents_updates lossless_serde_def\<close>)
next
  case (DeleteServiceTask u)
  show ?thesis unfolding DeleteServiceTask nats_call.simps nats_methods
    by (rule represents_remove [OF assms(1)]) (use assms in \<open>auto simp: represents_updates\<close>)
next
  case (SaveTimer t)
  show ?thesis unfolding SaveTimer nats_call.simps nats_methods
    by (rule represents_save [OF assms(1) _ assms(3,4)])
       (use assms in \<open>auto simp: represents_updates lossless_serde_def\<close>)
next
  case (DeleteTimer u)
  show ?thesis unfolding DeleteTimer nats_call.simps nats_methods
    by (rule represents_remove [OF assms(1)]) (use assms in \<open>auto simp: represents_updates\<close>)
next
  case (SaveMessageCatch x)
  show ?thesis unfolding SaveMessageCatch nats_call.simps nats_methods
    by (rule represents_save [OF assms(1) _ assms(3,4)])
       (use assms in \<open>auto simp: represents_updates lossless_serde_def\<close>)
next
  case (DeleteMessageCatch u)
  show ?thesis unfolding DeleteMessageCatch nats_call.simps nats_methods
    by (rule represents_remove [OF assms(1)]) (use assms in \<open>auto simp: represents_updates\<close>)
next
  case (SaveFile k bs)
  with assms(5) have "\<not> MAX_FILE_SIZE < length bs" by (simp add: proper_call_def)
  then show ?thesis
    using SaveFile reliableD(6) [OF assms(1), of "''instance_files''" k bs s] reliableD(2) [OF assms(1)] assms(4)
    by (auto simp: obj_act_def failed_as_def nats_methods represents_updates dest!: view_eqs)
next
  case (DeleteFile k)
  then show ?thesis
    using reliableD(7) [OF assms(1), of "''instance_files''" k s] reliableD(2) [OF assms(1)] assms(4)
    by (auto simp: obj_act_def nats_methods represents_updates dest!: view_eqs)
next
  case (SaveBpmnXml k x)
  then show ?thesis
    using reliableD(6) [OF assms(1), of "''bpmn_xml''" k "file_to_bytes x" s] reliableD(2) [OF assms(1)] assms(4)
    by (auto simp: obj_act_def failed_as_def nats_methods represents_updates dest!: view_eqs)
next
  case (AppendHistoryEntry h)
  from assms(2) obtain p where p: "fst (sd_history sd) h = Inr p" "snd (sd_history sd) p = Inr h"
    unfolding lossless_serde_def lossless_codec_def by blast
  obtain s' where s': "nc_publish cl (history_subject ev (he_instance_id h)) p s = (s', None)"
    and v: "view cl s' = (kv_at cl s, obj_at cl s, (history_at cl s)(history_subject ev (he_instance_id h) :=
        history_at cl s (history_subject ev (he_instance_id h)) @ [p]))"
    using reliableD(8) [OF assms(1)] by blast
  have oks_snoc: "oks (xs @ [Inr h]) = oks xs @ [h]" for xs :: "(string + history_entry) list"
    by (induction xs rule: oks.induct) auto
  have "represents ev cl sd s' (nats_reference ev c m)"
    using assms(3,4) view_eqs [OF v] p(2)
    by (auto simp: represents_updates AppendHistoryEntry history_subject_def oks_snoc tpush_def split: option.splits)
  with s' p(1) show ?thesis by (auto simp: AppendHistoryEntry failed_as_def nats_methods)
next
  case (SaveCompletedInstance x)
  show ?thesis unfolding SaveCompletedInstance nats_call.simps nats_methods
    by (rule represents_save [OF assms(1) _ assms(3,4)])
       (use assms in \<open>auto simp: represents_updates lossless_serde_def\<close>)
qed

text \<open>
  C31. On a server that works as documented, with serde and UUIDs that read back what they wrote, a call
  with an identifier of the engine leaves the NATS store representing the in-memory store after the same
  call, and succeeds. There are two differences: a file over 50 MB, which the in-memory store takes, is
  refused and changes nothing; and the deletion of a definition also deletes its BPMN text, which the
  in-memory store keeps.
\<close>

theorem nats_store_refines_memory:
  assumes "reliable cl" "lossless_serde sd" "uuid_text ev" "represents ev cl sd s m"
    and "\<And>k. c = DeleteInstance k \<or> c = DeleteDefinition k \<Longrightarrow> k \<in> range (env_uuid_str ev)"
    and "nats_call ev cl sd c s = (s', fl)"
  shows "case c of
      SaveFile k bs \<Rightarrow>
        if 50 * 1024 * 1024 < length bs then s' = s \<and> fl \<noteq> None
        else fl = None \<and> represents ev cl sd s' (memory_step ev c m)
    | DeleteDefinition k \<Rightarrow>
        fl = None \<and> (\<exists>m'. represents ev cl sd s' m' \<and> m' = (memory_step ev c m)\<lparr>me_xmls := tdel k (me_xmls m)\<rparr>)
    | _ \<Rightarrow> fl = None \<and> represents ev cl sd s' (memory_step ev c m)"
proof (cases "proper_call ev c")
  case True
  with nats_call_refines [OF assms(1-4) True] assms(6)
  show ?thesis by (cases c) (auto simp: nats_reference_def proper_call_def MAX_FILE_SIZE_def)
next
  case False
  with assms(5) obtain k bs where "c = SaveFile k bs" "MAX_FILE_SIZE < length bs"
    by (cases c) (auto simp: proper_call_def)
  with assms(6) show ?thesis by (auto simp: nats_save_file_def MAX_FILE_SIZE_def)
qed

section \<open>The queries\<close>

text \<open>The tables of the in-memory store have one entry per key, as hash maps do.\<close>

definition memory_wf :: "memory \<Rightarrow> bool" where
  "memory_wf m \<longleftrightarrow>
     wf_table (me_tokens m) \<and> wf_table (me_instances m) \<and> wf_table (me_definitions m) \<and>
     wf_table (me_user_tasks m) \<and> wf_table (me_service_tasks m) \<and> wf_table (me_timers m) \<and>
     wf_table (me_messages m) \<and> wf_table (me_files m) \<and> wf_table (me_xmls m) \<and>
     wf_table (me_history m) \<and> wf_table (me_completed m)"

lemma memory_wf_new: "memory_wf memory_new"
  by (simp add: memory_wf_def memory_new_def)

lemma memory_wf_step: "memory_wf m \<Longrightarrow> memory_wf (memory_step ev c m)"
  by (cases c) (simp_all add: memory_wf_def delete_parsed_def tpush_def split: option.split)

lemma mset_map_filter: "mset xs = mset ys \<Longrightarrow> mset (List.map_filter f xs) = mset (List.map_filter f ys)"
  by (simp add: map_filter_def)

lemma tvals_map_filter: "wf_table t \<Longrightarrow> List.map_filter (tget t) (tkeys t) = tvals t"
proof -
  assume t: "wf_table t"
  have "List.map_filter (tget t) (map fst xs) = map snd xs" if "set xs \<subseteq> set t" for xs
    using that
  proof (induction xs)
    case (Cons x xs)
    then have "tget t (fst x) = Some (snd x)"
      using t by (simp add: tget_Some_iff)
    with Cons show ?case by (simp add: map_filter_simps)
  qed (simp add: map_filter_simps)
  from this [of t] show ?thesis by (simp add: tkeys_def tvals_def)
qed

lemma kv_list_table:
  assumes "reliable cl" "uuid_text ev" "holds_table ev cd (kv_at cl s b) t" "wf_table t"
  shows "\<exists>xs. kv_list cl b cd s = Ok xs \<and> mset xs = mset (tvals t)"
proof -
  let ?kv = "kv_at cl s b" and ?str = "env_uuid_str ev"
  obtain ks where ks: "nc_kv_keys cl b s = Inr (map Inr ks)" "distinct ks" "set ks = dom ?kv"
    using reliableD(10) [OF assms(1)] by blast
  have read: "read_entry cl (snd cd) b s (Inr k) = decoded cd (?kv k)" for k
    using reliableD(9) [OF assms(1)] by (simp add: read_entry_def decoded_def split: option.split)
  have list: "kv_list cl b cd s = Ok (List.map_filter (\<lambda>k. decoded cd (?kv k)) ks)"
    using ks(1) reliableD(1) [OF assms(1)] by (simp add: kv_list_def list_kv_entries_def map_filter_def read comp_def filter_map)
  have "u \<in> dom (tget t) \<longleftrightarrow> ?str u \<in> dom ?kv" for u
    using assms(2,3) unfolding holds_table_def by (metis decoded_None domIff uuid_str_eq)
  moreover have "\<exists>u. k = ?str u" if "k \<in> dom ?kv" for k
    using that assms(3) unfolding holds_table_def by blast
  ultimately have "dom ?kv = ?str ` dom (tget t)" by fastforce
  moreover have "dom (tget t) = set (tkeys t)"
    using dom_map_of_conv_image_fst [of t] by (simp add: tkeys_def tget_def [abs_def])
  ultimately have "set ks = set (map ?str (tkeys t))" using ks(3) by simp
  moreover have "distinct (map ?str (tkeys t))"
    using assms(2,4) by (simp add: distinct_map wf_table_def tkeys_def inj_on_def)
  ultimately have "mset ks = mset (map ?str (tkeys t))" using ks(2) set_eq_iff_mset_eq_distinct by blast
  then have "mset (List.map_filter (\<lambda>k. decoded cd (?kv k)) ks)
      = mset (List.map_filter (\<lambda>k. decoded cd (?kv k)) (map ?str (tkeys t)))" by (rule mset_map_filter)
  also have "List.map_filter (\<lambda>k. decoded cd (?kv k)) (map ?str (tkeys t)) = tvals t"
    using assms(3) tvals_map_filter [OF assms(4)] by (simp add: map_filter_def filter_map comp_def holds_table_def)
  finally show ?thesis using list by blast
qed

lemma history_matches_filter: "history_matches q hs = filter (history_entry_matches q) hs"
  by (auto simp: history_matches_def retain_opt_def history_entry_matches_def opt_all_def not_less
      split: option.splits intro!: filter_cong)

lemma query_history_agrees:
  assumes "reliable cl" "represents ev cl sd s m"
  shows "nats_query_history ev cl sd q s = Ok (query_history q m)"
proof -
  let ?subject = "history_subject ev (hq_instance_id q)"
  obtain ms where ms: "nc_consumer cl ''WORKFLOW_HISTORY'' ?subject s = Inr (Inr ms)"
    using reliableD(11) [OF assms(1)] by blast
  have "oks (map (snd (sd_history sd)) (history_at cl s ?subject))
      = (case tget (me_history m) (hq_instance_id q) of None \<Rightarrow> [] | Some hs \<Rightarrow> hs)"
    using assms(2) unfolding represents_def by blast
  with ms have "oks (map (snd (sd_history sd)) (oks ms))
      = (case tget (me_history m) (hq_instance_id q) of None \<Rightarrow> [] | Some hs \<Rightarrow> hs)"
    by (simp add: history_at_def)
  then show ?thesis
    using ms reliableD(3) [OF assms(1)]
    by (simp add: nats_query_history_def query_history_def Let_def history_matches_filter paginate_def
        split: option.split)
qed

lemma nats_lists_agree:
  assumes "reliable cl" "uuid_text ev" "represents ev cl sd s m" "memory_wf m"
  shows "\<exists>xs. nats_list_instances cl sd s = Ok xs \<and> mset xs = mset (list_instances m)"
    "\<exists>xs. nats_list_definitions cl sd s = Ok xs \<and> mset xs = mset (list_definitions m)"
    "\<exists>xs. nats_list_user_tasks cl sd s = Ok xs \<and> mset xs = mset (list_user_tasks m)"
    "\<exists>xs. nats_list_service_tasks cl sd s = Ok xs \<and> mset xs = mset (list_service_tasks m)"
    "\<exists>xs. nats_list_timers cl sd s = Ok xs \<and> mset xs = mset (list_timers m)"
    "\<exists>xs. nats_list_message_catches cl sd s = Ok xs \<and> mset xs = mset (list_message_catches m)"
  unfolding nats_list_instances_def nats_list_definitions_def nats_list_user_tasks_def
    nats_list_service_tasks_def nats_list_timers_def nats_list_message_catches_def
    list_instances_def list_definitions_def list_user_tasks_def list_service_tasks_def list_timers_def
    list_message_catches_def
  by (rule kv_list_table [OF assms(1,2) _]; use assms(3,4) in \<open>simp add: represents_def memory_wf_def\<close>)+

lemma nats_loads_agree:
  assumes "reliable cl" "represents ev cl sd s m"
  shows "nats_load_file cl k s = Ok bs \<longleftrightarrow> load_file k m = Ok bs"
    "utf8 x \<Longrightarrow> nats_load_bpmn_xml cl k s = Ok x \<longleftrightarrow> load_bpmn_xml ev k m = Ok x"
proof -
  have "obj_read cl b f g k s = Ok bs \<longleftrightarrow> obj_at cl s b k = Some bs" for b f g bs
    using reliableD(2) [OF assms(1)] by (auto simp: obj_read_def obj_at_def split: sum.splits)
  then have "nats_load_file cl k s = Ok bs \<longleftrightarrow> obj_at cl s ''instance_files'' k = Some bs"
    "nats_load_bpmn_xml cl k s = Ok x \<longleftrightarrow> (\<exists>d. obj_at cl s ''bpmn_xml'' k = Some d \<and> bytes_to_file d = x \<and> utf8 x)"
    by (auto simp: nats_load_file_def nats_load_bpmn_xml_def and_then_Ok_iff)
  moreover have "obj_at cl s ''instance_files'' k = tget (me_files m) k"
    "map_option bytes_to_file (obj_at cl s ''bpmn_xml'' k) = tget (me_xmls m) k"
    using assms(2) unfolding represents_def by blast+
  ultimately show "nats_load_file cl k s = Ok bs \<longleftrightarrow> load_file k m = Ok bs"
    "utf8 x \<Longrightarrow> nats_load_bpmn_xml cl k s = Ok x \<longleftrightarrow> load_bpmn_xml ev k m = Ok x"
    by (auto simp: load_file_def load_bpmn_xml_def)
qed

text \<open>
  C32. On a represented state the queries of the NATS store answer as those of the in-memory store do:
  the lists are the same up to their order, the history, the archived instance, the file and the text of
  a definition are equal.
\<close>

theorem nats_queries_agree_with_memory:
  assumes "reliable cl" "uuid_text ev" "represents ev cl sd s m" "memory_wf m"
  shows "(\<exists>xs. nats_list_instances cl sd s = Ok xs \<and> mset xs = mset (list_instances m)) \<and>
    (\<exists>xs. nats_list_definitions cl sd s = Ok xs \<and> mset xs = mset (list_definitions m)) \<and>
    (\<exists>xs. nats_list_user_tasks cl sd s = Ok xs \<and> mset xs = mset (list_user_tasks m)) \<and>
    (\<exists>xs. nats_list_service_tasks cl sd s = Ok xs \<and> mset xs = mset (list_service_tasks m)) \<and>
    (\<exists>xs. nats_list_timers cl sd s = Ok xs \<and> mset xs = mset (list_timers m)) \<and>
    (\<exists>xs. nats_list_message_catches cl sd s = Ok xs \<and> mset xs = mset (list_message_catches m)) \<and>
    nats_query_history ev cl sd q s = Ok (query_history q m) \<and>
    nats_get_completed cl sd (env_uuid_str ev u) s = get_completed_instance ev (env_uuid_str ev u) m \<and>
    (nats_load_file cl k s = Ok bs \<longleftrightarrow> load_file k m = Ok bs) \<and>
    (utf8 x \<longrightarrow> nats_load_bpmn_xml cl k s = Ok x \<longleftrightarrow> load_bpmn_xml ev k m = Ok x)"
proof -
  have "decoded (sd_instance sd) (kv_at cl s ''history_instances'' (env_uuid_str ev u)) = tget (me_completed m) u"
    "\<And>k. kv_at cl s ''history_instances'' k \<noteq> None \<Longrightarrow> \<exists>u. k = env_uuid_str ev u \<and> tget (me_completed m) u \<noteq> None"
    using assms(3) unfolding represents_def holds_table_def by blast+
  then have "nats_get_completed cl sd (env_uuid_str ev u) s = get_completed_instance ev (env_uuid_str ev u) m"
    using reliableD(1,9) [OF assms(1)] assms(2)
    by (fastforce simp: nats_get_completed_def get_completed_instance_def uuid_text_def decoded_def split: option.splits sum.splits)
  then show ?thesis
    using nats_lists_agree [OF assms] query_history_agrees [OF assms(1,3)] nats_loads_agree [OF assms(1,3)]
    by blast
qed

section \<open>The contract of the port\<close>

text \<open>
  On a reliable server each kind of pending work meets the contract the engine relies on, so that the
  facts about retried calls hold for NATS as they do for the in-memory store.
\<close>

lemma kv_store_laws:
  assumes "reliable cl" "lossless_codec cd" "uuid_text ev"
    and "\<And>v s. call (save v) s = kv_save cl b what cd (env_uuid_str ev (key v)) v s"
    and "\<And>u s. call (delete u) s = kv_remove cl b what (env_uuid_str ev u) s"
  shows "entity_store call save delete (\<lambda>s u. decoded cd (kv_at cl s b (env_uuid_str ev u))) key"
proof
  fix v p p' r and u k :: uuid
  obtain s1 q where s1: "call (save v) p = (s1, None)" "decoded cd (Some q) = Some v"
    "view cl s1 = (update2 (kv_at cl p) b (env_uuid_str ev (key v)) (Some q), obj_at cl p, history_at cl p)"
    unfolding assms(4) using kv_save_reliable [OF assms(1,2)] by blast
  obtain s2 where s2: "call (delete k) p = (s2, None)"
    "view cl s2 = (update2 (kv_at cl p) b (env_uuid_str ev k) None, obj_at cl p, history_at cl p)"
    unfolding assms(5) using kv_remove_reliable [OF assms(1)] by blast
  show "decoded cd (kv_at cl p' b (env_uuid_str ev (key v))) = Some v" if "call (save v) p = (p', None)"
    using that s1 view_eqs [OF s1(3)] by (simp add: update2_def)
  show "decoded cd (kv_at cl p' b (env_uuid_str ev u)) = decoded cd (kv_at cl p b (env_uuid_str ev u))"
    if "u \<noteq> key v" "call (save v) p = (p', r)"
    using that s1 view_eqs [OF s1(3)] assms(3) by (simp add: update2_def)
  show "decoded cd (kv_at cl p' b (env_uuid_str ev k)) = None" if "call (delete k) p = (p', None)"
    using that s2 view_eqs [OF s2(2)] by (simp add: update2_def)
  show "decoded cd (kv_at cl p' b (env_uuid_str ev u)) = decoded cd (kv_at cl p b (env_uuid_str ev u))"
    if "u \<noteq> k" "call (delete k) p = (p', r)"
    using that s2 view_eqs [OF s2(2)] assms(3) by (simp add: update2_def)
qed

lemma nats_entity_stores:
  assumes "reliable cl" "lossless_serde sd" "uuid_text ev"
  shows
    "entity_store (nats_call ev cl sd) SaveUserTask DeleteUserTask
       (\<lambda>s u. decoded (sd_user_task sd) (kv_at cl s ''user_tasks'' (env_uuid_str ev u))) ut_task_id"
    "entity_store (nats_call ev cl sd) SaveServiceTask DeleteServiceTask
       (\<lambda>s u. decoded (sd_service_task sd) (kv_at cl s ''service_tasks'' (env_uuid_str ev u))) st_id"
    "entity_store (nats_call ev cl sd) SaveTimer DeleteTimer
       (\<lambda>s u. decoded (sd_timer sd) (kv_at cl s ''timers'' (env_uuid_str ev u))) tm_id"
    "entity_store (nats_call ev cl sd) SaveMessageCatch DeleteMessageCatch
       (\<lambda>s u. decoded (sd_message sd) (kv_at cl s ''messages'' (env_uuid_str ev u))) mc_id"
  by (rule kv_store_laws [OF assms(1) _ assms(3)]; use assms(2) in \<open>simp add: lossless_serde_def nats_methods\<close>)+

text \<open>
  Without a reliable server: a listing of keys that fails is an empty answer, not an error, so that a
  restart would find no instances.
\<close>

lemma failed_listing_looks_empty:
  "nc_kv_open cl ''instances'' s = None \<Longrightarrow> nc_kv_keys cl ''instances'' s = Inl er \<Longrightarrow>
    nats_list_instances cl sd s = Ok []"
  by (simp add: nats_list_instances_def kv_list_def list_kv_entries_def)

section \<open>A server that keeps everything in tables\<close>

datatype payload =
    PToken token
  | PInstance process_instance
  | PDefinition process_definition
  | PUserTask user_task
  | PServiceTask service_task
  | PTimer pending_timer
  | PMessage message_catch
  | PHistory history_entry

definition codec_of :: "('a \<Rightarrow> payload) \<Rightarrow> (payload \<Rightarrow> 'a option) \<Rightarrow> ('a, payload) codec" where
  "codec_of c d = (\<lambda>x. Inr (c x), \<lambda>p. case d p of Some x \<Rightarrow> Inr x | None \<Rightarrow> Inl ''wrong type'')"

definition table_serde :: "payload nats_serde" where
  "table_serde =
     \<lparr>sd_token = codec_of PToken (\<lambda>p. case p of PToken x \<Rightarrow> Some x | _ \<Rightarrow> None),
      sd_instance = codec_of PInstance (\<lambda>p. case p of PInstance x \<Rightarrow> Some x | _ \<Rightarrow> None),
      sd_definition = codec_of PDefinition (\<lambda>p. case p of PDefinition x \<Rightarrow> Some x | _ \<Rightarrow> None),
      sd_user_task = codec_of PUserTask (\<lambda>p. case p of PUserTask x \<Rightarrow> Some x | _ \<Rightarrow> None),
      sd_service_task = codec_of PServiceTask (\<lambda>p. case p of PServiceTask x \<Rightarrow> Some x | _ \<Rightarrow> None),
      sd_timer = codec_of PTimer (\<lambda>p. case p of PTimer x \<Rightarrow> Some x | _ \<Rightarrow> None),
      sd_message = codec_of PMessage (\<lambda>p. case p of PMessage x \<Rightarrow> Some x | _ \<Rightarrow> None),
      sd_history = codec_of PHistory (\<lambda>p. case p of PHistory x \<Rightarrow> Some x | _ \<Rightarrow> None)\<rparr>"

record table_server =
  ts_kv :: "(string \<times> string, payload) table"
  ts_obj :: "(string \<times> string, nat list) table"
  ts_history :: "(string \<times> payload) list"

definition table_client :: "(table_server, payload) nats_client" where
  "table_client =
     \<lparr>nc_connect = (\<lambda>u s. (s, None)), nc_create_stream = (\<lambda>a b s. s), nc_create_object_store = (\<lambda>b s. s),
      nc_create_key_value = (\<lambda>b s. s), nc_kv_open = (\<lambda>b s. None),
      nc_kv_put = (\<lambda>b k p s. (s\<lparr>ts_kv := tput (b, k) p (ts_kv s)\<rparr>, None)),
      nc_kv_get = (\<lambda>b k s. Inr (tget (ts_kv s) (b, k))),
      nc_kv_delete = (\<lambda>b k s. (s\<lparr>ts_kv := tdel (b, k) (ts_kv s)\<rparr>, None)),
      nc_kv_keys = (\<lambda>b s. Inr (map Inr (remdups (map snd (filter (\<lambda>bk. fst bk = b) (tkeys (ts_kv s))))))),
      nc_kv_status = (\<lambda>b s. Inr (length (ts_kv s), 0)), nc_obj_open = (\<lambda>b s. None),
      nc_obj_put = (\<lambda>b k d s. (s\<lparr>ts_obj := tput (b, k) d (ts_obj s)\<rparr>, None)),
      nc_obj_get = (\<lambda>b k s. case tget (ts_obj s) (b, k) of None \<Rightarrow> Inl ''not found'' | Some d \<Rightarrow> Inr (Inr d)),
      nc_obj_delete = (\<lambda>b k s. (s\<lparr>ts_obj := tdel (b, k) (ts_obj s)\<rparr>, None)),
      nc_obj_list = (\<lambda>b s. Inr (map (\<lambda>k. Inr \<lparr>oi_name = k, oi_size = 0, oi_modified = None\<rparr>)
        (remdups (map snd (filter (\<lambda>bk. fst bk = b) (tkeys (ts_obj s))))))), nc_stream_open = (\<lambda>b s. None), nc_stream_info = (\<lambda>n s. Inr (1, 0, 0, 0)),
      nc_publish = (\<lambda>j p s. (s\<lparr>ts_history := ts_history s @ [(j, p)]\<rparr>, None)),
      nc_consumer = (\<lambda>n j s. Inr (Inr (map (\<lambda>m. Inr (snd m)) (filter (\<lambda>m. fst m = j) (ts_history s))))),
      nc_raw_message = (\<lambda>n q s. Inl ''none''), nc_server_info = (\<lambda>s. (''nats'', ''2'', ''localhost'', 4222)),
      nc_account = (\<lambda>s. Inr (0, 0, 0, 0)), nc_len = (\<lambda>p. 0), nc_utf8 = (\<lambda>p. None),
      nc_base64 = (\<lambda>d. []), nc_timestamp = Some\<rparr>"

lemma table_serde_lossless: "lossless_serde table_serde"
  by (simp add: lossless_serde_def lossless_codec_def table_serde_def codec_of_def)

lemma oks_map_Inr [simp]: "oks (map (\<lambda>x. Inr (f x)) xs) = map f xs"
  by (induction xs) auto

lemma table_view:
  "kv_at table_client s b k = tget (ts_kv s) (b, k)"
  "obj_at table_client s b k = tget (ts_obj s) (b, k)"
  "history_at table_client s j = map snd (filter (\<lambda>m. fst m = j) (ts_history s))"
  by (simp_all add: kv_at_def obj_at_def history_at_def table_client_def split: option.split)

lemma table_views:
  "kv_at table_client s = (\<lambda>b k. tget (ts_kv s) (b, k))"
  "obj_at table_client s = (\<lambda>b k. tget (ts_obj s) (b, k))"
  "history_at table_client s = (\<lambda>j. map snd (filter (\<lambda>m. fst m = j) (ts_history s)))"
  by (simp_all add: table_view fun_eq_iff)

lemma table_client_reliable: "reliable table_client"
proof -
  have keys: "\<exists>ks. nc_kv_keys table_client b s = Inr (map Inr ks) \<and> distinct ks \<and> set ks = dom (kv_at table_client s b)" for b s
  proof (intro exI conjI)
    let ?ks = "remdups (map snd (filter (\<lambda>bk. fst bk = b) (tkeys (ts_kv s))))"
    show "nc_kv_keys table_client b s = Inr (map Inr ?ks)" by (simp add: table_client_def)
    show "distinct ?ks" by simp
    have "k \<in> dom (kv_at table_client s b) \<longleftrightarrow> (b, k) \<in> set (tkeys (ts_kv s))" for k
      using tget_None_iff [of "ts_kv s" "(b, k)"] by (auto simp: table_view tkeys_def domIff)
    then show "set ?ks = dom (kv_at table_client s b)" by force
  qed
  show ?thesis
    unfolding reliable_def
    by (intro conjI allI; (rule keys)?; (simp only: view_def table_views)?;
        simp add: table_client_def update2_def fun_eq_iff tget_tput tget_tdel)
qed

definition sample_env :: env where
  "sample_env =
     \<lparr>env_as_f64 = (\<lambda>n. None), env_uuid_v4 = Suc, env_uuid_str = show_nat,
      env_uuid_parse = (\<lambda>s. Some (digits_val 0 s)), env_rhai = (\<lambda>c s vs. ScriptTimedOut),
      env_cron_next = (\<lambda>s t. None), env_chrono_dur = (\<lambda>d. None), env_td_seconds = (\<lambda>s. s)\<rparr>"

lemma sample_env_uuid_text: "uuid_text sample_env"
  by (simp add: uuid_text_def sample_env_def digits_val_show_nat)

definition empty_server :: table_server where
  "empty_server = \<lparr>ts_kv = [], ts_obj = [], ts_history = []\<rparr>"

lemma empty_server_represents: "represents sample_env table_client table_serde empty_server memory_new"
  by (simp add: represents_def holds_table_def table_view empty_server_def memory_new_def)

theorem nats_store_refines_memory_witness:
  "\<exists>s'. nats_call sample_env table_client table_serde (SaveInstance blank_instance) empty_server = (s', None) \<and>
     represents sample_env table_client table_serde s'
       (memory_new\<lparr>me_instances := [(1, blank_instance)]\<rparr>)"
proof -
  obtain s' fl where run:
    "nats_call sample_env table_client table_serde (SaveInstance blank_instance) empty_server = (s', fl)" by fastforce
  from nats_store_refines_memory [OF table_client_reliable table_serde_lossless sample_env_uuid_text
      empty_server_represents _ run] run
  show ?thesis by (simp add: memory_new_def blank_instance_def tput_def)
qed

definition filled_server :: table_server where
  "filled_server = empty_server\<lparr>ts_kv := [((''instances'', ''1''), PInstance blank_instance)]\<rparr>"

lemma filled_server_represents:
  "represents sample_env table_client table_serde filled_server (memory_new\<lparr>me_instances := [(1, blank_instance)]\<rparr>)"
proof -
  have one: "''1'' = env_uuid_str sample_env 1" by code_simp
  have "holds_table sample_env (sd_instance table_serde) (kv_at table_client filled_server ''instances'') [(1, blank_instance)]"
    using sample_env_uuid_text unfolding holds_table_def
    by (auto simp: table_view filled_server_def one tget_Cons decoded_def table_serde_def codec_of_def
        split: if_splits)
  then show ?thesis
    by (simp add: represents_def holds_table_def [of _ _ _ "[]"] table_view filled_server_def empty_server_def
        memory_new_def tget_Cons)
qed

theorem nats_queries_agree_with_memory_witness:
  "nats_list_instances table_client table_serde filled_server = Ok [blank_instance]"
proof -
  have "memory_wf (memory_new\<lparr>me_instances := [(1, blank_instance)]\<rparr>)"
    by (simp add: memory_wf_def memory_new_def wf_table_def)
  from nats_queries_agree_with_memory [OF table_client_reliable sample_env_uuid_text filled_server_represents this]
  show ?thesis by (force simp: list_instances_def memory_new_def tvals_def)
qed

end
