(* ===== verification/InMemoryAdapter.thy ===== *)
theory InMemoryAdapter
  imports StorageViews
begin

text \<open>
  The store that \<open>engine-core\<close> keeps for its own tests (\<open>engine-core/src/adapter/in_memory.rs\<close>), next to
  the one of \<open>persistence-memory\<close> that other crates use. The two are separate code and are shown to do
  the same, so what a test of the engine observes holds with the published store.
\<close>

section \<open>The store and its calls\<close>

record test_store =
  ts_tokens :: "(string, token list) table"
  ts_instances :: "(uuid, process_instance) table"
  ts_definitions :: "(uuid, process_definition) table"
  ts_user_tasks :: "(uuid, user_task) table"
  ts_service_tasks :: "(uuid, service_task) table"
  ts_timers :: "(uuid, pending_timer) table"
  ts_message_catches :: "(uuid, message_catch) table"
  ts_files :: "(string, nat list) table"
  ts_bpmn_xmls :: "(string, string) table"
  ts_history :: "(uuid, history_entry list) table"
  ts_completed_instances :: "(uuid, process_instance) table"

definition test_store_new :: test_store where
  "test_store_new =
     \<lparr> ts_tokens = [], ts_instances = [], ts_definitions = [], ts_user_tasks = [],
       ts_service_tasks = [], ts_timers = [], ts_message_catches = [], ts_files = [],
       ts_bpmn_xmls = [], ts_history = [], ts_completed_instances = [] \<rparr>"

text \<open>\<open>format!("token-{instance_id}-{}", token.id)\<close>\<close>

definition ts_token_key :: "'z env_scheme \<Rightarrow> uuid \<Rightarrow> uuid \<Rightarrow> string" where
  "ts_token_key ev i t = concat [''token-'', env_uuid_str ev i, ''-'', env_uuid_str ev t]"

definition ts_append_history :: "history_entry \<Rightarrow> test_store \<Rightarrow> test_store" where
  "ts_append_history en a =
     (let es = (case tget (ts_history a) (he_instance_id en) of None \<Rightarrow> [] | Some es \<Rightarrow> es)
      in a\<lparr>ts_history := tput (he_instance_id en) (es @ [en]) (ts_history a)\<rparr>)"

fun test_store_step :: "'z env_scheme \<Rightarrow> pcall \<Rightarrow> test_store \<Rightarrow> test_store" where
  "test_store_step ev (SaveToken i t) a =
     a\<lparr>ts_tokens := tput (ts_token_key ev i (tk_id t)) [t] (ts_tokens a)\<rparr>"
| "test_store_step ev (DeleteToken i t) a = a\<lparr>ts_tokens := tdel (ts_token_key ev i t) (ts_tokens a)\<rparr>"
| "test_store_step ev (SaveInstance x) a = a\<lparr>ts_instances := tput (pi_id x) x (ts_instances a)\<rparr>"
| "test_store_step ev (DeleteInstance s) a =
     (case env_uuid_parse ev s of None \<Rightarrow> a | Some uid \<Rightarrow> a\<lparr>ts_instances := tdel uid (ts_instances a)\<rparr>)"
| "test_store_step ev (SaveDefinition d) a = a\<lparr>ts_definitions := tput (pd_key d) d (ts_definitions a)\<rparr>"
| "test_store_step ev (DeleteDefinition s) a =
     (case env_uuid_parse ev s of
        None \<Rightarrow> a | Some uid \<Rightarrow> a\<lparr>ts_definitions := tdel uid (ts_definitions a)\<rparr>)"
| "test_store_step ev (SaveUserTask t) a = a\<lparr>ts_user_tasks := tput (ut_task_id t) t (ts_user_tasks a)\<rparr>"
| "test_store_step ev (DeleteUserTask u) a = a\<lparr>ts_user_tasks := tdel u (ts_user_tasks a)\<rparr>"
| "test_store_step ev (SaveServiceTask t) a = a\<lparr>ts_service_tasks := tput (st_id t) t (ts_service_tasks a)\<rparr>"
| "test_store_step ev (DeleteServiceTask u) a = a\<lparr>ts_service_tasks := tdel u (ts_service_tasks a)\<rparr>"
| "test_store_step ev (SaveTimer t) a = a\<lparr>ts_timers := tput (tm_id t) t (ts_timers a)\<rparr>"
| "test_store_step ev (DeleteTimer u) a = a\<lparr>ts_timers := tdel u (ts_timers a)\<rparr>"
| "test_store_step ev (SaveMessageCatch c) a =
     a\<lparr>ts_message_catches := tput (mc_id c) c (ts_message_catches a)\<rparr>"
| "test_store_step ev (DeleteMessageCatch u) a =
     a\<lparr>ts_message_catches := tdel u (ts_message_catches a)\<rparr>"
| "test_store_step ev (SaveFile k bs) a = a\<lparr>ts_files := tput k bs (ts_files a)\<rparr>"
| "test_store_step ev (DeleteFile k) a = a\<lparr>ts_files := tdel k (ts_files a)\<rparr>"
| "test_store_step ev (SaveBpmnXml k x) a = a\<lparr>ts_bpmn_xmls := tput k x (ts_bpmn_xmls a)\<rparr>"
| "test_store_step ev (AppendHistoryEntry en) a = ts_append_history en a"
| "test_store_step ev (SaveCompletedInstance x) a =
     a\<lparr>ts_completed_instances := tput (pi_id x) x (ts_completed_instances a)\<rparr>"

section \<open>Queries\<close>

definition ts_load_tokens :: "'z env_scheme \<Rightarrow> uuid \<Rightarrow> test_store \<Rightarrow> token list" where
  "ts_load_tokens ev i a =
     (let prefix = concat [''token-'', env_uuid_str ev i, ''-'']
      in concat (map snd (filter (\<lambda>kv. starts_with (fst kv) prefix) (ts_tokens a))))"

definition ts_load_file :: "string \<Rightarrow> test_store \<Rightarrow> (engine_error, nat list) outcome" where
  "ts_load_file k a = ok_or (PersistenceError (Msg ''File not found'' [])) (tget (ts_files a) k)"

text \<open>\<open>unwrap_or_default()\<close> of a failed parse is the nil UUID.\<close>

definition ts_load_bpmn_xml ::
  "'z env_scheme \<Rightarrow> string \<Rightarrow> test_store \<Rightarrow> (engine_error, string) outcome" where
  "ts_load_bpmn_xml ev k a =
     (case tget (ts_bpmn_xmls a) k of
        Some x \<Rightarrow> Ok x
      | None \<Rightarrow>
          Err (NoSuchDefinition (case env_uuid_parse ev k of Some u \<Rightarrow> u | None \<Rightarrow> uuid_nil)))"

definition ts_query_history :: "history_query \<Rightarrow> test_store \<Rightarrow> history_entry list" where
  "ts_query_history q a =
     (let es0 = (case tget (ts_history a) (hq_instance_id q) of None \<Rightarrow> [] | Some es \<Rightarrow> es);
          es1 = (case hq_event_types q of
                   None \<Rightarrow> es0 | Some types \<Rightarrow> filter (\<lambda>e. he_event_type e \<in> set types) es0);
          es2 = (case hq_node_id q of None \<Rightarrow> es1 | Some n \<Rightarrow> filter (\<lambda>e. he_node_id e = Some n) es1);
          es3 = (case hq_actor_type q of None \<Rightarrow> es2 | Some t \<Rightarrow> filter (\<lambda>e. he_actor_type e = t) es2);
          es4 = (case hq_from q of None \<Rightarrow> es3 | Some t \<Rightarrow> filter (\<lambda>e. he_timestamp e \<ge> t) es3);
          es5 = (case hq_to q of None \<Rightarrow> es4 | Some t \<Rightarrow> filter (\<lambda>e. he_timestamp e \<le> t) es4);
          es6 = sort_key he_timestamp es5;
          es7 = (case hq_offset q of None \<Rightarrow> es6 | Some n \<Rightarrow> drop n es6)
      in case hq_limit q of None \<Rightarrow> es7 | Some n \<Rightarrow> take n es7)"

text \<open>The closure of the filter, one early return after the other.\<close>

definition ts_completed_filter :: "completed_query \<Rightarrow> process_instance \<Rightarrow> bool" where
  "ts_completed_filter q inst =
     (if (case cq_definition_key q of None \<Rightarrow> False | Some dk \<Rightarrow> pi_definition_key inst \<noteq> dk) then False
      else if (case cq_business_key q of
                 None \<Rightarrow> False | Some bk \<Rightarrow> \<not> contains_str (pi_business_key inst) bk) then False
      else if (case (cq_from q, pi_completed_at inst) of
                 (Some f, Some c) \<Rightarrow> c < f | _ \<Rightarrow> False) then False
      else if (case (cq_to q, pi_completed_at inst) of
                 (Some t, Some c) \<Rightarrow> c > t | _ \<Rightarrow> False) then False
      else
        case cq_state_filter q of
          None \<Rightarrow> True
        | Some sf \<Rightarrow>
            if sf = ''completed'' then (case pi_state inst of Completed \<Rightarrow> True | _ \<Rightarrow> False)
            else if sf = ''error'' then (case pi_state inst of CompletedWithError c \<Rightarrow> True | _ \<Rightarrow> False)
            else True)"

definition ts_query_completed_instances :: "completed_query \<Rightarrow> test_store \<Rightarrow> process_instance list" where
  "ts_query_completed_instances q a =
     (let rs0 = sort_latest (filter (ts_completed_filter q) (tvals (ts_completed_instances a)));
          rs1 = (case cq_offset q of None \<Rightarrow> rs0 | Some n \<Rightarrow> drop n rs0)
      in case cq_limit q of None \<Rightarrow> rs1 | Some n \<Rightarrow> take n rs1)"

definition ts_get_completed_instance ::
  "'z env_scheme \<Rightarrow> string \<Rightarrow> test_store \<Rightarrow> (engine_error, process_instance option) outcome" where
  "ts_get_completed_instance ev s a =
     and_then (ok_or (PersistenceError (Msg ''invalid UUID'' [])) (env_uuid_parse ev s)) (\<lambda>u.
       Ok (tget (ts_completed_instances a) u))"

definition ts_get_storage_info :: "test_store \<Rightarrow> storage_info option" where
  "ts_get_storage_info a =
     (let f = length (ts_files a); i = length (ts_instances a); d = length (ts_definitions a);
          ut = length (ts_user_tasks a); st = length (ts_service_tasks a); t = length (ts_timers a);
          m = length (ts_message_catches a); h = sum_list (map length (tvals (ts_history a)));
          b = length (ts_bpmn_xmls a);
          buckets =
            [bucket_of ''instances'' ''kv'' i (i * 512), bucket_of ''definitions'' ''kv'' d (d * 256),
             bucket_of ''user_tasks'' ''kv'' ut (ut * 128),
             bucket_of ''service_tasks'' ''kv'' st (st * 128),
             bucket_of ''timers'' ''kv'' t (t * 128), bucket_of ''messages'' ''kv'' m (m * 128),
             bucket_of ''bpmn_xml'' ''object_store'' b 0,
             bucket_of ''instance_files'' ''object_store'' f 0, bucket_of ''history'' ''stream'' h 0]
      in Some \<lparr>si_backend_name = ''InMemoryPersistence'', si_version = ''1.0.0'',
               si_host = ''localhost'', si_port = 0, si_memory_bytes = f * 1024 + i * 512,
               si_storage_bytes = 0, si_streams = 0, si_consumers = 0, si_buckets = buckets\<rparr>)"

section \<open>The two stores do the same\<close>

definition published :: "test_store \<Rightarrow> memory" where
  "published a =
     \<lparr> me_tokens = ts_tokens a, me_instances = ts_instances a, me_definitions = ts_definitions a,
       me_user_tasks = ts_user_tasks a, me_service_tasks = ts_service_tasks a,
       me_timers = ts_timers a, me_messages = ts_message_catches a, me_files = ts_files a,
       me_xmls = ts_bpmn_xmls a, me_history = ts_history a, me_completed = ts_completed_instances a \<rparr>"

lemma published_step: "published (test_store_step ev c a) = memory_step ev c (published a)"
  by (cases c) (simp_all add: published_def token_key_def ts_token_key_def delete_parsed_def
      ts_append_history_def tpush_def Let_def split: option.split)

lemma published_run: "published (fold (test_store_step ev) cs a) = fold (memory_step ev) cs (published a)"
  by (induction cs arbitrary: a) (simp_all add: published_step)

lemma ts_completed_filter_matches: "ts_completed_filter q inst = completed_matches q inst"
  by (auto simp: ts_completed_filter_def completed_matches_def opt_all_def split: option.splits
      instance_state.splits)

lemma published_queries:
  "ts_load_tokens ev i a = load_tokens ev i (published a)"
  "ts_load_file k a = load_file k (published a)"
  "ts_load_bpmn_xml ev s a = load_bpmn_xml ev s (published a)"
  "ts_query_history hq a = query_history hq (published a)"
  "ts_query_completed_instances cq a = query_completed_instances cq (published a)"
  "ts_get_completed_instance ev s a = get_completed_instance ev s (published a)"
  "ts_get_storage_info a = get_storage_info (published a)"
  by (auto simp: ts_load_tokens_def load_tokens_def published_def ts_load_file_def load_file_def
      ts_load_bpmn_xml_def load_bpmn_xml_def ts_query_history_def query_history_def
      history_matches_def retain_opt_def paginate_def ts_query_completed_instances_def
      query_completed_instances_def ts_completed_filter_matches [abs_def] ts_get_completed_instance_def
      get_completed_instance_def ts_get_storage_info_def get_storage_info_def memory_buckets_def
      history_length_def tvals_def Let_def split: option.split)

lemma test_store_is_the_published_store:
  "published (fold (test_store_step ev) cs test_store_new) = fold (memory_step ev) cs memory_new \<and>
   ts_query_history hq (fold (test_store_step ev) cs test_store_new)
     = query_history hq (fold (memory_step ev) cs memory_new) \<and>
   ts_query_completed_instances cq (fold (test_store_step ev) cs test_store_new)
     = query_completed_instances cq (fold (memory_step ev) cs memory_new)"
proof -
  have "published test_store_new = memory_new"
    by (simp add: published_def test_store_new_def memory_new_def)
  then have "published (fold (test_store_step ev) cs test_store_new) = fold (memory_step ev) cs memory_new"
    by (simp add: published_run)
  then show ?thesis by (simp add: published_queries)
qed

end
