(* ===== verification/Server.thy ===== *)
theory Server
  imports System StorageViews BpmnParser LogBuffer
begin

text \<open>
  The HTTP interface (\<open>engine-server/src/server\<close>): one definition per handler, the mapping of errors to
  status codes, and the router as a function on requests whose bodies are decoded. The routes and the decoding
  are in \<open>Routes\<close>, the encoding of the answers in \<open>DesktopServer\<close>, the event stream in \<open>EventStream\<close>.
\<close>

section \<open>Errors and answers (state.rs)\<close>

datatype http_status =
    StatusOk | StatusCreated | StatusNoContent | StatusBadRequest | StatusNotFound | StatusConflict
  | StatusUnprocessable | StatusInternalError | StatusUnavailable

fun status_code :: "http_status \<Rightarrow> nat" where
  "status_code StatusOk = 200"
| "status_code StatusCreated = 201"
| "status_code StatusNoContent = 204"
| "status_code StatusBadRequest = 400"
| "status_code StatusNotFound = 404"
| "status_code StatusConflict = 409"
| "status_code StatusUnprocessable = 422"
| "status_code StatusInternalError = 500"
| "status_code StatusUnavailable = 503"

datatype app_error = AppEngine engine_error | BadRequest msg

text \<open>The template of the last message but one ends in a quotation mark and holds a long dash.\<close>

fun into_response :: "app_error \<Rightarrow> http_status \<times> msg" where
  "into_response (BadRequest m) = (StatusBadRequest, m)"
| "into_response (AppEngine (InvalidDefinition m)) = (StatusBadRequest, m)"
| "into_response (AppEngine (NoMatchingCondition n)) =
     (StatusBadRequest, Msg (''No matching condition at gateway '{}'' @ [CHR 0x27]) [AStr n])"
| "into_response (AppEngine (NoSuchDefinition k)) = (StatusNotFound, Msg ''Definition not found: {}'' [AId k])"
| "into_response (AppEngine (NoSuchInstance k)) = (StatusNotFound, Msg ''Instance not found: {}'' [AId k])"
| "into_response (AppEngine (NoSuchNode n)) = (StatusNotFound, Msg ''Node not found: {}'' [AStr n])"
| "into_response (AppEngine (ServiceTaskNotFound k)) =
     (StatusNotFound, Msg ''Service task not found: {}'' [AId k])"
| "into_response (AppEngine (TaskNotPending k m)) =
     (StatusConflict, Msg ''Task '{}' is not pending (state: {})'' [AId k, AMsg m])"
| "into_response (AppEngine (ServiceTaskLocked k w)) =
     (StatusConflict, Msg (''Task '{}' locked by worker '{}'' @ [CHR 0x27]) [AId k, AStr w])"
| "into_response (AppEngine (ServiceTaskNotLocked k)) =
     (StatusConflict, Msg ''Service task '{}' is not locked'' [AId k])"
| "into_response (AppEngine AlreadyCompleted) = (StatusConflict, Msg ''Process instance already completed'' [])"
| "into_response (AppEngine (DefinitionHasInstances n)) =
     (StatusConflict, Msg ''Cannot delete definition: {} instances still exist'' [ANat n])"
| "into_response (AppEngine (InstanceSuspended k)) =
     (StatusConflict, Msg ''Instance '{}' is suspended'' [AId k])"
| "into_response (AppEngine (OrphanedToken n)) =
     (StatusUnprocessable,
      Msg (''Orphaned token: node '{}' not found in target definition '' @ [CHR 0xE2, CHR 0x80, CHR 0x94]
             @ '' provide a mapping'') [AStr n])"
| "into_response (AppEngine er) = (StatusInternalError, error_text er)"

definition parse_uuid :: "'z env_scheme \<Rightarrow> string \<Rightarrow> (app_error, uuid) outcome" where
  "parse_uuid ev raw = ok_or (BadRequest (Msg ''Invalid UUID format'' [])) (env_uuid_parse ev raw)"

section \<open>The state of the server\<close>

text \<open>
  The engine with the nesting depth of its batches, the parser, the queries of the attached backend, the
  RFC 3339 text of an instant, and whether a text can be the value of an HTTP header.
\<close>

record 'p server_env =
  sv_engine :: "'p eenv"
  sv_depth :: nat
  sv_parser :: parser_env
  sv_log :: log_io
  sv_load_xml :: "string \<Rightarrow> 'p \<Rightarrow> (engine_error, string) outcome"
  sv_load_file :: "string \<Rightarrow> 'p \<Rightarrow> (engine_error, nat list) outcome"
  sv_query_history :: "history_query \<Rightarrow> 'p \<Rightarrow> (engine_error, history_entry list) outcome"
  sv_storage_info :: "'p \<Rightarrow> (engine_error, storage_info option) outcome"
  sv_bucket_entries :: "string \<Rightarrow> nat \<Rightarrow> nat \<Rightarrow> 'p \<Rightarrow> (engine_error, bucket_entry list) outcome"
  sv_bucket_detail :: "string \<Rightarrow> string \<Rightarrow> 'p \<Rightarrow> (engine_error, bucket_entry_detail) outcome"
  sv_rfc3339 :: "time \<Rightarrow> string"
  sv_header :: "string \<Rightarrow> bool"

text \<open>
  \<open>AppState\<close>. Its persistence handle is the backend the engine is attached to (\<open>main.rs\<close> passes the same
  one to both), so its data is the field \<open>en_store\<close> of the engine.
\<close>

record 'p app =
  ap_engine :: "'p engine"
  ap_xml :: "(string, string) table"
  ap_nats_url :: string
  ap_log :: log_buffer

type_synonym ('p, 'a) handled = "'p app \<times> (app_error, 'a) outcome"

fun map_err :: "('e \<Rightarrow> 'f) \<Rightarrow> ('e, 'a) outcome \<Rightarrow> ('f, 'a) outcome" where
  "map_err f (Ok x) = Ok x"
| "map_err f (Err er) = Err (f er)"
| "map_err f Diverged = Diverged"

text \<open>A call of the engine and \<open>?\<close>, which converts its error.\<close>

definition on_engine :: "('p engine \<Rightarrow> ('p, 'a) result) \<Rightarrow> 'p app \<Rightarrow> ('p, 'a) handled" where
  "on_engine f s = (case f (ap_engine s) of (e, r) \<Rightarrow> (s\<lparr>ap_engine := e\<rparr>, map_err AppEngine r))"

definition app_store :: "'p app \<Rightarrow> 'p option" where
  "app_store s = en_store (ap_engine s)"

definition with_uuid ::
  "'p server_env \<Rightarrow> string \<Rightarrow> (uuid \<Rightarrow> 'p app \<Rightarrow> ('p, 'a) handled) \<Rightarrow> 'p app \<Rightarrow> ('p, 'a) handled" where
  "with_uuid sv raw k s = bindR (liftR s (parse_uuid (sv_engine sv) raw)) (\<lambda>s u. k u s)"

definition no_content :: "('p, 'a) handled \<Rightarrow> ('p, http_status) handled" where
  "no_content r = bindR r (\<lambda>s x. (s, Ok StatusNoContent))"

abbreviation sv_batch :: "'p server_env \<Rightarrow> 'p batch" where
  "sv_batch sv \<equiv> run_instance_batch (sv_engine sv) (sv_depth sv)"

definition unwrap_vars :: "vars option \<Rightarrow> vars" where
  "unwrap_vars vs = (case vs of None \<Rightarrow> [] | Some v \<Rightarrow> v)"

section \<open>Tasks (tasks.rs)\<close>

definition http_get_tasks :: "'p app \<Rightarrow> user_task list" where
  "http_get_tasks s = get_pending_user_tasks_enriched (ap_engine s)"

definition http_get_service_tasks :: "'p app \<Rightarrow> service_task list" where
  "http_get_service_tasks s = get_pending_service_tasks_enriched (ap_engine s)"

definition http_complete_task ::
  "'p server_env \<Rightarrow> string \<Rightarrow> vars option \<Rightarrow> 'p app \<Rightarrow> ('p, http_status) handled" where
  "http_complete_task sv raw vs =
     with_uuid sv raw (\<lambda>u s.
       no_content (on_engine (complete_user_task (sv_engine sv) (sv_batch sv) u (unwrap_vars vs)) s))"

record fetch_request =
  fq_worker_id :: string
  fq_max_tasks :: nat
  fq_topics :: "(string \<times> int) list"
  fq_timeout :: "nat option"

definition fetch_once :: "'p server_env \<Rightarrow> fetch_request \<Rightarrow> 'p app \<Rightarrow> 'p app \<times> service_task list" where
  "fetch_once sv q s =
     (let lock_duration = (case fq_topics q of [] \<Rightarrow> 30 | t # ts \<Rightarrow> snd t)
      in case fetch_and_lock_service_tasks (sv_engine sv) (fq_worker_id q) (fq_max_tasks q)
                (map fst (fq_topics q)) lock_duration (ap_engine s) of
           (e, tasks) \<Rightarrow> (s\<lparr>ap_engine := e\<rparr>, tasks))"

definition poll_interval :: nat where
  "poll_interval = 500"

definition fetch_timeout :: "fetch_request \<Rightarrow> nat" where
  "fetch_timeout q = (case fq_timeout q of None \<Rightarrow> 0 | Some n \<Rightarrow> n)"

text \<open>
  The loop of the long poll from the attempt \<open>k\<close> on. \<open>clock k\<close> is what \<open>start.elapsed()\<close> returns after it in
  milliseconds, \<open>world k\<close> what everybody else does to the server during the sleep that follows.
\<close>

partial_function (option) fetch_loop ::
  "'p server_env \<Rightarrow> (nat \<Rightarrow> nat) \<Rightarrow> (nat \<Rightarrow> 'p app \<Rightarrow> 'p app) \<Rightarrow> fetch_request \<Rightarrow> nat \<Rightarrow> 'p app
     \<Rightarrow> ('p app \<times> service_task list) option" where
  "fetch_loop sv clock world q k s =
     (case fetch_once sv q s of
        (s1, tasks) \<Rightarrow>
          if tasks \<noteq> [] \<or> fetch_timeout q = 0 then Some (s1, tasks)
          else if min (fetch_timeout q) 30000 \<le> clock k then Some (s1, [])
          else fetch_loop sv clock world q (Suc k) (world k s1))"

definition http_complete_service_task ::
  "'p server_env \<Rightarrow> string \<Rightarrow> string \<Rightarrow> vars option \<Rightarrow> 'p app \<Rightarrow> ('p, http_status) handled" where
  "http_complete_service_task sv raw worker vs =
     with_uuid sv raw (\<lambda>u s.
       no_content (on_engine
         (complete_service_task (sv_engine sv) (sv_batch sv) u worker (unwrap_vars vs)) s))"

definition http_fail_service_task ::
  "'p server_env \<Rightarrow> string \<Rightarrow> string \<Rightarrow> int option \<Rightarrow> string option \<Rightarrow> string option \<Rightarrow> 'p app
     \<Rightarrow> ('p, http_status) handled" where
  "http_fail_service_task sv raw worker retries error_message error_details =
     with_uuid sv raw (\<lambda>u s.
       no_content (on_engine
         (fail_service_task (sv_engine sv) u worker retries error_message error_details) s))"

definition http_retry_incident ::
  "'p server_env \<Rightarrow> string \<Rightarrow> int option \<Rightarrow> 'p app \<Rightarrow> ('p, http_status) handled" where
  "http_retry_incident sv raw retries =
     with_uuid sv raw (\<lambda>u s. no_content (on_engine (retry_incident (sv_engine sv) u retries) s))"

definition http_resolve_incident ::
  "'p server_env \<Rightarrow> string \<Rightarrow> vars option \<Rightarrow> 'p app \<Rightarrow> ('p, http_status) handled" where
  "http_resolve_incident sv raw vs =
     with_uuid sv raw (\<lambda>u s.
       no_content (on_engine (resolve_incident (sv_engine sv) (sv_batch sv) u (unwrap_vars vs)) s))"

definition http_extend_lock ::
  "'p server_env \<Rightarrow> string \<Rightarrow> string \<Rightarrow> int \<Rightarrow> 'p app \<Rightarrow> ('p, http_status) handled" where
  "http_extend_lock sv raw worker new_duration =
     with_uuid sv raw (\<lambda>u s. no_content (on_engine (extend_lock (sv_engine sv) u worker new_duration) s))"

definition http_bpmn_error ::
  "'p server_env \<Rightarrow> string \<Rightarrow> string \<Rightarrow> string \<Rightarrow> 'p app \<Rightarrow> ('p, http_status) handled" where
  "http_bpmn_error sv raw worker error_code =
     with_uuid sv raw (\<lambda>u s.
       no_content (on_engine (handle_bpmn_error (sv_engine sv) (sv_batch sv) u worker error_code) s))"

section \<open>Definitions (deploy.rs)\<close>

definition MAX_XML_BYTES :: nat where
  "MAX_XML_BYTES = 10 * 1024 * 1024"

text \<open>
  The parser draws the key of the definition. The text is stored by the backend when there is one, and a
  failure of that is only logged; the cache gets it in any case.
\<close>

definition store_xml :: "'p server_env \<Rightarrow> string \<Rightarrow> string \<Rightarrow> 'p app \<Rightarrow> 'p app" where
  "store_xml sv key xml s =
     s\<lparr>ap_engine := call_ignored (sv_engine sv) (SaveBpmnXml key xml) (ap_engine s),
       ap_xml := tput key xml (ap_xml s)\<rparr>"

definition http_deploy_definition ::
  "'p server_env \<Rightarrow> string \<Rightarrow> 'p app \<Rightarrow> ('p, string \<times> int) handled" where
  "http_deploy_definition sv xml s =
     (if MAX_XML_BYTES < length xml then
        (s, Err (BadRequest (Msg ''XML too large: {} bytes (max {})'' [ANat (length xml), ANat MAX_XML_BYTES])))
      else
        (case draw (sv_engine sv) (ap_engine s) of
           (fresh, e1) \<Rightarrow>
             (case parse_bpmn_xml (sv_parser sv) fresh xml of
                Err er \<Rightarrow> (s\<lparr>ap_engine := e1\<rparr>, Err (BadRequest (Msg ''Invalid BPMN XML: {:?}'' [AMsg (error_text er)])))
              | Diverged \<Rightarrow> (s\<lparr>ap_engine := e1\<rparr>, Diverged)
              | Ok def \<Rightarrow>
                  (case deploy_definition (sv_engine sv) def e1 of
                     (e2, (key, version)) \<Rightarrow>
                       (let key_str = env_uuid_str (sv_engine sv) key
                        in (store_xml sv key_str xml (s\<lparr>ap_engine := e2\<rparr>), Ok (key_str, version)))))))"

record definition_info =
  di_key :: string
  di_bpmn_id :: string
  di_version :: int
  di_node_count :: nat
  di_is_latest :: bool

definition latest_entry :: "(uuid \<times> string \<times> int \<times> nat) \<Rightarrow> (string, int) table \<Rightarrow> (string, int) table" where
  "latest_entry r t =
     (case r of (key, bpmn_id, version, nodes) \<Rightarrow>
        let old = (case tget t bpmn_id of None \<Rightarrow> 0 | Some v \<Rightarrow> v)
        in tput bpmn_id (if old < version then version else old) t)"

definition http_list_definitions :: "'p server_env \<Rightarrow> 'p app \<Rightarrow> definition_info list" where
  "http_list_definitions sv s =
     (let raw = list_deployed (ap_engine s);
          latest = fold latest_entry raw []
      in map (\<lambda>(key, bpmn_id, version, nodes).
           \<lparr>di_key = env_uuid_str (sv_engine sv) key, di_bpmn_id = bpmn_id, di_version = version,
            di_node_count = nodes, di_is_latest = (tget latest bpmn_id = Some version)\<rparr>) raw)"

definition http_get_definition_xml :: "'p server_env \<Rightarrow> string \<Rightarrow> 'p app \<Rightarrow> (app_error, string) outcome" where
  "http_get_definition_xml sv i s =
     (let missing = Err (BadRequest (Msg (''No XML found for definition '{}'' @ [CHR 0x27]) [AStr i]))
      in case tget (ap_xml s) i of
           Some xml \<Rightarrow> Ok xml
         | None \<Rightarrow>
             (case app_store s of
                None \<Rightarrow> missing
              | Some p \<Rightarrow> (case sv_load_xml sv i p of Ok xml \<Rightarrow> Ok xml | Err er \<Rightarrow> missing | Diverged \<Rightarrow> Diverged)))"

text \<open>The cache entry of the text as it stands in the path is removed.\<close>

definition http_delete_definition ::
  "'p server_env \<Rightarrow> string \<Rightarrow> bool option \<Rightarrow> 'p app \<Rightarrow> ('p, http_status) handled" where
  "http_delete_definition sv raw cascade =
     with_uuid sv raw (\<lambda>k s.
       bindR (on_engine (delete_definition (sv_engine sv) k (cascade = Some True)) s) (\<lambda>s u.
         (s\<lparr>ap_xml := tdel raw (ap_xml s)\<rparr>, Ok StatusNoContent)))"

definition http_delete_all_definitions ::
  "'p server_env \<Rightarrow> string \<Rightarrow> bool option \<Rightarrow> 'p app \<Rightarrow> ('p, http_status) handled" where
  "http_delete_all_definitions sv bpmn_id cascade s0 =
     (let versions = list_definition_versions (ap_engine s0) bpmn_id
      in bindR (on_engine (delete_all_definitions (sv_engine sv) bpmn_id (cascade = Some True)) s0) (\<lambda>s u.
           (s\<lparr>ap_xml := fold (\<lambda>(k, v, n). tdel (env_uuid_str (sv_engine sv) k)) versions (ap_xml s)\<rparr>,
            Ok StatusNoContent)))"

section \<open>Instances (instances.rs)\<close>

definition http_start_instance ::
  "'p server_env \<Rightarrow> string \<Rightarrow> vars option \<Rightarrow> 'p app \<Rightarrow> ('p, string) handled" where
  "http_start_instance sv raw vs =
     with_uuid sv raw (\<lambda>k s.
       bindR (on_engine
           (case vs of
              Some v \<Rightarrow>
                if v \<noteq> [] then start_instance_with_variables (sv_engine sv) (sv_batch sv) k v
                else start_instance (sv_engine sv) (sv_batch sv) k
            | None \<Rightarrow> start_instance (sv_engine sv) (sv_batch sv) k) s) (\<lambda>s i.
         (s, Ok (env_uuid_str (sv_engine sv) i))))"

definition http_start_instance_latest ::
  "'p server_env \<Rightarrow> string \<Rightarrow> vars option \<Rightarrow> 'p app \<Rightarrow> ('p, string \<times> string \<times> int) handled" where
  "http_start_instance_latest sv bpmn_id vs s0 =
     bindR (on_engine (start_instance_latest (sv_engine sv) (sv_batch sv) bpmn_id (unwrap_vars vs)) s0) (\<lambda>s ik.
       (case get_definition (ap_engine s) (snd ik) of
          None \<Rightarrow> (s, Err (BadRequest (Msg ''Definition not found'' [])))
        | Some def \<Rightarrow>
            (s, Ok (env_uuid_str (sv_engine sv) (fst ik), env_uuid_str (sv_engine sv) (snd ik),
                    pd_version def))))"

text \<open>The repetitions of a timer start go on in the background: they are steps of their own.\<close>

definition http_start_timer_instance ::
  "'p server_env \<Rightarrow> string \<Rightarrow> vars option \<Rightarrow> 'p app \<Rightarrow> ('p, string) handled" where
  "http_start_timer_instance sv raw vs =
     with_uuid sv raw (\<lambda>k s.
       bindR (on_engine (start_timer_instance (sv_engine sv) (sv_batch sv) k (unwrap_vars vs)) s) (\<lambda>s ir.
         (s, Ok (env_uuid_str (sv_engine sv) (fst ir)))))"

definition http_list_instances :: "'p app \<Rightarrow> process_instance list" where
  "http_list_instances s = engine_list_instances (ap_engine s)"

text \<open>A handler that only looks.\<close>

definition looking :: "('p app \<Rightarrow> (app_error, 'a) outcome) \<Rightarrow> 'p app \<Rightarrow> ('p, 'a) handled" where
  "looking f s = (s, f s)"

definition instance_details :: "'p server_env \<Rightarrow> uuid \<Rightarrow> 'p app \<Rightarrow> (engine_error, process_instance) outcome" where
  "instance_details sv i s = get_instance_details (sv_engine sv) i (ap_engine s)"

definition http_get_instance :: "'p server_env \<Rightarrow> string \<Rightarrow> 'p app \<Rightarrow> ('p, process_instance) handled" where
  "http_get_instance sv raw =
     with_uuid sv raw (\<lambda>i. looking (\<lambda>s. map_err AppEngine (instance_details sv i s)))"

definition http_update_instance_variables ::
  "'p server_env \<Rightarrow> string \<Rightarrow> vars \<Rightarrow> 'p app \<Rightarrow> ('p, http_status) handled" where
  "http_update_instance_variables sv raw vs =
     with_uuid sv raw (\<lambda>i s. no_content (on_engine (update_instance_variables (sv_engine sv) i vs) s))"

definition http_suspend_instance :: "'p server_env \<Rightarrow> string \<Rightarrow> 'p app \<Rightarrow> ('p, http_status) handled" where
  "http_suspend_instance sv raw =
     with_uuid sv raw (\<lambda>i s. no_content (on_engine (suspend_instance (sv_engine sv) i) s))"

definition http_resume_instance :: "'p server_env \<Rightarrow> string \<Rightarrow> 'p app \<Rightarrow> ('p, http_status) handled" where
  "http_resume_instance sv raw =
     with_uuid sv raw (\<lambda>i s. no_content (on_engine (resume_instance (sv_engine sv) i) s))"

text \<open>\<open>cancel_current\<close> is true when the body does not have it (\<open>default_true\<close>).\<close>

definition http_move_token ::
  "'p server_env \<Rightarrow> string \<Rightarrow> string \<Rightarrow> vars option \<Rightarrow> bool option \<Rightarrow> 'p app \<Rightarrow> ('p, http_status) handled" where
  "http_move_token sv raw target vs cancel_current =
     with_uuid sv raw (\<lambda>i s.
       no_content (on_engine
         (move_token (sv_engine sv) (sv_batch sv) i target (unwrap_vars vs) (cancel_current \<noteq> Some False)) s))"

definition http_migrate_instance ::
  "'p server_env \<Rightarrow> string \<Rightarrow> string \<Rightarrow> (string, string) table \<Rightarrow> 'p app \<Rightarrow> ('p, http_status) handled" where
  "http_migrate_instance sv raw target node_mapping =
     with_uuid sv raw (\<lambda>i.
       with_uuid sv target (\<lambda>k s. no_content (on_engine (migrate_instance (sv_engine sv) i k node_mapping) s)))"

definition http_delete_instance :: "'p server_env \<Rightarrow> string \<Rightarrow> 'p app \<Rightarrow> ('p, http_status) handled" where
  "http_delete_instance sv raw =
     with_uuid sv raw (\<lambda>i s. no_content (on_engine (delete_instance (sv_engine sv) i) s))"

section \<open>Messages and timers (messages.rs, timers.rs)\<close>

definition http_correlate_message ::
  "'p server_env \<Rightarrow> string \<Rightarrow> string option \<Rightarrow> vars option \<Rightarrow> 'p app \<Rightarrow> ('p, string list) handled" where
  "http_correlate_message sv name business_key vs s0 =
     bindR (on_engine (correlate_message (sv_engine sv) (sv_batch sv) name business_key (unwrap_vars vs)) s0)
       (\<lambda>s affected. (s, Ok (map (env_uuid_str (sv_engine sv)) affected)))"

definition http_get_pending_messages :: "'p app \<Rightarrow> message_catch list" where
  "http_get_pending_messages s = get_pending_message_catches (ap_engine s)"

definition http_process_timers :: "'p server_env \<Rightarrow> 'p app \<Rightarrow> ('p, nat) handled" where
  "http_process_timers sv s0 = on_engine (process_timers (sv_engine sv) (sv_batch sv)) s0"

definition http_get_pending_timers :: "'p app \<Rightarrow> pending_timer list" where
  "http_get_pending_timers s = get_pending_timers (ap_engine s)"

section \<open>History (history.rs)\<close>

text \<open>The names serde derives for the variants.\<close>

fun event_type_name :: "history_event \<Rightarrow> string" where
  "event_type_name HInstanceStarted = ''InstanceStarted''"
| "event_type_name HInstanceCompleted = ''InstanceCompleted''"
| "event_type_name HInstanceDeleted = ''InstanceDeleted''"
| "event_type_name HTaskCompleted = ''TaskCompleted''"
| "event_type_name HVariableUpdated = ''VariableUpdated''"
| "event_type_name HGatewayTaken = ''GatewayTaken''"
| "event_type_name HListenerExecuted = ''ListenerExecuted''"
| "event_type_name HTokenAdvanced = ''TokenAdvanced''"
| "event_type_name HTokenForked = ''TokenForked''"
| "event_type_name HTokenJoined = ''TokenJoined''"
| "event_type_name HBranchCompleted = ''BranchCompleted''"
| "event_type_name HError = ''Error''"
| "event_type_name HCallActivityStarted = ''CallActivityStarted''"
| "event_type_name HCallActivityCompleted = ''CallActivityCompleted''"
| "event_type_name HInstanceSuspended = ''InstanceSuspended''"
| "event_type_name HInstanceResumed = ''InstanceResumed''"
| "event_type_name HTokenMoved = ''TokenMoved''"
| "event_type_name HEscalationThrown = ''EscalationThrown''"
| "event_type_name HCompensationTriggered = ''CompensationTriggered''"
| "event_type_name HInstanceMigrated = ''InstanceMigrated''"

fun actor_type_name :: "actor_type \<Rightarrow> string" where
  "actor_type_name ActorEngine = ''Engine''"
| "actor_type_name ActorUser = ''User''"
| "actor_type_name ActorServiceWorker = ''ServiceWorker''"
| "actor_type_name ActorTimer = ''Timer''"
| "actor_type_name ActorListener = ''Listener''"

definition event_types :: "history_event list" where
  "event_types =
     [HInstanceStarted, HInstanceCompleted, HInstanceDeleted, HTaskCompleted, HVariableUpdated,
      HGatewayTaken, HListenerExecuted, HTokenAdvanced, HTokenForked, HTokenJoined, HBranchCompleted,
      HError, HCallActivityStarted, HCallActivityCompleted, HInstanceSuspended, HInstanceResumed,
      HTokenMoved, HEscalationThrown, HCompensationTriggered, HInstanceMigrated]"

definition event_type_of :: "string \<Rightarrow> history_event option" where
  "event_type_of name = find (\<lambda>t. event_type_name t = name) event_types"

definition actor_type_of :: "string \<Rightarrow> actor_type option" where
  "actor_type_of name =
     find (\<lambda>t. actor_type_name t = name) [ActorEngine, ActorUser, ActorServiceWorker, ActorTimer, ActorListener]"

text \<open>\<open>str::split\<close> at a character, and \<open>join\<close>.\<close>

fun split_char :: "char \<Rightarrow> string \<Rightarrow> string list" where
  "split_char c [] = [[]]"
| "split_char c (x # xs) =
     (if x = c then [] # split_char c xs
      else (case split_char c xs of [] \<Rightarrow> [[x]] | y # ys \<Rightarrow> (x # y) # ys))"

fun join_char :: "char \<Rightarrow> string list \<Rightarrow> string" where
  "join_char c [] = []"
| "join_char c [x] = x"
| "join_char c (x # y # ys) = x @ c # join_char c (y # ys)"

definition parse_event_types :: "string \<Rightarrow> history_event list" where
  "parse_event_types s = List.map_filter (\<lambda>part. event_type_of (trim part)) (split_char (CHR '','') s)"

text \<open>The filters of the query string, as texts and instants.\<close>

record server_history_query =
  sq_event_types :: "string option"
  sq_node_id :: "string option"
  sq_actor_type :: "string option"
  sq_from :: "time option"
  sq_to :: "time option"
  sq_limit :: "nat option"
  sq_offset :: "nat option"

definition history_query_of :: "uuid \<Rightarrow> server_history_query \<Rightarrow> history_query" where
  "history_query_of i q =
     \<lparr> hq_instance_id = i, hq_event_types = map_option parse_event_types (sq_event_types q),
       hq_node_id = sq_node_id q,
       hq_actor_type = Option.bind (sq_actor_type q) (\<lambda>s. actor_type_of (trim s)),
       hq_from = sq_from q, hq_to = sq_to q, hq_limit = sq_limit q, hq_offset = sq_offset q \<rparr>"

text \<open>An error of the backend becomes a bad request with its debug text.\<close>

definition refused :: "string \<Rightarrow> engine_error \<Rightarrow> app_error" where
  "refused what er = BadRequest (Msg what [AMsg (error_text er)])"

definition http_get_instance_history ::
  "'p server_env \<Rightarrow> string \<Rightarrow> server_history_query \<Rightarrow> 'p app \<Rightarrow> ('p, history_entry list) handled" where
  "http_get_instance_history sv raw q =
     with_uuid sv raw (\<lambda>i. looking (\<lambda>s.
       case app_store s of
         None \<Rightarrow> Ok []
       | Some p \<Rightarrow>
           map_err (refused ''Failed to query history: {:?}'') (sv_query_history sv (history_query_of i q) p)))"

definition http_get_instance_history_entry ::
  "'p server_env \<Rightarrow> string \<Rightarrow> string \<Rightarrow> 'p app \<Rightarrow> ('p, history_entry) handled" where
  "http_get_instance_history_entry sv raw event_id =
     with_uuid sv raw (\<lambda>i. with_uuid sv event_id (\<lambda>u. looking (\<lambda>s.
       case app_store s of
         None \<Rightarrow> Err (BadRequest (Msg ''No persistence configured'' []))
       | Some p \<Rightarrow>
           and_then
             (map_err (refused ''Failed to query history: {:?}'')
               (sv_query_history sv
                 \<lparr> hq_instance_id = i, hq_event_types = None, hq_node_id = None, hq_actor_type = None,
                   hq_from = None, hq_to = None, hq_limit = None, hq_offset = None \<rparr> p)) (\<lambda>es.
             ok_or (BadRequest (Msg ''History entry {} not found'' [AId u])) (find (\<lambda>h. he_id h = u) es)))))"

record completed_instances_query =
  ciq_definition_key :: "string option"
  ciq_business_key :: "string option"
  ciq_from :: "time option"
  ciq_to :: "time option"
  ciq_state :: "string option"
  ciq_limit :: "nat option"
  ciq_offset :: "nat option"

definition http_list_completed_instances ::
  "'p server_env \<Rightarrow> completed_instances_query \<Rightarrow> 'p app \<Rightarrow> ('p, process_instance list) handled" where
  "http_list_completed_instances sv q =
     looking (\<lambda>s.
       and_then
         (case ciq_definition_key q of
            None \<Rightarrow> Ok None
          | Some raw \<Rightarrow> and_then (parse_uuid (sv_engine sv) raw) (\<lambda>k. Ok (Some k))) (\<lambda>dk.
         map_err (refused ''Failed to query completed instances: {:?}'')
           (query_archived (sv_engine sv)
             \<lparr> cq_definition_key = dk, cq_business_key = ciq_business_key q, cq_from = ciq_from q,
               cq_to = ciq_to q, cq_state_filter = ciq_state q, cq_limit = ciq_limit q,
               cq_offset = ciq_offset q \<rparr> (ap_engine s))))"

definition http_get_completed_instance ::
  "'p server_env \<Rightarrow> string \<Rightarrow> 'p app \<Rightarrow> ('p, process_instance) handled" where
  "http_get_completed_instance sv raw =
     with_uuid sv raw (\<lambda>i. looking (\<lambda>s. map_err (refused ''{:?}'') (instance_details sv i s)))"

section \<open>Files (files.rs)\<close>

record upload_field =
  uf_file_name :: "string option"
  uf_content_type :: "string option"
  uf_bytes :: "string + nat list"

text \<open>A call of the backend through the handle of the server, when there is one.\<close>

definition backend_call :: "'p server_env \<Rightarrow> string \<Rightarrow> pcall \<Rightarrow> 'p app \<Rightarrow> ('p, unit) handled" where
  "backend_call sv what c s =
     (case app_store s of
        None \<Rightarrow> (s, Ok ())
      | Some p \<Rightarrow>
          (s\<lparr>ap_engine := call_ignored (sv_engine sv) c (ap_engine s)\<rparr>,
           case snd (ee_persist (sv_engine sv) c p) of None \<Rightarrow> Ok () | Some er \<Rightarrow> Err (refused what er)))"

definition http_upload_instance_file ::
  "'p server_env \<Rightarrow> string \<Rightarrow> string \<Rightarrow> string + upload_field option \<Rightarrow> 'p app \<Rightarrow> ('p, http_status) handled" where
  "http_upload_instance_file sv raw var_name field =
     with_uuid sv raw (\<lambda>i s.
       case instance_details sv i s of
         Err er \<Rightarrow> (s, Err (BadRequest (Msg ''Instance not found'' [])))
       | Diverged \<Rightarrow> (s, Diverged)
       | Ok x \<Rightarrow>
           (case field of
              Inl er \<Rightarrow> (s, Err (BadRequest (Msg ''{}'' [AStr er])))
            | Inr None \<Rightarrow> (s, Err (BadRequest (Msg ''No file field provided'' [])))
            | Inr (Some f) \<Rightarrow>
                (case uf_bytes f of
                   Inl er \<Rightarrow> (s, Err (BadRequest (Msg ''{}'' [AStr er])))
                 | Inr data \<Rightarrow>
                     (let file_ref = file_reference_new (sv_engine sv)
                            (sv_rfc3339 sv (en_now (ap_engine s))) i var_name
                            (case uf_file_name f of None \<Rightarrow> ''unknown'' | Some n \<Rightarrow> n)
                            (case uf_content_type f of None \<Rightarrow> ''application/octet-stream'' | Some c \<Rightarrow> c)
                            (length data)
                      in bindR (backend_call sv ''Failed to save file: {:?}''
                                  (SaveFile (fr_object_key file_ref) data) s) (\<lambda>s u.
                         bindR (on_engine (update_instance_variables (sv_engine sv) i
                                  [(var_name, to_variable_value file_ref)]) s) (\<lambda>s u.
                           (s, Ok StatusCreated)))))))"

definition file_of_variable ::
  "'p server_env \<Rightarrow> uuid \<Rightarrow> string \<Rightarrow> 'p app \<Rightarrow> (app_error, file_reference) outcome" where
  "file_of_variable sv i var_name s =
     and_then (map_err AppEngine (instance_details sv i s)) (\<lambda>x.
       ok_or (BadRequest (Msg ''Variable is not a file'' [])) (get_file_reference x var_name))"

text \<open>The content type, the disposition and the data.\<close>

definition http_get_instance_file ::
  "'p server_env \<Rightarrow> string \<Rightarrow> string \<Rightarrow> 'p app \<Rightarrow> ('p, string \<times> string \<times> nat list) handled" where
  "http_get_instance_file sv raw var_name =
     with_uuid sv raw (\<lambda>i. looking (\<lambda>s.
       and_then (file_of_variable sv i var_name s) (\<lambda>f.
         case app_store s of
           None \<Rightarrow> Err (BadRequest (Msg ''No persistence configured'' []))
         | Some p \<Rightarrow>
             and_then (map_err (refused ''Failed to load file: {:?}'') (sv_load_file sv (fr_object_key f) p)) (\<lambda>data.
               let disposition = ''attachment; filename=\"'' @ fr_filename f @ ''\"''
               in Ok (if sv_header sv (fr_mime_type f) then fr_mime_type f else ''application/octet-stream'',
                      if sv_header sv disposition then disposition else ''attachment'', data)))))"

definition http_delete_instance_file ::
  "'p server_env \<Rightarrow> string \<Rightarrow> string \<Rightarrow> 'p app \<Rightarrow> ('p, http_status) handled" where
  "http_delete_instance_file sv raw var_name =
     with_uuid sv raw (\<lambda>i s0.
       bindR (looking (file_of_variable sv i var_name) s0) (\<lambda>s f.
       bindR (backend_call sv ''Failed to delete file: {:?}'' (DeleteFile (fr_object_key f)) s) (\<lambda>s u.
         no_content (on_engine (update_instance_variables (sv_engine sv) i [(var_name, JNull)]) s))))"

section \<open>Monitoring and logs (monitoring.rs, logs.rs)\<close>

record backend_info =
  bf_backend_type :: string
  bf_nats_url :: "string option"
  bf_connected :: bool

record monitoring_data =
  md_definitions :: nat
  md_instances_total :: nat
  md_instances_running :: nat
  md_instances_completed :: nat
  md_user_tasks :: nat
  md_service_tasks :: nat
  md_timers :: nat
  md_message_catches :: nat
  md_persistence_errors :: nat
  md_storage_info :: "storage_info option"

definition ready_endpoint :: "'p server_env \<Rightarrow> 'p app \<Rightarrow> http_status \<times> string" where
  "ready_endpoint sv s =
     (case app_store s of
        Some p \<Rightarrow>
          (case sv_storage_info sv p of
             Err er \<Rightarrow> (StatusUnavailable, ''NATS disconnected'')
           | _ \<Rightarrow> (StatusOk, ''Ready''))
      | None \<Rightarrow> (StatusOk, ''Ready''))"

text \<open>\<open>.ok().flatten()\<close>: a failed query is like no information.\<close>

definition known_storage :: "'p server_env \<Rightarrow> 'p \<Rightarrow> storage_info option" where
  "known_storage sv p = (case sv_storage_info sv p of Ok i \<Rightarrow> i | _ \<Rightarrow> None)"

definition http_get_backend_info :: "'p server_env \<Rightarrow> 'p app \<Rightarrow> backend_info" where
  "http_get_backend_info sv s =
     (case app_store s of
        Some p \<Rightarrow>
          \<lparr>bf_backend_type = ''persistent'',
           bf_nats_url = map_option (\<lambda>i. si_host i @ '':'' @ show_nat (si_port i)) (known_storage sv p),
           bf_connected = True\<rparr>
      | None \<Rightarrow> \<lparr>bf_backend_type = ''in-memory'', bf_nats_url = Some (ap_nats_url s), bf_connected = False\<rparr>)"

definition http_get_monitoring_data :: "'p server_env \<Rightarrow> 'p app \<Rightarrow> monitoring_data" where
  "http_get_monitoring_data sv s =
     (let st = get_stats (ap_engine s)
      in \<lparr>md_definitions = es_definitions st, md_instances_total = es_instances_total st,
          md_instances_running = es_instances_running st + es_waiting_user st + es_waiting_service st,
          md_instances_completed = es_instances_completed st,
          md_user_tasks = es_pending_user_tasks st, md_service_tasks = es_pending_service_tasks st,
          md_timers = es_pending_timers st, md_message_catches = es_pending_messages st,
          md_persistence_errors = es_persistence_errors st,
          md_storage_info = (case app_store s of None \<Rightarrow> None | Some p \<Rightarrow> known_storage sv p)\<rparr>)"

text \<open>These two answer errors themselves.\<close>

definition direct :: "http_status \<Rightarrow> (engine_error, 'a) outcome \<Rightarrow> http_status \<times> (msg + 'a) option" where
  "direct on_error r =
     (case r of
        Ok x \<Rightarrow> (StatusOk, Some (Inr x))
      | Err er \<Rightarrow> (on_error, Some (Inl (error_text er)))
      | Diverged \<Rightarrow> (on_error, None))"

definition no_persistence :: "http_status \<times> (msg + 'a) option" where
  "no_persistence = (StatusUnavailable, Some (Inl (Msg ''No persistence layer configured'' [])))"

definition http_get_bucket_entries ::
  "'p server_env \<Rightarrow> string \<Rightarrow> nat option \<Rightarrow> nat option \<Rightarrow> 'p app \<Rightarrow> http_status \<times> (msg + bucket_entry list) option" where
  "http_get_bucket_entries sv bucket offset limit s =
     (let off = (case offset of None \<Rightarrow> 0 | Some n \<Rightarrow> n);
          lim = max 1 (min 1000 (case limit of None \<Rightarrow> 50 | Some n \<Rightarrow> n))
      in case app_store s of
           None \<Rightarrow> no_persistence
         | Some p \<Rightarrow> direct StatusInternalError (sv_bucket_entries sv bucket off lim p))"

definition http_get_bucket_entry_detail ::
  "'p server_env \<Rightarrow> string \<Rightarrow> string \<Rightarrow> 'p app \<Rightarrow> http_status \<times> (msg + bucket_entry_detail) option" where
  "http_get_bucket_entry_detail sv bucket key s =
     (case app_store s of
        None \<Rightarrow> no_persistence
      | Some p \<Rightarrow> direct StatusNotFound (sv_bucket_detail sv bucket key p))"

text \<open>The latest entries first, cut to the limit.\<close>

definition http_get_logs ::
  "'p server_env \<Rightarrow> string option \<Rightarrow> string option \<Rightarrow> nat option \<Rightarrow> 'p app \<Rightarrow> log_entry list" where
  "http_get_logs sv level search limit s =
     take (min (case limit of None \<Rightarrow> 500 | Some n \<Rightarrow> n) 5000)
       (rev (log_entries (sv_log sv) (ap_log s) level search))"

section \<open>Labels of the metrics (observability.rs)\<close>

definition is_identifier :: "string \<Rightarrow> bool" where
  "is_identifier seg \<longleftrightarrow>
     length seg = 36 \<and> length (filter (\<lambda>c. c = CHR ''-'') seg) = 4
     \<or> seg \<noteq> [] \<and> list_all (in_range 48 57) seg"

definition normalize_path :: "string \<Rightarrow> string" where
  "normalize_path path =
     join_char (CHR ''/'')
       (map (\<lambda>seg. if is_identifier seg then ''{id}'' else seg) (split_char (CHR ''/'') path))"

section \<open>The router (mod.rs)\<close>

text \<open>The requests of the routes, in groups.\<close>

datatype definition_request =
    Deploy string
  | ListDefinitions
  | GetDefinitionXml string
  | DeleteDefinitionReq string "bool option"
  | DeleteAllDefinitionsReq string "bool option"

datatype instance_request =
    Start string "vars option"
  | StartLatest string "vars option"
  | StartTimer string "vars option"
  | ListInstances
  | GetInstance string
  | DeleteInstanceReq string
  | MoveTokenReq string string "vars option" "bool option"
  | MigrateReq string string "(string, string) table"
  | SuspendReq string
  | ResumeReq string
  | UpdateVariablesReq string vars
  | CorrelateMessageReq string "string option" "vars option"

datatype task_request =
    GetTasks
  | CompleteTask string "vars option"
  | GetServiceTasks
  | FetchAndLock fetch_request
  | CompleteServiceTaskReq string string "vars option"
  | FailServiceTaskReq string string "int option" "string option" "string option"
  | RetryIncidentReq string "int option"
  | ResolveIncidentReq string "vars option"
  | ExtendLockReq string string int
  | BpmnErrorReq string string string

datatype file_request =
    UploadFileReq string string "string + upload_field option"
  | GetFileReq string string
  | DeleteFileReq string string

datatype monitor_request =
    GetHistory string server_history_query
  | GetHistoryEntry string string
  | ListCompleted completed_instances_query
  | GetCompleted string
  | GetInfo
  | GetMonitoring
  | GetBucketEntries string "nat option" "nat option"
  | GetBucketEntryDetail string string
  | GetLogs "string option" "string option" "nat option"
  | Health
  | Ready

datatype event_request =
    GetTimers
  | ProcessTimersReq
  | GetMessages

datatype request =
    Definitions definition_request | Instances instance_request | Tasks task_request
  | Files file_request | Monitor monitor_request | Events event_request

text \<open>
  The status of an answer: a handler that returns a status chooses it, one that returns a body gives 200;
  there is no answer when a call does not return.
\<close>

definition answer :: "('a \<Rightarrow> http_status) \<Rightarrow> ('p, 'a) handled \<Rightarrow> 'p app \<times> http_status option" where
  "answer f r =
     (fst r, case snd r of Ok x \<Rightarrow> Some (f x) | Err er \<Rightarrow> Some (fst (into_response er)) | Diverged \<Rightarrow> None)"

abbreviation body :: "('p, 'a) handled \<Rightarrow> 'p app \<times> http_status option" where
  "body \<equiv> answer (\<lambda>x. StatusOk)"

abbreviation status :: "('p, http_status) handled \<Rightarrow> 'p app \<times> http_status option" where
  "status \<equiv> answer (\<lambda>x. x)"

primrec serve_definitions ::
  "'p server_env \<Rightarrow> definition_request \<Rightarrow> 'p app \<Rightarrow> 'p app \<times> http_status option" where
  "serve_definitions sv (Deploy xml) s = body (http_deploy_definition sv xml s)"
| "serve_definitions sv ListDefinitions s = body (looking (\<lambda>s. Ok (http_list_definitions sv s)) s)"
| "serve_definitions sv (GetDefinitionXml k) s = body (looking (http_get_definition_xml sv k) s)"
| "serve_definitions sv (DeleteDefinitionReq k c) s = status (http_delete_definition sv k c s)"
| "serve_definitions sv (DeleteAllDefinitionsReq b c) s = status (http_delete_all_definitions sv b c s)"

primrec serve_instances ::
  "'p server_env \<Rightarrow> instance_request \<Rightarrow> 'p app \<Rightarrow> 'p app \<times> http_status option" where
  "serve_instances sv (Start k vs) s = body (http_start_instance sv k vs s)"
| "serve_instances sv (StartLatest b vs) s = body (http_start_instance_latest sv b vs s)"
| "serve_instances sv (StartTimer k vs) s = body (http_start_timer_instance sv k vs s)"
| "serve_instances sv ListInstances s = body (looking (\<lambda>s. Ok (http_list_instances s)) s)"
| "serve_instances sv (GetInstance i) s = body (http_get_instance sv i s)"
| "serve_instances sv (DeleteInstanceReq i) s = status (http_delete_instance sv i s)"
| "serve_instances sv (MoveTokenReq i n vs c) s = status (http_move_token sv i n vs c s)"
| "serve_instances sv (MigrateReq i k m) s = status (http_migrate_instance sv i k m s)"
| "serve_instances sv (SuspendReq i) s = status (http_suspend_instance sv i s)"
| "serve_instances sv (ResumeReq i) s = status (http_resume_instance sv i s)"
| "serve_instances sv (UpdateVariablesReq i vs) s = status (http_update_instance_variables sv i vs s)"
| "serve_instances sv (CorrelateMessageReq n b vs) s = body (http_correlate_message sv n b vs s)"

primrec serve_tasks ::
  "'p server_env \<Rightarrow> (nat \<Rightarrow> nat) \<Rightarrow> (nat \<Rightarrow> 'p app \<Rightarrow> 'p app) \<Rightarrow> task_request \<Rightarrow> 'p app \<Rightarrow> 'p app \<times> http_status option" where
  "serve_tasks sv clock world GetTasks s = body (looking (\<lambda>s. Ok (http_get_tasks s)) s)"
| "serve_tasks sv clock world (CompleteTask u vs) s = status (http_complete_task sv u vs s)"
| "serve_tasks sv clock world GetServiceTasks s = body (looking (\<lambda>s. Ok (http_get_service_tasks s)) s)"
| "serve_tasks sv clock world (FetchAndLock q) s =
     (case fetch_loop sv clock world q 0 s of None \<Rightarrow> (s, None) | Some (s1, tasks) \<Rightarrow> (s1, Some StatusOk))"
| "serve_tasks sv clock world (CompleteServiceTaskReq u w vs) s = status (http_complete_service_task sv u w vs s)"
| "serve_tasks sv clock world (FailServiceTaskReq u w n em ed) s = status (http_fail_service_task sv u w n em ed s)"
| "serve_tasks sv clock world (RetryIncidentReq u n) s = status (http_retry_incident sv u n s)"
| "serve_tasks sv clock world (ResolveIncidentReq u vs) s = status (http_resolve_incident sv u vs s)"
| "serve_tasks sv clock world (ExtendLockReq u w n) s = status (http_extend_lock sv u w n s)"
| "serve_tasks sv clock world (BpmnErrorReq u w c) s = status (http_bpmn_error sv u w c s)"

primrec serve_files ::
  "'p server_env \<Rightarrow> file_request \<Rightarrow> 'p app \<Rightarrow> 'p app \<times> http_status option" where
  "serve_files sv (UploadFileReq i v f) s = status (http_upload_instance_file sv i v f s)"
| "serve_files sv (GetFileReq i v) s = body (http_get_instance_file sv i v s)"
| "serve_files sv (DeleteFileReq i v) s = status (http_delete_instance_file sv i v s)"

primrec serve_monitoring ::
  "'p server_env \<Rightarrow> monitor_request \<Rightarrow> 'p app \<Rightarrow> 'p app \<times> http_status option" where
  "serve_monitoring sv (GetHistory i q) s = body (http_get_instance_history sv i q s)"
| "serve_monitoring sv (GetHistoryEntry i u) s = body (http_get_instance_history_entry sv i u s)"
| "serve_monitoring sv (ListCompleted q) s = body (http_list_completed_instances sv q s)"
| "serve_monitoring sv (GetCompleted i) s = body (http_get_completed_instance sv i s)"
| "serve_monitoring sv GetInfo s = body (looking (\<lambda>s. Ok (http_get_backend_info sv s)) s)"
| "serve_monitoring sv GetMonitoring s = body (looking (\<lambda>s. Ok (http_get_monitoring_data sv s)) s)"
| "serve_monitoring sv (GetBucketEntries b off n) s = (s, Some (fst (http_get_bucket_entries sv b off n s)))"
| "serve_monitoring sv (GetBucketEntryDetail b k) s = (s, Some (fst (http_get_bucket_entry_detail sv b k s)))"
| "serve_monitoring sv (GetLogs lev q n) s = body (looking (\<lambda>s. Ok (http_get_logs sv lev q n s)) s)"
| "serve_monitoring sv Health s = (s, Some StatusOk)"
| "serve_monitoring sv Ready s = (s, Some (fst (ready_endpoint sv s)))"

primrec serve_events ::
  "'p server_env \<Rightarrow> event_request \<Rightarrow> 'p app \<Rightarrow> 'p app \<times> http_status option" where
  "serve_events sv GetTimers s = body (looking (\<lambda>s. Ok (http_get_pending_timers s)) s)"
| "serve_events sv ProcessTimersReq s = body (http_process_timers sv s)"
| "serve_events sv GetMessages s = body (looking (\<lambda>s. Ok (http_get_pending_messages s)) s)"

primrec serve ::
  "'p server_env \<Rightarrow> (nat \<Rightarrow> nat) \<Rightarrow> (nat \<Rightarrow> 'p app \<Rightarrow> 'p app) \<Rightarrow> request \<Rightarrow> 'p app
     \<Rightarrow> 'p app \<times> http_status option" where
  "serve sv clock world (Definitions r) s = serve_definitions sv r s"
| "serve sv clock world (Instances r) s = serve_instances sv r s"
| "serve sv clock world (Tasks r) s = serve_tasks sv clock world r s"
| "serve sv clock world (Files r) s = serve_files sv r s"
| "serve sv clock world (Monitor r) s = serve_monitoring sv r s"
| "serve sv clock world (Events r) s = serve_events sv r s"

end
