(* ===== verification/ServerRequests.thy ===== *)
theory ServerRequests
  imports Server
begin

text \<open>
  What the HTTP interface promises: whatever requests come, the engine only makes steps of its own; a
  request to look changes nothing; a malformed identifier is refused before anything happens; the long
  poll ends; a deployed text can be read back; metric labels hold no identifiers.
\<close>

section \<open>Every request is a sequence of steps of the engine\<close>

definition in_reach :: "'p server_env \<Rightarrow> 'p app \<Rightarrow> bool" where
  "in_reach sv s \<longleftrightarrow> reachable (sv_engine sv) (ap_engine s)"

lemma in_reach_caches [simp]: "in_reach sv (s\<lparr>ap_xml := x\<rparr>) \<longleftrightarrow> in_reach sv s"
  by (simp add: in_reach_def)

lemma in_reach_on_engine:
  assumes "in_reach sv s" and "\<And>e. engine_step (sv_engine sv) e (fst (f e))"
  shows "keeps (in_reach sv) (on_engine f s)"
  using reachable_step [OF assms(1) [unfolded in_reach_def] assms(2)]
  by (simp add: keeps_def on_engine_def in_reach_def case_prod_unfold)

lemma in_reach_set:
  assumes "in_reach sv s" and "engine_step (sv_engine sv) (ap_engine s) e"
  shows "in_reach sv (s\<lparr>ap_engine := e\<rparr>)"
  using reachable_step [OF assms(1) [unfolded in_reach_def] assms(2)] by (simp add: in_reach_def)

lemma in_reach_with_uuid:
  assumes "in_reach sv s" and "\<And>u s. in_reach sv s \<Longrightarrow> keeps (in_reach sv) (k u s)"
  shows "keeps (in_reach sv) (with_uuid sv raw k s)"
  unfolding with_uuid_def by (rule keeps_bindR) (simp_all add: keeps_def assms [unfolded keeps_def])

lemma in_reach_no_content: "keeps (in_reach sv) r \<Longrightarrow> keeps (in_reach sv) (no_content r)"
  unfolding no_content_def by (rule keeps_bindR) (simp_all add: keeps_def)

lemma in_reach_looking: "in_reach sv s \<Longrightarrow> keeps (in_reach sv) (looking f s)"
  by (simp add: looking_def keeps_def)

lemma in_reach_backend_call: "in_reach sv s \<Longrightarrow> keeps (in_reach sv) (backend_call sv what c s)"
  by (auto simp: backend_call_def keeps_def intro!: in_reach_set step_backend_call split: option.split)

lemma in_reach_Let: "(\<And>y. y = x \<Longrightarrow> keeps P (f y)) \<Longrightarrow> keeps P (let y = x in f y)"
  by simp

lemmas in_reach_rules =
  in_reach_on_engine in_reach_with_uuid in_reach_no_content in_reach_looking in_reach_backend_call
  keeps_bindR keeps_pair keeps_option keeps_Let keeps_if

lemma in_reach_tasks:
  assumes "in_reach sv s"
  shows "keeps (in_reach sv) (http_complete_task sv raw vs s)"
    "keeps (in_reach sv) (http_complete_service_task sv raw w vs s)"
    "keeps (in_reach sv) (http_fail_service_task sv raw w n em ed s)"
    "keeps (in_reach sv) (http_retry_incident sv raw n s)"
    "keeps (in_reach sv) (http_resolve_incident sv raw vs s)"
    "keeps (in_reach sv) (http_extend_lock sv raw w d s)"
    "keeps (in_reach sv) (http_bpmn_error sv raw w c s)"
  unfolding http_complete_task_def http_complete_service_task_def http_fail_service_task_def
    http_retry_incident_def http_resolve_incident_def http_extend_lock_def http_bpmn_error_def
  by (intro in_reach_rules assms engine_step.intros; assumption)+

lemma in_reach_instances:
  assumes "in_reach sv s"
  shows "keeps (in_reach sv) (http_start_instance sv raw vs s)"
    "keeps (in_reach sv) (http_start_instance_latest sv b vs s)"
    "keeps (in_reach sv) (http_start_timer_instance sv raw vs s)"
    "keeps (in_reach sv) (http_update_instance_variables sv raw v s)"
    "keeps (in_reach sv) (http_suspend_instance sv raw s)"
    "keeps (in_reach sv) (http_resume_instance sv raw s)"
    "keeps (in_reach sv) (http_move_token sv raw n vs c s)"
    "keeps (in_reach sv) (http_migrate_instance sv raw k m s)"
    "keeps (in_reach sv) (http_delete_instance sv raw s)"
    "keeps (in_reach sv) (http_correlate_message sv name bk vs s)"
    "keeps (in_reach sv) (http_process_timers sv s)"
  unfolding http_start_instance_def start_instance_def http_start_instance_latest_def
    http_start_timer_instance_def http_update_instance_variables_def http_suspend_instance_def
    http_resume_instance_def http_move_token_def http_migrate_instance_def http_delete_instance_def
    http_correlate_message_def http_process_timers_def
  by (auto intro!: in_reach_rules assms engine_step.intros split: option.split)

lemma in_reach_deploy:
  assumes "in_reach sv s"
  shows "keeps (in_reach sv) (http_deploy_definition sv xml s)"
proof -
  obtain u e1 where d: "draw (sv_engine sv) (ap_engine s) = (u, e1)" by fastforce
  from step_draw [of "sv_engine sv" "ap_engine s"] have e1: "in_reach sv (s\<lparr>ap_engine := e1\<rparr>)"
    by (intro in_reach_set [OF assms]) (simp add: d)
  have "in_reach sv (store_xml sv key xml (s\<lparr>ap_engine := e2\<rparr>))"
    if "deploy_definition (sv_engine sv) def e1 = (e2, kv)" for def e2 kv key
  proof -
    from step_deploy [of "sv_engine sv" e1 def] that have "in_reach sv (s\<lparr>ap_engine := e2\<rparr>)"
      using in_reach_set [OF e1, of e2] by simp
    then have "in_reach sv ((s\<lparr>ap_engine := e2\<rparr>)\<lparr>ap_engine := call_ignored (sv_engine sv) (SaveBpmnXml key xml) e2\<rparr>)"
      by (rule in_reach_set) (simp add: step_backend_call)
    then show ?thesis by (simp add: store_xml_def in_reach_def)
  qed
  then show ?thesis using assms e1
    by (auto simp: http_deploy_definition_def keeps_def d Let_def split: outcome.split prod.split)
qed

lemma in_reach_deletions:
  assumes "in_reach sv s"
  shows "keeps (in_reach sv) (http_delete_definition sv raw c s)"
    "keeps (in_reach sv) (http_delete_all_definitions sv b c s)"
  unfolding http_delete_definition_def http_delete_all_definitions_def
  by (auto intro!: in_reach_rules assms engine_step.intros)

lemma in_reach_files:
  assumes "in_reach sv s"
  shows "keeps (in_reach sv) (http_upload_instance_file sv raw v f s)"
    "keeps (in_reach sv) (http_get_instance_file sv raw v s)"
    "keeps (in_reach sv) (http_delete_instance_file sv raw v s)"
  unfolding http_upload_instance_file_def http_get_instance_file_def http_delete_instance_file_def
  by (auto intro!: in_reach_rules assms engine_step.intros split: outcome.split sum.split option.split)

lemma fetch_once_in_reach: "in_reach sv s \<Longrightarrow> in_reach sv (fst (fetch_once sv q s))"
  using step_fetch_and_lock in_reach_set
  by (fastforce simp: fetch_once_def Let_def case_prod_unfold)

lemma fetch_loop_in_reach:
  "fetch_loop sv clock world q k s = Some r \<Longrightarrow> in_reach sv s \<Longrightarrow>
   (\<And>k s. in_reach sv s \<Longrightarrow> in_reach sv (world k s)) \<Longrightarrow> in_reach sv (fst r)"
proof (induction rule: fetch_loop.raw_induct [rotated, consumes 1, case_names step])
  case (step loop sv clock world q k s r)
  obtain s1 tasks where f: "fetch_once sv q s = (s1, tasks)" by fastforce
  with fetch_once_in_reach [OF step.prems(1), of q] have "in_reach sv s1" by simp
  moreover from this have "in_reach sv (world k s1)" by (rule step.prems(2))
  ultimately show ?case using step.hyps step.IH [OF _ _ step.prems(2)]
    by (auto simp: f split: if_splits)
qed

text \<open>
  The engine behind the server is always one that its own calls can reach, whatever requests are served
  and whatever their outcome, if the others that act during a long poll keep to that as well.
\<close>

lemma requests_keep_the_engine_reachable:
  assumes "reachable (sv_engine sv) (ap_engine s)"
    and "\<And>k s. reachable (sv_engine sv) (ap_engine s) \<Longrightarrow> reachable (sv_engine sv) (ap_engine (world k s))"
  shows "reachable (sv_engine sv) (ap_engine (fst (serve sv clock world r s)))"
proof -
  have s: "in_reach sv s" and w: "\<And>k s. in_reach sv s \<Longrightarrow> in_reach sv (world k s)"
    using assms by (simp_all add: in_reach_def)
  have answer: "in_reach sv (fst (answer f x))" if "keeps (in_reach sv) x" for f :: "'b \<Rightarrow> http_status" and x
    using that by (simp add: answer_def keeps_def)
  have polled: "in_reach sv s1" if "fetch_loop sv clock world q 0 s = Some (s1, ts)" for q s1 ts
    using fetch_loop_in_reach [OF that s] w by simp
  note rules = answer in_reach_tasks in_reach_instances in_reach_deploy in_reach_deletions in_reach_files
    in_reach_looking in_reach_with_uuid s
  note reads = http_get_instance_def http_get_instance_history_def http_get_instance_history_entry_def
    http_list_completed_instances_def http_get_completed_instance_def
  have "in_reach sv (fst (serve sv clock world r s))"
  proof (cases r)
    case (Definitions x1)
    then show ?thesis by (cases x1) (auto intro!: rules)
  next
    case (Instances x2)
    then show ?thesis by (cases x2) (auto simp: reads intro!: rules)
  next
    case (Tasks x3)
    then show ?thesis
      by (cases x3) (auto intro!: rules intro: polled split: option.split)
  next
    case (Files x4)
    then show ?thesis by (cases x4) (auto intro!: rules)
  next
    case (Monitor x5)
    then show ?thesis by (cases x5) (auto simp: reads intro!: rules)
  next
    case (Events x6)
    then show ?thesis by (cases x6) (auto intro!: rules)
  qed
  then show ?thesis by (simp add: in_reach_def)
qed

section \<open>Requests that look, and malformed identifiers\<close>

text \<open>The routes with the method GET.\<close>

definition is_get :: "request \<Rightarrow> bool" where
  "is_get r \<longleftrightarrow>
     (case r of
        Definitions d \<Rightarrow> (case d of ListDefinitions \<Rightarrow> True | GetDefinitionXml k \<Rightarrow> True | _ \<Rightarrow> False)
      | Instances i \<Rightarrow> (case i of ListInstances \<Rightarrow> True | GetInstance k \<Rightarrow> True | _ \<Rightarrow> False)
      | Tasks t \<Rightarrow> (case t of GetTasks \<Rightarrow> True | GetServiceTasks \<Rightarrow> True | _ \<Rightarrow> False)
      | Files f \<Rightarrow> (case f of GetFileReq i v \<Rightarrow> True | _ \<Rightarrow> False)
      | Monitor m \<Rightarrow> True
      | Events v \<Rightarrow> (case v of GetTimers \<Rightarrow> True | GetMessages \<Rightarrow> True | _ \<Rightarrow> False))"

lemma fst_with_uuid_looking [simp]: "fst (with_uuid sv raw (\<lambda>u. looking (f u)) s) = s"
  by (cases "parse_uuid (sv_engine sv) raw") (simp_all add: with_uuid_def looking_def liftR_def)

lemma fst_with_uuid_twice [simp]:
  "fst (with_uuid sv raw (\<lambda>u. with_uuid sv raw' (\<lambda>v. looking (f u v))) s) = s"
  by (cases "parse_uuid (sv_engine sv) raw")
     (simp_all add: with_uuid_def [of sv raw] liftR_def)

lemma fst_looking [simp]: "fst (looking f s) = s"
  by (simp add: looking_def)

lemma fst_answer [simp]: "fst (answer f x) = fst x"
  by (simp add: answer_def)

lemma get_requests_change_nothing:
  assumes "is_get r"
  shows "fst (serve sv clock world r s) = s"
proof (cases r)
  case (Definitions x1)
  then show ?thesis using assms by (cases x1) (simp_all add: is_get_def)
next
  case (Instances x2)
  then show ?thesis using assms by (cases x2) (simp_all add: is_get_def http_get_instance_def)
next
  case (Tasks x3)
  then show ?thesis using assms by (cases x3) (simp_all add: is_get_def)
next
  case (Files x4)
  then show ?thesis using assms by (cases x4) (simp_all add: is_get_def http_get_instance_file_def)
next
  case (Monitor x5)
  then show ?thesis by (cases x5) (simp_all add: http_get_instance_history_def
      http_get_instance_history_entry_def http_list_completed_instances_def http_get_completed_instance_def)
next
  case (Events x6)
  then show ?thesis using assms by (cases x6) (simp_all add: is_get_def)
qed

text \<open>The identifiers a request has in its path, its query or its body.\<close>

definition identifiers :: "request \<Rightarrow> string list" where
  "identifiers r =
     (case r of
        Definitions d \<Rightarrow> (case d of DeleteDefinitionReq k c \<Rightarrow> [k] | _ \<Rightarrow> [])
      | Instances i \<Rightarrow>
          (case i of
             Start k vs \<Rightarrow> [k] | StartTimer k vs \<Rightarrow> [k] | GetInstance k \<Rightarrow> [k] | DeleteInstanceReq k \<Rightarrow> [k]
           | MoveTokenReq k n vs c \<Rightarrow> [k] | MigrateReq k d m \<Rightarrow> [k, d] | SuspendReq k \<Rightarrow> [k]
           | ResumeReq k \<Rightarrow> [k] | UpdateVariablesReq k vs \<Rightarrow> [k] | _ \<Rightarrow> [])
      | Tasks t \<Rightarrow>
          (case t of
             CompleteTask k vs \<Rightarrow> [k] | CompleteServiceTaskReq k w vs \<Rightarrow> [k]
           | FailServiceTaskReq k w n em ed \<Rightarrow> [k] | RetryIncidentReq k n \<Rightarrow> [k]
           | ResolveIncidentReq k vs \<Rightarrow> [k] | ExtendLockReq k w d \<Rightarrow> [k] | BpmnErrorReq k w c \<Rightarrow> [k]
           | _ \<Rightarrow> [])
      | Files f \<Rightarrow> (case f of UploadFileReq k v d \<Rightarrow> [k] | GetFileReq k v \<Rightarrow> [k] | DeleteFileReq k v \<Rightarrow> [k])
      | Monitor m \<Rightarrow>
          (case m of
             GetHistory k q \<Rightarrow> [k] | GetHistoryEntry k u \<Rightarrow> [k, u] | GetCompleted k \<Rightarrow> [k]
           | ListCompleted q \<Rightarrow> (case ciq_definition_key q of None \<Rightarrow> [] | Some k \<Rightarrow> [k]) | _ \<Rightarrow> [])
      | Events v \<Rightarrow> [])"

lemma with_uuid_refused:
  "env_uuid_parse (sv_engine sv) raw = None \<Longrightarrow>
   with_uuid sv raw k s = (s, Err (BadRequest (Msg ''Invalid UUID format'' [])))"
  by (simp add: with_uuid_def parse_uuid_def liftR_def)

lemma with_uuid_cases:
  "with_uuid sv raw k s =
     (case env_uuid_parse (sv_engine sv) raw of
        None \<Rightarrow> (s, Err (BadRequest (Msg ''Invalid UUID format'' []))) | Some u \<Rightarrow> k u s)"
  by (simp add: with_uuid_def parse_uuid_def liftR_def split: option.split)

lemmas identified_handlers =
  http_delete_definition_def http_start_instance_def http_start_timer_instance_def http_get_instance_def
  http_delete_instance_def http_move_token_def http_migrate_instance_def http_suspend_instance_def
  http_resume_instance_def http_update_instance_variables_def http_complete_task_def
  http_complete_service_task_def http_fail_service_task_def http_retry_incident_def
  http_resolve_incident_def http_extend_lock_def http_bpmn_error_def http_upload_instance_file_def
  http_get_instance_file_def http_delete_instance_file_def http_get_instance_history_def
  http_get_instance_history_entry_def http_get_completed_instance_def

lemma malformed_identifiers_are_refused:
  assumes "raw \<in> set (identifiers r)" and "env_uuid_parse (sv_engine sv) raw = None"
  shows "serve sv clock world r s = (s, Some StatusBadRequest)"
proof (cases r)
  case (Definitions x1)
  then show ?thesis using assms
    by (cases x1) (simp_all add: identifiers_def identified_handlers with_uuid_cases answer_def)
next
  case (Instances x2)
  then show ?thesis using assms
    by (cases x2) (auto simp: identifiers_def identified_handlers with_uuid_cases answer_def split: option.split)
next
  case (Tasks x3)
  then show ?thesis using assms
    by (cases x3) (simp_all add: identifiers_def identified_handlers with_uuid_cases answer_def)
next
  case (Files x4)
  then show ?thesis using assms
    by (cases x4) (simp_all add: identifiers_def identified_handlers with_uuid_cases answer_def)
next
  case (Monitor x5)
  then show ?thesis using assms
    by (cases x5) (auto simp: identifiers_def identified_handlers with_uuid_cases answer_def
        http_list_completed_instances_def looking_def parse_uuid_def split: option.splits)
next
  case (Events x6)
  then show ?thesis using assms by (simp add: identifiers_def)
qed

text \<open>
  C10. The HTTP interface adds nothing of its own to the engine. Whatever request is served, and whatever
  comes of it, the engine stays among the states its own calls reach, as long as what others do during a
  long poll does; a request with the method GET changes nothing at all; and a request with an identifier
  that is no UUID is answered with 400 and changes nothing.
\<close>

theorem requests_are_calls_of_the_engine:
  assumes "reachable (sv_engine sv) (ap_engine s)"
    and "\<And>k s. reachable (sv_engine sv) (ap_engine s) \<Longrightarrow> reachable (sv_engine sv) (ap_engine (world k s))"
  shows "reachable (sv_engine sv) (ap_engine (fst (serve sv clock world r s))) \<and>
    (is_get r \<longrightarrow> fst (serve sv clock world r s) = s) \<and>
    (\<forall>raw \<in> set (identifiers r). env_uuid_parse (sv_engine sv) raw = None \<longrightarrow>
       serve sv clock world r s = (s, Some StatusBadRequest))"
proof (intro conjI impI ballI)
  show "reachable (sv_engine sv) (ap_engine (fst (serve sv clock world r s)))"
    by (rule requests_keep_the_engine_reachable [OF assms(1)]) (rule assms(2))
qed (simp_all add: get_requests_change_nothing malformed_identifiers_are_refused)

definition sample_server :: "memory server_env" where
  "sample_server =
     \<lparr>sv_engine = memory_env, sv_depth = 3, sv_parser = sample_parser, sv_log = sample_io,
      sv_load_xml = load_bpmn_xml memory_env, sv_load_file = load_file,
      sv_query_history = (\<lambda>q m. Ok (query_history q m)), sv_storage_info = (\<lambda>m. Ok (get_storage_info m)),
      sv_bucket_entries = get_bucket_entries, sv_bucket_detail = get_bucket_entry_detail,
      sv_rfc3339 = (\<lambda>t. ''''), sv_header = (\<lambda>h. True)\<rparr>"

definition sample_app :: "memory app" where
  "sample_app =
     \<lparr>ap_engine = with_persistence memory_new (engine_new (\<lambda>s. None) 0 0), ap_xml = [], ap_nats_url = '''',
      ap_log = log_new\<rparr>"

theorem requests_are_calls_of_the_engine_witness:
  "reachable memory_env (ap_engine (fst (serve sample_server (\<lambda>k. 0) (\<lambda>k s. s) (Definitions (Deploy '''')) sample_app))) \<and>
   fst (serve sample_server (\<lambda>k. 0) (\<lambda>k s. s) (Definitions ListDefinitions) sample_app) = sample_app"
proof -
  have r: "reachable (sv_engine sample_server) (ap_engine sample_app)"
    by (simp add: sample_app_def reachable_step [OF reachable_new step_attach])
  note claim = requests_are_calls_of_the_engine [of sample_server sample_app "\<lambda>k s. s" "\<lambda>k. 0", OF r]
  have "is_get (Definitions ListDefinitions)" by (simp add: is_get_def)
  with claim [of "Definitions (Deploy '''')"] claim [of "Definitions ListDefinitions"] show ?thesis
    by (simp add: sample_server_def)
qed

section \<open>The long poll ends\<close>

text \<open>The server before attempt \<open>n\<close>, when the attempts before it found nothing.\<close>

primrec polled ::
  "'p server_env \<Rightarrow> (nat \<Rightarrow> 'p app \<Rightarrow> 'p app) \<Rightarrow> fetch_request \<Rightarrow> 'p app \<Rightarrow> nat \<Rightarrow> 'p app" where
  "polled sv world q s 0 = s"
| "polled sv world q s (Suc n) = world n (fst (fetch_once sv q (polled sv world q s n)))"

text \<open>
  A sleep never ends early, so the clock has passed \<open>k\<close> intervals after \<open>k\<close> sleeps. Then the loop ends
  within 61 attempts, all but the last of them without a task, with the result of the last.
\<close>

lemma fetch_loop_from:
  assumes "\<And>k. poll_interval * k \<le> clock k" and "k \<le> 60"
  shows "\<exists>n. k \<le> n \<and> n \<le> 60 \<and>
    fetch_loop sv clock world q k (polled sv world q s k) = Some (fetch_once sv q (polled sv world q s n)) \<and>
    (\<forall>m. k \<le> m \<and> m < n \<longrightarrow> snd (fetch_once sv q (polled sv world q s m)) = [])"
  using assms(2)
proof (induction "60 - k" arbitrary: k)
  case 0
  then have k: "k = 60" by simp
  have "min (fetch_timeout q) 30000 \<le> clock 60"
    using assms(1) [of 60] by (simp add: poll_interval_def min_def)
  then show ?case
    by (intro exI [of _ 60])
       (auto simp: k fetch_loop.simps [of sv clock world q 60] split: prod.split)
next
  case (Suc d)
  let ?at = "polled sv world q s"
  obtain s1 tasks where f: "fetch_once sv q (?at k) = (s1, tasks)" by fastforce
  show ?case
  proof (cases "tasks \<noteq> [] \<or> fetch_timeout q = 0 \<or> min (fetch_timeout q) 30000 \<le> clock k")
    case True
    then show ?thesis
      using Suc.prems by (intro exI [of _ k]) (auto simp: f fetch_loop.simps [of sv clock world q k])
  next
    case False
    have "d = 60 - Suc k" "Suc k \<le> 60" using Suc.hyps(2) by simp_all
    from Suc.hyps(1) [OF this] obtain n where
      n: "Suc k \<le> n" "n \<le> 60" "fetch_loop sv clock world q (Suc k) (?at (Suc k)) = Some (fetch_once sv q (?at n))"
        "\<forall>m. Suc k \<le> m \<and> m < n \<longrightarrow> snd (fetch_once sv q (?at m)) = []"
      by blast
    have "fetch_loop sv clock world q k (?at k) = fetch_loop sv clock world q (Suc k) (?at (Suc k))"
      using False by (simp add: f fetch_loop.simps [of sv clock world q k])
    moreover have "snd (fetch_once sv q (?at m)) = []" if "k \<le> m" "m < n" for m
      using n(4) that False f by (cases "m = k") auto
    ultimately show ?thesis using n by (intro exI [of _ n]) auto
  qed
qed

lemma long_poll_ends:
  assumes "\<And>k. poll_interval * k \<le> clock k"
  shows "\<exists>n \<le> 60. fetch_loop sv clock world q 0 s = Some (fetch_once sv q (polled sv world q s n)) \<and>
    (\<forall>m < n. snd (fetch_once sv q (polled sv world q s m)) = [])"
  using fetch_loop_from [OF assms, of 0 sv world q s] by auto

section \<open>Deployed texts and the list of definitions\<close>

lemma deployed_text_is_read_back:
  assumes "http_deploy_definition sv xml s = (s', Ok (key, v))"
  shows "http_get_definition_xml sv key s' = Ok xml" "length xml \<le> MAX_XML_BYTES"
    "k \<noteq> key \<Longrightarrow> tget (ap_xml s') k = tget (ap_xml s) k"
  using assms
  by (auto simp: http_deploy_definition_def store_xml_def http_get_definition_xml_def Let_def
      tbl.get_put split: if_splits prod.splits outcome.splits)

text \<open>
  The cache is keyed by the text of a key as the server writes it, while a deletion removes the text of
  the request: under another spelling of the same UUID the definition goes and its text is still served.
\<close>

lemma respelled_deletion_keeps_the_text:
  assumes "http_delete_definition sv raw c s = (s', Ok st)" and "key \<noteq> raw" and "tget (ap_xml s) key = Some xml"
  shows "http_get_definition_xml sv key s' = Ok xml"
proof -
  have "ap_xml (fst (on_engine f s)) = ap_xml s" for f :: "'a engine \<Rightarrow> ('a, unit) result"
    by (simp add: on_engine_def case_prod_unfold)
  then have "ap_xml s' = tdel raw (ap_xml s)"
    using assms(1) unfolding http_delete_definition_def with_uuid_cases
    by (auto simp: bindR_Ok_iff split: option.splits dest: arg_cong [where f = fst]) (metis fst_conv)
  with assms(2,3) show ?thesis by (simp add: http_get_definition_xml_def tbl.get_remove)
qed

definition versions_in :: "string \<Rightarrow> (uuid \<times> string \<times> int \<times> nat) list \<Rightarrow> int list" where
  "versions_in b raw = map (\<lambda>(k, b, v, n). v) (filter (\<lambda>(k, b', v, n). b' = b) raw)"

lemma versions_in_Cons:
  "versions_in b ((k, b', v, n) # raw) = (if b' = b then v # versions_in b raw else versions_in b raw)"
  by (simp add: versions_in_def)

definition known_version :: "(string, int) table \<Rightarrow> string \<Rightarrow> int" where
  "known_version t b = (case tget t b of None \<Rightarrow> 0 | Some v \<Rightarrow> v)"

lemma latest_entry_get:
  "tget (latest_entry (k, b', v, n) t) b = (if b = b' then Some (max v (known_version t b)) else tget t b)"
  by (simp add: latest_entry_def known_version_def Let_def tbl.get_put max_def)

lemma known_latest_entry:
  "known_version (latest_entry (k, b', v, n) t) b = (if b = b' then max v (known_version t b) else known_version t b)"
  by (simp add: known_version_def [of "latest_entry (k, b', v, n) t"] latest_entry_get)
     (simp add: known_version_def)

lemma latest_entries:
  "tget (fold latest_entry raw t) b =
     (if versions_in b raw = [] then tget t b else Some (fold max (versions_in b raw) (known_version t b)))"
proof (induction raw arbitrary: t)
  case Nil
  show ?case by (simp add: versions_in_def)
next
  case (Cons r raw)
  obtain k b' v n where r: "r = (k, b', v, n)" by (cases r) auto
  show ?case
    by (simp add: r Cons.IH versions_in_Cons latest_entry_get known_latest_entry)
qed

lemma fold_max_le: "fold max (vs :: int list) a \<le> m \<longleftrightarrow> a \<le> m \<and> (\<forall>v \<in> set vs. v \<le> m)"
  by (induction vs arbitrary: a) auto

lemma fold_max_ge: "(a :: int) \<le> fold max vs a" "v \<in> set vs \<Longrightarrow> v \<le> fold max vs a"
  using fold_max_le [of vs a "fold max vs a"] by auto

text \<open>An entry is marked as the latest exactly when no other of its process has a higher version.\<close>

lemma latest_is_the_highest_version:
  assumes "di \<in> set (http_list_definitions sv s)" and "0 < di_version di"
  shows "di_is_latest di \<longleftrightarrow>
    (\<forall>other \<in> set (http_list_definitions sv s). di_bpmn_id other = di_bpmn_id di \<longrightarrow> di_version other \<le> di_version di)"
proof -
  let ?raw = "list_deployed (ap_engine s)" and ?ds = "http_list_definitions sv s"
  let ?vs = "versions_in (di_bpmn_id di) ?raw"
  have vs: "set ?vs = {di_version x | x. x \<in> set ?ds \<and> di_bpmn_id x = di_bpmn_id di}"
    by (force simp: http_list_definitions_def Let_def versions_in_def)
  then have mem: "di_version di \<in> set ?vs" using assms(1) by blast
  then have "?vs \<noteq> []" by auto
  moreover have "di_is_latest di \<longleftrightarrow> tget (fold latest_entry ?raw []) (di_bpmn_id di) = Some (di_version di)"
    using assms(1) by (auto simp: http_list_definitions_def Let_def)
  ultimately have "di_is_latest di \<longleftrightarrow> fold max ?vs 0 = di_version di"
    by (simp add: latest_entries known_version_def)
  also have "\<dots> \<longleftrightarrow> (\<forall>v \<in> set ?vs. v \<le> di_version di)"
    using fold_max_le [of ?vs 0 "di_version di"] fold_max_ge(2) [OF mem, of 0] assms(2) by auto
  finally show ?thesis using vs by auto
qed

section \<open>Labels of the metrics\<close>

lemma split_char_not_Nil [simp]: "split_char c s \<noteq> []"
  by (induction s) (auto split: list.split)

lemma join_split [simp]: "join_char c (split_char c s) = s"
proof (induction s)
  case (Cons x s)
  then show ?case by (cases "split_char c s"; cases "tl (split_char c s)") auto
qed simp

lemma split_char_free: "seg \<in> set (split_char c s) \<Longrightarrow> c \<notin> set seg"
  by (induction s arbitrary: seg) (auto split: list.splits if_splits)

lemma split_char_append: "c \<notin> set x \<Longrightarrow> split_char c (x @ c # s) = x # split_char c s"
  by (induction x) auto

lemma split_char_none: "c \<notin> set x \<Longrightarrow> split_char c x = [x]"
  by (induction x) auto

lemma split_join: "xs \<noteq> [] \<Longrightarrow> \<forall>x \<in> set xs. c \<notin> set x \<Longrightarrow> split_char c (join_char c xs) = xs"
  by (induction c xs rule: join_char.induct) (auto simp: split_char_append split_char_none)

text \<open>A label has as many segments as the path, none of them an identifier, and is its own label.\<close>

lemma labels_hold_no_identifiers:
  "split_char (CHR ''/'') (normalize_path p)
     = map (\<lambda>seg. if is_identifier seg then ''{id}'' else seg) (split_char (CHR ''/'') p)"
  "\<not> (\<exists>seg \<in> set (split_char (CHR ''/'') (normalize_path p)). is_identifier seg)"
  "normalize_path (normalize_path p) = normalize_path p"
proof -
  let ?norm = "\<lambda>seg. if is_identifier seg then ''{id}'' else seg"
  show split: "split_char (CHR ''/'') (normalize_path p) = map ?norm (split_char (CHR ''/'') p)"
    unfolding normalize_path_def by (rule split_join) (auto dest: split_char_free)
  have id: "\<not> is_identifier ''{id}''" by (simp add: is_identifier_def in_range_def)
  then show no: "\<not> (\<exists>seg \<in> set (split_char (CHR ''/'') (normalize_path p)). is_identifier seg)"
    unfolding split by auto
  then have "map ?norm (split_char (CHR ''/'') (normalize_path p)) = split_char (CHR ''/'') (normalize_path p)"
    by (intro map_idI) auto
  then show "normalize_path (normalize_path p) = normalize_path p"
    by (simp add: normalize_path_def [of "normalize_path p"])
qed

end
