(* ===== verification/Startup.thy ===== *)
theory Startup
  imports ServerRequests NatsRefinement
begin

text \<open>
  The start of the server (\<open>engine-server/src/startup.rs\<close>, \<open>main.rs\<close>): connecting to NATS, reading back
  definitions, instances and pending work, and the scheduler of the timers. On a server that works as
  documented a restart recovers everything the store holds.
\<close>

section \<open>Restoring (startup.rs)\<close>

record restore_stats =
  rs_definitions :: nat
  rs_instances :: nat
  rs_user_tasks :: nat
  rs_service_tasks :: nat
  rs_timers :: nat
  rs_message_catches :: nat

text \<open>
  The coordinator's handle and the backend of the engine are the same connection, so the state of the
  server is in \<open>en_store\<close>. One round of the loop over the stored texts: a text that cannot be loaded or
  parsed is skipped, and a key that is no UUID leaves the definition its fresh one.
\<close>

definition restore_definition ::
  "'s eenv \<Rightarrow> ('s, 'b) nats_client \<Rightarrow> parser_env \<Rightarrow> string
     \<Rightarrow> 's engine \<times> (string, string) table \<times> nat \<Rightarrow> 's engine \<times> (string, string) table \<times> nat" where
  "restore_definition ev cl px nats_key state =
     (case state of (e, deployed_xml, n) \<Rightarrow>
        (case Option.bind (en_store e)
                (\<lambda>s. case nats_load_bpmn_xml cl nats_key s of Ok xml \<Rightarrow> Some xml | _ \<Rightarrow> None) of
           None \<Rightarrow> state
         | Some xml \<Rightarrow>
             (case draw ev e of
                (fresh, e1) \<Rightarrow>
                  (case parse_bpmn_xml px fresh xml of
                     Ok d \<Rightarrow>
                       (let def = (case env_uuid_parse ev nats_key of
                                     Some old_uuid \<Rightarrow> set_key old_uuid d
                                   | None \<Rightarrow> d)
                        in case deploy_definition ev def e1 of
                             (e2, (key, version)) \<Rightarrow>
                               (e2, tput (env_uuid_str ev key) xml deployed_xml, Suc n))
                   | _ \<Rightarrow> (e1, deployed_xml, n)))))"

definition restore_definitions ::
  "'s eenv \<Rightarrow> ('s, 'b) nats_client \<Rightarrow> parser_env \<Rightarrow> 's engine \<times> (string, string) table
     \<Rightarrow> 's engine \<times> (string, string) table \<times> nat" where
  "restore_definitions ev cl px state =
     (case state of (e, deployed_xml) \<Rightarrow>
        (case en_store e of
           None \<Rightarrow> (e, deployed_xml, 0)
         | Some s \<Rightarrow>
             (case nats_list_bpmn_xml_ids cl s of
                Ok ids \<Rightarrow> fold (restore_definition ev cl px) ids (e, deployed_xml, 0)
              | _ \<Rightarrow> (e, deployed_xml, 0))))"

text \<open>The five other loops are alike: the answer of a query, each element restored, and their number.\<close>

definition restore_listed ::
  "('s \<Rightarrow> (engine_error, 'a list) outcome) \<Rightarrow> ('a \<Rightarrow> 's engine \<Rightarrow> 's engine) \<Rightarrow> 's engine \<Rightarrow> 's engine \<times> nat" where
  "restore_listed query put e =
     (case en_store e of
        None \<Rightarrow> (e, 0)
      | Some s \<Rightarrow> (case query s of Ok xs \<Rightarrow> (fold put xs e, length xs) | _ \<Rightarrow> (e, 0)))"

definition restore_instances ::
  "('s, 'b) nats_client \<Rightarrow> 'b nats_serde \<Rightarrow> 's engine \<Rightarrow> 's engine \<times> nat" where
  "restore_instances cl sd = restore_listed (nats_list_instances cl sd) restore_instance"

definition restore_user_tasks ::
  "('s, 'b) nats_client \<Rightarrow> 'b nats_serde \<Rightarrow> 's engine \<Rightarrow> 's engine \<times> nat" where
  "restore_user_tasks cl sd = restore_listed (nats_list_user_tasks cl sd) restore_user_task"

definition restore_service_tasks ::
  "('s, 'b) nats_client \<Rightarrow> 'b nats_serde \<Rightarrow> 's engine \<Rightarrow> 's engine \<times> nat" where
  "restore_service_tasks cl sd = restore_listed (nats_list_service_tasks cl sd) restore_service_task"

definition restore_timers ::
  "('s, 'b) nats_client \<Rightarrow> 'b nats_serde \<Rightarrow> 's engine \<Rightarrow> 's engine \<times> nat" where
  "restore_timers cl sd = restore_listed (nats_list_timers cl sd) restore_timer"

definition restore_message_catches ::
  "('s, 'b) nats_client \<Rightarrow> 'b nats_serde \<Rightarrow> 's engine \<Rightarrow> 's engine \<times> nat" where
  "restore_message_catches cl sd = restore_listed (nats_list_message_catches cl sd) restore_message_catch"

definition restore ::
  "'s eenv \<Rightarrow> ('s, 'b) nats_client \<Rightarrow> 'b nats_serde \<Rightarrow> parser_env \<Rightarrow> 's engine \<times> (string, string) table
     \<Rightarrow> 's engine \<times> (string, string) table \<times> restore_stats" where
  "restore ev cl sd px state =
     (let (e0, deployed_xml, definitions) = restore_definitions ev cl px state;
          (e1, instances) = restore_instances cl sd e0;
          (e2, user_tasks) = restore_user_tasks cl sd e1;
          (e3, service_tasks) = restore_service_tasks cl sd e2;
          (e4, timers) = restore_timers cl sd e3;
          (e5, message_catches) = restore_message_catches cl sd e4
      in (e5, deployed_xml,
          \<lparr>rs_definitions = definitions, rs_instances = instances, rs_user_tasks = user_tasks,
           rs_service_tasks = service_tasks, rs_timers = timers, rs_message_catches = message_catches\<rparr>))"

section \<open>The start and the scheduler (main.rs)\<close>

text \<open>
  Without a connection the server runs in memory. The log buffer is attached to NATS as \<open>attach_nats_sink\<close>
  says; here it is passed through.
\<close>

definition start_server ::
  "'s eenv \<Rightarrow> ('s, 'b) nats_client \<Rightarrow> 'b nats_serde \<Rightarrow> parser_env \<Rightarrow> (string \<Rightarrow> string option) \<Rightarrow> time \<Rightarrow> nat
     \<Rightarrow> log_buffer \<Rightarrow> 's \<Rightarrow> 's app" where
  "start_server ev cl sd px getenv now draws logs s =
     (let nats_url = (case getenv ''NATS_URL'' of None \<Rightarrow> ''nats://localhost:4222'' | Some u \<Rightarrow> u);
          engine = engine_new getenv now draws;
          (e, xml_cache) =
            (case nats_connect cl nats_url ''WORKFLOW_EVENTS'' s of
               (s1, None) \<Rightarrow>
                 (case restore ev cl sd px (with_persistence s1 engine, []) of (e, xmls, stats) \<Rightarrow> (e, xmls))
             | (s1, Some er) \<Rightarrow> (engine, []))
      in \<lparr>ap_engine = e, ap_xml = xml_cache, ap_nats_url = nats_url, ap_log = logs\<rparr>)"

text \<open>A turn of the timer scheduler: the outcome is only logged.\<close>

definition scheduler_turn :: "'p server_env \<Rightarrow> 'p app \<Rightarrow> 'p app" where
  "scheduler_turn sv s =
     s\<lparr>ap_engine := fst (process_timers (sv_engine sv) (sv_batch sv) (ap_engine s))\<rparr>"

section \<open>What the deployments of a restart leave alone\<close>

text \<open>The store answers as before, but for the definitions that are saved again.\<close>

definition serves ::
  "'s eenv \<Rightarrow> ('s, 'b) nats_client \<Rightarrow> 'b nats_serde \<Rightarrow> memory \<Rightarrow> 's engine \<Rightarrow> bool" where
  "serves ev cl sd m e \<longleftrightarrow>
     (\<exists>s ds. en_store e = Some s \<and> represents ev cl sd s (m\<lparr>me_definitions := ds\<rparr>) \<and> wf_table ds)"

definition same_work :: "'p engine \<Rightarrow> 'p engine \<Rightarrow> bool" where
  "same_work e e' \<longleftrightarrow>
     en_insts e' = en_insts e \<and> en_user e' = en_user e \<and> en_service e' = en_service e \<and>
     en_timers e' = en_timers e \<and> en_messages e' = en_messages e"

lemma same_work_tables: "same_tables e e' \<Longrightarrow> same_work e0 e \<Longrightarrow> same_work e0 e'"
  by (simp add: same_tables_def same_work_def)

lemma serves_save_definition:
  assumes "reliable cl" "lossless_serde sd" "uuid_text ev" "ee_persist ev = nats_call ev cl sd"
    and "serves ev cl sd m e"
  shows "serves ev cl sd m (inline_retry ev (SaveDefinition d) job e)"
proof -
  obtain s ds where s: "en_store e = Some s" "represents ev cl sd s (m\<lparr>me_definitions := ds\<rparr>)" "wf_table ds"
    using assms(5) by (auto simp: serves_def)
  have "proper_call ev (SaveDefinition d)" by (simp add: proper_call_def)
  from nats_call_refines [OF assms(1-3) s(2) this] obtain s' where
    s': "nats_call ev cl sd (SaveDefinition d) s = (s', None)"
      "represents ev cl sd s' (m\<lparr>me_definitions := tput (pd_key d) d ds\<rparr>)"
    by (auto simp: nats_reference_def)
  then have "retry_call INLINE_RETRIES (ee_persist ev) (SaveDefinition d) s = (s', None)"
    using assms(4) by (simp add: retry_call.simps)
  then show ?thesis using s s' by (auto simp: serves_def inline_retry_def)
qed

lemma serves_other:
  "serves ev cl sd m (reg_insert k d e) = serves ev cl sd m e"
  "serves ev cl sd m (emit_event v e) = serves ev cl sd m e"
  "serves ev cl sd m (snd (draw ev e)) = serves ev cl sd m e"
  by (simp_all add: serves_def reg_insert_def emit_event_def draw_def)

lemma deployment_serves:
  assumes "reliable cl" "lossless_serde sd" "uuid_text ev" "ee_persist ev = nats_call ev cl sd"
    and "serves ev cl sd m e"
  shows "serves ev cl sd m (fst (deploy_all ev ds e))"
  by (rule deploy_all_keeps [where P = "serves ev cl sd m"])
     (use assms in \<open>auto simp: serves_other persist_definition_def
        intro: serves_save_definition split: option.split\<close>)

lemma deployment_same_work: "same_work e0 e \<Longrightarrow> same_work e0 (fst (deploy_all ev ds e))"
  by (rule deploy_all_keeps [where P = "same_work e0"])
     (simp_all add: reg_insert_def same_work_def emit_event_def same_tablesD [OF same_tables_persist(1)])

lemma deployment_registers:
  "reg_get e k \<noteq> None \<Longrightarrow> reg_get (fst (deploy_all ev ds e)) k \<noteq> None"
  by (rule deploy_all_keeps [where P = "\<lambda>e. reg_get e k \<noteq> None"])
     (auto simp: registry.get_put same_tablesD [OF same_tables_emit] same_tablesD [OF same_tables_persist(1)])

lemma deployed_key:
  "reg_get (fst (deploy_definition ev d e)) (pd_key d) \<noteq> None"
  "fst (snd (deploy_definition ev d e)) = pd_key d"
proof -
  define def where "def = normalize_definition d (highest_version e (pd_id d))"
  define e1 where "e1 = reg_insert (pd_key def) (drop_sub_processes def) e"
  define e2 where "e2 = fst (deploy_all ev (map (set_version_of (pd_version def)) (pd_sub_processes def)) e1)"
  have run: "deploy_definition ev d e =
      (emit_event EvDefinitionChanged (persist_definition ev (pd_key def) e2), (pd_key def, pd_version def))"
    by (simp add: deploy_definition_def Let_def def_def [symmetric] e1_def [symmetric] e2_def [symmetric])
  have key: "pd_key def = pd_key d" by (simp add: def_def)
  have "reg_get e1 (pd_key d) \<noteq> None" by (simp add: e1_def key registry.get_put)
  then have "reg_get e2 (pd_key d) \<noteq> None" unfolding e2_def by (rule deployment_registers)
  then show "reg_get (fst (deploy_definition ev d e)) (pd_key d) \<noteq> None"
    by (simp add: run same_tablesD [OF same_tables_emit] same_tablesD [OF same_tables_persist(1)])
  show "fst (snd (deploy_definition ev d e)) = pd_key d" by (simp add: run key)
qed

lemma deploy_definition_fst: "fst (deploy_definition ev d e) = fst (deploy_all ev [d] e)"
  by (simp add: deploy_definition_def case_prod_unfold del: deploy_all.simps)

section \<open>The restored tables\<close>

lemma tget_fold_tput:
  assumes "distinct (map key xs)"
  shows "tget (fold (\<lambda>x. tput (key x) x) xs t) u = (case find (\<lambda>x. key x = u) xs of Some x \<Rightarrow> Some x | None \<Rightarrow> tget t u)"
  using assms
proof (induction xs arbitrary: t)
  case (Cons x xs)
  have "key x \<notin> key ` set xs" using Cons.prems by simp
  then have "\<forall>y \<in> set xs. key y \<noteq> key x" by (metis imageI)
  then have "find (\<lambda>y. key y = key x) xs = None" by (simp add: find_None_iff)
  then show ?case using Cons by (auto simp: tbl.get_put split: option.split)
qed simp

text \<open>A listing of a keyed table, in whatever order, restores the table.\<close>

lemma restored_table:
  assumes "keyed_by key t" and "mset xs = mset (tvals t)"
  shows "tget (fold (\<lambda>x. tput (key x) x) xs []) u = tget t u" and "length xs = length t"
proof -
  have key: "key v = k" if "(k, v) \<in> set t" for k v
    using that assms(1) by (auto simp: keyed_by_def tget_Some_iff)
  then have "map key (tvals t) = tkeys t" by (auto simp: tvals_def tkeys_def)
  moreover have "distinct (tkeys t)" using assms(1) by (simp add: keyed_by_def wf_table_def tkeys_def)
  moreover have "mset (map key xs) = mset (map key (tvals t))" using assms(2) by simp
  ultimately have dist: "distinct (map key xs)" by (metis mset_eq_imp_distinct_iff)
  have "set xs = snd ` set t" using mset_eq_setD [OF assms(2)] by (simp add: tvals_def)
  then have x: "x \<in> set xs \<longleftrightarrow> (key x, x) \<in> set t" for x using key by force
  have "tget t u = find (\<lambda>x. key x = u) xs"
  proof (cases "find (\<lambda>x. key x = u) xs")
    case None
    then have none: "\<forall>y \<in> set xs. key y \<noteq> u" by (simp add: find_None_iff)
    have "v \<in> set xs \<and> key v = u" if "(u, v) \<in> set t" for v using x [of v] key [OF that] that by simp
    with none have "(u, v) \<notin> set t" for v by blast
    then have "u \<notin> fst ` set t" by auto
    with None show ?thesis by (simp add: tget_None_iff)
  next
    case (Some y)
    then have "y \<in> set xs" "key y = u" by (auto simp: find_Some_iff)
    with Some x [of y] assms(1) show ?thesis by (simp add: keyed_by_def tget_Some_iff)
  qed
  then show "tget (fold (\<lambda>x. tput (key x) x) xs []) u = tget t u"
    by (simp add: tget_fold_tput [OF dist] split: option.split)
  show "length xs = length t" using mset_eq_length [OF assms(2)] by (simp add: tvals_def)
qed

lemma fold_restores:
  "fold restore_instance xs e = e\<lparr>en_insts := fold (\<lambda>x. tput (pi_id x) x) xs (en_insts e)\<rparr>"
  "fold restore_user_task us e = e\<lparr>en_user := fold (\<lambda>x. tput (ut_task_id x) x) us (en_user e)\<rparr>"
  "fold restore_service_task ss e = e\<lparr>en_service := fold (\<lambda>x. tput (st_id x) x) ss (en_service e)\<rparr>"
  "fold restore_timer ts e = e\<lparr>en_timers := fold (\<lambda>x. tput (tm_id x) x) ts (en_timers e)\<rparr>"
  "fold restore_message_catch ms e = e\<lparr>en_messages := fold (\<lambda>x. tput (mc_id x) x) ms (en_messages e)\<rparr>"
proof -
  show "fold restore_instance xs e = e\<lparr>en_insts := fold (\<lambda>x. tput (pi_id x) x) xs (en_insts e)\<rparr>"
    by (induction xs arbitrary: e) (simp_all add: restore_instance_def inst_put_def)
  show "fold restore_user_task us e = e\<lparr>en_user := fold (\<lambda>x. tput (ut_task_id x) x) us (en_user e)\<rparr>"
    by (induction us arbitrary: e) (simp_all add: restore_user_task_def)
  show "fold restore_service_task ss e = e\<lparr>en_service := fold (\<lambda>x. tput (st_id x) x) ss (en_service e)\<rparr>"
    by (induction ss arbitrary: e) (simp_all add: restore_service_task_def)
  show "fold restore_timer ts e = e\<lparr>en_timers := fold (\<lambda>x. tput (tm_id x) x) ts (en_timers e)\<rparr>"
    by (induction ts arbitrary: e) (simp_all add: restore_timer_def)
  show "fold restore_message_catch ms e = e\<lparr>en_messages := fold (\<lambda>x. tput (mc_id x) x) ms (en_messages e)\<rparr>"
    by (induction ms arbitrary: e) (simp_all add: restore_message_catch_def)
qed


lemma restore_listed_Ok:
  assumes "en_store e = Some s" and "query s = Ok xs"
  shows "restore_listed query put e = (fold put xs e, length xs)"
  by (simp add: restore_listed_def assms)

lemma parse_succeeds_with_any_key:
  "parse_bpmn_xml px f xml = Ok d \<Longrightarrow> \<exists>d'. parse_bpmn_xml px f' xml = Ok d'"
  by (auto simp: parse_bpmn_xml_def build_def new_definition_def and_then_Ok_iff
      split: sum.splits option.splits)

section \<open>A restart recovers the engine\<close>

text \<open>Two further laws: the listing of an object store gives its names, and the tables are keyed.\<close>

definition lists_objects :: "('s, 'b) nats_client \<Rightarrow> bool" where
  "lists_objects cl \<longleftrightarrow>
     (\<forall>s. \<exists>infos. nc_obj_list cl ''bpmn_xml'' s = Inr infos \<and>
        set (map oi_name (oks infos)) = dom (obj_at cl s ''bpmn_xml''))"

definition memory_keyed :: "memory \<Rightarrow> bool" where
  "memory_keyed m \<longleftrightarrow>
     keyed_by pi_id (me_instances m) \<and> keyed_by ut_task_id (me_user_tasks m) \<and>
     keyed_by st_id (me_service_tasks m) \<and> keyed_by tm_id (me_timers m) \<and> keyed_by mc_id (me_messages m)"

lemma memory_keyed_step: "memory_keyed m \<Longrightarrow> memory_keyed (memory_step ev c m)"
  by (cases c) (auto simp: memory_keyed_def delete_parsed_def keyed_by_tput keyed_by_tdel split: option.split)

text \<open>
  The invariant of the loop over the texts: the store answers as before, no work is touched, and the
  texts restored so far are registered and cached.
\<close>

definition restored_text :: "'s eenv \<Rightarrow> memory \<Rightarrow> parser_env \<Rightarrow> 's engine \<Rightarrow> (string, string) table \<Rightarrow> string \<Rightarrow> bool" where
  "restored_text ev m px e xmls k \<longleftrightarrow>
     (\<forall>u xml f d. k = env_uuid_str ev u \<and> tget (me_xmls m) k = Some xml \<and> utf8 xml \<and>
        parse_bpmn_xml px f xml = Ok d \<longrightarrow> reg_get e u \<noteq> None \<and> tget xmls k = Some xml)"

lemma set_key_key [simp]: "pd_key (set_key k d) = k"
  by (cases d) simp

lemma restored_text_mono:
  assumes "restored_text ev m px e xmls k" and "\<And>u. reg_get e u \<noteq> None \<Longrightarrow> reg_get e' u \<noteq> None"
    and "tget xmls' k = tget xmls k"
  shows "restored_text ev m px e' xmls' k"
  using assms unfolding restored_text_def by metis

lemma served_text:
  assumes "reliable cl" "serves ev cl sd m e" "tget (me_xmls m) k = Some xml"
  shows "Option.bind (en_store e) (\<lambda>s. case nats_load_bpmn_xml cl k s of Ok x \<Rightarrow> Some x | _ \<Rightarrow> None)
     = (if utf8 xml then Some xml else None)"
proof -
  obtain s ds where s: "en_store e = Some s" "represents ev cl sd s (m\<lparr>me_definitions := ds\<rparr>)"
    using assms(2) by (auto simp: serves_def)
  have load: "nats_load_bpmn_xml cl k s = Ok x \<longleftrightarrow> x = xml" if "utf8 x" for x
    using nats_loads_agree(2) [OF assms(1) s(2) that, of k] assms(3) by (auto simp: load_bpmn_xml_def)
  have "utf8 x" if "nats_load_bpmn_xml cl k s = Ok x" for x
    using that by (auto simp: nats_load_bpmn_xml_def and_then_Ok_iff split: if_splits)
  with load have r: "nats_load_bpmn_xml cl k s = Ok x \<longleftrightarrow> x = xml \<and> utf8 xml" for x by blast
  show ?thesis
  proof (cases "utf8 xml")
    case True
    with r [of xml] have "nats_load_bpmn_xml cl k s = Ok xml" by simp
    with True show ?thesis by (simp add: s(1))
  next
    case False
    with r have "nats_load_bpmn_xml cl k s \<noteq> Ok x" for x by blast
    then have "(case nats_load_bpmn_xml cl k s of Ok x \<Rightarrow> Some x | _ \<Rightarrow> None) = None"
      by (simp split: outcome.split)
    with False show ?thesis by (simp add: s(1))
  qed
qed

lemma restore_definition_step:
  assumes "reliable cl" "lossless_serde sd" "uuid_text ev" "ee_persist ev = nats_call ev cl sd"
    and "serves ev cl sd m e" "same_work e0 e"
    and old: "\<forall>k \<in> D. restored_text ev m px e xmls k"
    and "k = env_uuid_str ev u" "tget (me_xmls m) k = Some xml"
    and run: "restore_definition ev cl px k (e, xmls, n) = (e', xmls', n')"
  shows "serves ev cl sd m e' \<and> same_work e0 e' \<and> (\<forall>k' \<in> insert k D. restored_text ev m px e' xmls' k')"
proof (cases "utf8 xml")
  case False
  with run served_text [OF assms(1,5,9)] have "e' = e" "xmls' = xmls"
    by (simp_all add: restore_definition_def)
  moreover have "restored_text ev m px e xmls k" using False assms(9) by (simp add: restored_text_def)
  ultimately show ?thesis using assms(5,6) old by simp
next
  case True
  obtain fresh e1 where d: "draw ev e = (fresh, e1)" by fastforce
  have e1: "serves ev cl sd m e1" "same_work e0 e1" "reg_get e1 = reg_get e"
    using assms(5,6) serves_other(3) [of ev cl sd m e] d
    by (auto simp: draw_def same_work_def reg_get_def fun_eq_iff)
  show ?thesis
  proof (cases "parse_bpmn_xml px fresh xml")
    case (Ok df)
    have parse: "env_uuid_parse ev k = Some u" using assms(3,8) by (simp add: uuid_text_def)
    let ?e2 = "fst (deploy_definition ev (set_key u df) e1)"
    have res: "e' = ?e2" "xmls' = tput k xml xmls"
      using run served_text [OF assms(1,5,9)] True deployed_key(2) [of ev "set_key u df" e1]
      by (auto simp: restore_definition_def d Ok parse Let_def assms(8) [symmetric] split: prod.splits)
    have e2: "serves ev cl sd m ?e2" "same_work e0 ?e2"
      "\<And>v. reg_get e v \<noteq> None \<Longrightarrow> reg_get ?e2 v \<noteq> None" "reg_get ?e2 u \<noteq> None"
      using deployment_serves [OF assms(1-4) e1(1)] deployment_same_work [OF e1(2)]
        deployment_registers [of e1] deployed_key(1) [of ev "set_key u df" e1] e1(3)
      by (simp_all add: deploy_definition_fst del: deploy_all.simps)
    have "restored_text ev m px ?e2 xmls' k"
      using e2(4) assms(3,8,9) by (auto simp: restored_text_def res(2))
    moreover have "restored_text ev m px ?e2 xmls' k'" if "k' \<in> D" "k' \<noteq> k" for k'
      using restored_text_mono [OF old [rule_format, OF that(1)] e2(3), of xmls'] that(2)
      by (simp add: res(2) tbl.get_put)
    ultimately show ?thesis using e2(1,2) by (auto simp: res(1))
  next
    case (Err er)
    then have "restored_text ev m px e1 xmls k"
      using assms(9) parse_succeeds_with_any_key [of px _ xml _ fresh] by (fastforce simp: restored_text_def)
    moreover have "e' = e1" "xmls' = xmls"
      using run served_text [OF assms(1,5,9)] True by (auto simp: restore_definition_def d Err)
    moreover have "restored_text ev m px e1 xmls k'" if "k' \<in> D" for k'
      using restored_text_mono [OF old [rule_format, OF that], of e1 xmls] e1(3) by simp
    ultimately show ?thesis using e1(1,2) by simp
  next
    case Diverged
    then have "restored_text ev m px e1 xmls k"
      using assms(9) parse_succeeds_with_any_key [of px _ xml _ fresh] by (fastforce simp: restored_text_def)
    moreover have "e' = e1" "xmls' = xmls"
      using run served_text [OF assms(1,5,9)] True by (auto simp: restore_definition_def d Diverged)
    moreover have "restored_text ev m px e1 xmls k'" if "k' \<in> D" for k'
      using restored_text_mono [OF old [rule_format, OF that], of e1 xmls] e1(3) by simp
    ultimately show ?thesis using e1(1,2) by simp
  qed
qed

lemma restore_definitions_loop:
  assumes "reliable cl" "lossless_serde sd" "uuid_text ev" "ee_persist ev = nats_call ev cl sd"
    and "serves ev cl sd m e" "same_work e0 e" "\<forall>k \<in> D. restored_text ev m px e xmls k"
    and "set ids \<subseteq> dom (tget (me_xmls m))" "dom (tget (me_xmls m)) \<subseteq> range (env_uuid_str ev)"
    and "fold (restore_definition ev cl px) ids (e, xmls, n) = (e', xmls', n')"
  shows "serves ev cl sd m e' \<and> same_work e0 e' \<and> (\<forall>k \<in> set ids \<union> D. restored_text ev m px e' xmls' k)"
  using assms(5-10)
proof (induction ids arbitrary: e xmls n D)
  case Nil
  then show ?case by simp
next
  case (Cons k ids)
  obtain e1 xmls1 n1 where step: "restore_definition ev cl px k (e, xmls, n) = (e1, xmls1, n1)"
    by (metis prod_cases3)
  obtain u xml where k: "k = env_uuid_str ev u" "tget (me_xmls m) k = Some xml"
    using Cons.prems(4,5) by auto
  from restore_definition_step [OF assms(1-4) Cons.prems(1-3) k step]
  have one: "serves ev cl sd m e1" "same_work e0 e1" "\<forall>k \<in> insert k D. restored_text ev m px e1 xmls1 k"
    by blast+
  have "set ids \<subseteq> dom (tget (me_xmls m))" using Cons.prems(4) by simp
  from Cons.IH [OF one this Cons.prems(5), of n1] Cons.prems(6) show ?case by (simp add: step)
qed

lemma restore_definitions_recovers:
  assumes "reliable cl" "lists_objects cl" "lossless_serde sd" "uuid_text ev"
    and "ee_persist ev = nats_call ev cl sd" "represents ev cl sd s m" "memory_wf m" "en_store e0 = Some s"
    and "dom (tget (me_xmls m)) \<subseteq> range (env_uuid_str ev)"
    and "restore_definitions ev cl px (e0, []) = (e, xmls, n)"
  shows "serves ev cl sd m e" "same_work e0 e"
    "\<forall>k \<in> dom (tget (me_xmls m)). restored_text ev m px e xmls k"
proof -
  obtain infos where infos: "nc_obj_list cl ''bpmn_xml'' s = Inr infos"
    "set (map oi_name (oks infos)) = dom (obj_at cl s ''bpmn_xml'')"
    using assms(2) unfolding lists_objects_def by blast
  let ?ids = "map oi_name (oks infos)"
  have "map_option bytes_to_file (obj_at cl s ''bpmn_xml'' k) = tget (me_xmls m) k" for k
    using assms(6) unfolding represents_def by blast
  from this [symmetric] have "dom (obj_at cl s ''bpmn_xml'') = dom (tget (me_xmls m))"
    by (simp add: dom_def)
  with infos have ids: "set ?ids = dom (tget (me_xmls m))" by simp
  have run: "fold (restore_definition ev cl px) ?ids (e0, [], 0) = (e, xmls, n)"
    using assms(10) infos(1) reliableD(2) [OF assms(1)]
    by (simp add: restore_definitions_def nats_list_bpmn_xml_ids_def assms(8))
  have "m = m\<lparr>me_definitions := me_definitions m\<rparr>" by simp
  then have "serves ev cl sd m e0" using assms(6,7,8) unfolding serves_def memory_wf_def by metis
  then have "serves ev cl sd m e \<and> same_work e0 e \<and> (\<forall>k \<in> set ?ids \<union> {}. restored_text ev m px e xmls k)"
    by (rule restore_definitions_loop [OF assms(1,3,4,5) _ _ _ _ assms(9) run])
       (simp_all add: same_work_def ids del: set_map)
  then show "serves ev cl sd m e" "same_work e0 e" "\<forall>k \<in> dom (tget (me_xmls m)). restored_text ev m px e xmls k"
    unfolding ids by blast+
qed

text \<open>
  C7. A restart on a NATS server that works as documented recovers everything the store holds: the
  instances and the pending user tasks, service tasks, timers and messages are exactly the stored ones, in
  the numbers reported, and every stored BPMN text that is still accepted by the parser is deployed under
  its old key and served from the cache.
\<close>

theorem restart_recovers_the_engine:
  assumes "reliable cl" "lists_objects cl" "lossless_serde sd" "uuid_text ev"
    and "ee_persist ev = nats_call ev cl sd" "represents ev cl sd s m" "memory_wf m" "memory_keyed m"
    and "dom (tget (me_xmls m)) \<subseteq> range (env_uuid_str ev)"
    and "restore ev cl sd px (with_persistence s (engine_new getenv now draws), []) = (e, xmls, stats)"
  shows "inst_get e = tget (me_instances m) \<and> tget (en_user e) = tget (me_user_tasks m) \<and>
    tget (en_service e) = tget (me_service_tasks m) \<and> tget (en_timers e) = tget (me_timers m) \<and>
    tget (en_messages e) = tget (me_messages m) \<and>
    (\<forall>u xml f d. tget (me_xmls m) (env_uuid_str ev u) = Some xml \<and> utf8 xml \<and> parse_bpmn_xml px f xml = Ok d \<longrightarrow>
       reg_get e u \<noteq> None \<and> tget xmls (env_uuid_str ev u) = Some xml) \<and>
    rs_instances stats = length (me_instances m) \<and> rs_user_tasks stats = length (me_user_tasks m) \<and>
    rs_service_tasks stats = length (me_service_tasks m) \<and> rs_timers stats = length (me_timers m) \<and>
    rs_message_catches stats = length (me_messages m)"
proof -
  let ?e0 = "with_persistence s (engine_new getenv now draws)"
  obtain e1 xmls1 n where defs: "restore_definitions ev cl px (?e0, []) = (e1, xmls1, n)" by (metis prod_cases3)
  have store: "en_store ?e0 = Some s" by (simp add: with_persistence_def)
  note recovered = restore_definitions_recovers [OF assms(1-7) store assms(9) defs]
  obtain s1 ds where s1: "en_store e1 = Some s1" "represents ev cl sd s1 (m\<lparr>me_definitions := ds\<rparr>)" "wf_table ds"
    using recovered(1) by (auto simp: serves_def)
  have "memory_wf (m\<lparr>me_definitions := ds\<rparr>)" using assms(7) s1(3) by (simp add: memory_wf_def)
  note lists = nats_lists_agree [OF assms(1,4) s1(2) this]
  obtain xs us ss ts ms where
    q: "nats_list_instances cl sd s1 = Ok xs" "nats_list_user_tasks cl sd s1 = Ok us"
      "nats_list_service_tasks cl sd s1 = Ok ss" "nats_list_timers cl sd s1 = Ok ts"
      "nats_list_message_catches cl sd s1 = Ok ms" and
    eq: "mset xs = mset (tvals (me_instances m))" "mset us = mset (tvals (me_user_tasks m))"
      "mset ss = mset (tvals (me_service_tasks m))" "mset ts = mset (tvals (me_timers m))"
      "mset ms = mset (tvals (me_messages m))"
    using lists by (auto simp: list_instances_def list_user_tasks_def list_service_tasks_def list_timers_def
        list_message_catches_def)
  have empty: "en_insts e1 = []" "en_user e1 = []" "en_service e1 = []" "en_timers e1 = []" "en_messages e1 = []"
    using recovered(2) by (simp_all add: same_work_def with_persistence_def engine_new_def)
  let ?put = "\<lambda>key xs. fold (\<lambda>x. tput (key x) x) xs []"
  have res: "e = e1\<lparr>en_insts := ?put pi_id xs, en_user := ?put ut_task_id us, en_service := ?put st_id ss,
      en_timers := ?put tm_id ts, en_messages := ?put mc_id ms\<rparr>" "xmls = xmls1"
    "stats = \<lparr>rs_definitions = n, rs_instances = length xs, rs_user_tasks = length us,
      rs_service_tasks = length ss, rs_timers = length ts, rs_message_catches = length ms\<rparr>"
    using assms(10) by (simp_all add: restore_def defs restore_instances_def restore_user_tasks_def
        restore_service_tasks_def restore_timers_def restore_message_catches_def restore_listed_def
        s1(1) q fold_restores empty)
  have keyed: "keyed_by pi_id (me_instances m)" "keyed_by ut_task_id (me_user_tasks m)"
    "keyed_by st_id (me_service_tasks m)" "keyed_by tm_id (me_timers m)" "keyed_by mc_id (me_messages m)"
    using assms(8) by (simp_all add: memory_keyed_def)
  note tables = restored_table [OF keyed(1) eq(1)] restored_table [OF keyed(2) eq(2)]
    restored_table [OF keyed(3) eq(3)] restored_table [OF keyed(4) eq(4)] restored_table [OF keyed(5) eq(5)]
  have "reg_get e u \<noteq> None \<and> tget xmls (env_uuid_str ev u) = Some xml"
    if "tget (me_xmls m) (env_uuid_str ev u) = Some xml" "utf8 xml" "parse_bpmn_xml px f xml = Ok d" for u xml f d
  proof -
    have "restored_text ev m px e1 xmls1 (env_uuid_str ev u)" using recovered(3) that(1) by blast
    with that show ?thesis unfolding restored_text_def by (simp add: res(1,2) reg_get_def) blast
  qed
  then show ?thesis by (auto simp: res(1,3) inst_get_def tables fun_eq_iff)
qed

section \<open>A restart on the server of tables\<close>

definition nats_env :: "table_server eenv" where
  "nats_env =
     env.extend sample_env
       \<lparr>ee_persist = nats_call sample_env table_client table_serde,
        ee_get_completed = nats_get_completed table_client table_serde,
        ee_query_completed = nats_query_completed table_client table_serde,
        ee_ser_instance = (\<lambda>x. None), ee_inst_bytes = (\<lambda>x. None)\<rparr>"

definition stopped_server :: table_server where
  "stopped_server =
     \<lparr>ts_kv = [((''instances'', ''1''), PInstance blank_instance)], ts_obj = [((''bpmn_xml'', ''5''), [])],
      ts_history = []\<rparr>"

definition stopped_memory :: memory where
  "stopped_memory = memory_new\<lparr>me_instances := [(1, blank_instance)], me_xmls := [(''5'', [])]\<rparr>"

lemma nats_env_parts [simp]:
  "env_uuid_str nats_env = show_nat" "env_uuid_parse nats_env = (\<lambda>s. Some (digits_val 0 s))"
  "ee_persist nats_env = nats_call sample_env table_client table_serde"
  by (simp_all add: nats_env_def env.defs sample_env_def)

lemma nats_env_uuid_text: "uuid_text nats_env"
  by (simp add: uuid_text_def digits_val_show_nat)

lemma nats_env_persist: "ee_persist nats_env = nats_call nats_env table_client table_serde"
proof (intro ext)
  fix c s
  have str: "env_uuid_str sample_env = show_nat" by (simp add: sample_env_def)
  show "ee_persist nats_env c s = nats_call nats_env table_client table_serde c s"
    by (cases c) (simp_all add: nats_methods str token_key_def history_subject_def split: sum.split)
qed

lemma table_client_lists: "lists_objects table_client"
proof -
  have "(k \<in> dom (\<lambda>k. tget t (b, k))) = ((b, k) \<in> set (tkeys t))" for t :: "(string \<times> string, nat list) table" and b k
    using tget_None_iff [of t "(b, k)"] by (auto simp: tkeys_def domIff)
  then have keys: "dom (\<lambda>k. tget t (b, k)) = snd ` {x \<in> set (tkeys t). fst x = b}"
    for t :: "(string \<times> string, nat list) table" and b
    by force
  have "nc_obj_list table_client b s = Inr (map (\<lambda>k. Inr \<lparr>oi_name = k, oi_size = 0, oi_modified = None\<rparr>)
        (remdups (map snd (filter (\<lambda>bk. fst bk = b) (tkeys (ts_obj s))))))" for b s
    by (simp add: table_client_def)
  then show ?thesis by (simp add: lists_objects_def table_views keys image_image)
qed

lemma stopped_server_represents: "represents nats_env table_client table_serde stopped_server stopped_memory"
proof -
  have one: "''1'' = env_uuid_str nats_env 1" by simp code_simp
  have "holds_table nats_env (sd_instance table_serde) (kv_at table_client stopped_server ''instances'') [(1, blank_instance)]"
    using nats_env_uuid_text unfolding holds_table_def
    by (auto simp: table_view stopped_server_def one tget_Cons decoded_def table_serde_def codec_of_def
        simp del: nats_env_parts split: if_splits)
  then show ?thesis
    by (simp add: represents_def holds_table_def [of _ _ _ "[]"] table_view stopped_server_def stopped_memory_def
        memory_new_def tget_Cons bytes_to_file_def)
qed

theorem restart_recovers_the_engine_witness:
  "\<exists>e xmls stats.
     restore nats_env table_client table_serde sample_parser
       (with_persistence stopped_server (engine_new (\<lambda>s. None) 0 0), []) = (e, xmls, stats) \<and>
     inst_get e 1 = Some blank_instance \<and> reg_get e 5 \<noteq> None \<and> tget xmls ''5'' = Some [] \<and> rs_instances stats = 1"
proof -
  obtain e xmls stats where run: "restore nats_env table_client table_serde sample_parser
       (with_persistence stopped_server (engine_new (\<lambda>s. None) 0 0), []) = (e, xmls, stats)"
    by (metis prod_cases3)
  have m: "memory_wf stopped_memory" "memory_keyed stopped_memory"
    by (auto simp: memory_wf_def memory_keyed_def keyed_by_def stopped_memory_def memory_new_def wf_table_def
        tget_Cons blank_instance_def)
  have five: "show_nat 5 = ''5''" by code_simp
  have dom: "dom (tget (me_xmls stopped_memory)) \<subseteq> range (env_uuid_str nats_env)"
    using five by (auto simp: stopped_memory_def memory_new_def tget_Cons intro!: range_eqI [of _ _ 5] split: if_splits)
  obtain d where d: "parse_bpmn_xml sample_parser 7 [] = Ok d" using sample_parses by blast
  note r = restart_recovers_the_engine [OF table_client_reliable table_client_lists table_serde_lossless
      nats_env_uuid_text nats_env_persist stopped_server_represents m dom run]
  have "tget (me_xmls stopped_memory) (env_uuid_str nats_env 5) = Some []" "utf8 []"
    by (simp_all add: five stopped_memory_def memory_new_def tget_Cons)
  with r d have "reg_get e 5 \<noteq> None \<and> tget xmls (env_uuid_str nats_env 5) = Some []" by blast
  moreover have "inst_get e 1 = Some blank_instance" "rs_instances stats = 1"
    using r by (simp_all add: stopped_memory_def memory_new_def tget_Cons)
  ultimately show ?thesis using run by (simp add: five)
qed

end
