(* ===== verification/ServerRun.thy ===== *)
theory ServerRun
  imports Startup
begin

text \<open>
  The life of the server process (\<open>engine-server/src/main.rs\<close>) with the counting of its requests
  (\<open>engine-server/src/observability.rs\<close>): what the environment configures, the requests in flight, the turns of the
  timer scheduler, the signal, the flush and the exit. A call is handled as one step; the \<open>world\<close> of a long poll
  stands for what happens during its sleeps. The socket, the signals and the text of the metrics are left out.
\<close>

section \<open>The environment\<close>

definition ascii_lower :: "char \<Rightarrow> char" where
  "ascii_lower c = (if in_range 65 90 c then char_of ((of_char c :: nat) + 32) else c)"

definition eq_ignore_ascii_case :: "string \<Rightarrow> string \<Rightarrow> bool" where
  "eq_ignore_ascii_case a b \<longleftrightarrow> map ascii_lower a = map ascii_lower b"

definition env_or :: "(string \<Rightarrow> string option) \<Rightarrow> string \<Rightarrow> string \<Rightarrow> string" where
  "env_or getenv name fallback = (case getenv name of None \<Rightarrow> fallback | Some v \<Rightarrow> v)"

definition new_log_buffer :: "log_io \<Rightarrow> log_world \<Rightarrow> (string \<Rightarrow> string option) \<Rightarrow> log_buffer" where
  "new_log_buffer io w getenv =
     (let log_file_env = env_or getenv ''LOG_FILE'' ''engine_logs.jsonl''
      in if eq_ignore_ascii_case log_file_env ''off'' then log_new
         else new_with_persistence io w log_file_env)"

definition timer_interval_ms :: "(string \<Rightarrow> string option) \<Rightarrow> nat" where
  "timer_interval_ms getenv =
     (case Option.bind (getenv ''TIMER_INTERVAL_MS'') (parse_unsigned 64) of None \<Rightarrow> 1000 | Some n \<Rightarrow> n)"

definition listen_address :: "(string \<Rightarrow> string option) \<Rightarrow> string" where
  "listen_address getenv = ''0.0.0.0:'' @ env_or getenv ''PORT'' ''8081''"

text \<open>
  The state the process starts with: the log buffer of the environment, attached to NATS (\<open>recent\<close> is what
  \<open>load_recent\<close> gives, \<open>tx\<close> the new channel) exactly when the connection succeeds.
\<close>

definition main_start ::
  "'s eenv \<Rightarrow> ('s, 'b) nats_client \<Rightarrow> 'b nats_serde \<Rightarrow> parser_env \<Rightarrow> log_io \<Rightarrow> (string \<Rightarrow> string option) \<Rightarrow> time
     \<Rightarrow> nat \<Rightarrow> log_entry list \<Rightarrow> nat \<Rightarrow> log_world \<Rightarrow> 's \<Rightarrow> 's app \<times> log_world" where
  "main_start ev cl sd px io getenv now draws recent tx w s =
     (let logs = new_log_buffer io w getenv;
          (logs1, w1) =
            (case snd (nats_connect cl (env_or getenv ''NATS_URL'' ''nats://localhost:4222'') ''WORKFLOW_EVENTS'' s) of
               None \<Rightarrow> fst (attach_nats_sink recent tx logs w)
             | Some er \<Rightarrow> (logs, w))
      in (start_server ev cl sd px getenv now draws logs1 s, w1))"

section \<open>The counting of the requests (observability.rs)\<close>

type_synonym request_label = "string \<times> string \<times> string"

record http_metrics =
  http_requests_total :: "(request_label, nat) table"
  http_request_duration_seconds :: "(string \<times> string, nat list) table"

definition increment :: "'k \<Rightarrow> ('k, nat) table \<Rightarrow> ('k, nat) table" where
  "increment k t = tput k (Suc (case tget t k of None \<Rightarrow> 0 | Some n \<Rightarrow> n)) t"

definition http_metrics_middleware ::
  "string \<Rightarrow> string \<Rightarrow> nat \<Rightarrow> ('s \<Rightarrow> 's \<times> http_status option) \<Rightarrow> 's \<Rightarrow> http_metrics
     \<Rightarrow> 's \<times> http_status option \<times> http_metrics" where
  "http_metrics_middleware meth uri elapsed next_handler s m =
     (let path = normalize_path uri
      in case next_handler s of
           (s1, None) \<Rightarrow> (s1, None, m)
         | (s1, Some response) \<Rightarrow>
             (let status = show_nat (status_code response)
              in (s1, Some response,
                  \<lparr>http_requests_total = increment (meth, path, status) (http_requests_total m),
                   http_request_duration_seconds =
                     tpush (meth, path) elapsed (http_request_duration_seconds m)\<rparr>)))"

section \<open>The process (main.rs)\<close>

text \<open>A request on its connection; without a value it subscribes to the event stream (\<open>server/events.rs\<close>).\<close>

record call =
  cl_method :: string
  cl_uri :: string
  cl_request :: "request option"

definition handle ::
  "'p server_env \<Rightarrow> (nat \<Rightarrow> nat) \<Rightarrow> (nat \<Rightarrow> 'p app \<Rightarrow> 'p app) \<Rightarrow> call \<Rightarrow> 'p app \<Rightarrow> 'p app \<times> http_status option" where
  "handle sv clock world c s =
     (case cl_request c of Some r \<Rightarrow> serve sv clock world r s | None \<Rightarrow> (s, Some StatusOk))"

datatype phase = Accepting | Draining | Flushed | Exited

text \<open>
  \<open>pr_open\<close> holds the calls whose connection does not end by itself: event streams, and calls whose handler does not
  return. \<open>pr_accepted\<close>, \<open>pr_answers\<close> and \<open>pr_hung\<close> are the history of the process.
\<close>

record 'p process =
  pr_app :: "'p app"
  pr_metrics :: http_metrics
  pr_phase :: phase
  pr_scheduler :: bool
  pr_inflight :: "call list"
  pr_open :: "call list"
  pr_accepted :: "call list"
  pr_answers :: "(call \<times> http_status) list"
  pr_hung :: "call list"

definition process_start :: "'p app \<Rightarrow> 'p process" where
  "process_start s =
     \<lparr>pr_app = s, pr_metrics = \<lparr>http_requests_total = [], http_request_duration_seconds = []\<rparr>,
      pr_phase = Accepting, pr_scheduler = True, pr_inflight = [], pr_open = [], pr_accepted = [], pr_answers = [],
      pr_hung = []\<rparr>"

definition accept_call :: "call \<Rightarrow> 'p process \<Rightarrow> 'p process" where
  "accept_call c p = p\<lparr>pr_inflight := pr_inflight p @ [c], pr_accepted := pr_accepted p @ [c]\<rparr>"

definition run_call ::
  "'p server_env \<Rightarrow> (nat \<Rightarrow> nat) \<Rightarrow> (nat \<Rightarrow> 'p app \<Rightarrow> 'p app) \<Rightarrow> nat \<Rightarrow> call \<Rightarrow> 'p process \<Rightarrow> 'p process" where
  "run_call sv clock world elapsed c p =
     (case http_metrics_middleware (cl_method c) (cl_uri c) elapsed (handle sv clock world c) (pr_app p) (pr_metrics p) of
        (s, answered, m) \<Rightarrow>
          (let q = p\<lparr>pr_app := s, pr_metrics := m, pr_inflight := remove1 c (pr_inflight p)\<rparr>
           in case answered of
                None \<Rightarrow> q\<lparr>pr_open := c # pr_open q, pr_hung := pr_hung q @ [c]\<rparr>
              | Some st \<Rightarrow>
                  q\<lparr>pr_open := (if cl_request c = None then c # pr_open q else pr_open q),
                    pr_answers := pr_answers q @ [(c, st)]\<rparr>))"

definition flush :: "'p server_env \<Rightarrow> 'p process \<Rightarrow> 'p process" where
  "flush sv p =
     p\<lparr>pr_app := (pr_app p)\<lparr>ap_engine := shutdown (sv_engine sv) (\<lambda>k. id) (ap_engine (pr_app p))\<rparr>,
       pr_phase := Flushed\<rparr>"

text \<open>What others do during a long poll are calls of the engine, too.\<close>

definition others_call :: "'p server_env \<Rightarrow> (nat \<Rightarrow> 'p app \<Rightarrow> 'p app) \<Rightarrow> bool" where
  "others_call sv world \<longleftrightarrow> (\<forall>k s. in_reach sv s \<longrightarrow> in_reach sv (world k s))"

text \<open>
  The steps. After the signal no call is accepted, the calls in flight are still answered, and the server is drained
  when every connection has ended. The scheduler may take further turns until it sees the signal, even after the
  flush; the process exits when it has stopped.
\<close>

inductive process_step :: "'p server_env \<Rightarrow> 'p process \<Rightarrow> 'p process \<Rightarrow> bool" for sv where
  ps_accept: "pr_phase p = Accepting \<Longrightarrow> process_step sv p (accept_call c p)"
| ps_run: "c \<in> set (pr_inflight p) \<Longrightarrow> others_call sv world \<Longrightarrow>
    process_step sv p (run_call sv clock world elapsed c p)"
| ps_leave: "c \<in> set (pr_open p) \<Longrightarrow> process_step sv p (p\<lparr>pr_open := remove1 c (pr_open p)\<rparr>)"
| ps_turn: "pr_scheduler p \<Longrightarrow> process_step sv p (p\<lparr>pr_app := scheduler_turn sv (pr_app p)\<rparr>)"
| ps_signal: "pr_phase p = Accepting \<Longrightarrow> process_step sv p (p\<lparr>pr_phase := Draining\<rparr>)"
| ps_stop: "pr_phase p \<noteq> Accepting \<Longrightarrow> process_step sv p (p\<lparr>pr_scheduler := False\<rparr>)"
| ps_flush: "pr_phase p = Draining \<Longrightarrow> pr_inflight p = [] \<Longrightarrow> pr_open p = [] \<Longrightarrow> process_step sv p (flush sv p)"
| ps_exit: "pr_phase p = Flushed \<Longrightarrow> \<not> pr_scheduler p \<Longrightarrow> process_step sv p (p\<lparr>pr_phase := Exited\<rparr>)"

inductive runs_to :: "'p server_env \<Rightarrow> 'p app \<Rightarrow> 'p process \<Rightarrow> bool" for sv s where
  runs_start: "runs_to sv s (process_start s)"
| runs_step: "runs_to sv s p \<Longrightarrow> process_step sv p p' \<Longrightarrow> runs_to sv s p'"

section \<open>What every run keeps\<close>

text \<open>The labels of an answer, and how often the metrics count one.\<close>

definition label_of :: "call \<times> http_status \<Rightarrow> request_label" where
  "label_of a = (case a of (c, st) \<Rightarrow> (cl_method c, normalize_path (cl_uri c), show_nat (status_code st)))"

definition counted :: "http_metrics \<Rightarrow> request_label \<Rightarrow> nat" where
  "counted m l = (case tget (http_requests_total m) l of None \<Rightarrow> 0 | Some n \<Rightarrow> n)"

definition timed :: "http_metrics \<Rightarrow> string \<times> string \<Rightarrow> nat" where
  "timed m l = (case tget (http_request_duration_seconds m) l of None \<Rightarrow> 0 | Some ds \<Rightarrow> length ds)"

definition short_label :: "call \<times> http_status \<Rightarrow> string \<times> string" where
  "short_label a = (case a of (c, st) \<Rightarrow> (cl_method c, normalize_path (cl_uri c)))"

definition process_ok :: "'p server_env \<Rightarrow> 'p process \<Rightarrow> bool" where
  "process_ok sv p \<longleftrightarrow>
     in_reach sv (pr_app p) \<and>
     mset (pr_accepted p) = mset (pr_inflight p) + mset (map fst (pr_answers p)) + mset (pr_hung p) \<and>
     (\<forall>l. counted (pr_metrics p) l = count_list (map label_of (pr_answers p)) l) \<and>
     (\<forall>l. timed (pr_metrics p) l = count_list (map short_label (pr_answers p)) l) \<and>
     (pr_phase p = Flushed \<or> pr_phase p = Exited \<longrightarrow> pr_inflight p = [] \<and> pr_open p = [])"

text \<open>The middleware passes the answer on and counts it once.\<close>

lemma middleware_cases:
  assumes "h s = (s1, answered)"
  obtains "answered = None" "http_metrics_middleware meth uri elapsed h s m = (s1, None, m)"
  | st m' where "answered = Some st" "http_metrics_middleware meth uri elapsed h s m = (s1, Some st, m')"
    "\<And>l. counted m' l = counted m l + (if (meth, normalize_path uri, show_nat (status_code st)) = l then 1 else 0)"
    "\<And>l. timed m' l = timed m l + (if (meth, normalize_path uri) = l then 1 else 0)"
  using assms
  by (cases answered)
     (auto simp: http_metrics_middleware_def Let_def counted_def timed_def increment_def tpush_def tbl.get_put
       split: option.split)

lemma handle_in_reach:
  assumes "in_reach sv s" "others_call sv world"
  shows "in_reach sv (fst (handle sv clock world c s))"
  using requests_keep_the_engine_reachable [of sv s world] assms
  by (auto simp: handle_def others_call_def in_reach_def split: option.split)

lemma run_call_ok:
  assumes "process_ok sv p" "c \<in> set (pr_inflight p)" "others_call sv world"
  shows "process_ok sv (run_call sv clock world elapsed c p)"
proof -
  obtain s answered where h: "handle sv clock world c (pr_app p) = (s, answered)"
    by (cases "handle sv clock world c (pr_app p)")
  have s: "in_reach sv s"
    using handle_in_reach [of sv "pr_app p" world clock c] assms h by (simp add: process_ok_def)
  obtain M where rest: "mset (pr_inflight p) = add_mset c M"
    using assms(2) by (metis multi_member_split set_mset_mset)
  show ?thesis
  proof (cases rule: middleware_cases [where meth = "cl_method c" and uri = "cl_uri c" and m = "pr_metrics p"
        and elapsed = elapsed and h = "handle sv clock world c" and s = "pr_app p", OF h, case_names hangs answers])
    case hangs
    with assms s rest show ?thesis by (auto simp: process_ok_def run_call_def Let_def)
  next
    case (answers st m')
    with assms s rest show ?thesis
      by (auto simp: process_ok_def run_call_def Let_def label_of_def short_label_def)
  qed
qed

lemma flush_in_reach: "in_reach sv (pr_app p) \<Longrightarrow> in_reach sv (pr_app (flush sv p))"
  by (simp add: flush_def in_reach_set step_shutdown)

lemma turn_in_reach: "in_reach sv s \<Longrightarrow> in_reach sv (scheduler_turn sv s)"
  unfolding scheduler_turn_def by (rule in_reach_set [OF _ step_timers])

lemma process_step_ok: "process_step sv p p' \<Longrightarrow> process_ok sv p \<Longrightarrow> process_ok sv p'"
proof (induction rule: process_step.induct)
  case (ps_run c p world clock elapsed)
  then show ?case by (simp add: run_call_ok)
next
  case (ps_leave c p)
  then show ?case by (auto simp: process_ok_def)
next
  case (ps_flush p)
  then show ?case using flush_in_reach [of sv p] by (simp add: process_ok_def flush_def)
qed (auto simp: process_ok_def accept_call_def turn_in_reach)

lemma process_start_ok: "in_reach sv s \<Longrightarrow> process_ok sv (process_start s)"
  by (simp add: process_ok_def process_start_def counted_def timed_def)

text \<open>
  However the calls, the scheduler and the signal interleave, from the start of the process to its exit the engine
  stays among the states its own calls reach, the calls of the model's history are in flight, answered or hung, and
  the metrics agree with the answers of that history.
\<close>

lemma every_run_is_ok:
  assumes "runs_to sv s p" and "reachable (sv_engine sv) (ap_engine s)"
  shows "reachable (sv_engine sv) (ap_engine (pr_app p)) \<and>
    mset (pr_accepted p) = mset (pr_inflight p) + mset (map fst (pr_answers p)) + mset (pr_hung p) \<and>
    (pr_phase p = Flushed \<or> pr_phase p = Exited \<longrightarrow> pr_inflight p = [] \<and> pr_open p = []) \<and>
    (\<forall>l. counted (pr_metrics p) l = count_list (map label_of (pr_answers p)) l) \<and>
    (\<forall>l. timed (pr_metrics p) l = count_list (map short_label (pr_answers p)) l)"
proof -
  have "process_ok sv p"
    using assms(1)
  proof (induction rule: runs_to.induct)
    case runs_start
    then show ?case using assms(2) by (simp add: process_start_ok in_reach_def)
  qed (rule process_step_ok)
  then show ?thesis by (simp add: process_ok_def in_reach_def)
qed

section \<open>The requests through the middleware\<close>

text \<open>
  Requests one after the other, each with its method, its path, the time it takes and its handler: through the
  middleware, and by the handlers alone.
\<close>

type_synonym 's timed_request = "string \<times> string \<times> nat \<times> ('s \<Rightarrow> 's \<times> http_status option)"

fun through_middleware ::
  "'s timed_request list \<Rightarrow> 's \<Rightarrow> http_metrics \<Rightarrow> 's \<times> http_status option list \<times> http_metrics" where
  "through_middleware [] s m = (s, [], m)"
| "through_middleware ((meth, uri, t, h) # rs) s m =
     (case http_metrics_middleware meth uri t h s m of
        (s1, a, m1) \<Rightarrow> (case through_middleware rs s1 m1 of (s2, as, m2) \<Rightarrow> (s2, a # as, m2)))"

fun by_handlers :: "'s timed_request list \<Rightarrow> 's \<Rightarrow> 's \<times> http_status option list" where
  "by_handlers [] s = (s, [])"
| "by_handlers ((meth, uri, t, h) # rs) s =
     (case h s of (s1, a) \<Rightarrow> (case by_handlers rs s1 of (s2, as) \<Rightarrow> (s2, a # as)))"

text \<open>Two paths are one route when they differ in identifiers only.\<close>

definition stands_for_any :: "string \<Rightarrow> bool" where
  "stands_for_any seg \<longleftrightarrow> is_identifier seg \<or> seg = ''{id}''"

definition same_route :: "string \<Rightarrow> string \<Rightarrow> bool" where
  "same_route u v \<longleftrightarrow>
     list_all2 (\<lambda>a b. a = b \<or> stands_for_any a \<and> stands_for_any b)
       (split_char (CHR ''/'') u) (split_char (CHR ''/'') v)"

lemma one_label_for_a_route: "normalize_path u = normalize_path v \<longleftrightarrow> same_route u v"
proof -
  let ?norm = "\<lambda>seg. if is_identifier seg then ''{id}'' else seg"
  have "normalize_path u = normalize_path v \<longleftrightarrow>
      map ?norm (split_char (CHR ''/'') u) = map ?norm (split_char (CHR ''/'') v)"
    using join_split [of "CHR ''/''"] labels_hold_no_identifiers(1) by metis
  also have "\<dots> \<longleftrightarrow> list_all2 (\<lambda>a b. ?norm a = ?norm b) (split_char (CHR ''/'') u) (split_char (CHR ''/'') v)"
    unfolding list.rel_eq [symmetric] list_all2_map1 list_all2_map2 ..
  also have "(\<lambda>a b. ?norm a = ?norm b) = (\<lambda>a b. a = b \<or> stands_for_any a \<and> stands_for_any b)"
    by (auto simp: stands_for_any_def fun_eq_iff)
  finally show ?thesis by (simp add: same_route_def)
qed

definition recorded_times :: "http_metrics \<Rightarrow> string \<times> string \<Rightarrow> nat list" where
  "recorded_times m l = (case tget (http_request_duration_seconds m) l of None \<Rightarrow> [] | Some ds \<Rightarrow> ds)"

text \<open>The requests of a method and a route that were answered, and their times.\<close>

definition answered_on ::
  "string \<Rightarrow> string \<Rightarrow> 's timed_request list \<Rightarrow> http_status option list \<Rightarrow> (nat \<times> http_status) list" where
  "answered_on meth uri rs as =
     List.map_filter (\<lambda>((meth', uri', t, h), a).
       if meth' = meth \<and> same_route uri' uri then map_option (\<lambda>st. (t, st)) a else None) (zip rs as)"

lemma middleware_step:
  assumes "h s = (s1, a)"
  shows "\<exists>m1. http_metrics_middleware meth uri t h s m = (s1, a, m1) \<and>
    (\<forall>l. counted m1 l = counted m l +
       (case a of None \<Rightarrow> 0 | Some st \<Rightarrow> if (meth, normalize_path uri, show_nat (status_code st)) = l then 1 else 0)) \<and>
    (\<forall>l. recorded_times m1 l = recorded_times m l @ (if a \<noteq> None \<and> (meth, normalize_path uri) = l then [t] else []))"
  using assms
  by (cases a)
     (auto simp: http_metrics_middleware_def Let_def counted_def recorded_times_def increment_def tpush_def tbl.get_put
       split: option.split)

lemma status_text [simp]: "show_nat (status_code a) = show_nat (status_code b) \<longleftrightarrow> a = b"
proof
  assume "show_nat (status_code a) = show_nat (status_code b)"
  then have "status_code a = status_code b" by (metis digits_val_show_nat)
  then show "a = b" by (cases a; cases b) simp_all
qed simp



section \<open>The end of the process\<close>

text \<open>An event stream keeps the server from draining until its client leaves.\<close>

lemma open_connection_delays_the_flush:
  assumes "process_step sv p p'" and "pr_open p \<noteq> []" and "pr_phase p = Draining"
  shows "pr_phase p' = Draining"
  using assms by (cases rule: process_step.cases)
    (auto simp: accept_call_def run_call_def Let_def split: prod.splits option.splits)

text \<open>
  Without one, a server whose handlers return can leave: the calls in flight are run, the queue is flushed and the
  scheduler stops.
\<close>

lemma drained_server_can_exit:
  assumes "runs_to sv s p" and "pr_phase p = Draining" and "pr_open p = []"
    and "\<And>c s. c \<in> set (pr_inflight p) \<Longrightarrow> cl_request c \<noteq> None \<and> snd (handle sv (\<lambda>k. 0) (\<lambda>k s. s) c s) \<noteq> None"
  shows "\<exists>p'. runs_to sv s p' \<and> pr_phase p' = Exited \<and> pr_accepted p' = pr_accepted p"
  using assms
proof (induction "pr_inflight p" arbitrary: p)
  case Nil
  let ?q = "(flush sv p)\<lparr>pr_scheduler := False\<rparr>"
  have "runs_to sv s (flush sv p)" using Nil by (metis runs_step ps_flush)
  moreover have "pr_phase (flush sv p) = Flushed" by (simp add: flush_def)
  ultimately have "runs_to sv s ?q" by (simp add: runs_step [OF _ ps_stop])
  then have "runs_to sv s (?q\<lparr>pr_phase := Exited\<rparr>)" by (rule runs_step) (rule ps_exit, simp_all add: flush_def)
  moreover have "pr_accepted (?q\<lparr>pr_phase := Exited\<rparr>) = pr_accepted p" by (simp add: flush_def)
  ultimately show ?case by fastforce
next
  case (Cons c cs)
  let ?q = "run_call sv (\<lambda>k. 0) (\<lambda>k s. s) 0 c p"
  have c: "c \<in> set (pr_inflight p)" and cs: "remove1 c (pr_inflight p) = cs"
    using Cons.hyps(2) by (metis list.set_intros(1), metis remove1.simps(2))
  have run: "runs_to sv s ?q" by (rule runs_step [OF Cons.prems(1)], rule ps_run [OF c]) (simp add: others_call_def)
  obtain st s1 where h: "handle sv (\<lambda>k. 0) (\<lambda>k s. s) c (pr_app p) = (s1, Some st)"
    using Cons.prems(4) [OF c, of "pr_app p"] by (metis not_None_eq prod.collapse)
  have q: "pr_inflight ?q = cs" "pr_phase ?q = Draining" "pr_open ?q = []" "pr_accepted ?q = pr_accepted p"
    using h Cons.prems(2,3) Cons.prems(4) [OF c] cs by (auto simp: run_call_def http_metrics_middleware_def Let_def)
  have "set cs \<subseteq> set (pr_inflight p)" using Cons.hyps(2) by (metis set_subset_Cons)
  then show ?case using Cons.hyps(1) [OF q(1) [symmetric] run q(2,3)] Cons.prems(4) q by (metis subsetD)
qed

text \<open>
  The scheduler is only waited for after the flush, so a turn may come later; what its failed calls queue then
  is lost, as the worker is gone.
\<close>

lemma shutdown_closes_the_queue: "en_retry (shutdown ev f e) = None"
  by (simp add: shutdown_def split: option.split prod.split)

lemma retries_after_the_flush_are_lost: "enqueue_retry job (shutdown ev f e) = shutdown ev f e"
  by (simp add: enqueue_retry_def shutdown_closes_the_queue)

lemma a_turn_may_follow_the_flush:
  assumes "runs_to sv s p" "pr_phase p = Draining" "pr_inflight p = []" "pr_open p = []" "pr_scheduler p"
  shows "\<exists>p'. runs_to sv s p' \<and> pr_phase p' = Flushed \<and>
     pr_app p' = scheduler_turn sv (pr_app (flush sv p)) \<and>
     enqueue_retry job (ap_engine (pr_app (flush sv p))) = ap_engine (pr_app (flush sv p))"
proof -
  let ?p = "(flush sv p)\<lparr>pr_app := scheduler_turn sv (pr_app (flush sv p))\<rparr>"
  have "runs_to sv s (flush sv p)" using assms by (auto intro: runs_step ps_flush)
  then have "runs_to sv s ?p" by (rule runs_step) (rule ps_turn, simp add: flush_def assms(5))
  moreover have "pr_phase ?p = Flushed" by (simp add: flush_def)
  moreover have "enqueue_retry job (ap_engine (pr_app (flush sv p))) = ap_engine (pr_app (flush sv p))"
    by (simp add: flush_def retries_after_the_flush_are_lost)
  ultimately show ?thesis by (intro exI [of _ ?p]) simp
qed

section \<open>A run\<close>

definition health_call :: call where
  "health_call = \<lparr>cl_method = ''GET'', cl_uri = ''/api/instances/42'', cl_request = Some (Monitor Health)\<rparr>"

lemma a_run_that_counts_a_call:
  "\<exists>p. runs_to sample_server sample_app p \<and> pr_answers p = [(health_call, StatusOk)] \<and>
     counted (pr_metrics p) (''GET'', ''/api/instances/{id}'', ''200'') = 1"
proof -
  let ?p = "run_call sample_server (\<lambda>k. 0) (\<lambda>k s. s) 7 health_call (accept_call health_call (process_start sample_app))"
  have "runs_to sample_server sample_app (accept_call health_call (process_start sample_app))"
    by (rule runs_step [OF runs_start ps_accept]) (simp add: process_start_def)
  then have run: "runs_to sample_server sample_app ?p"
    by (rule runs_step) (rule ps_run, simp_all add: others_call_def accept_call_def process_start_def)
  have answers: "pr_answers ?p = [(health_call, StatusOk)]"
    by (simp add: run_call_def http_metrics_middleware_def Let_def accept_call_def process_start_def health_call_def handle_def)
  have label: "label_of (health_call, StatusOk) = (''GET'', ''/api/instances/{id}'', ''200'')"
    by code_simp
  have "reachable (sv_engine sample_server) (ap_engine sample_app)"
    by (simp add: sample_app_def reachable_step [OF reachable_new step_attach])
  from every_run_is_ok [OF run this]
  have "\<forall>l. counted (pr_metrics ?p) l = count_list (map label_of (pr_answers ?p)) l" by blast
  then have "counted (pr_metrics ?p) (''GET'', ''/api/instances/{id}'', ''200'') = 1"
    by (simp add: answers label)
  with run answers show ?thesis by blast
qed

end
