(* ===== verification/Claims.thy ===== *)
theory Claims
  imports InstanceOps
begin

text \<open>
  Calls for service tasks that run at the same time (\<open>engine/service_task.rs\<close>). A call is a sequence of sections,
  each under one lock (an entry of the task map, or one instance); between them anything else may happen. The
  sections run without interruption are the call of \<open>ServiceTasks\<close>; however they interleave, no task is claimed by two.
\<close>

section \<open>Sections\<close>

datatype claim_call =
    CompleteCall uuid string vars
  | ErrorCall uuid string string
  | ResolveCall uuid vars

fun call_task :: "claim_call \<Rightarrow> uuid" where
  "call_task (CompleteCall u w vs) = u"
| "call_task (ErrorCall u w code) = u"
| "call_task (ResolveCall u vs) = u"

text \<open>The condition of \<open>remove_if\<close>, and the error found by the second look at the map.\<close>

fun wants :: "claim_call \<Rightarrow> service_task \<Rightarrow> bool" where
  "wants (CompleteCall u w vs) t \<longleftrightarrow> st_worker_id t = Some w"
| "wants (ErrorCall u w code) t \<longleftrightarrow> st_worker_id t = Some w"
| "wants (ResolveCall u vs) t \<longleftrightarrow> st_retries t \<le> 0"

definition lock_error :: "uuid \<Rightarrow> service_task option \<Rightarrow> engine_error" where
  "lock_error u found =
     (case found of
        None \<Rightarrow> ServiceTaskNotFound u
      | Some t \<Rightarrow> (case st_worker_id t of None \<Rightarrow> ServiceTaskNotLocked u | Some w \<Rightarrow> ServiceTaskLocked u w))"

fun missed_error :: "claim_call \<Rightarrow> service_task option \<Rightarrow> engine_error" where
  "missed_error (CompleteCall u w vs) found = lock_error u found"
| "missed_error (ErrorCall u w code) found = lock_error u found"
| "missed_error (ResolveCall u vs) found = (case found of None \<Rightarrow> ServiceTaskNotFound u | Some t \<Rightarrow> not_an_incident)"

definition remove_if :: "(service_task \<Rightarrow> bool) \<Rightarrow> uuid \<Rightarrow> 'p engine \<Rightarrow> 'p engine \<times> service_task option" where
  "remove_if p u e =
     (case tget (en_service e) u of
        None \<Rightarrow> (e, None)
      | Some t \<Rightarrow> if p t then (e\<lparr>en_service := tdel u (en_service e)\<rparr>, Some t) else (e, None))"

text \<open>
  Where a call is: before the removal, after one that failed, with a task removed, past the check of the suspension,
  with the state noted for the history, with the token, after the boundary events were cancelled, after the instance
  was set running (from here on it works on its own token), refused with nothing taken, or failed after the removal.
\<close>

datatype claim_pc =
    Ready claim_call
  | Missed claim_call
  | Claimed claim_call service_task
  | Cleared claim_call service_task
  | Noted claim_call service_task "process_instance option"
  | Holding claim_call service_task "process_instance option" token
  | Unwatched claim_call service_task "process_instance option" token
  | Resumed claim_call service_task "process_instance option" token
  | Refused engine_error
  | Lost service_task engine_error

fun resumed_instance :: "claim_call \<Rightarrow> service_task \<Rightarrow> token \<Rightarrow> process_instance \<Rightarrow> process_instance" where
  "resumed_instance (CompleteCall u w vs) t tok x =
     (run_again (push_audit_log (Msg ''Service task {} completed by worker {}'' [AStr (st_node_id t), AStr w]) x))
       \<lparr>pi_vars := tk_vars tok\<rparr>"
| "resumed_instance c t tok x =
     (run_again (push_audit_log (Msg ''Incident on service task {} resolved manually'' [AStr (st_node_id t)]) x))
       \<lparr>pi_node := st_node_id t\<rparr>"

fun call_vars :: "claim_call \<Rightarrow> vars" where
  "call_vars (CompleteCall u w vs) = vs"
| "call_vars (ErrorCall u w code) = []"
| "call_vars (ResolveCall u vs) = vs"

text \<open>
  One section. Only a completion looks for a suspension. A thrown error goes its own way once it has the task, so its
  sections end there.
\<close>

fun claim_section :: "'p eenv \<Rightarrow> claim_pc \<Rightarrow> 'p engine \<Rightarrow> claim_pc \<times> 'p engine" where
  "claim_section ev (Ready c) e =
     (case remove_if (wants c) (call_task c) e of
        (e', None) \<Rightarrow> (Missed c, e')
      | (e', Some t) \<Rightarrow> (Claimed c t, e'))"
| "claim_section ev (Missed c) e = (Refused (missed_error c (tget (en_service e) (call_task c))), e)"
| "claim_section ev (Claimed (CompleteCall u w vs) t) e =
     (if instance_suspended (st_instance_id t) e
      then (Refused (InstanceSuspended (st_instance_id t)), e\<lparr>en_service := tput (st_id t) t (en_service e)\<rparr>)
      else (Cleared (CompleteCall u w vs) t, e))"
| "claim_section ev (Claimed (ResolveCall u vs) t) e = (Cleared (ResolveCall u vs) t, e)"
| "claim_section ev (Claimed (ErrorCall u w code) t) e = (Claimed (ErrorCall u w code) t, e)"
| "claim_section ev (Cleared c t) e = (Noted c t (inst_get e (st_instance_id t)), e)"
| "claim_section ev (Noted c t old) e =
     (case take_token (st_instance_id t) (st_token_id t) e of
        (e', Ok tok) \<Rightarrow> (Holding c t old (merge_into_token (call_vars c) tok), e')
      | (e', Err er) \<Rightarrow> (Lost t er, e')
      | (e', Diverged) \<Rightarrow> (Noted c t old, e'))"
| "claim_section ev (Holding c t old tok) e =
     (Unwatched c t old tok, cancel_boundary_events ev (st_instance_id t) (st_node_id t) e)"
| "claim_section ev (Unwatched c t old tok) e =
     (case modify_instance (st_instance_id t) (resumed_instance c t tok) e of
        (e', Ok u) \<Rightarrow> (Resumed c t old tok, e')
      | (e', Err er) \<Rightarrow> (Lost t er, e')
      | (e', Diverged) \<Rightarrow> (Unwatched c t old tok, e'))"
| "claim_section ev pc e = (pc, e)"

primrec sections :: "'p eenv \<Rightarrow> nat \<Rightarrow> claim_pc \<times> 'p engine \<Rightarrow> claim_pc \<times> 'p engine" where
  "sections ev 0 s = s"
| "sections ev (Suc n) s = sections ev n (claim_section ev (fst s) (snd s))"

text \<open>What is left of a completion, in one piece.\<close>

fun finish_completion :: "'p eenv \<Rightarrow> 'p batch \<Rightarrow> claim_pc \<times> 'p engine \<Rightarrow> ('p, unit) result" where
  "finish_completion ev rec (Resumed (CompleteCall u w vs) t old tok, e) =
     bindR (definition_of (st_instance_id t) e) (\<lambda>e def. advance_service_task ev rec t w old def tok e)"
| "finish_completion ev rec (Refused er, e) = (e, Err er)"
| "finish_completion ev rec (Lost t er, e) = (e, Err er)"
| "finish_completion ev rec (pc, e) = (e, Diverged)"

lemma sections_final [simp]:
  "sections ev n (Refused er, e) = (Refused er, e)" "sections ev n (Lost t er, e) = (Lost t er, e)"
  "sections ev n (Resumed c t old tok, e) = (Resumed c t old tok, e)"
  by (induction n) simp_all

lemma take_token_cases: "snd (take_token i t e) \<noteq> Diverged"
  by (cases "inst_get e i"; cases "tget (pi_tokens (the (inst_get e i))) t")
     (simp_all add: take_token_def read_instance_def)

lemma completion_is_its_sections:
  "complete_service_task ev rec u w vs e = finish_completion ev rec (sections ev 7 (Ready (CompleteCall u w vs), e))"
proof -
  let ?c = "CompleteCall u w vs"
  have seven: "sections ev 7 s = sections ev (Suc (Suc (Suc (Suc (Suc (Suc (Suc 0))))))) s" for s
    by (simp add: eval_nat_numeral)
  show ?thesis
  proof (cases "tget (en_service e) u")
    case None
    then show ?thesis
      by (simp add: seven remove_if_def complete_service_task_def take_locked_task_def lock_error_def)
  next
    case (Some t)
    note found = Some
    let ?i = "st_instance_id t" and ?e1 = "e\<lparr>en_service := tdel u (en_service e)\<rparr>"
    show ?thesis
    proof (cases "st_worker_id t = Some w")
      case False
      then show ?thesis using found
        by (simp add: seven remove_if_def complete_service_task_def take_locked_task_def lock_error_def
            split: option.split)
    next
      case True
      show ?thesis
      proof (cases "instance_suspended ?i ?e1")
        case s: True
        then show ?thesis using found True
          by (simp add: seven remove_if_def complete_service_task_def take_locked_task_def Let_def)
      next
        case s: False
        obtain e2 r where tt: "take_token ?i (st_token_id t) ?e1 = (e2, r)" by fastforce
        with take_token_cases [of ?i "st_token_id t" ?e1] have "r \<noteq> Diverged" by simp
        then show ?thesis using found True s tt
          by (cases r)
             (auto simp: seven remove_if_def complete_service_task_def take_locked_task_def Let_def
               modify_instance_def split: option.split)
      qed
    qed
  qed
qed

section \<open>Any interleaving\<close>

record 'p race =
  ra_engine :: "'p engine"
  ra_calls :: "nat \<Rightarrow> claim_pc"

fun claim_of :: "claim_pc \<Rightarrow> (claim_call option \<times> service_task) option" where
  "claim_of (Claimed c t) = Some (Some c, t)"
| "claim_of (Cleared c t) = Some (Some c, t)"
| "claim_of (Noted c t old) = Some (Some c, t)"
| "claim_of (Holding c t old tok) = Some (Some c, t)"
| "claim_of (Unwatched c t old tok) = Some (Some c, t)"
| "claim_of (Resumed c t old tok) = Some (Some c, t)"
| "claim_of (Lost t er) = Some (None, t)"
| "claim_of _ = None"

definition claimed :: "claim_pc \<Rightarrow> service_task option" where
  "claimed pc = map_option snd (claim_of pc)"

text \<open>
  A step is a section of one call, or anything else the engine does, as long as it does not put a task back that a
  call has claimed (new tasks have identifiers of their own).
\<close>

inductive race_step :: "'p eenv \<Rightarrow> 'p race \<Rightarrow> 'p race \<Rightarrow> bool" for ev where
  race_section: "claim_section ev (ra_calls s a) (ra_engine s) = (pc, e) \<Longrightarrow>
     race_step ev s (s\<lparr>ra_engine := e, ra_calls := (ra_calls s)(a := pc)\<rparr>)"
| race_others: "keyed_by st_id (en_service e) \<Longrightarrow>
     (\<And>a t. claimed (ra_calls s a) = Some t \<Longrightarrow> tget (en_service e) (st_id t) = None) \<Longrightarrow>
     race_step ev s (s\<lparr>ra_engine := e\<rparr>)"

inductive race_reach :: "'p eenv \<Rightarrow> 'p race \<Rightarrow> bool" for ev where
  race_start: "keyed_by st_id (en_service (ra_engine s)) \<Longrightarrow> (\<And>a. \<exists>c. ra_calls s a = Ready c) \<Longrightarrow> race_reach ev s"
| race_more: "race_reach ev s \<Longrightarrow> race_step ev s s' \<Longrightarrow> race_reach ev s'"

definition race_ok :: "'p race \<Rightarrow> bool" where
  "race_ok s \<longleftrightarrow>
     keyed_by st_id (en_service (ra_engine s)) \<and>
     (\<forall>a t. claimed (ra_calls s a) = Some t \<longrightarrow> tget (en_service (ra_engine s)) (st_id t) = None) \<and>
     (\<forall>a b t u. a \<noteq> b \<longrightarrow> claimed (ra_calls s a) = Some t \<longrightarrow> claimed (ra_calls s b) = Some u \<longrightarrow> st_id t \<noteq> st_id u) \<and>
     (\<forall>a c t. claim_of (ra_calls s a) = Some (Some c, t) \<longrightarrow> wants c t \<and> call_task c = st_id t)"

text \<open>The sections after the removal leave the map of tasks alone.\<close>

lemma delete_each_tables [frame]:
  "en_service (delete_each ev c us e) = en_service e" "en_insts (delete_each ev c us e) = en_insts e"
  using same_tables_delete_each [of e ev c us] by (simp_all add: same_tables_def)

lemma claim_frames [frame]:
  "en_service (fst (take_token i t e)) = en_service e"
  "en_service (fst (modify_instance i f e)) = en_service e"
  "en_service (cancel_boundary_events ev i n e) = en_service e"
proof -
  show "en_service (fst (take_token i t e)) = en_service e"
    by (cases "inst_get e i"; cases "tget (pi_tokens (the (inst_get e i))) t")
       (simp_all add: take_token_def read_instance_def frame)
  show "en_service (fst (modify_instance i f e)) = en_service e"
    by (simp add: modify_instance_def frame split: option.split)
  show "en_service (cancel_boundary_events ev i n e) = en_service e"
    by (simp add: cancel_boundary_events_def cancel_boundary_timers_def cancel_boundary_message_catches_def Let_def
        frame split: option.split)
qed

text \<open>What a section does to the map: nothing, take one entry, or put back the task of its own claim.\<close>

definition effect :: "claim_pc \<Rightarrow> (uuid, service_task) table \<Rightarrow> claim_pc \<Rightarrow> (uuid, service_task) table \<Rightarrow> bool" where
  "effect pc m pc' m' \<longleftrightarrow>
     m' = m \<and> (claimed pc' = claimed pc \<or> claimed pc' = None) \<or>
     (\<exists>t. claimed pc = None \<and> claimed pc' = Some t \<and> tget m (st_id t) = Some t \<and> m' = tdel (st_id t) m) \<or>
     (\<exists>t. claimed pc = Some t \<and> claimed pc' = None \<and> m' = tput (st_id t) t m)"

lemma section_frames:
  "take_token i t e = (e', r) \<Longrightarrow> en_service e' = en_service e"
  "modify_instance i f e = (e', x) \<Longrightarrow> en_service e' = en_service e"
  using claim_frames(1) [of i t e] claim_frames(2) [of i f e] by simp_all

text \<open>The removal, and every other section.\<close>

lemma removal:
  assumes "claim_section ev (Ready c) e = (pc', e')" and "keyed_by st_id (en_service e)"
  shows "e' = e \<and> pc' = Missed c \<or>
    (\<exists>t. pc' = Claimed c t \<and> wants c t \<and> call_task c = st_id t \<and> tget (en_service e) (st_id t) = Some t \<and>
      en_service e' = tdel (st_id t) (en_service e))"
  using assms by (auto simp: remove_if_def keyed_by_def split: option.splits if_splits)

lemma after_removal:
  assumes "claim_section ev pc e = (pc', e')" and "\<forall>c. pc \<noteq> Ready c"
  shows "en_service e' = en_service e \<and> (claim_of pc' = claim_of pc \<or> claimed pc' = None \<or>
      (\<exists>t. claimed pc = Some t \<and> claim_of pc' = Some (None, t))) \<or>
    (\<exists>t. claimed pc = Some t \<and> claimed pc' = None \<and> en_service e' = tput (st_id t) t (en_service e))"
proof (cases pc)
  case (Ready c)
  with assms(2) show ?thesis by simp
next
  case (Claimed c t)
  then show ?thesis using assms(1) by (cases c) (auto simp: claimed_def split: if_splits)
next
  case (Noted c t old)
  then show ?thesis
    using assms(1) by (auto simp: claimed_def section_frames split: prod.splits outcome.splits)
next
  case (Unwatched c t old tok)
  then show ?thesis
    using assms(1) by (auto simp: claimed_def section_frames split: prod.splits outcome.splits)
qed (use assms in \<open>auto simp: claimed_def claim_frames\<close>)

lemma section_effect:
  assumes "claim_section ev pc e = (pc', e')" and "keyed_by st_id (en_service e)"
  shows "effect pc (en_service e) pc' (en_service e')"
proof (cases "\<exists>c. pc = Ready c")
  case True
  then obtain c where pc: "pc = Ready c" by blast
  from removal [OF assms(1) [unfolded pc] assms(2)] show ?thesis
    by (auto simp: effect_def claimed_def pc)
next
  case False
  then have "\<forall>c. pc \<noteq> Ready c" by blast
  from after_removal [OF assms(1) this] show ?thesis
    by (auto simp: effect_def claimed_def)
qed

lemma section_call:
  assumes "claim_section ev pc e = (pc', e')" and "keyed_by st_id (en_service e)"
    and "\<And>c t. claim_of pc = Some (Some c, t) \<Longrightarrow> wants c t \<and> call_task c = st_id t"
    and "claim_of pc' = Some (Some c, t)"
  shows "wants c t \<and> call_task c = st_id t"
proof (cases "\<exists>c. pc = Ready c")
  case True
  then obtain c' where pc: "pc = Ready c'" by blast
  from removal [OF assms(1) [unfolded pc] assms(2)] assms(4) show ?thesis by auto
next
  case False
  then have "\<forall>c. pc \<noteq> Ready c" by blast
  from after_removal [OF assms(1) this] assms(3) [of c t] assms(4) show ?thesis
    by (auto simp: claimed_def)
qed

text \<open>What the map and the claims have to do with each other, without the engine around them.\<close>

definition fenced :: "(uuid, service_task) table \<Rightarrow> (nat \<Rightarrow> claim_pc) \<Rightarrow> bool" where
  "fenced m f \<longleftrightarrow>
     keyed_by st_id m \<and>
     (\<forall>a t. claimed (f a) = Some t \<longrightarrow> tget m (st_id t) = None) \<and>
     (\<forall>a b t u. a \<noteq> b \<longrightarrow> claimed (f a) = Some t \<longrightarrow> claimed (f b) = Some u \<longrightarrow> st_id t \<noteq> st_id u)"

lemma fenced_effect:
  assumes "fenced m f" and "effect (f a) m pc m'"
  shows "fenced m' (f(a := pc))"
proof -
  have k: "keyed_by st_id m"
    and absent: "\<And>b t. claimed (f b) = Some t \<Longrightarrow> tget m (st_id t) = None"
    and apart: "\<And>b c t u. b \<noteq> c \<Longrightarrow> claimed (f b) = Some t \<Longrightarrow> claimed (f c) = Some u \<Longrightarrow> st_id t \<noteq> st_id u"
    using assms(1) unfolding fenced_def by blast+
  from assms(2) consider
      (keep) "m' = m" "claimed pc = claimed (f a) \<or> claimed pc = None"
    | (grab) t where "claimed (f a) = None" "claimed pc = Some t" "tget m (st_id t) = Some t" "m' = tdel (st_id t) m"
    | (returned) t where "claimed (f a) = Some t" "claimed pc = None" "m' = tput (st_id t) t m"
    unfolding effect_def by (elim disjE exE conjE) metis+
  then show ?thesis
  proof cases
    case keep
    then have sub: "claimed ((f(a := pc)) b) = Some t \<Longrightarrow> claimed (f b) = Some t" for b t by (auto split: if_splits)
    show ?thesis unfolding fenced_def keep(1)
      using k absent [OF sub] apart [OF _ sub sub] by blast
  next
    case (grab t)
    have other: "st_id u \<noteq> st_id t" if "claimed (f b) = Some u" for b u using absent [OF that] grab(3) by auto
    have "keyed_by st_id m'" using k grab(4) by (simp add: keyed_by_def tbl.get_remove)
    moreover have "tget m' (st_id u) = None" if "claimed ((f(a := pc)) b) = Some u" for b u
      using that grab absent other by (cases "b = a") (auto simp: tbl.get_remove)
    moreover have "st_id u \<noteq> st_id v"
      if "b \<noteq> c" "claimed ((f(a := pc)) b) = Some u" "claimed ((f(a := pc)) c) = Some v" for b c u v
    proof (cases "b = a \<or> c = a")
      case True
      then show ?thesis using that grab(2) other [of b u] other [of c v] by (auto split: if_splits)
    next
      case False
      then show ?thesis using that apart by simp
    qed
    ultimately show ?thesis unfolding fenced_def by blast
  next
    case (returned t)
    have "keyed_by st_id m'" using k returned(3) by (simp add: keyed_by_def tbl.get_put)
    moreover have "tget m' (st_id u) = None" if "claimed ((f(a := pc)) b) = Some u" for b u
    proof (cases "b = a")
      case True
      then show ?thesis using that returned(2) by simp
    next
      case False
      with that have "claimed (f b) = Some u" by simp
      with absent apart [OF False _ returned(1)] show ?thesis by (simp add: returned(3) tbl.get_put)
    qed
    moreover have "st_id u \<noteq> st_id v"
      if "b \<noteq> c" "claimed ((f(a := pc)) b) = Some u" "claimed ((f(a := pc)) c) = Some v" for b c u v
      using that returned(2) apart by (auto split: if_splits)
    ultimately show ?thesis unfolding fenced_def by blast
  qed
qed

lemma race_ok_iff:
  "race_ok s \<longleftrightarrow> fenced (en_service (ra_engine s)) (ra_calls s) \<and>
     (\<forall>a c t. claim_of (ra_calls s a) = Some (Some c, t) \<longrightarrow> wants c t \<and> call_task c = st_id t)"
  by (simp add: race_ok_def fenced_def conj_assoc)

lemma race_step_ok:
  assumes "race_step ev s s'" and "race_ok s"
  shows "race_ok s'"
  using assms
proof (induction rule: race_step.induct)
  case (race_section s a pc e)
  have f: "fenced (en_service (ra_engine s)) (ra_calls s)" using race_section.prems by (simp add: race_ok_iff)
  then have k: "keyed_by st_id (en_service (ra_engine s))" by (simp add: fenced_def)
  have call: "\<And>b c t. claim_of (ra_calls s b) = Some (Some c, t) \<Longrightarrow> wants c t \<and> call_task c = st_id t"
    using race_section.prems by (simp add: race_ok_iff)
  have "fenced (en_service e) ((ra_calls s)(a := pc))"
    by (rule fenced_effect [OF f section_effect [OF race_section.hyps k]])
  moreover have "wants c t \<and> call_task c = st_id t" if "claim_of (((ra_calls s)(a := pc)) b) = Some (Some c, t)" for b c t
    using that call [of b] section_call [OF race_section.hyps k call, where c = c and t = t] by (simp split: if_splits)
  ultimately show ?case by (simp add: race_ok_iff)
next
  case (race_others e s)
  then show ?case by (simp add: race_ok_iff fenced_def)
qed

text \<open>
  C34. However the calls of any number of workers and users for service tasks interleave with each other and with
  the rest of the engine, no task is claimed by two of them: from the moment a completion, a thrown error or a
  resolution has removed a task until for ever, it is not in the map and no other call has it, unless the call put it
  back itself because the instance is suspended. A completion only ever claims a task whose lock names its worker.
\<close>

theorem no_task_is_claimed_twice:
  assumes "race_reach ev s" and "claimed (ra_calls s a) = Some t"
  shows "tget (en_service (ra_engine s)) (st_id t) = None \<and>
    (\<forall>b u. b \<noteq> a \<longrightarrow> claimed (ra_calls s b) = Some u \<longrightarrow> st_id u \<noteq> st_id t) \<and>
    (\<forall>c. claim_of (ra_calls s a) = Some (Some c, t) \<longrightarrow> wants c t \<and> call_task c = st_id t)"
proof -
  from assms(1) have "race_ok s"
  proof (induction rule: race_reach.induct)
    case (race_start s)
    have "claim_of (ra_calls s a) = None" for a using race_start(2) [of a] by auto
    then show ?case using race_start(1) by (simp add: race_ok_def claimed_def)
  next
    case (race_more s s')
    then show ?case by (blast intro: race_step_ok)
  qed
  with assms(2) show ?thesis unfolding race_ok_def by metis
qed

text \<open>Worker \<open>w\<close> completes task 3 twice at once; the second call finds it gone.\<close>

definition two_calls :: "memory race" where
  "two_calls = \<lparr> ra_engine = held_engine, ra_calls = (\<lambda>a. Ready (CompleteCall 3 ''w'' [])) \<rparr>"

theorem no_task_is_claimed_twice_witness:
  "\<exists>s. race_reach memory_env s \<and> claimed (ra_calls s 0) = Some (lock_task ''w'' 9 (sample_task 3)) \<and>
     (\<forall>u. claimed (ra_calls s 1) = Some u \<longrightarrow> st_id u \<noteq> 3) \<and> tget (en_service (ra_engine s)) 3 = None"
proof -
  let ?t = "lock_task ''w'' 9 (sample_task 3)" and ?c = "CompleteCall 3 ''w'' []"
  let ?s = "two_calls\<lparr>ra_engine := held_engine\<lparr>en_service := tdel 3 (en_service held_engine)\<rparr>,
     ra_calls := (ra_calls two_calls)(0 := Claimed ?c ?t)\<rparr>"
  have k: "keyed_by st_id (en_service (ra_engine two_calls))"
    by (auto simp: two_calls_def held_engine_def keyed_by_def wf_table_def tget_Cons lock_task_def sample_task_def split: if_splits)
  have "race_step memory_env two_calls ?s"
    by (rule race_section)
       (simp add: two_calls_def remove_if_def held_engine_def tget_Cons lock_task_def)
  moreover have "race_reach memory_env two_calls" by (rule race_start [OF k]) (simp add: two_calls_def)
  ultimately have r: "race_reach memory_env ?s" by (blast intro: race_more)
  have c: "claimed (ra_calls ?s 0) = Some ?t" by (simp add: claimed_def)
  have "st_id ?t = 3" by (simp add: lock_task_def sample_task_def)
  with no_task_is_claimed_twice [OF r c] r c show ?thesis by (metis zero_neq_one)
qed

section \<open>What the check of the suspension does not cover\<close>

lemma take_token_state:
  assumes "take_token i t e = (e', Ok tok)" and "inst_get e i = Some x"
  shows "\<exists>y. inst_get e' i = Some y \<and> pi_state y = pi_state x"
  using assms by (auto simp: take_token_def read_instance_def insts.get_put split: option.splits)

lemma cancelled_watch_keeps_instances: "inst_get (cancel_boundary_events ev i n e) j = inst_get e j"
  by (simp add: cancel_boundary_events_def cancel_boundary_timers_def cancel_boundary_message_catches_def Let_def
      inst_get_def frame split: option.split)

lemma suspended_state:
  assumes "suspend_instance ev i e = (e1, Ok ())"
  shows "\<exists>x s. inst_get e1 i = Some x \<and> pi_state x = Suspended s"
proof (cases "inst_get e i")
  case None
  then show ?thesis using assms by (simp add: suspend_instance_def read_instance_def)
next
  case (Some old)
  let ?x = "push_audit_log (Msg ''Instance suspended'' []) (old\<lparr>pi_state := Suspended (pi_state old)\<rparr>)"
  from Some assms have e1: "e1 = persist_instance ev i (record_history_event ev i HInstanceSuspended
      (Msg ''Instance suspended'' []) ActorUser None (Some old) (inst_put i ?x e))"
    by (simp add: suspend_instance_def read_instance_def liftR_def active_guard_def split: if_splits)
  have "inst_get (inst_put i ?x e) i = Some ?x" by (simp add: insts.get_put)
  then obtain y where "inst_get e1 i = Some y" "same_but_audit ?x y" unfolding e1 by (rule saved_instance)
  then show ?thesis by (auto simp: same_but_audit_def push_audit_log_def)
qed

lemma a_claim_runs_the_instance:
  assumes "inst_get e1 (st_instance_id t) = Some x" and "pi_state x = Suspended s"
    and "sections ev 4 (Cleared c t, e1) = (Resumed c' t' old tok, e2)"
  shows "\<exists>y. inst_get e2 (st_instance_id t) = Some y \<and> pi_state y = Running"
proof -
  let ?i = "st_instance_id t"
  have four: "sections ev 4 s = sections ev (Suc (Suc (Suc (Suc 0)))) s" for s
    by (simp add: eval_nat_numeral)
  obtain e' r where tt: "take_token ?i (st_token_id t) e1 = (e', r)" by fastforce
  with take_token_cases [of ?i "st_token_id t" e1] have r: "r \<noteq> Diverged" by simp
  then obtain tk where ok: "r = Ok tk"
    using assms(3) tt by (cases r) (simp_all add: four)
  from take_token_state [OF tt [unfolded ok] assms(1)] obtain y where
    y: "inst_get e' ?i = Some y" "pi_state y = Suspended s" using assms(2) by auto
  from y show ?thesis using assms(3) tt
    by (cases c) (auto simp: four ok modify_instance_def cancelled_watch_keeps_instances insts.get_put
      run_again_def push_audit_log_def)
qed

text \<open>
  A suspension that comes after the check and before the instance is set running succeeds and is undone: the
  completion goes on, and the instance, parallel before or not, is running.
\<close>

lemma suspension_in_between_is_lost:
  assumes "suspend_instance ev (st_instance_id t) e = (e1, Ok ())"
    and "sections ev 4 (Cleared c t, e1) = (Resumed c' t' old tok, e2)"
  shows "\<exists>y. inst_get e2 (st_instance_id t) = Some y \<and> pi_state y = Running"
  using suspended_state [OF assms(1)] a_claim_runs_the_instance [OF _ _ assms(2)] by blast

text \<open>The resolution of an incident does not look for a suspension at all.\<close>

lemma resolution_ignores_suspension:
  assumes "sections ev 2 (Ready (ResolveCall u vs), e) = (Cleared c t, e1)"
    and "sections ev 4 (Cleared c t, e1) = (Resumed c' t' old tok, e2)"
    and "inst_get e (st_instance_id t) = Some x" and "pi_state x = Suspended s"
  shows "\<exists>y. inst_get e2 (st_instance_id t) = Some y \<and> pi_state y = Running"
proof -
  have "inst_get e1 j = inst_get e j" for j
    using assms(1)
    by (auto simp: eval_nat_numeral remove_if_def inst_get_def split: option.splits if_splits)
  with assms(3) have "inst_get e1 (st_instance_id t) = Some x" by simp
  then show ?thesis using assms(4,2) by (rule a_claim_runs_the_instance)
qed

end
