(* ===== verification/Deliveries.thy ===== *)
theory Deliveries
  imports Claims
begin

text \<open>
  What a completed user task, an expired timer and a correlated message do to the engine before the batch takes over
  (\<open>engine/user_task.rs\<close>, \<open>timer_processor.rs\<close>, \<open>message_processor.rs\<close>): which token goes on, from where and with which
  variables, and which pending work goes with it. The batch is arbitrary, so the statements hold at every depth.
\<close>

section \<open>The tables behind the bookkeeping\<close>

lemmas kept_by_removal [frame] =
  same_tables_persist(3) [THEN same_tablesD(1)] same_tables_persist(3) [THEN same_tablesD(2)]
  same_tables_persist(3) [THEN same_tablesD(3)] same_tables_persist(3) [THEN same_tablesD(4)]
  same_tables_persist(3) [THEN same_tablesD(5)] same_tables_persist(3) [THEN same_tablesD(6)]
  same_tables_persist(3) [THEN same_tablesD(7)] same_tables_persist(3) [THEN same_tablesD(9)]
  same_tables_persist(3) [THEN same_tablesD(10)]
  same_tables_persist(5) [THEN same_tablesD(2)] same_tables_persist(5) [THEN same_tablesD(3)]
  same_tables_persist(5) [THEN same_tablesD(4)] same_tables_persist(5) [THEN same_tablesD(5)]
  same_tables_persist(5) [THEN same_tablesD(6)] same_tables_persist(5) [THEN same_tablesD(9)]
  same_tables_persist(5) [THEN same_tablesD(10)]
  same_tables_persist(7) [THEN same_tablesD(3)] same_tables_persist(7) [THEN same_tablesD(4)]
  same_tables_persist(7) [THEN same_tablesD(5)] same_tables_persist(7) [THEN same_tablesD(6)]
  same_tables_persist(7) [THEN same_tablesD(9)]
  same_tables_persist(9) [THEN same_tablesD(3)] same_tables_persist(9) [THEN same_tablesD(4)]
  same_tables_persist(9) [THEN same_tablesD(5)] same_tables_persist(9) [THEN same_tablesD(6)]
  same_tables_persist(9) [THEN same_tablesD(9)]
  same_tables_delete_each [THEN same_tablesD(3)] same_tables_delete_each [THEN same_tablesD(5)]
  same_tables_delete_each [THEN same_tablesD(6)] same_tables_delete_each [THEN same_tablesD(7)]
  same_tables_delete_each [THEN same_tablesD(9)] same_tables_delete_each [THEN same_tablesD(10)]

lemma inst_get_update [simp]:
  "inst_get (e\<lparr>en_user := u\<rparr>) = inst_get e" "inst_get (e\<lparr>en_service := s\<rparr>) = inst_get e"
  "inst_get (e\<lparr>en_timers := t\<rparr>) = inst_get e" "inst_get (e\<lparr>en_messages := m\<rparr>) = inst_get e"
  "reg_get (e\<lparr>en_user := u\<rparr>) = reg_get e" "reg_get (e\<lparr>en_service := s\<rparr>) = reg_get e"
  "reg_get (e\<lparr>en_timers := t\<rparr>) = reg_get e" "reg_get (e\<lparr>en_messages := m\<rparr>) = reg_get e"
  by (simp_all add: inst_get_def reg_get_def fun_eq_iff)

text \<open>A table without the entries that meet a condition.\<close>

definition without :: "('v \<Rightarrow> bool) \<Rightarrow> (uuid, 'v) table \<Rightarrow> (uuid, 'v) table \<Rightarrow> bool" where
  "without p t t' \<longleftrightarrow>
     (\<forall>k. tget t' k = (case tget t k of None \<Rightarrow> None | Some v \<Rightarrow> if p v then None else Some v))"

lemma without_tretain: "wf_table t \<Longrightarrow> without p t (tretain (\<lambda>k v. \<not> p v) t)"
  by (auto simp: without_def tget_tretain split: option.split)

lemma without_refl: "(\<And>k v. tget t k = Some v \<Longrightarrow> \<not> p v) \<Longrightarrow> without p t t"
  by (auto simp: without_def split: option.split)

definition boundary_timer_of :: "uuid \<Rightarrow> process_definition \<Rightarrow> string \<Rightarrow> pending_timer \<Rightarrow> bool" where
  "boundary_timer_of i def n t \<longleftrightarrow> tm_instance_id t = i \<and> tm_node_id t \<in> set (nodes_attached timer_host def n)"

definition boundary_catch_of :: "uuid \<Rightarrow> process_definition \<Rightarrow> string \<Rightarrow> message_catch \<Rightarrow> bool" where
  "boundary_catch_of i def n c \<longleftrightarrow> mc_instance_id c = i \<and> mc_node_id c \<in> set (nodes_attached message_host def n)"

lemma cancel_boundary_tables:
  fixes ev :: "'p eenv" and e :: "'p engine" and n
  assumes "inst_get e i = Some x" and "reg_get e (pi_definition_key x) = Some def"
  defines "e' \<equiv> cancel_boundary_events ev i n e"
  shows "en_timers e' = tretain (\<lambda>k t. \<not> boundary_timer_of i def n t) (en_timers e)"
    and "en_messages e' = tretain (\<lambda>k c. \<not> boundary_catch_of i def n c) (en_messages e)"
    and "en_user e' = en_user e" "en_service e' = en_service e" "inst_get e' = inst_get e" "reg_get e' = reg_get e"
      "en_script e' = en_script e"
  using assms(1,2)
  by (simp_all add: e'_def cancel_boundary_events_def cancel_boundary_timers_def cancel_boundary_message_catches_def
      Let_def frame attached_of_def boundary_timer_of_def boundary_catch_of_def)

lemma take_token_found:
  "inst_get e i = Some x \<Longrightarrow> tget (pi_tokens x) t = Some tok \<Longrightarrow>
     take_token i t e = (inst_put i (x\<lparr>pi_tokens := tdel t (pi_tokens x)\<rparr>) e, Ok tok)"
  by (simp add: take_token_def read_instance_def)

lemma modify_instance_found:
  "inst_get e i = Some x \<Longrightarrow> modify_instance i f e = (inst_put i (f x) e, Ok ())"
  by (simp add: modify_instance_def)

lemma definition_of_found:
  "inst_get e i = Some x \<Longrightarrow> reg_get e (pi_definition_key x) = Some def \<Longrightarrow> definition_of i e = (e, Ok def)"
  by (simp add: definition_of_def read_instance_def liftR_def)

lemma register_tables [frame]:
  "en_user (register_compensation_handler i n def e) = en_user e"
  "en_service (register_compensation_handler i n def e) = en_service e"
  "en_timers (register_compensation_handler i n def e) = en_timers e"
  "en_messages (register_compensation_handler i n def e) = en_messages e"
  by (simp_all add: register_compensation_handler_def frame split: option.split)

lemma inst_get_register:
  "inst_get (register_compensation_handler i n def e) j =
     (case inst_get e j of None \<Rightarrow> None
      | Some x \<Rightarrow> Some (if j = i then case find_compensation_handler def n of None \<Rightarrow> x
          | Some h \<Rightarrow> push_audit_log (Msg ''Registered compensation handler {} for activity {}'' [AStr h, AStr n])
               (x\<lparr>pi_comp_log := pi_comp_log x @ [\<lparr> cr_activity_id = n, cr_handler_node_id = h \<rparr>]\<rparr>) else x))"
  by (auto simp: register_compensation_handler_def frame split: option.split)


section \<open>User tasks\<close>

text \<open>
  The state a completion is in when the end scripts of the node run: the task is gone with the boundary events of its
  node, the token is out of the instance, and the instance runs.
\<close>

lemma completion_reaches_the_scripts:
  assumes "engine_wf e" and task: "tget (en_user e) u = Some t" and "inst_get e (ut_instance_id t) = Some x"
    and "\<not> is_suspended (pi_state x)" and "tget (pi_tokens x) (ut_token_id t) = Some tok"
    and "reg_get e (pi_definition_key x) = Some def"
  obtains e' y old where
    "complete_user_task ev rec u vs e = advance_user_task ev rec t old def (merge_into_token vs tok) e'"
    and "inst_get e' = (inst_get e)(ut_instance_id t := Some y)" "reg_get e' = reg_get e" "en_script e' = en_script e"
    and "en_user e' = tdel u (en_user e)" "en_service e' = en_service e"
    and "without (boundary_timer_of (ut_instance_id t) def (ut_node_id t)) (en_timers e) (en_timers e')"
    and "without (boundary_catch_of (ut_instance_id t) def (ut_node_id t)) (en_messages e) (en_messages e')"
    and "pi_tokens y = tdel (ut_token_id t) (pi_tokens x)" "pi_state y = (if is_parallel (pi_state x) then pi_state x else Running)"
    and "pi_vars y = pi_vars x" "pi_definition_key y = pi_definition_key x" "pi_node y = ut_node_id t"
proof -
  let ?i = "ut_instance_id t" and ?n = "ut_node_id t"
  let ?x1 = "x\<lparr>pi_tokens := tdel (ut_token_id t) (pi_tokens x)\<rparr>"
  let ?e1 = "e\<lparr>en_user := tdel u (en_user e)\<rparr>"
  let ?e2 = "inst_put ?i ?x1 ?e1"
  define e2 where "e2 = remove_persisted_user_task ev u ?e2"
  define e3 where "e3 = cancel_boundary_events ev ?i ?n e2"
  let ?f = "\<lambda>x. (run_again (x\<lparr>pi_audit := pi_audit x @ [Msg ''User task {} completed'' [AStr ?n]]\<rparr>))\<lparr>pi_node := ?n\<rparr>"
  have e2: "inst_get e2 = (inst_get e)(?i := Some ?x1)" "reg_get e2 = reg_get e" "en_script e2 = en_script e"
    "en_user e2 = tdel u (en_user e)" "en_service e2 = en_service e" "en_timers e2 = en_timers e" "en_messages e2 = en_messages e"
    by (auto simp: e2_def frame insts.get_put fun_eq_iff)
  have x1: "inst_get e2 ?i = Some ?x1" "reg_get e2 (pi_definition_key ?x1) = Some def"
    using e2 assms(6) by simp_all
  note e3 = cancel_boundary_tables [OF x1, of ev ?n, folded e3_def]
  have i3: "inst_get e3 ?i = Some ?x1" and d3: "reg_get e3 (pi_definition_key ?x1) = Some def"
    using e3 x1 by simp_all
  define y where "y = ?f ?x1"
  let ?e4 = "inst_put ?i y e3"
  have taken: "take_token ?i (ut_token_id t) ?e1 = (?e2, Ok tok)"
    using assms(3,5) by (simp add: take_token_found)
  have going: "modify_instance ?i ?f e3 = (?e4, Ok ())"
    unfolding y_def by (rule modify_instance_found [OF i3])
  have known: "definition_of ?i ?e4 = (?e4, Ok def)"
    by (rule definition_of_found [of _ _ y]) (use d3 in \<open>simp_all add: insts.get_put frame run_again_def y_def\<close>)
  have "\<not> instance_suspended ?i ?e1" using assms(3,4) by (simp add: instance_suspended_def)
  then have run: "complete_user_task ev rec u vs e
      = advance_user_task ev rec t (inst_get e3 ?i) def (merge_into_token vs tok) ?e4"
    by (simp add: complete_user_task_def task taken going known Let_def flip: e2_def e3_def)
  have tables: "wf_table (en_timers e)" "wf_table (en_messages e)"
    using engine_wf_tables [OF assms(1)] by (simp_all add: keyed_by_def)
  have at: "inst_get ?e4 = (inst_get e)(?i := Some y)"
    by (simp add: fun_eq_iff insts.get_put e3 e2)
  show thesis
    by (rule that [OF run at])
       (simp_all add: frame e3 e2 tables without_tretain run_again_def y_def)
qed

lemma end_scripts_found:
  assumes "inst_get e i = Some y"
    and "run_node_scripts ev (en_script e) def n LEnd (tok, []) = ((tok', notes), r)"
  shows "end_scripts ev i def n tok e =
    (case r of Ok u \<Rightarrow> (inst_put i (y\<lparr>pi_audit := pi_audit y @ notes, pi_vars := tk_vars tok'\<rparr>) e, Ok tok')
     | Err er \<Rightarrow> (e, Err er) | Diverged \<Rightarrow> (e, Diverged))"
  using assms by (simp add: end_scripts_def run_end_scripts_def split: outcome.split)

text \<open>What follows end scripts that succeed.\<close>

lemma advance_after_scripts:
  assumes "inst_get e (ut_instance_id t) = Some y"
    and "run_node_scripts ev (en_script e) def (ut_node_id t) LEnd (tok, []) = ((tok', notes), Ok ())"
  obtains e' y' where
    "advance_user_task ev rec t old def tok e =
       (case resolve_next_target ev def (ut_node_id t) (tk_vars tok') of
          Ok next \<Rightarrow> rec (ut_instance_id t) (tok'\<lparr>tk_node := next\<rparr>) e' | Err er \<Rightarrow> (e', Err er) | Diverged \<Rightarrow> (e', Diverged))"
    and "inst_get e' = (inst_get e)(ut_instance_id t := Some y')" "en_user e' = en_user e"
      "en_service e' = en_service e" "en_timers e' = en_timers e" "en_messages e' = en_messages e"
    and "pi_tokens y' = pi_tokens y" "pi_vars y' = tk_vars tok'" "pi_state y' = pi_state y"
      "\<forall>next. resolve_next_target ev def (ut_node_id t) (tk_vars tok') = Ok next \<longrightarrow> pi_node y' = next"
proof -
  let ?i = "ut_instance_id t" and ?n = "ut_node_id t"
  define e2 where "e2 = register_compensation_handler ?i ?n def
    (inst_put ?i (y\<lparr>pi_audit := pi_audit y @ notes, pi_vars := tk_vars tok'\<rparr>) e)"
  have scripts: "end_scripts ev ?i def ?n tok e
      = (inst_put ?i (y\<lparr>pi_audit := pi_audit y @ notes, pi_vars := tk_vars tok'\<rparr>) e, Ok tok')"
    using end_scripts_found [OF assms] by simp
  obtain y2 where y2: "inst_get e2 = (inst_get e)(?i := Some y2)" "pi_tokens y2 = pi_tokens y"
      "pi_vars y2 = tk_vars tok'" "pi_state y2 = pi_state y"
    by (rule that [of "the (inst_get e2 ?i)"])
       (auto simp: e2_def inst_get_register insts.get_put push_audit_log_def fun_eq_iff split: option.split)
  have t2: "en_user e2 = en_user e" "en_service e2 = en_service e" "en_timers e2 = en_timers e" "en_messages e2 = en_messages e"
    by (simp_all add: e2_def frame)
  show thesis
  proof (cases "resolve_next_target ev def ?n (tk_vars tok')")
    case (Ok target)
    let ?y = "y2\<lparr>pi_node := target\<rparr>"
    have "inst_get e2 ?i = Some y2" by (simp add: y2)
    then show thesis
      by (intro that [of "record_history_event ev ?i HTaskCompleted (Msg ''User task {} completed'' [AStr ?n])
            ActorUser (Some (ut_assignee t)) old (inst_put ?i ?y e2)" ?y])
         (simp_all add: advance_user_task_def Let_def scripts Ok modify_instance_found frame y2 t2 insts.get_put
           fun_eq_iff liftR_def flip: e2_def)
  next
    case (Err er)
    then show thesis
      by (intro that [of e2 y2]) (simp_all add: advance_user_task_def Let_def scripts liftR_def y2 t2 flip: e2_def)
  qed simp
qed

lemma node_scripts_id:
  "run_node_scripts ev cfg def n le (tok, as) = ((tok', notes), r) \<Longrightarrow> tk_id tok' = tk_id tok"
  using run_listeners_id [of ev cfg n le _ "(tok, as)"]
  by (auto simp: run_node_scripts_def split: option.splits) (metis fst_conv)

text \<open>
  The two outcomes: the task waits again, with the token back in the instance; or the task has gone with the boundary
  events of its node, the token has left the instance, and everything else that waits is as before.
\<close>

definition waits_again :: "'p engine \<Rightarrow> user_task \<Rightarrow> process_instance \<Rightarrow> token \<Rightarrow> 'p engine \<Rightarrow> bool" where
  "waits_again e t x tok e' \<longleftrightarrow>
     (\<forall>k. tget (en_user e') k = tget (en_user e) k) \<and>
     (\<exists>y. inst_get e' = (inst_get e)(ut_instance_id t := Some y) \<and> pi_vars y = pi_vars x \<and>
        pi_state y = WaitingOnUserTask (ut_task_id t) \<and>
        (\<forall>k. tget (pi_tokens y) k = (if k = tk_id tok then Some tok else tget (pi_tokens x) k)))"

definition moves_on ::
  "'p engine \<Rightarrow> user_task \<Rightarrow> process_instance \<Rightarrow> process_definition \<Rightarrow> token \<Rightarrow> string option \<Rightarrow> 'p engine \<Rightarrow> bool" where
  "moves_on e t x def tok target e' \<longleftrightarrow>
     en_user e' = tdel (ut_task_id t) (en_user e) \<and> en_service e' = en_service e \<and>
     without (boundary_timer_of (ut_instance_id t) def (ut_node_id t)) (en_timers e) (en_timers e') \<and>
     without (boundary_catch_of (ut_instance_id t) def (ut_node_id t)) (en_messages e) (en_messages e') \<and>
     (\<exists>y. inst_get e' = (inst_get e)(ut_instance_id t := Some y) \<and>
        pi_tokens y = tdel (ut_token_id t) (pi_tokens x) \<and> pi_vars y = tk_vars tok \<and>
        pi_state y = (if is_parallel (pi_state x) then pi_state x else Running) \<and>
        (\<forall>n. target = Some n \<longrightarrow> pi_node y = n))"

lemma rolled_back:
  assumes "inst_get e1 = (inst_get e)(ut_instance_id t := Some y)" and "en_user e1 = tdel (ut_task_id t) (en_user e)"
    and "tget (en_user e) (ut_task_id t) = Some t" and "pi_tokens y = tdel (tk_id tok) (pi_tokens x)" and "pi_vars y = pi_vars x"
  shows "waits_again e t x tok (rollback_user_task t tok e1)"
  unfolding waits_again_def
proof (intro conjI exI)
  let ?y = "store_token tok (y\<lparr>pi_state := WaitingOnUserTask (ut_task_id t)\<rparr>)"
  show "inst_get (rollback_user_task t tok e1) = (inst_get e)(ut_instance_id t := Some ?y)"
    using assms(1) by (simp add: rollback_user_task_def Let_def frame fun_eq_iff)
  show "\<forall>k. tget (en_user (rollback_user_task t tok e1)) k = tget (en_user e) k"
    using assms(2,3) by (simp add: rollback_user_task_def Let_def frame tget_tput tget_tdel)
qed (use assms(4,5) in \<open>simp_all add: store_token_def tget_tput tget_tdel\<close>)

text \<open>
  C14. What completing a user task does, when the instance is there, is not suspended and holds the token. If an end
  script fails, the completion is undone: the task is pending again, and the token is back in the instance with the
  caller's variables and what the scripts before wrote. If the scripts succeed and a flow can be taken, the batch gets
  the token at the target of that flow with those variables; the task, the token in the instance and the boundary
  timers and messages of the node are gone, and everything else that waits is as before. If no flow can be taken, the
  error is reported, but task and token are lost.
\<close>

theorem completed_user_task_hands_its_token_on:
  assumes "engine_wf e" and "tget (en_user e) u = Some t" and "inst_get e (ut_instance_id t) = Some x"
    and "\<not> is_suspended (pi_state x)" and "tget (pi_tokens x) (ut_token_id t) = Some tok"
    and "reg_get e (pi_definition_key x) = Some def"
    and scripts: "run_node_scripts ev (en_script e) def (ut_node_id t) LEnd (merge_into_token vs tok, []) = ((tok', notes), r)"
  shows "(\<forall>er. r = Err er \<longrightarrow>
      (\<exists>e'. complete_user_task ev rec u vs e = (e', Err er) \<and> waits_again e t x tok' e')) \<and>
    (r = Ok () \<longrightarrow>
      (case resolve_next_target ev def (ut_node_id t) (tk_vars tok') of
         Ok n \<Rightarrow> \<exists>e'. complete_user_task ev rec u vs e = rec (ut_instance_id t) (tok'\<lparr>tk_node := n\<rparr>) e' \<and>
                   moves_on e t x def tok' (Some n) e'
       | Err er \<Rightarrow> \<exists>e'. complete_user_task ev rec u vs e = (e', Err er) \<and> moves_on e t x def tok' None e'
       | Diverged \<Rightarrow> False))"
proof -
  let ?i = "ut_instance_id t" and ?n = "ut_node_id t"
  obtain e1 y old where run:
      "complete_user_task ev rec u vs e = advance_user_task ev rec t old def (merge_into_token vs tok) e1"
    and i1: "inst_get e1 = (inst_get e)(?i := Some y)" and s1: "en_script e1 = en_script e"
    and u1: "en_user e1 = tdel u (en_user e)" and tabs: "en_service e1 = en_service e"
      "without (boundary_timer_of ?i def ?n) (en_timers e) (en_timers e1)"
      "without (boundary_catch_of ?i def ?n) (en_messages e) (en_messages e1)"
    and y: "pi_tokens y = tdel (ut_token_id t) (pi_tokens x)" "pi_vars y = pi_vars x"
      "pi_state y = (if is_parallel (pi_state x) then pi_state x else Running)"
    by (rule completion_reaches_the_scripts [OF assms(1-6), of ev rec vs]) (rule that)
  have id: "tk_id tok' = ut_token_id t" and u: "ut_task_id t = u"
    using node_scripts_id [OF scripts] assms(1,2,3,5) engine_wf_inst [OF assms(1,3)]
    by (auto simp: merge_into_token_def inst_wf_def engine_wf_def keyed_by_def)
  have i: "inst_get e1 ?i = Some y" by (simp add: i1)
  note here = scripts [folded s1]
  show ?thesis
  proof (intro conjI allI impI)
    fix er assume r: "r = Err er"
    have "complete_user_task ev rec u vs e = (rollback_user_task t tok' e1, Err er)"
      using end_scripts_found [OF i here] here r by (simp add: run advance_user_task_def token_after_scripts_def)
    then show "\<exists>e'. complete_user_task ev rec u vs e = (e', Err er) \<and> waits_again e t x tok' e'"
      using rolled_back [of e1 e t y tok' x] i1 u1 u assms(2) y id by auto
  next
    assume "r = Ok ()"
    with here have ok: "run_node_scripts ev (en_script e1) def ?n LEnd (merge_into_token vs tok, []) = ((tok', notes), Ok ())"
      by simp
    obtain e2 y2 where next_step: "advance_user_task ev rec t old def (merge_into_token vs tok) e1 =
       (case resolve_next_target ev def ?n (tk_vars tok') of
          Ok n \<Rightarrow> rec ?i (tok'\<lparr>tk_node := n\<rparr>) e2 | Err er \<Rightarrow> (e2, Err er) | Diverged \<Rightarrow> (e2, Diverged))"
      and i2: "inst_get e2 = (inst_get e1)(?i := Some y2)" and t2: "en_user e2 = en_user e1"
        "en_service e2 = en_service e1" "en_timers e2 = en_timers e1" "en_messages e2 = en_messages e1"
      and y2: "pi_tokens y2 = pi_tokens y" "pi_vars y2 = tk_vars tok'" "pi_state y2 = pi_state y"
        "\<forall>n. resolve_next_target ev def ?n (tk_vars tok') = Ok n \<longrightarrow> pi_node y2 = n"
      by (rule advance_after_scripts [where rec = rec and old = old, OF i ok]) (rule that)
    have moved: "moves_on e t x def tok' target e2" if "\<forall>n. target = Some n \<longrightarrow> pi_node y2 = n" for target
      unfolding moves_on_def using that
      by (intro conjI exI [of _ y2]) (simp_all add: i2 i1 t2 u1 u tabs y2 y)
    show "case resolve_next_target ev def ?n (tk_vars tok') of
         Ok n \<Rightarrow> \<exists>e'. complete_user_task ev rec u vs e = rec ?i (tok'\<lparr>tk_node := n\<rparr>) e' \<and> moves_on e t x def tok' (Some n) e'
       | Err er \<Rightarrow> \<exists>e'. complete_user_task ev rec u vs e = (e', Err er) \<and> moves_on e t x def tok' None e'
       | Diverged \<Rightarrow> False"
      using y2(4) unfolding run next_step
      by (cases "resolve_next_target ev def ?n (tk_vars tok')") (auto intro!: exI [of _ e2] moved)
  qed
qed

section \<open>Timers and messages\<close>

text \<open>The wait states of a token: all of them go when one of them strikes.\<close>

lemma clear_wait_states_tables:
  fixes ev :: "'p eenv" and e :: "'p engine" and i t :: uuid
  assumes "inst_get e i = Some x"
  defines "e' \<equiv> clear_wait_states_for_token ev i t e"
  obtains y where "inst_get e' = (inst_get e)(i := Some y)" "same_but_audit x y"
    and "en_timers e' = tretain (\<lambda>k x. \<not> timer_of_token i t x) (en_timers e)"
    and "en_messages e' = tretain (\<lambda>k x. \<not> message_of_token i t x) (en_messages e)"
    and "en_user e' = en_user e" "en_service e' = en_service e" "reg_get e' = reg_get e"
proof -
  let ?notes = "cancelled_notes (length (map tm_id (filter (timer_of_token i t) (tvals (en_timers e)))))
    (length (map mc_id (filter (message_of_token i t) (tvals (en_messages e)))))"
  let ?some = "map tm_id (filter (timer_of_token i t) (tvals (en_timers e))) \<noteq> [] \<or>
    map mc_id (filter (message_of_token i t) (tvals (en_messages e))) \<noteq> []"
  let ?y = "if ?some then x\<lparr>pi_audit := pi_audit x @ ?notes\<rparr> else x"
  have reg: "reg_get (touch_instance i f e) = reg_get e" for f
    by (simp add: reg_get_def frame fun_eq_iff)
  show thesis
  proof (rule that [of ?y])
    show "inst_get e' = (inst_get e)(i := Some ?y)"
      using assms(1) by (auto simp: e'_def clear_wait_states_for_token_def Let_def frame fun_eq_iff)
    show "same_but_audit x ?y" by (auto simp: same_but_audit_def intro: exI [of _ "pi_audit x"])
  qed (simp_all add: e'_def clear_wait_states_for_token_def Let_def frame reg)
qed

text \<open>The token of an event, the waiting one or a copy of it.\<close>

definition sent_token :: "bool \<Rightarrow> uuid \<Rightarrow> token \<Rightarrow> token" where
  "sent_token keep u tok = (if keep then tok\<lparr>tk_id := u\<rparr> else tok)"

definition tokens_after :: "bool \<Rightarrow> uuid \<Rightarrow> uuid \<Rightarrow> token \<Rightarrow> process_instance \<Rightarrow> process_instance \<Rightarrow> bool" where
  "tokens_after keep u t tok x y \<longleftrightarrow>
     (\<forall>k. tget (pi_tokens y) k =
        (if keep then (if k = u then Some (sent_token keep u tok) else tget (pi_tokens x) k)
         else if k = t then None else tget (pi_tokens x) k))"

lemma event_token_found:
  assumes "inst_get e i = Some x" and "tget (pi_tokens x) t = Some tok"
  obtains e' y u where "event_token ev keep i t e = (e', Ok (sent_token keep u tok))"
    and "inst_get e' = (inst_get e)(i := Some y)" "reg_get e' = reg_get e"
    and "en_user e' = en_user e" "en_service e' = en_service e" "en_timers e' = en_timers e" "en_messages e' = en_messages e"
    and "tokens_after keep u t tok x y" "pi_vars y = pi_vars x" "pi_definition_key y = pi_definition_key x"
proof (cases keep)
  case False
  with assms show thesis
    by (intro that [of "inst_put i (x\<lparr>pi_tokens := tdel t (pi_tokens x)\<rparr>) e" 0 "x\<lparr>pi_tokens := tdel t (pi_tokens x)\<rparr>"])
       (auto simp: event_token_def take_token_found sent_token_def tokens_after_def frame insts.get_put tget_tdel fun_eq_iff)
next
  case True
  obtain u e1 where d: "draw ev e = (u, e1)" by fastforce
  have "same_tables e e1" using same_tables_draw [of e ev] d by simp
  note e1 = same_tablesD [OF this]
  let ?y = "add_parallel_copy (tok\<lparr>tk_id := u\<rparr>) x"
  have "event_token ev keep i t e = (inst_put i ?y e1, Ok (sent_token keep u tok))"
    using assms True d by (simp add: event_token_def copy_token_def read_instance_def sent_token_def)
  then show thesis
    by (rule that [where y = ?y]) (use e1 True in \<open>auto simp: frame insts.get_put fun_eq_iff tokens_after_def sent_token_def
        add_parallel_copy_def Let_def store_token_def tget_tput\<close>)
qed

text \<open>The tasks that wait with an interrupted token.\<close>

lemma tget_fold_tdel: "tget (fold tdel ks t) k = (if k \<in> set ks then None else tget t k)"
  by (induction ks arbitrary: t) (auto simp: tget_tdel)

lemma fold_drop_user:
  "en_user (fold (drop_user_task ev) us e) = fold tdel us (en_user e)"
  "en_service (fold (drop_user_task ev) us e) = en_service e" "inst_get (fold (drop_user_task ev) us e) = inst_get e"
  "en_timers (fold (drop_user_task ev) us e) = en_timers e" "en_messages (fold (drop_user_task ev) us e) = en_messages e"
  "reg_get (fold (drop_user_task ev) us e) = reg_get e"
  by (induction us arbitrary: e) (simp_all add: drop_user_task_def frame)

lemma fold_drop_service:
  "en_service (fold (drop_service_task ev) us e) = fold tdel us (en_service e)"
  "en_user (fold (drop_service_task ev) us e) = en_user e" "inst_get (fold (drop_service_task ev) us e) = inst_get e"
  "en_timers (fold (drop_service_task ev) us e) = en_timers e" "en_messages (fold (drop_service_task ev) us e) = en_messages e"
  "reg_get (fold (drop_service_task ev) us e) = reg_get e"
  by (induction us arbitrary: e) (simp_all add: drop_service_task_def frame)

lemma without_dropped:
  assumes "wf_table t"
  shows "without p t (fold tdel (map fst (filter (\<lambda>kv. p (snd kv)) t)) t)"
proof -
  have "k \<in> fst ` {kv \<in> set t. p (snd kv)} \<longleftrightarrow> (\<exists>v. tget t k = Some v \<and> p v)" for k
    using tget_Some_iff [OF assms] by force
  then show ?thesis by (auto simp: without_def tget_fold_tdel split: option.split)
qed

lemma drop_tasks_tables:
  assumes "engine_wf e"
  shows "without (user_task_of i n t) (en_user e) (en_user (drop_tasks_of_token ev i n t e))"
    and "without (service_task_of i n t) (en_service e) (en_service (drop_tasks_of_token ev i n t e))"
    and "inst_get (drop_tasks_of_token ev i n t e) = inst_get e" "reg_get (drop_tasks_of_token ev i n t e) = reg_get e"
    "en_timers (drop_tasks_of_token ev i n t e) = en_timers e" "en_messages (drop_tasks_of_token ev i n t e) = en_messages e"
proof -
  have "wf_table (en_user e)" "wf_table (en_service e)"
    using engine_wf_tables [OF assms] by (simp_all add: keyed_by_def)
  then show "without (user_task_of i n t) (en_user e) (en_user (drop_tasks_of_token ev i n t e))"
    "without (service_task_of i n t) (en_service e) (en_service (drop_tasks_of_token ev i n t e))"
    by (simp_all add: drop_tasks_of_token_def Let_def fold_drop_user fold_drop_service without_dropped)
qed (simp_all add: drop_tasks_of_token_def Let_def fold_drop_user fold_drop_service)

text \<open>
  What an event does before its token runs on: everything that waits with the token is cancelled; an interrupting
  event also takes the tasks of the token, and the token leaves the instance, while another one leaves token and tasks
  where they are and adds a copy with a new identifier.
\<close>

definition event_strikes ::
  "bool \<Rightarrow> uuid \<Rightarrow> uuid \<Rightarrow> uuid \<Rightarrow> token \<Rightarrow> process_instance \<Rightarrow> string \<Rightarrow> 'p engine \<Rightarrow> 'p engine \<Rightarrow> bool" where
  "event_strikes keep u i t tok x target e e' \<longleftrightarrow>
     without (timer_of_token i t) (en_timers e) (en_timers e') \<and>
     without (message_of_token i t) (en_messages e) (en_messages e') \<and>
     without (\<lambda>ut. \<not> keep \<and> user_task_of i (tk_node tok) t ut) (en_user e) (en_user e') \<and>
     without (\<lambda>st. \<not> keep \<and> service_task_of i (tk_node tok) t st) (en_service e) (en_service e') \<and>
     (\<exists>y. inst_get e' = (inst_get e)(i := Some y) \<and> pi_node y = target \<and> pi_vars y = pi_vars x \<and>
        tokens_after keep u t tok x y)"

text \<open>The part that timers and messages share: the token is taken or copied, and its tasks go if it was taken.\<close>

definition take_event :: "'p eenv \<Rightarrow> bool \<Rightarrow> uuid \<Rightarrow> uuid \<Rightarrow> token \<Rightarrow> 'p engine \<Rightarrow> 'p engine" where
  "take_event ev keep i t tok e = (if keep then e else drop_tasks_of_token ev i (tk_node tok) t e)"

lemma run_token_unfold:
  "run_timer_token ev rec tm def e0 =
     (let i = tm_instance_id tm; n = tm_node_id tm; keep = non_interrupting_timer def n in
      bindR (event_token ev keep i (tm_token_id tm) e0) (\<lambda>e1 tok.
      bindR (liftR (take_event ev keep i (tm_token_id tm) tok e1) (resolve_next_target ev def n (tk_vars tok))) (\<lambda>e3 next.
      bindR (modify_instance i (\<lambda>x. x\<lparr>pi_node := next\<rparr>) e3) (\<lambda>e4 u.
      bindR (rec i (tok\<lparr>tk_node := next\<rparr>) (remove_persisted_timer ev (tm_id tm) e4)) (\<lambda>e5 u.
        (reschedule_timer ev tm e5, Ok ()))))))"
  by (simp add: run_timer_token_def take_event_def Let_def)

lemma run_message_unfold:
  "run_message_token ev rec c name variables def e0 =
     (let i = mc_instance_id c; n = mc_node_id c; keep = non_interrupting_message def n in
      bindR (event_token ev keep i (mc_token_id c) e0) (\<lambda>e1 tok0.
      let e2 = take_event ev keep i (mc_token_id c) tok0 e1; tok = merge_into_token variables tok0; old = inst_get e2 i
      in bindR (modify_instance i
             (\<lambda>x. push_audit_log (Msg ''Msg {} correlated, resuming {}'' [AStr name, AId (mc_id c)])
                    (run_again x)) e2) (\<lambda>e3 u.
         let e4 = record_history_event ev i HTokenAdvanced (Msg ''Message {} correlated'' [AStr name])
                    ActorEngine None old e3
         in bindR (liftR e4 (resolve_next_target ev def n (tk_vars tok))) (\<lambda>e5 next.
            bindR (modify_instance i (\<lambda>x. x\<lparr>pi_node := next\<rparr>) e5) (\<lambda>e6 u.
              rec i (tok\<lparr>tk_node := next\<rparr>) (remove_persisted_message_catch ev (mc_id c) e6))))))"
  by (simp add: run_message_token_def take_event_def Let_def)

lemma event_taken:
  assumes "engine_wf e" and "inst_get e i = Some x" and "tget (pi_tokens x) t = Some tok"
  obtains e1 y u where "event_token ev keep i t e = (e1, Ok (sent_token keep u tok))"
    and "inst_get (take_event ev keep i t (sent_token keep u tok) e1) = (inst_get e)(i := Some y)"
    and "reg_get (take_event ev keep i t (sent_token keep u tok) e1) = reg_get e"
    and "without (\<lambda>ut. \<not> keep \<and> user_task_of i (tk_node tok) t ut) (en_user e) (en_user (take_event ev keep i t (sent_token keep u tok) e1))"
    and "without (\<lambda>st. \<not> keep \<and> service_task_of i (tk_node tok) t st) (en_service e) (en_service (take_event ev keep i t (sent_token keep u tok) e1))"
    and "en_timers (take_event ev keep i t (sent_token keep u tok) e1) = en_timers e"
      "en_messages (take_event ev keep i t (sent_token keep u tok) e1) = en_messages e"
    and "tokens_after keep u t tok x y" "pi_vars y = pi_vars x" "pi_definition_key y = pi_definition_key x"
proof -
  obtain e1 y u where taken: "event_token ev keep i t e = (e1, Ok (sent_token keep u tok))"
    and e1: "inst_get e1 = (inst_get e)(i := Some y)" "reg_get e1 = reg_get e" "en_user e1 = en_user e"
      "en_service e1 = en_service e" "en_timers e1 = en_timers e" "en_messages e1 = en_messages e"
    and y: "tokens_after keep u t tok x y" "pi_vars y = pi_vars x" "pi_definition_key y = pi_definition_key x"
    by (rule event_token_found [OF assms(2,3), of ev keep]) (rule that)
  have "engine_wf e1" using keepsD [OF event_token_wf [OF assms(1), of ev keep i t, unfolded taken]] .
  note gone = drop_tasks_tables [where i = i and n = "tk_node tok" and t = t and ev = ev, OF this]
  show thesis
    by (rule that [OF taken _ _ _ _ _ _ y])
       (use gone in \<open>auto simp: take_event_def sent_token_def e1 intro: without_refl\<close>)
qed

text \<open>Cancelling the waits of a token, of which the event itself is one.\<close>

lemma struck_from_cleared:
  assumes "wf_table (en_timers e)" "wf_table (en_messages e)"
    and "en_timers e1 = tretain (\<lambda>k a. \<not> timer_of_token i t a) T" "en_messages e1 = tretain (\<lambda>k a. \<not> message_of_token i t a) M"
    and "T = en_timers e \<or> (\<exists>v tm. T = tdel v (en_timers e) \<and> tget (en_timers e) v = Some tm \<and> timer_of_token i t tm)"
    and "M = en_messages e \<or> (\<exists>v c. M = tdel v (en_messages e) \<and> tget (en_messages e) v = Some c \<and> message_of_token i t c)"
  shows "without (timer_of_token i t) (en_timers e) (en_timers e1)"
    and "without (message_of_token i t) (en_messages e) (en_messages e1)"
  using assms by (auto simp: without_def tget_tretain tget_tdel split: option.split)

text \<open>
  The first half: the event leaves its table, the other waits of its token are cancelled, and the instance is told.
  \<open>cleared\<close> says what is left.
\<close>

definition cleared :: "uuid \<Rightarrow> uuid \<Rightarrow> process_instance \<Rightarrow> process_instance \<Rightarrow> 'p engine \<Rightarrow> 'p engine \<Rightarrow> bool" where
  "cleared i t x y e e' \<longleftrightarrow>
     inst_get e' = (inst_get e)(i := Some y) \<and> reg_get e' = reg_get e \<and> en_user e' = en_user e \<and>
     en_service e' = en_service e \<and> without (timer_of_token i t) (en_timers e) (en_timers e') \<and>
     without (message_of_token i t) (en_messages e) (en_messages e') \<and>
     pi_tokens y = pi_tokens x \<and> pi_vars y = pi_vars x \<and> pi_definition_key y = pi_definition_key x"

lemma cleared_definition:
  "cleared i t x y e e' \<Longrightarrow> reg_get e (pi_definition_key x) = Some def \<Longrightarrow> definition_of i e' = (e', Ok def)"
  by (rule definition_of_found [of _ _ y]) (simp_all add: cleared_def)

lemma timer_prepared:
  assumes "engine_wf e" and timer: "tget (en_timers e) v = Some tm" and "tm_token_id tm \<noteq> uuid_nil"
    and "inst_get e (tm_instance_id tm) = Some x" and "reg_get e (pi_definition_key x) = Some def"
  obtains e' y where "fire_timer ev rec v e = run_timer_token ev rec tm def e'" and "engine_wf e'"
    and "cleared (tm_instance_id tm) (tm_token_id tm) x y e e'"
proof -
  let ?i = "tm_instance_id tm" and ?t = "tm_token_id tm"
  let ?e0 = "e\<lparr>en_timers := tdel v (en_timers e)\<rparr>"
  let ?f = "\<lambda>x. x\<lparr>pi_state := Running, pi_audit := pi_audit x @ [Msg ''Timer {} expired, resuming'' [AStr (tm_node_id tm)]]\<rparr>"
  define e1 where "e1 = clear_wait_states_for_token ev ?i ?t ?e0"
  obtain x1 where x1: "inst_get e1 = (inst_get e)(?i := Some x1)" "same_but_audit x x1"
    and t1: "en_timers e1 = tretain (\<lambda>k a. \<not> timer_of_token ?i ?t a) (tdel v (en_timers e))"
      "en_messages e1 = tretain (\<lambda>k a. \<not> message_of_token ?i ?t a) (en_messages e)"
      "en_user e1 = en_user e" "en_service e1 = en_service e" "reg_get e1 = reg_get e"
    by (rule clear_wait_states_tables [of ?e0 ?i x ev ?t, folded e1_def]) (use assms(4) in auto)
  define e2 where "e2 = inst_put ?i (?f x1) e1"
  define e3 where "e3 = record_history_event ev ?i HTokenAdvanced (Msg ''Timer expired'' []) ActorTimer None (Some x1) e2"
  have tables: "wf_table (en_timers e)" "wf_table (en_messages e)"
    using engine_wf_tables [OF assms(1)] by (simp_all add: keyed_by_def)
  have "cleared ?i ?t x (?f x1) e e3"
    using x1 timer struck_from_cleared [OF tables t1(1,2)]
    by (auto simp: cleared_def e3_def e2_def frame t1(3-5) insts.get_put fun_eq_iff same_but_audit_def timer_of_token_def)
  moreover have "engine_wf e1"
    unfolding e1_def using engine_wf_tables(3) [OF assms(1)] assms(1) by (auto intro: wf_intro)
  then have "engine_wf e3"
    unfolding e3_def e2_def using engine_wf_inst [of e1 ?i x1] x1
    by (auto simp: inst_wf_def intro!: wf_intro)
  moreover from calculation(1) have "definition_of ?i e3 = (e3, Ok def)"
    using assms(5) by (rule cleared_definition)
  then have "fire_timer ev rec v e = run_timer_token ev rec tm def e3"
    using assms(3) x1(1) timer by (simp add: fire_timer_def Let_def modify_instance_found flip: e1_def e2_def e3_def)
  ultimately show thesis by (intro that)
qed

lemma message_prepared:
  assumes "engine_wf e" and catch: "tget (en_messages e) v = Some c" and "mc_token_id c \<noteq> uuid_nil"
    and "inst_get e (mc_instance_id c) = Some x" and "reg_get e (pi_definition_key x) = Some def"
  obtains e' y where "deliver_message ev rec name vs v e = run_message_token ev rec c name vs def e'" and "engine_wf e'"
    and "cleared (mc_instance_id c) (mc_token_id c) x y e e'"
proof -
  let ?i = "mc_instance_id c" and ?t = "mc_token_id c"
  let ?e0 = "e\<lparr>en_messages := tdel v (en_messages e)\<rparr>"
  define e1 where "e1 = clear_wait_states_for_token ev ?i ?t ?e0"
  obtain x1 where x1: "inst_get e1 = (inst_get e)(?i := Some x1)" "same_but_audit x x1"
    and t1: "en_timers e1 = tretain (\<lambda>k a. \<not> timer_of_token ?i ?t a) (en_timers e)"
      "en_messages e1 = tretain (\<lambda>k a. \<not> message_of_token ?i ?t a) (tdel v (en_messages e))"
      "en_user e1 = en_user e" "en_service e1 = en_service e" "reg_get e1 = reg_get e"
    by (rule clear_wait_states_tables [of ?e0 ?i x ev ?t, folded e1_def]) (use assms(4) in auto)
  have tables: "wf_table (en_timers e)" "wf_table (en_messages e)"
    using engine_wf_tables [OF assms(1)] by (simp_all add: keyed_by_def)
  have "cleared ?i ?t x x1 e e1"
    using x1 catch struck_from_cleared [OF tables t1(1,2)]
    by (auto simp: cleared_def t1(3-5) same_but_audit_def message_of_token_def)
  moreover have "engine_wf e1"
    unfolding e1_def using engine_wf_tables(4) [OF assms(1)] assms(1) by (auto intro: wf_intro)
  moreover from calculation(1) have "definition_of ?i e1 = (e1, Ok def)"
    using assms(5) by (rule cleared_definition)
  then have "deliver_message ev rec name vs v e = run_message_token ev rec c name vs def e1"
    using assms(3) catch by (simp add: deliver_message_def Let_def flip: e1_def)
  ultimately show thesis by (intro that)
qed

text \<open>The second half, up to the change of the current node.\<close>

text \<open>The second half: the token is taken or copied, and the instance is moved to the target.\<close>

lemma cleared_strikes:
  assumes "cleared i t x x1 e e1" and "inst_get e2 = (inst_get e1)(i := Some y)"
    and "without (\<lambda>ut. \<not> keep \<and> user_task_of i (tk_node tok) t ut) (en_user e1) (en_user e2)"
    and "without (\<lambda>st. \<not> keep \<and> service_task_of i (tk_node tok) t st) (en_service e1) (en_service e2)"
    and "en_timers e2 = en_timers e1" "en_messages e2 = en_messages e1"
    and "tokens_after keep u t tok x1 y" "pi_vars y = pi_vars x1"
    and "inst_get e' = (inst_get e2)(i := Some y')" "pi_tokens y' = pi_tokens y" "pi_vars y' = pi_vars y" "pi_node y' = n"
    and "en_user e' = en_user e2" "en_service e' = en_service e2" "en_timers e' = en_timers e2" "en_messages e' = en_messages e2"
  shows "event_strikes keep u i t tok x n e e'"
  using assms by (auto simp: event_strikes_def cleared_def tokens_after_def intro!: exI [of _ y'])

lemma fire_timer_strikes:
  assumes "engine_wf e" and timer: "tget (en_timers e) v = Some tm" and "tm_token_id tm \<noteq> uuid_nil"
    and "inst_get e (tm_instance_id tm) = Some x" and "tget (pi_tokens x) (tm_token_id tm) = Some tok"
    and "reg_get e (pi_definition_key x) = Some def"
    and target: "resolve_next_target ev def (tm_node_id tm) (tk_vars tok) = Ok n"
  defines "keep \<equiv> non_interrupting_timer def (tm_node_id tm)"
  obtains e' u where "fire_timer ev rec v e =
      bindR (rec (tm_instance_id tm) ((sent_token keep u tok)\<lparr>tk_node := n\<rparr>) e') (\<lambda>e2 w. (reschedule_timer ev tm e2, Ok ()))"
    and "event_strikes keep u (tm_instance_id tm) (tm_token_id tm) tok x n e e'"
proof -
  let ?i = "tm_instance_id tm" and ?t = "tm_token_id tm"
  obtain e1 x1 where run: "fire_timer ev rec v e = run_timer_token ev rec tm def e1" and "engine_wf e1"
    and c: "cleared ?i ?t x x1 e e1"
    by (rule timer_prepared [OF assms(1) timer assms(3,4,6), where ev = ev and rec = rec])
  from c assms(5) have x1: "inst_get e1 ?i = Some x1" "tget (pi_tokens x1) ?t = Some tok" by (simp_all add: cleared_def)
  obtain e2 y u where taken: "event_token ev keep ?i ?t e1 = (e2, Ok (sent_token keep u tok))"
    and at: "inst_get (take_event ev keep ?i ?t (sent_token keep u tok) e2) = (inst_get e1)(?i := Some y)"
    and rest: "without (\<lambda>ut. \<not> keep \<and> user_task_of ?i (tk_node tok) ?t ut) (en_user e1) (en_user (take_event ev keep ?i ?t (sent_token keep u tok) e2))"
      "without (\<lambda>st. \<not> keep \<and> service_task_of ?i (tk_node tok) ?t st) (en_service e1) (en_service (take_event ev keep ?i ?t (sent_token keep u tok) e2))"
      "en_timers (take_event ev keep ?i ?t (sent_token keep u tok) e2) = en_timers e1"
      "en_messages (take_event ev keep ?i ?t (sent_token keep u tok) e2) = en_messages e1"
      "tokens_after keep u ?t tok x1 y" "pi_vars y = pi_vars x1"
    by (rule event_taken [OF \<open>engine_wf e1\<close> x1, where keep = keep and ev = ev])
  define e3 where "e3 = take_event ev keep ?i ?t (sent_token keep u tok) e2"
  let ?e4 = "remove_persisted_timer ev (tm_id tm) (inst_put ?i (y\<lparr>pi_node := n\<rparr>) e3)"
  have "tk_vars (sent_token keep u tok) = tk_vars tok" by (simp add: sent_token_def)
  then have "run_timer_token ev rec tm def e1
      = bindR (rec ?i ((sent_token keep u tok)\<lparr>tk_node := n\<rparr>) ?e4) (\<lambda>e2 w. (reschedule_timer ev tm e2, Ok ()))"
    using taken target at by (simp add: run_token_unfold Let_def modify_instance_found liftR_def flip: keep_def e3_def)
  moreover have "event_strikes keep u ?i ?t tok x n e ?e4"
    by (rule cleared_strikes [OF c at rest, of _ "y\<lparr>pi_node := n\<rparr>"])
       (simp_all add: frame insts.get_put fun_eq_iff flip: e3_def)
  ultimately show thesis using run by (intro that) simp_all
qed

text \<open>
  C15. What an expired timer does. In a turn of the scheduler the due timers are fired one after the other, the first
  one so: its token, or a copy with a new identifier when a boundary event does not interrupt, is handed to the batch
  at the target of the flow from the timer's node; whatever else waited with the token has been cancelled; an
  interrupting timer has also taken the token out of the instance, and its tasks with it. After the batch a
  recurring timer is entered again, and the rest of the turn goes on from there.
\<close>

theorem expired_timer_moves_its_token:
  assumes "engine_wf e" and due: "filter (timer_due e) (tvals (en_timers e)) = tm # later" and "tm_token_id tm \<noteq> uuid_nil"
    and "inst_get e (tm_instance_id tm) = Some x" and "tget (pi_tokens x) (tm_token_id tm) = Some tok"
    and "reg_get e (pi_definition_key x) = Some def"
    and target: "resolve_next_target ev def (tm_node_id tm) (tk_vars tok) = Ok n"
  shows "\<exists>e' u keep. keep = non_interrupting_timer def (tm_node_id tm) \<and>
    process_timers ev rec e =
      bindR (rec (tm_instance_id tm) ((sent_token keep u tok)\<lparr>tk_node := n\<rparr>) e') (\<lambda>e2 w.
      bindR (fire_timers ev rec (map tm_id later) (reschedule_timer ev tm e2)) (\<lambda>e3 w. (e3, Ok (Suc (length later))))) \<and>
    event_strikes keep u (tm_instance_id tm) (tm_token_id tm) tok x n e e'"
proof -
  have "tm \<in> set (filter (timer_due e) (tvals (en_timers e)))" by (simp add: due)
  then have "tget (en_timers e) (tm_id tm) = Some tm"
    using engine_wf_tables(3) [OF assms(1)] by (auto simp: tvals_def keyed_by_def tget_Some_iff)
  then show ?thesis
    by (rule fire_timer_strikes [OF assms(1) _ assms(3-7), of _ rec])
       (use due in \<open>auto simp: process_timers_def bindR_assoc\<close>)
qed

text \<open>
  C16. What a correlated message does. It goes to every catch that waits for its name in an instance that exists and,
  if a business key is given, has that key, one after the other, the first one so: its token, or a copy with a new
  identifier when a boundary event does not interrupt, takes over the variables of the message and is handed to the
  batch at the target that these variables select; whatever else waited with the token has been cancelled, and an
  interrupting message has also taken the token and its tasks. The answer starts with the instances of the catches,
  in this order, and the instances that the message starts follow.
\<close>

theorem correlated_message_moves_its_token:
  assumes "engine_wf e" and hits: "filter (catch_matches e name bk) (tvals (en_messages e)) = c # later"
    and "mc_token_id c \<noteq> uuid_nil"
    and "inst_get e (mc_instance_id c) = Some x" and "tget (pi_tokens x) (mc_token_id c) = Some tok"
    and "reg_get e (pi_definition_key x) = Some def"
    and target: "resolve_next_target ev def (mc_node_id c) (tk_vars (merge_into_token vs tok)) = Ok n"
  shows "\<exists>e' u keep. keep = non_interrupting_message def (mc_node_id c) \<and>
    correlate_message ev rec name bk vs e =
      bindR (rec (mc_instance_id c) ((merge_into_token vs (sent_token keep u tok))\<lparr>tk_node := n\<rparr>) e') (\<lambda>e2 w.
      bindR (deliver_messages ev rec name vs (map mc_id later) e2) (\<lambda>e3 w.
        start_by_message ev rec bk vs (message_starts e3 name) (map mc_instance_id (c # later)) e3)) \<and>
    event_strikes keep u (mc_instance_id c) (mc_token_id c) tok x n e e'"
proof -
  let ?i = "mc_instance_id c" and ?t = "mc_token_id c"
  define keep where "keep = non_interrupting_message def (mc_node_id c)"
  have "c \<in> set (filter (catch_matches e name bk) (tvals (en_messages e)))" by (simp add: hits)
  then have catch: "tget (en_messages e) (mc_id c) = Some c"
    using engine_wf_tables(4) [OF assms(1)] by (auto simp: tvals_def keyed_by_def tget_Some_iff)
  obtain e1 x1 where run: "deliver_message ev rec name vs (mc_id c) e = run_message_token ev rec c name vs def e1"
    and "engine_wf e1" and cl: "cleared ?i ?t x x1 e e1"
    by (rule message_prepared [OF assms(1) catch assms(3,4,6), where ev = ev and rec = rec])
  from cl assms(5) have x1: "inst_get e1 ?i = Some x1" "tget (pi_tokens x1) ?t = Some tok" by (simp_all add: cleared_def)
  obtain e2 y u where taken: "event_token ev keep ?i ?t e1 = (e2, Ok (sent_token keep u tok))"
    and at: "inst_get (take_event ev keep ?i ?t (sent_token keep u tok) e2) = (inst_get e1)(?i := Some y)"
    and rest: "without (\<lambda>ut. \<not> keep \<and> user_task_of ?i (tk_node tok) ?t ut) (en_user e1) (en_user (take_event ev keep ?i ?t (sent_token keep u tok) e2))"
      "without (\<lambda>st. \<not> keep \<and> service_task_of ?i (tk_node tok) ?t st) (en_service e1) (en_service (take_event ev keep ?i ?t (sent_token keep u tok) e2))"
      "en_timers (take_event ev keep ?i ?t (sent_token keep u tok) e2) = en_timers e1"
      "en_messages (take_event ev keep ?i ?t (sent_token keep u tok) e2) = en_messages e1"
      "tokens_after keep u ?t tok x1 y" "pi_vars y = pi_vars x1"
    by (rule event_taken [OF \<open>engine_wf e1\<close> x1, where keep = keep and ev = ev])
  define e3 where "e3 = take_event ev keep ?i ?t (sent_token keep u tok) e2"
  let ?f = "\<lambda>x. push_audit_log (Msg ''Msg {} correlated, resuming {}'' [AStr name, AId (mc_id c)]) (run_again x)"
  define e4 where "e4 = record_history_event ev ?i HTokenAdvanced (Msg ''Message {} correlated'' [AStr name])
    ActorEngine None (Some y) (inst_put ?i (?f y) e3)"
  let ?y = "(?f y)\<lparr>pi_node := n\<rparr>"
  let ?e5 = "remove_persisted_message_catch ev (mc_id c) (inst_put ?i ?y e4)"
  have i4: "inst_get e4 ?i = Some (?f y)" by (simp add: e4_def frame insts.get_put)
  have "tk_vars (merge_into_token vs (sent_token keep u tok)) = tk_vars (merge_into_token vs tok)"
    by (simp add: sent_token_def merge_into_token_def)
  then have "run_message_token ev rec c name vs def e1 = rec ?i ((merge_into_token vs (sent_token keep u tok))\<lparr>tk_node := n\<rparr>) ?e5"
    using taken target at i4
    by (simp add: run_message_unfold Let_def modify_instance_found liftR_def flip: keep_def e3_def e4_def)
  moreover have "event_strikes keep u ?i ?t tok x n e ?e5"
    by (rule cleared_strikes [OF cl at rest, of _ ?y])
       (simp_all add: frame insts.get_put fun_eq_iff e4_def run_again_def push_audit_log_def flip: e3_def)
  ultimately show ?thesis
    using run hits by (auto simp: correlate_message_def bindR_assoc keep_def intro!: exI [of _ ?e5] exI [of _ u])
qed

section \<open>Two consequences\<close>

text \<open>A second due timer of the same token makes the turn fail, if the batch does not bring it back.\<close>

lemma rival_timer_fails_the_turn:
  assumes "engine_wf e" and due: "filter (timer_due e) (tvals (en_timers e)) = [tm, rival]" and "tm_token_id tm \<noteq> uuid_nil"
    and "inst_get e (tm_instance_id tm) = Some x" and "tget (pi_tokens x) (tm_token_id tm) = Some tok"
    and "reg_get e (pi_definition_key x) = Some def"
    and "resolve_next_target ev def (tm_node_id tm) (tk_vars tok) = Ok n"
    and batch: "\<And>i tok e. \<exists>e2. rec i tok e = (e2, Ok ()) \<and>
      (tget (en_timers e) (tm_id rival) = None \<longrightarrow> tget (en_timers (reschedule_timer ev tm e2)) (tm_id rival) = None)"
    and rival: "timer_of_token (tm_instance_id tm) (tm_token_id tm) rival"
  shows "snd (process_timers ev rec e) = Err (InvalidDefinition (Msg ''Timer {} disappeared'' [AId (tm_id rival)]))"
proof -
  have mem: "tget (en_timers e) (tm_id a) = Some a" if "a \<in> set (filter (timer_due e) (tvals (en_timers e)))" for a
    using that engine_wf_tables(3) [OF assms(1)] by (auto simp: tvals_def keyed_by_def tget_Some_iff)
  have "tget (en_timers e) (tm_id tm) = Some tm" by (rule mem) (simp add: due)
  then obtain e' u where run: "fire_timer ev rec (tm_id tm) e =
      bindR (rec (tm_instance_id tm) ((sent_token (non_interrupting_timer def (tm_node_id tm)) u tok)\<lparr>tk_node := n\<rparr>) e')
        (\<lambda>e2 w. (reschedule_timer ev tm e2, Ok ()))"
    and "event_strikes (non_interrupting_timer def (tm_node_id tm)) u (tm_instance_id tm) (tm_token_id tm) tok x n e e'"
    by (rule fire_timer_strikes [OF assms(1) _ assms(3-7), of _ rec])
  moreover have "tget (en_timers e) (tm_id rival) = Some rival" by (rule mem) (simp add: due)
  ultimately have "tget (en_timers e') (tm_id rival) = None" using rival by (simp add: event_strikes_def without_def)
  with batch [of "tm_instance_id tm" "(sent_token (non_interrupting_timer def (tm_node_id tm)) u tok)\<lparr>tk_node := n\<rparr>" e'] run due
  show ?thesis by (auto simp: process_timers_def fire_timer_def [of _ _ "tm_id rival"])
qed

text \<open>
  A recurring timer is entered again with its token, also if it has just sent that token on. When it is due again, it
  takes the token from wherever it waits by then, and the task it waits with.
\<close>

lemma recurring_timer_follows_its_token:
  assumes "tm_timer_def tm = Some td" "is_recurring td" "tm_remaining tm \<noteq> Some 0" "next_expiry ev td (en_now e) = Some expiry"
  shows "\<exists>u tm'. tget (en_timers (reschedule_timer ev tm e)) u = Some tm' \<and> tm_token_id tm' = tm_token_id tm \<and>
    tm_node_id tm' = tm_node_id tm \<and> tm_expires_at tm' = expiry"
  using assms by (intro exI [of _ "fst (draw ev e)"]) (simp add: reschedule_timer_def insert_timer_def draw_def)

section \<open>A waiting instance\<close>

definition waiting_definition :: process_definition where
  "waiting_definition = ProcessDefinition 7 ''p'' 1
     [(''a'', UserTask ''ann''), (''t'', BoundaryTimerEvent ''a'' (TDuration 10) True),
      (''m'', BoundaryMessageEvent ''a'' ''paid'' False), (''e'', EndEvent)]
     [(''a'', [simple_flow ''e'']), (''t'', [simple_flow ''e'']), (''m'', [simple_flow ''e''])] [] [] []"

definition waiting_task :: user_task where
  "waiting_task = \<lparr>ut_task_id = 3, ut_instance_id = 1, ut_node_id = ''a'', ut_assignee = ''ann'', ut_token_id = 2,
     ut_created_at = 0, ut_business_key = None\<rparr>"

definition waiting_timer :: pending_timer where
  "waiting_timer = \<lparr>tm_id = 4, tm_instance_id = 1, tm_node_id = ''t'', tm_expires_at = 10, tm_token_id = 2,
     tm_timer_def = Some (TDuration 10), tm_remaining = None\<rparr>"

definition waiting_catch :: message_catch where
  "waiting_catch = \<lparr>mc_id = 5, mc_instance_id = 1, mc_node_id = ''m'', mc_message_name = ''paid'', mc_token_id = 2\<rparr>"

definition waiting_instance :: process_instance where
  "waiting_instance = blank_instance\<lparr>pi_state := WaitingOnUserTask 3, pi_tokens := [(2, token_new 2 ''a'')]\<rparr>"

definition waiting_engine :: "memory engine" where
  "waiting_engine = (engine_new (\<lambda>s. None) 20 8)
     \<lparr>en_defs := [(7, waiting_definition)], en_insts := [(1, waiting_instance)], en_user := [(3, waiting_task)],
      en_timers := [(4, waiting_timer)], en_messages := [(5, waiting_catch)]\<rparr>"

lemmas waiting_defs =
  waiting_engine_def waiting_instance_def waiting_definition_def waiting_task_def waiting_timer_def waiting_catch_def

lemma waiting_facts:
  "engine_wf waiting_engine" "inst_get waiting_engine 1 = Some waiting_instance"
  "reg_get waiting_engine (pi_definition_key waiting_instance) = Some waiting_definition"
  "tget (pi_tokens waiting_instance) 2 = Some (token_new 2 ''a'')"
  "tget (en_user waiting_engine) 3 = Some waiting_task" "tget (en_timers waiting_engine) 4 = Some waiting_timer"
  "tget (en_messages waiting_engine) 5 = Some waiting_catch" "\<not> is_suspended (pi_state waiting_instance)"
  "filter (timer_due waiting_engine) (tvals (en_timers waiting_engine)) = [waiting_timer]"
  "filter (catch_matches waiting_engine ''paid'' None) (tvals (en_messages waiting_engine)) = [waiting_catch]"
  by (auto simp: waiting_defs engine_wf_def engine_new_def inst_get_def reg_get_def keyed_by_def wf_table_def tget_Cons
      blank_instance_def inst_wf_def token_new_def tvals_def timer_due_def instance_suspended_def catch_matches_def
      split: if_splits)

lemma waiting_target:
  "resolve_next_target memory_env waiting_definition ''t'' vs = Ok ''e''"
  "resolve_next_target memory_env waiting_definition ''m'' vs = Ok ''e''"
  "resolve_next_target memory_env waiting_definition ''a'' vs = Ok ''e''"
  by (simp_all add: resolve_next_target_def waiting_definition_def next_nodes_def outgoing_of_def tget_Cons inclusive_takes_def
      simple_flow_def)

lemma waiting_ids [simp]:
  "ut_instance_id waiting_task = 1" "ut_token_id waiting_task = 2" "ut_node_id waiting_task = ''a''" "ut_task_id waiting_task = 3"
  "tm_instance_id waiting_timer = 1" "tm_token_id waiting_timer = 2" "tm_node_id waiting_timer = ''t''" "tm_id waiting_timer = 4"
  "mc_instance_id waiting_catch = 1" "mc_token_id waiting_catch = 2" "mc_node_id waiting_catch = ''m''" "mc_id waiting_catch = 5"
  by (simp_all add: waiting_task_def waiting_timer_def waiting_catch_def)

lemma waiting_events:
  "nodes_attached timer_host waiting_definition ''a'' = [''t'']" "nodes_attached message_host waiting_definition ''a'' = [''m'']"
  "non_interrupting_timer waiting_definition ''t'' = False" "non_interrupting_message waiting_definition ''m'' = True"
  by (simp_all add: nodes_attached_def waiting_definition_def non_interrupting_timer_def non_interrupting_message_def
      get_node_def tget_Cons)

theorem completed_user_task_hands_its_token_on_witness:
  "\<exists>e'. complete_user_task memory_env (run_instance_batch memory_env 1) 3 [(''ok'', JBool True)] waiting_engine =
      run_instance_batch memory_env 1 1 \<lparr>tk_id = 2, tk_node = ''e'', tk_vars = [(''ok'', JBool True)], tk_merged = False\<rparr> e' \<and>
    tget (en_timers e') 4 = None \<and> tget (en_messages e') 5 = None \<and> tget (en_user e') 3 = None"
proof -
  let ?tok = "merge_into_token [(''ok'', JBool True)] (token_new 2 ''a'')"
  have s: "run_node_scripts memory_env (en_script waiting_engine) waiting_definition (ut_node_id waiting_task) LEnd (?tok, [])
      = ((?tok, []), Ok ())"
    by (simp add: run_node_scripts_def waiting_definition_def)
  have i: "inst_get waiting_engine (ut_instance_id waiting_task) = Some waiting_instance"
    "tget (pi_tokens waiting_instance) (ut_token_id waiting_task) = Some (token_new 2 ''a'')"
    by (simp_all add: waiting_facts del: One_nat_def)
  from completed_user_task_hands_its_token_on
      [OF waiting_facts(1,5) i(1) waiting_facts(8) i(2) waiting_facts(3) s, of "run_instance_batch memory_env 1"]
  obtain e' where run: "complete_user_task memory_env (run_instance_batch memory_env 1) 3 [(''ok'', JBool True)] waiting_engine =
      run_instance_batch memory_env 1 1 (?tok\<lparr>tk_node := ''e''\<rparr>) e'"
    and e': "moves_on waiting_engine waiting_task waiting_instance waiting_definition ?tok (Some ''e'') e'"
    by (auto simp: waiting_target simp del: run_instance_batch.simps)
  have "tget (en_timers e') 4 = None" "tget (en_messages e') 5 = None" "tget (en_user e') 3 = None"
    using e' by (auto simp: moves_on_def without_def waiting_facts boundary_timer_of_def boundary_catch_of_def waiting_events)
  with run show ?thesis
    by (auto simp: merge_into_token_def token_new_def tput_def simp del: run_instance_batch.simps intro!: exI [of _ e'])
qed

theorem expired_timer_moves_its_token_witness:
  "\<exists>e'. process_timers memory_env (run_instance_batch memory_env 1) waiting_engine =
      bindR (run_instance_batch memory_env 1 1 (token_new 2 ''e'') e') (\<lambda>e2 w. (reschedule_timer memory_env waiting_timer e2, Ok 1)) \<and>
    tget (en_messages e') 5 = None \<and> tget (en_user e') 3 = None"
proof -
  have i: "inst_get waiting_engine (tm_instance_id waiting_timer) = Some waiting_instance"
    "tget (pi_tokens waiting_instance) (tm_token_id waiting_timer) = Some (token_new 2 ''a'')"
    "tm_token_id waiting_timer \<noteq> uuid_nil"
    "resolve_next_target memory_env waiting_definition (tm_node_id waiting_timer) (tk_vars (token_new 2 ''a'')) = Ok ''e''"
    by (simp_all add: waiting_facts waiting_target uuid_nil_def del: One_nat_def)
  from expired_timer_moves_its_token [OF waiting_facts(1,9) i(3,1,2) waiting_facts(3) i(4), of "run_instance_batch memory_env 1"]
  obtain e' u where "process_timers memory_env (run_instance_batch memory_env 1) waiting_engine =
      bindR (run_instance_batch memory_env 1 1 ((token_new 2 ''a'')\<lparr>tk_node := ''e''\<rparr>) e')
        (\<lambda>e2 w. (reschedule_timer memory_env waiting_timer e2, Ok 1))"
    and "event_strikes False u 1 2 (token_new 2 ''a'') waiting_instance ''e'' waiting_engine e'"
    by (auto simp: waiting_events sent_token_def simp del: run_instance_batch.simps)
  then show ?thesis
    by (auto simp: event_strikes_def without_def waiting_facts message_of_token_def user_task_of_def token_new_def
        simp del: run_instance_batch.simps intro!: exI [of _ e'])
qed

theorem correlated_message_moves_its_token_witness:
  "\<exists>e' u. correlate_message memory_env (run_instance_batch memory_env 1) ''paid'' None [] waiting_engine =
      bindR (run_instance_batch memory_env 1 1 (token_new u ''e'') e') (\<lambda>e2 w.
        start_by_message memory_env (run_instance_batch memory_env 1) None [] (message_starts e2 ''paid'') [1] e2) \<and>
    tget (en_timers e') 4 = None \<and> tget (en_user e') 3 = Some waiting_task"
proof -
  have i: "inst_get waiting_engine (mc_instance_id waiting_catch) = Some waiting_instance"
    "tget (pi_tokens waiting_instance) (mc_token_id waiting_catch) = Some (token_new 2 ''a'')"
    "mc_token_id waiting_catch \<noteq> uuid_nil"
    "resolve_next_target memory_env waiting_definition (mc_node_id waiting_catch) (tk_vars (merge_into_token [] (token_new 2 ''a''))) = Ok ''e''"
    by (simp_all add: waiting_facts waiting_target uuid_nil_def del: One_nat_def)
  from correlated_message_moves_its_token [OF waiting_facts(1,10) i(3,1,2) waiting_facts(3) i(4), of "run_instance_batch memory_env 1"]
  obtain e' u where "correlate_message memory_env (run_instance_batch memory_env 1) ''paid'' None [] waiting_engine =
      bindR (run_instance_batch memory_env 1 1 ((merge_into_token [] (sent_token True u (token_new 2 ''a'')))\<lparr>tk_node := ''e''\<rparr>) e') (\<lambda>e2 w.
        start_by_message memory_env (run_instance_batch memory_env 1) None [] (message_starts e2 ''paid'') [1] e2)"
    and "event_strikes True u 1 2 (token_new 2 ''a'') waiting_instance ''e'' waiting_engine e'"
    by (auto simp: waiting_events simp del: run_instance_batch.simps)
  then show ?thesis
    by (auto simp: event_strikes_def without_def waiting_facts timer_of_token_def token_new_def sent_token_def merge_into_token_def
        simp del: run_instance_batch.simps intro!: exI [of _ e'] exI [of _ u])
qed

end
