(* ===== verification/Routes.thy ===== *)
theory Routes
  imports ServerRequests "HOL-Library.Monad_Syntax"
begin

text \<open>
  The interface of the server on the wire (\<open>engine-server/src/server\<close>): the payloads as serde decodes them from
  JSON and from query strings, and the table of routes that \<open>build_app_with_engine\<close> sets up, as a function
  from HTTP requests to the decoded requests of the router.
\<close>

section \<open>Decoding JSON (serde)\<close>

text \<open>
  The derived implementation of \<open>Deserialize\<close> for a struct takes an object, whose unknown fields are ignored, or
  an array with the fields in their order. A missing field is \<open>None\<close> here; whether one may be missing is
  the matter of its type, and in an array of \<open>#[serde(default)]\<close>.
\<close>

definition de_struct :: "(string \<times> bool) list \<Rightarrow> json \<Rightarrow> json option list option" where
  "de_struct specs j =
     (case j of
        JObj fs \<Rightarrow> Some (map (\<lambda>(name, dflt). map_of fs name) specs)
      | JArr vs \<Rightarrow>
          if length vs \<le> length specs \<and> list_all snd (drop (length vs) specs)
          then Some (map Some vs @ map (\<lambda>f. None) (drop (length vs) specs))
          else None
      | _ \<Rightarrow> None)"

fun de_string :: "json \<Rightarrow> string option" where
  "de_string (JStr s) = Some s"
| "de_string _ = None"

fun de_bool :: "json \<Rightarrow> bool option" where
  "de_bool (JBool b) = Some b"
| "de_bool _ = None"

fun de_int :: "int \<Rightarrow> int \<Rightarrow> json \<Rightarrow> int option" where
  "de_int lo hi (JNum (JInt n)) = (if lo \<le> n \<and> n < hi then Some n else None)"
| "de_int lo hi _ = None"

definition de_i64 :: "json \<Rightarrow> int option" where
  "de_i64 = de_int (- (2 ^ 63)) (2 ^ 63)"

definition de_i32 :: "json \<Rightarrow> int option" where
  "de_i32 = de_int (- (2 ^ 31)) (2 ^ 31)"

text \<open>\<open>u64\<close> and \<open>usize\<close>\<close>

definition de_u64 :: "json \<Rightarrow> nat option" where
  "de_u64 j = map_option nat (de_int 0 (2 ^ 64) j)"

fun de_list :: "(json \<Rightarrow> 'a option) \<Rightarrow> json \<Rightarrow> 'a list option" where
  "de_list f (JArr vs) = those (map f vs)"
| "de_list f _ = None"

fun de_map :: "(json \<Rightarrow> 'a option) \<Rightarrow> json \<Rightarrow> (string, 'a) table option" where
  "de_map f (JObj fs) = those (map (\<lambda>(k, v). map_option (Pair k) (f v)) fs)"
| "de_map f _ = None"

definition de_vars :: "json \<Rightarrow> vars option" where
  "de_vars = de_map Some"

text \<open>A field that must be there, one of an \<open>Option\<close> type, and one with a default.\<close>

fun de_field :: "(json \<Rightarrow> 'a option) \<Rightarrow> json option \<Rightarrow> 'a option" where
  "de_field f None = None"
| "de_field f (Some v) = f v"

fun de_option :: "(json \<Rightarrow> 'a option) \<Rightarrow> json option \<Rightarrow> 'a option option" where
  "de_option f None = Some None"
| "de_option f (Some JNull) = Some None"
| "de_option f (Some v) = map_option Some (f v)"

fun de_default :: "'a \<Rightarrow> (json \<Rightarrow> 'a option) \<Rightarrow> json option \<Rightarrow> 'a option" where
  "de_default d f None = Some d"
| "de_default d f (Some v) = f v"

section \<open>The payloads\<close>

definition de_deploy_request :: "json \<Rightarrow> (string \<times> string) option" where
  "de_deploy_request j =
     (case de_struct [(''xml'', False), (''name'', False)] j of
        Some [x, n] \<Rightarrow> do { xml \<leftarrow> de_field de_string x; name \<leftarrow> de_field de_string n; Some (xml, name) }
      | _ \<Rightarrow> None)"

definition de_start_request :: "json \<Rightarrow> (string \<times> vars option) option" where
  "de_start_request j =
     (case de_struct [(''definition_key'', False), (''variables'', True)] j of
        Some [k, v] \<Rightarrow> do { key \<leftarrow> de_field de_string k; vs \<leftarrow> de_option de_vars v; Some (key, vs) }
      | _ \<Rightarrow> None)"

definition de_start_latest_request :: "json \<Rightarrow> (string \<times> vars option) option" where
  "de_start_latest_request j =
     (case de_struct [(''bpmn_id'', False), (''variables'', True)] j of
        Some [b, v] \<Rightarrow> do { bpmn_id \<leftarrow> de_field de_string b; vs \<leftarrow> de_option de_vars v; Some (bpmn_id, vs) }
      | _ \<Rightarrow> None)"

definition de_update_variables_request :: "json \<Rightarrow> vars option" where
  "de_update_variables_request j =
     (case de_struct [(''variables'', False)] j of Some [v] \<Rightarrow> de_field de_vars v | _ \<Rightarrow> None)"

definition default_true :: bool where
  "default_true = True"

definition de_move_token_request :: "json \<Rightarrow> (string \<times> vars option \<times> bool) option" where
  "de_move_token_request j =
     (case de_struct [(''target_node_id'', False), (''variables'', True), (''cancel_current'', True)] j of
        Some [t, v, c] \<Rightarrow>
          do { target \<leftarrow> de_field de_string t; vs \<leftarrow> de_option de_vars v;
               cancel \<leftarrow> de_default default_true de_bool c; Some (target, vs, cancel) }
      | _ \<Rightarrow> None)"

definition de_migrate_instance_request :: "json \<Rightarrow> (string \<times> (string, string) table) option" where
  "de_migrate_instance_request j =
     (case de_struct [(''target_definition_key'', False), (''node_mapping'', True)] j of
        Some [t, m] \<Rightarrow>
          do { target \<leftarrow> de_field de_string t; mapping \<leftarrow> de_default [] (de_map de_string) m; Some (target, mapping) }
      | _ \<Rightarrow> None)"

definition de_correlate_message_request :: "json \<Rightarrow> (string \<times> string option \<times> vars option) option" where
  "de_correlate_message_request j =
     (case de_struct [(''messageName'', False), (''businessKey'', False), (''variables'', False)] j of
        Some [n, b, v] \<Rightarrow>
          do { name \<leftarrow> de_field de_string n; bk \<leftarrow> de_option de_string b; vs \<leftarrow> de_option de_vars v;
               Some (name, bk, vs) }
      | _ \<Rightarrow> None)"

text \<open>\<open>CompleteRequest\<close> and \<open>ResolveIncidentRequest\<close> have the same field.\<close>

definition de_complete_request :: "json \<Rightarrow> vars option option" where
  "de_complete_request j =
     (case de_struct [(''variables'', False)] j of Some [v] \<Rightarrow> de_option de_vars v | _ \<Rightarrow> None)"

definition de_resolve_incident_request :: "json \<Rightarrow> vars option option" where
  "de_resolve_incident_request j =
     (case de_struct [(''variables'', False)] j of Some [v] \<Rightarrow> de_option de_vars v | _ \<Rightarrow> None)"

definition de_topic_request :: "json \<Rightarrow> (string \<times> int) option" where
  "de_topic_request j =
     (case de_struct [(''topicName'', False), (''lockDuration'', False)] j of
        Some [n, d] \<Rightarrow> do { name \<leftarrow> de_field de_string n; dur \<leftarrow> de_field de_i64 d; Some (name, dur) }
      | _ \<Rightarrow> None)"

definition de_fetch_request :: "json \<Rightarrow> fetch_request option" where
  "de_fetch_request j =
     (case de_struct [(''workerId'', False), (''maxTasks'', False), (''topics'', False),
                      (''asyncResponseTimeout'', False)] j of
        Some [w, m, ts, t] \<Rightarrow>
          do { worker \<leftarrow> de_field de_string w; max_tasks \<leftarrow> de_field de_u64 m;
               topics \<leftarrow> de_field (de_list de_topic_request) ts; timeout \<leftarrow> de_option de_u64 t;
               Some \<lparr>fq_worker_id = worker, fq_max_tasks = max_tasks, fq_topics = topics, fq_timeout = timeout\<rparr> }
      | _ \<Rightarrow> None)"

definition de_complete_service_task_request :: "json \<Rightarrow> (string \<times> vars option) option" where
  "de_complete_service_task_request j =
     (case de_struct [(''workerId'', False), (''variables'', False)] j of
        Some [w, v] \<Rightarrow> do { worker \<leftarrow> de_field de_string w; vs \<leftarrow> de_option de_vars v; Some (worker, vs) }
      | _ \<Rightarrow> None)"

definition de_fail_service_task_request ::
  "json \<Rightarrow> (string \<times> int option \<times> string option \<times> string option) option" where
  "de_fail_service_task_request j =
     (case de_struct [(''workerId'', False), (''retries'', False), (''errorMessage'', False),
                      (''errorDetails'', False)] j of
        Some [w, r, m, d] \<Rightarrow>
          do { worker \<leftarrow> de_field de_string w; retries \<leftarrow> de_option de_i32 r; em \<leftarrow> de_option de_string m;
               ed \<leftarrow> de_option de_string d; Some (worker, retries, em, ed) }
      | _ \<Rightarrow> None)"

definition de_retry_incident_request :: "json \<Rightarrow> int option option" where
  "de_retry_incident_request j =
     (case de_struct [(''retries'', False)] j of Some [r] \<Rightarrow> de_option de_i32 r | _ \<Rightarrow> None)"

definition de_extend_lock_request :: "json \<Rightarrow> (string \<times> int) option" where
  "de_extend_lock_request j =
     (case de_struct [(''workerId'', False), (''newDuration'', False)] j of
        Some [w, d] \<Rightarrow> do { worker \<leftarrow> de_field de_string w; dur \<leftarrow> de_field de_i64 d; Some (worker, dur) }
      | _ \<Rightarrow> None)"

definition de_bpmn_error_request :: "json \<Rightarrow> (string \<times> string) option" where
  "de_bpmn_error_request j =
     (case de_struct [(''workerId'', False), (''errorCode'', False)] j of
        Some [w, c] \<Rightarrow> do { worker \<leftarrow> de_field de_string w; code \<leftarrow> de_field de_string c; Some (worker, code) }
      | _ \<Rightarrow> None)"

section \<open>Query strings\<close>

text \<open>
  The pairs of a query string, decoded. A field of the struct that occurs twice is an error, a pair of another
  name is ignored.
\<close>

type_synonym query = "(string \<times> string) list"

definition query_field :: "(string \<Rightarrow> 'a option) \<Rightarrow> string \<Rightarrow> query \<Rightarrow> 'a option option" where
  "query_field f k q =
     (case filter (\<lambda>p. fst p = k) q of
        [] \<Rightarrow> Some None
      | [(k', v)] \<Rightarrow> map_option Some (f v)
      | _ \<Rightarrow> None)"

definition query_bool :: "string \<Rightarrow> bool option" where
  "query_bool s = (if s = ''true'' then Some True else if s = ''false'' then Some False else None)"

abbreviation query_usize :: "string \<Rightarrow> nat option" where
  "query_usize \<equiv> parse_unsigned 64"

definition de_delete_definition_query :: "query \<Rightarrow> bool option option" where
  "de_delete_definition_query q = query_field query_bool ''cascade'' q"

definition de_bucket_entries_query :: "query \<Rightarrow> (nat option \<times> nat option) option" where
  "de_bucket_entries_query q =
     do { offset \<leftarrow> query_field query_usize ''offset'' q; n \<leftarrow> query_field query_usize ''limit'' q;
          Some (offset, n) }"

definition de_log_query :: "query \<Rightarrow> (string option \<times> string option \<times> nat option) option" where
  "de_log_query q =
     do { level \<leftarrow> query_field Some ''level'' q; search \<leftarrow> query_field Some ''search'' q;
          n \<leftarrow> query_field query_usize ''limit'' q; Some (level, search, n) }"

text \<open>\<open>dt\<close> is the reader of instants (\<open>chrono\<close>).\<close>

definition de_history_query :: "(string \<Rightarrow> time option) \<Rightarrow> query \<Rightarrow> server_history_query option" where
  "de_history_query dt q =
     do { event_types \<leftarrow> query_field Some ''event_types'' q; node \<leftarrow> query_field Some ''node_id'' q;
          actor \<leftarrow> query_field Some ''actor_type'' q; from \<leftarrow> query_field dt ''from'' q;
          to \<leftarrow> query_field dt ''to'' q; n \<leftarrow> query_field query_usize ''limit'' q;
          offset \<leftarrow> query_field query_usize ''offset'' q;
          Some \<lparr>sq_event_types = event_types, sq_node_id = node, sq_actor_type = actor, sq_from = from,
                sq_to = to, sq_limit = n, sq_offset = offset\<rparr> }"

definition de_completed_query :: "(string \<Rightarrow> time option) \<Rightarrow> query \<Rightarrow> completed_instances_query option" where
  "de_completed_query dt q =
     do { dk \<leftarrow> query_field Some ''definition_key'' q; bk \<leftarrow> query_field Some ''business_key'' q;
          from \<leftarrow> query_field dt ''from'' q; to \<leftarrow> query_field dt ''to'' q;
          st \<leftarrow> query_field Some ''state'' q; n \<leftarrow> query_field query_usize ''limit'' q;
          offset \<leftarrow> query_field query_usize ''offset'' q;
          Some \<lparr>ciq_definition_key = dk, ciq_business_key = bk, ciq_from = from, ciq_to = to, ciq_state = st,
                ciq_limit = n, ciq_offset = offset\<rparr> }"

section \<open>HTTP requests and endpoints\<close>

datatype http_method = GET | POST | PUT | DELETE

text \<open>
  A body is none, a text that is not JSON, JSON, or the first field of a multipart form (with what its reader
  meets). \<open>rq_bytes\<close> is the length of the body.
\<close>

datatype http_body = NoBody | BrokenBody | JsonBody json | FormBody "string + upload_field option"

record http_request =
  rq_method :: http_method
  rq_path :: "string list"
  rq_query :: query
  rq_body :: http_body
  rq_bytes :: nat

text \<open>An endpoint makes the request of its handler from the parameters of the path and the rest.\<close>

type_synonym endpoint = "string list \<Rightarrow> http_request \<Rightarrow> request option"

definition body_limit :: nat where
  "body_limit = 5 * 1024 * 1024"

definition with_json :: "(json \<Rightarrow> 'a option) \<Rightarrow> ('a \<Rightarrow> request) \<Rightarrow> http_request \<Rightarrow> request option" where
  "with_json d k rq =
     (case rq_body rq of
        JsonBody j \<Rightarrow> if rq_bytes rq \<le> body_limit then map_option k (d j) else None
      | _ \<Rightarrow> None)"

definition with_form :: "(string + upload_field option \<Rightarrow> request) \<Rightarrow> http_request \<Rightarrow> request option" where
  "with_form k rq = (case rq_body rq of FormBody f \<Rightarrow> Some (k f) | _ \<Rightarrow> None)"

fun no_param :: "(http_request \<Rightarrow> request option) \<Rightarrow> endpoint" where
  "no_param k [] rq = k rq"
| "no_param k (x # xs) rq = None"

fun one_param :: "(string \<Rightarrow> http_request \<Rightarrow> request option) \<Rightarrow> endpoint" where
  "one_param k [x] rq = k x rq"
| "one_param k ps rq = None"

fun two_params :: "(string \<Rightarrow> string \<Rightarrow> http_request \<Rightarrow> request option) \<Rightarrow> endpoint" where
  "two_params k [x, y] rq = k x y rq"
| "two_params k ps rq = None"

definition plainly :: "request \<Rightarrow> http_request \<Rightarrow> request option" where
  "plainly r rq = Some r"

section \<open>The table of routes (mod.rs)\<close>

text \<open>The table in its order, cut into pieces.\<close>

type_synonym route_table = "(string \<times> (http_method \<times> endpoint) list) list"

definition start_routes :: route_table where
  "start_routes =
     [(''/api/deploy'', [(POST, no_param (with_json de_deploy_request (\<lambda>(xml, name). Definitions (Deploy xml))))]),
      (''/api/start'', [(POST, no_param (with_json de_start_request (\<lambda>(k, vs). Instances (Start k vs))))]),
      (''/api/start/latest'',
         [(POST, no_param (with_json de_start_latest_request (\<lambda>(b, vs). Instances (StartLatest b vs))))]),
      (''/api/start/timer'', [(POST, no_param (with_json de_start_request (\<lambda>(k, vs). Instances (StartTimer k vs))))]),
      (''/api/tasks'', [(GET, no_param (plainly (Tasks GetTasks)))]),
      (''/api/complete/{id}'',
         [(POST, one_param (\<lambda>i. with_json de_complete_request (\<lambda>vs. Tasks (CompleteTask i vs))))]),
      (''/api/instances'', [(GET, no_param (plainly (Instances ListInstances)))]),
      (''/api/instances/{id}'',
         [(GET, one_param (\<lambda>i. plainly (Instances (GetInstance i)))),
          (DELETE, one_param (\<lambda>i. plainly (Instances (DeleteInstanceReq i))))])]"

definition definition_routes :: route_table where
  "definition_routes =
     [(''/api/definitions'', [(GET, no_param (plainly (Definitions ListDefinitions)))]),
      (''/api/definitions/{id}/xml'', [(GET, one_param (\<lambda>i. plainly (Definitions (GetDefinitionXml i))))]),
      (''/api/definitions/{id}'',
         [(DELETE, one_param (\<lambda>i rq. map_option (\<lambda>c. Definitions (DeleteDefinitionReq i c))
                                     (de_delete_definition_query (rq_query rq))))]),
      (''/api/definitions/bpmn/{bpmn_id}'',
         [(DELETE, one_param (\<lambda>b rq. map_option (\<lambda>c. Definitions (DeleteAllDefinitionsReq b c))
                                     (de_delete_definition_query (rq_query rq))))])]"

definition instance_routes :: "(string \<Rightarrow> time option) \<Rightarrow> route_table" where
  "instance_routes dt =
     [(''/api/instances/{id}/move-token'',
         [(POST, one_param (\<lambda>i. with_json de_move_token_request
                   (\<lambda>(n, vs, c). Instances (MoveTokenReq i n vs (Some c)))))]),
      (''/api/instances/{id}/migrate'',
         [(POST, one_param (\<lambda>i. with_json de_migrate_instance_request (\<lambda>(k, m). Instances (MigrateReq i k m))))]),
      (''/api/instances/{id}/suspend'', [(POST, one_param (\<lambda>i. plainly (Instances (SuspendReq i))))]),
      (''/api/instances/{id}/resume'', [(POST, one_param (\<lambda>i. plainly (Instances (ResumeReq i))))]),
      (''/api/instances/{id}/variables'',
         [(PUT, one_param (\<lambda>i. with_json de_update_variables_request
                  (\<lambda>vs. Instances (UpdateVariablesReq i vs))))]),
      (''/api/instances/{id}/files/{var_name}'',
         [(POST, two_params (\<lambda>i v. with_form (\<lambda>f. Files (UploadFileReq i v f)))),
          (GET, two_params (\<lambda>i v. plainly (Files (GetFileReq i v)))),
          (DELETE, two_params (\<lambda>i v. plainly (Files (DeleteFileReq i v))))]),
      (''/api/instances/{id}/history'',
         [(GET, one_param (\<lambda>i rq. map_option (\<lambda>q. Monitor (GetHistory i q)) (de_history_query dt (rq_query rq))))]),
      (''/api/instances/{id}/history/{event_id}'',
         [(GET, two_params (\<lambda>i e. plainly (Monitor (GetHistoryEntry i e))))])]"

definition monitor_routes :: "(string \<Rightarrow> time option) \<Rightarrow> route_table" where
  "monitor_routes dt =
     [(''/api/info'', [(GET, no_param (plainly (Monitor GetInfo)))]),
      (''/api/monitoring'', [(GET, no_param (plainly (Monitor GetMonitoring)))]),
      (''/api/monitoring/buckets/{bucket}/entries'',
         [(GET, one_param (\<lambda>b rq. map_option (\<lambda>(off, n). Monitor (GetBucketEntries b off n))
                                  (de_bucket_entries_query (rq_query rq))))]),
      (''/api/monitoring/buckets/{bucket}/entries/{key}'',
         [(GET, two_params (\<lambda>b k. plainly (Monitor (GetBucketEntryDetail b k))))]),
      (''/api/history/instances'',
         [(GET, no_param (\<lambda>rq. map_option (\<lambda>q. Monitor (ListCompleted q)) (de_completed_query dt (rq_query rq))))]),
      (''/api/history/instances/{id}'', [(GET, one_param (\<lambda>i. plainly (Monitor (GetCompleted i))))])]"

definition event_routes :: route_table where
  "event_routes =
     [(''/api/message'',
         [(POST, no_param (with_json de_correlate_message_request
                   (\<lambda>(n, bk, vs). Instances (CorrelateMessageReq n bk vs))))]),
      (''/api/timers'', [(GET, no_param (plainly (Events GetTimers)))]),
      (''/api/timers/process'', [(POST, no_param (plainly (Events ProcessTimersReq)))]),
      (''/api/messages'', [(GET, no_param (plainly (Events GetMessages)))])]"

definition service_routes :: route_table where
  "service_routes =
     [(''/api/service-tasks'', [(GET, no_param (plainly (Tasks GetServiceTasks)))]),
      (''/api/service-task/fetchAndLock'',
         [(POST, no_param (with_json de_fetch_request (\<lambda>q. Tasks (FetchAndLock q))))]),
      (''/api/service-task/{id}/complete'',
         [(POST, one_param (\<lambda>i. with_json de_complete_service_task_request
                   (\<lambda>(w, vs). Tasks (CompleteServiceTaskReq i w vs))))]),
      (''/api/service-task/{id}/failure'',
         [(POST, one_param (\<lambda>i. with_json de_fail_service_task_request
                   (\<lambda>(w, n, em, ed). Tasks (FailServiceTaskReq i w n em ed))))]),
      (''/api/service-task/{id}/retry'',
         [(POST, one_param (\<lambda>i. with_json de_retry_incident_request (\<lambda>n. Tasks (RetryIncidentReq i n))))]),
      (''/api/service-task/{id}/resolve'',
         [(POST, one_param (\<lambda>i. with_json de_resolve_incident_request (\<lambda>vs. Tasks (ResolveIncidentReq i vs))))]),
      (''/api/service-task/{id}/extendLock'',
         [(POST, one_param (\<lambda>i. with_json de_extend_lock_request (\<lambda>(w, n). Tasks (ExtendLockReq i w n))))]),
      (''/api/service-task/{id}/bpmnError'',
         [(POST, one_param (\<lambda>i. with_json de_bpmn_error_request (\<lambda>(w, c). Tasks (BpmnErrorReq i w c))))])]"

definition log_routes :: route_table where
  "log_routes =
     [(''/api/logs'',
         [(GET, no_param (\<lambda>rq. map_option (\<lambda>(lev, q, n). Monitor (GetLogs lev q n)) (de_log_query (rq_query rq))))]),
      (''/api/health'', [(GET, no_param (plainly (Monitor Health)))]),
      (''/api/ready'', [(GET, no_param (plainly (Monitor Ready)))])]"

definition routes :: "(string \<Rightarrow> time option) \<Rightarrow> route_table" where
  "routes dt =
     start_routes @ definition_routes @ instance_routes dt @ monitor_routes dt @ event_routes @ service_routes
     @ log_routes"

section \<open>Matching a path\<close>

text \<open>A segment in braces stands for any segment that is not empty.\<close>

definition is_param :: "string \<Rightarrow> bool" where
  "is_param seg \<longleftrightarrow> (case seg of [] \<Rightarrow> False | c # cs \<Rightarrow> c = CHR ''{'')"

definition segments :: "string \<Rightarrow> string list" where
  "segments pattern = tl (split_char (CHR ''/'') pattern)"

fun match_path :: "string list \<Rightarrow> string list \<Rightarrow> string list option" where
  "match_path [] [] = Some []"
| "match_path (p # ps) (x # xs) =
     (if is_param p then (if x = [] then None else map_option (Cons x) (match_path ps xs))
      else if p = x then match_path ps xs else None)"
| "match_path _ _ = None"

text \<open>Of several patterns the one wins that has a literal at the first place where one has a parameter.\<close>

fun more_literal :: "string list \<Rightarrow> string list \<Rightarrow> bool" where
  "more_literal (p # ps) (q # qs) = (if is_param p = is_param q then more_literal ps qs else is_param q)"
| "more_literal _ _ = False"

fun best_match :: "string list \<Rightarrow> (string list \<times> 'a) list \<Rightarrow> (string list \<times> string list \<times> 'a) option" where
  "best_match xs [] = None"
| "best_match xs ((p, a) # rs) =
     (case (match_path p xs, best_match xs rs) of
        (None, r) \<Rightarrow> r
      | (Some ps, Some (q, qs, b)) \<Rightarrow> if more_literal q p then Some (q, qs, b) else Some (p, ps, a)
      | (Some ps, None) \<Rightarrow> Some (p, ps, a))"

text \<open>
  The event stream and the metrics are answers of their own kind; the metrics are served when the recorder
  was installed. A request whose path has no route, whose method has none on the path, or that an extractor
  of the handler refuses, does not reach a handler.
\<close>

datatype routed = NotFound | MethodNotAllowed | Rejected | EventStream | MetricsText | Routed request

definition http_route :: "(string \<Rightarrow> time option) \<Rightarrow> bool \<Rightarrow> http_request \<Rightarrow> routed" where
  "http_route dt metrics rq =
     (if rq_path rq = [''api'', ''events''] then (if rq_method rq = GET then EventStream else MethodNotAllowed)
      else if metrics \<and> rq_path rq = [''metrics''] then (if rq_method rq = GET then MetricsText else MethodNotAllowed)
      else
        (case best_match (rq_path rq) (map (\<lambda>(p, ms). (segments p, ms)) (routes dt)) of
           None \<Rightarrow> NotFound
         | Some (p, ps, ms) \<Rightarrow>
             (case map_of ms (rq_method rq) of
                None \<Rightarrow> MethodNotAllowed
              | Some ep \<Rightarrow> (case ep ps rq of None \<Rightarrow> Rejected | Some r \<Rightarrow> Routed r))))"

section \<open>The routes do not overlap\<close>

text \<open>Two patterns clash when some path matches both.\<close>

fun clash :: "string list \<Rightarrow> string list \<Rightarrow> bool" where
  "clash [] [] = True"
| "clash (p # ps) (q # qs) = ((p = q \<or> is_param p \<or> is_param q) \<and> clash ps qs)"
| "clash _ _ = False"

fun pairwise_list :: "('a \<Rightarrow> 'a \<Rightarrow> bool) \<Rightarrow> 'a list \<Rightarrow> bool" where
  "pairwise_list r [] = True"
| "pairwise_list r (x # xs) = (list_all (r x) xs \<and> pairwise_list r xs)"

lemma match_path_clash:
  "match_path p xs = Some ps \<Longrightarrow> match_path q xs = Some qs \<Longrightarrow> clash p q"
  by (induction p xs arbitrary: q ps qs rule: match_path.induct)
     (case_tac q; auto split: if_splits)+

definition xml_route :: "string list" where
  "xml_route = [''api'', ''definitions'', ''{id}'', ''xml'']"

definition bpmn_route :: "string list" where
  "bpmn_route = [''api'', ''definitions'', ''bpmn'', ''{bpmn_id}'']"

definition apart :: "string list \<Rightarrow> string list \<Rightarrow> bool" where
  "apart p q \<longleftrightarrow> clash p q \<longrightarrow> p = xml_route \<and> q = bpmn_route"

lemma routes_apart: "pairwise_list apart (map (segments \<circ> fst) (routes dt))"
  by code_simp

lemma best_match_None: "\<forall>r \<in> set rs. match_path (fst r) xs = None \<Longrightarrow> best_match xs rs = None"
  by (induction rs) auto

lemma best_match_unique:
  assumes "pairwise_list apart (map fst rs)" and "(p, a) \<in> set rs" and "match_path p xs = Some ps"
    and "p = xml_route \<Longrightarrow> match_path bpmn_route xs = None"
  shows "best_match xs rs = Some (p, ps, a)"
  using assms(1,2)
proof (induction rs)
  case Nil
  then show ?case by simp
next
  case (Cons r rs)
  obtain q b where r: "r = (q, b)" by (cases r)
  show ?case
  proof (cases "r = (p, a)")
    case True
    have "match_path (fst r') xs = None" if "r' \<in> set rs" for r'
    proof (rule ccontr)
      assume n: "match_path (fst r') xs \<noteq> None"
      with assms(3) have "clash p (fst r')" by (auto dest: match_path_clash)
      moreover have "apart p (fst r')" using Cons.prems(1) that True by (auto simp: list_all_iff)
      ultimately show False using assms(4) n by (simp add: apart_def)
    qed
    then show ?thesis using True assms(3) by (simp add: best_match_None)
  next
    case False
    then have m: "(p, a) \<in> set rs" using Cons.prems(2) by simp
    have IH: "best_match xs rs = Some (p, ps, a)" using Cons.IH Cons.prems(1) m by simp
    have "more_literal p q" if "match_path q xs \<noteq> None"
    proof -
      from that assms(3) have "clash q p" by (auto dest: match_path_clash)
      moreover have "apart q p" using Cons.prems(1) m r by (force simp: list_all_iff)
      ultimately have "q = xml_route" "p = bpmn_route" by (simp_all add: apart_def)
      then show ?thesis by (simp add: xml_route_def bpmn_route_def is_param_def)
    qed
    then show ?thesis by (auto simp: r IH split: option.split)
  qed
qed

text \<open>
  So a request reaches the endpoint of the one pattern its path matches. Only the pair named above needs a
  look: the text of the definition \<open>bpmn\<close> cannot be asked for.
\<close>

lemma http_route_by:
  assumes "(pattern, ms) \<in> set (routes dt)" and "match_path (segments pattern) (rq_path rq) = Some ps"
    and "rq_path rq \<noteq> [''api'', ''events'']" and "rq_path rq \<noteq> [''metrics'']"
    and "segments pattern = xml_route \<Longrightarrow> match_path bpmn_route (rq_path rq) = None"
  shows "http_route dt metrics rq =
    (case map_of ms (rq_method rq) of
       None \<Rightarrow> MethodNotAllowed
     | Some ep \<Rightarrow> (case ep ps rq of None \<Rightarrow> Rejected | Some r \<Rightarrow> Routed r))"
proof -
  let ?rs = "map (\<lambda>(p, ms). (segments p, ms)) (routes dt)"
  have "map fst ?rs = map (segments \<circ> fst) (routes dt)" by (simp add: comp_def case_prod_unfold)
  then have "pairwise_list apart (map fst ?rs)" by (simp only: routes_apart)
  moreover have "(segments pattern, ms) \<in> set ?rs" using assms(1) by force
  ultimately have "best_match (rq_path rq) ?rs = Some (segments pattern, ps, ms)"
    using assms(2,5) by (rule best_match_unique)
  then show ?thesis using assms(3,4) by (simp add: http_route_def)
qed

end
