(* ===== verification/Desktop.thy ===== *)
theory Desktop
  imports Routes "HOL-Library.List_Lexorder" "HOL-Library.Char_ord"
begin

text \<open>
  The native half of the desktop application (\<open>desktop-tauri/src-tauri/src\<close>): its state, the helpers that talk to
  the server, one definition per command, and the dispatch of the commands. The HTTP client, serde's reader of
  JSON texts and the guess of a MIME type are a parameter.
\<close>

section \<open>The state (state.rs)\<close>

text \<open>
  A request as it is given to the client: the URL as a text, the pairs added by \<open>query\<close>, the body. An answer has
  a status and the bytes of its body, or the error met when they are read. No answer at all is \<open>Diverged\<close>.
\<close>

record client_request =
  cr_method :: http_method
  cr_url :: string
  cr_query :: query
  cr_body :: http_body

record http_answer =
  ha_status :: nat
  ha_body :: "string + string"

record 'w http_client =
  hc_send :: "client_request \<Rightarrow> 'w \<Rightarrow> 'w \<times> (string, http_answer) outcome"
  hc_from_str :: "string \<Rightarrow> string + json"
  hc_mime_guess :: "string \<Rightarrow> string"
  hc_mime_str :: "string \<Rightarrow> string option"
  hc_write :: "string \<Rightarrow> string option"

text \<open>
  \<open>AppState\<close>: the address of the server behind a mutex, which is poisoned when a holder panicked; the world of the
  client and the files of the machine.
\<close>

record 'w desktop =
  dk_base_url :: string
  dk_poisoned :: bool
  dk_world :: 'w
  dk_files :: "(string, string) table"

type_synonym ('w, 'a) commanded = "'w desktop \<times> (msg, 'a) outcome"

definition poison_text :: string where
  "poison_text = ''poisoned lock: another task failed inside''"

definition get_base_url :: "'w desktop \<Rightarrow> (msg, string) outcome" where
  "get_base_url d =
     (if dk_poisoned d then Err (Msg ''Mutex poisoned: {e}'' [AStr poison_text]) else Ok (dk_base_url d))"

section \<open>The helpers (api\_helpers.rs)\<close>

definition success :: "nat \<Rightarrow> bool" where
  "success n \<longleftrightarrow> 200 \<le> n \<and> n < 300"

definition send :: "'w http_client \<Rightarrow> string \<Rightarrow> client_request \<Rightarrow> 'w desktop \<Rightarrow> ('w, http_answer) commanded" where
  "send hc what rq d =
     (case hc_send hc rq (dk_world d) of
        (w, r) \<Rightarrow> (d\<lparr>dk_world := w\<rparr>, map_err (\<lambda>er. Msg what [AStr er]) r))"

text \<open>\<open>res.json()\<close>, \<open>res.text().unwrap_or_default()\<close>, and the field \<open>error\<close> of an answer, else all of it.\<close>

definition json_of :: "'w http_client \<Rightarrow> string \<Rightarrow> http_answer \<Rightarrow> (msg, json) outcome" where
  "json_of hc what a =
     (case ha_body a of
        Inl er \<Rightarrow> Err (Msg what [AStr er])
      | Inr t \<Rightarrow> (case hc_from_str hc t of Inl er \<Rightarrow> Err (Msg what [AStr er]) | Inr j \<Rightarrow> Ok j))"

definition body_text :: "http_answer \<Rightarrow> string" where
  "body_text a = (case ha_body a of Inl er \<Rightarrow> [] | Inr t \<Rightarrow> t)"

definition index_str :: "string \<Rightarrow> json \<Rightarrow> string option" where
  "index_str k j = Option.bind (json_get k j) json_as_str"

definition error_message :: "'w http_client \<Rightarrow> http_answer \<Rightarrow> string" where
  "error_message hc a =
     (case hc_from_str hc (body_text a) of
        Inl er \<Rightarrow> body_text a
      | Inr j \<Rightarrow> (case index_str ''error'' j of None \<Rightarrow> body_text a | Some m \<Rightarrow> m))"

definition request_failed :: "http_answer \<Rightarrow> string \<Rightarrow> string \<Rightarrow> msg" where
  "request_failed a path m = Msg ''Request failed: {} {}: {}'' [ANat (ha_status a), AStr path, AStr m]"

definition api_get :: "'w http_client \<Rightarrow> string \<Rightarrow> 'w desktop \<Rightarrow> ('w, json) commanded" where
  "api_get hc path d =
     bindR (liftR d (get_base_url d)) (\<lambda>d base.
     bindR (send hc ''{}'' \<lparr>cr_method = GET, cr_url = base @ path, cr_query = [], cr_body = NoBody\<rparr> d) (\<lambda>d a.
       (d, if success (ha_status a) then json_of hc ''{}'' a
           else Err (request_failed a path (error_message hc a)))))"

text \<open>The error text of this one is the whole body.\<close>

definition api_post :: "'w http_client \<Rightarrow> string \<Rightarrow> json \<Rightarrow> 'w desktop \<Rightarrow> ('w, json) commanded" where
  "api_post hc path j d =
     bindR (liftR d (get_base_url d)) (\<lambda>d base.
     bindR (send hc ''{}'' \<lparr>cr_method = POST, cr_url = base @ path, cr_query = [], cr_body = JsonBody j\<rparr> d) (\<lambda>d a.
       (d, if success (ha_status a) then json_of hc ''{}'' a
           else Err (request_failed a path (body_text a)))))"

definition api_post_no_body :: "'w http_client \<Rightarrow> string \<Rightarrow> json \<Rightarrow> 'w desktop \<Rightarrow> ('w, unit) commanded" where
  "api_post_no_body hc path j d =
     bindR (liftR d (get_base_url d)) (\<lambda>d base.
     bindR (send hc ''{}'' \<lparr>cr_method = POST, cr_url = base @ path, cr_query = [], cr_body = JsonBody j\<rparr> d) (\<lambda>d a.
       (d, if success (ha_status a) then Ok () else Err (request_failed a path (error_message hc a)))))"

definition api_put :: "'w http_client \<Rightarrow> string \<Rightarrow> json \<Rightarrow> 'w desktop \<Rightarrow> ('w, unit) commanded" where
  "api_put hc path j d =
     bindR (liftR d (get_base_url d)) (\<lambda>d base.
     bindR (send hc ''{}'' \<lparr>cr_method = PUT, cr_url = base @ path, cr_query = [], cr_body = JsonBody j\<rparr> d) (\<lambda>d a.
       (d, if success (ha_status a) then Ok () else Err (request_failed a path (error_message hc a)))))"

definition api_delete :: "'w http_client \<Rightarrow> string \<Rightarrow> 'w desktop \<Rightarrow> ('w, unit) commanded" where
  "api_delete hc path d =
     bindR (liftR d (get_base_url d)) (\<lambda>d base.
     bindR (send hc ''{}'' \<lparr>cr_method = DELETE, cr_url = base @ path, cr_query = [], cr_body = NoBody\<rparr> d) (\<lambda>d a.
       (d, if success (ha_status a) then Ok () else Err (request_failed a path (error_message hc a)))))"

text \<open>A map as a JSON object, whose fields are in the order of their names.\<close>

definition object_of :: "(string, json) table \<Rightarrow> json" where
  "object_of vs = JObj (sort_key fst vs)"

definition or_empty :: "vars option \<Rightarrow> json" where
  "or_empty vs = object_of (case vs of None \<Rightarrow> [] | Some v \<Rightarrow> v)"

definition json_nat :: "nat \<Rightarrow> json" where
  "json_nat n = JNum (JInt (int n))"

definition or_null :: "('a \<Rightarrow> json) \<Rightarrow> 'a option \<Rightarrow> json" where
  "or_null f x = (case x of None \<Rightarrow> JNull | Some v \<Rightarrow> f v)"

definition show_bool :: "bool \<Rightarrow> string" where
  "show_bool b = (if b then ''true'' else ''false'')"

section \<open>Messages (commands/messages.rs)\<close>

definition affected_of :: "json \<Rightarrow> string list" where
  "affected_of data =
     (case json_get ''affectedInstances'' data of
        Some (JArr vs) \<Rightarrow> List.map_filter json_as_str vs
      | _ \<Rightarrow> [])"

definition cmd_correlate_message ::
  "'w http_client \<Rightarrow> string \<Rightarrow> string option \<Rightarrow> vars option \<Rightarrow> 'w desktop \<Rightarrow> ('w, string list) commanded" where
  "cmd_correlate_message hc name bk vs d =
     bindR (api_post hc ''/api/message''
              (JObj [(''businessKey'', or_null JStr bk), (''messageName'', JStr name), (''variables'', or_empty vs)]) d)
       (\<lambda>d data. (d, Ok (affected_of data)))"

section \<open>Definitions (commands/deploy.rs)\<close>

definition cmd_deploy_simple_process :: "'w desktop \<Rightarrow> ('w, string) commanded" where
  "cmd_deploy_simple_process d =
     (d, Err (Msg ''deploy_simple_process is not supported in HTTP mode. Use deploy_definition instead.'' []))"

text \<open>\<open>data[k].as_str().unwrap_or("")\<close>\<close>

definition text_at :: "string \<Rightarrow> json \<Rightarrow> string" where
  "text_at k data = (case index_str k data of None \<Rightarrow> [] | Some s \<Rightarrow> s)"

definition cmd_deploy_definition ::
  "'w http_client \<Rightarrow> string \<Rightarrow> string \<Rightarrow> 'w desktop \<Rightarrow> ('w, string) commanded" where
  "cmd_deploy_definition hc xml name d =
     bindR (api_post hc ''/api/deploy'' (JObj [(''name'', JStr name), (''xml'', JStr xml)]) d)
       (\<lambda>d data. (d, Ok (text_at ''definition_key'' data)))"

definition cmd_list_definitions :: "'w http_client \<Rightarrow> 'w desktop \<Rightarrow> ('w, json) commanded" where
  "cmd_list_definitions hc = api_get hc ''/api/definitions''"

definition cmd_get_definition_xml :: "'w http_client \<Rightarrow> string \<Rightarrow> 'w desktop \<Rightarrow> ('w, string) commanded" where
  "cmd_get_definition_xml hc i d =
     bindR (liftR d (get_base_url d)) (\<lambda>d base.
     bindR (send hc ''{}'' \<lparr>cr_method = GET, cr_url = base @ ''/api/definitions/'' @ i @ ''/xml'', cr_query = [],
                            cr_body = NoBody\<rparr> d) (\<lambda>d a.
       (d, if success (ha_status a)
           then (case ha_body a of Inl er \<Rightarrow> Err (Msg ''{}'' [AStr er]) | Inr t \<Rightarrow> Ok t)
           else Err (Msg ''Get definition XML failed: {}'' [ANat (ha_status a)]))))"

definition cmd_delete_definition ::
  "'w http_client \<Rightarrow> string \<Rightarrow> bool \<Rightarrow> 'w desktop \<Rightarrow> ('w, unit) commanded" where
  "cmd_delete_definition hc i cascade =
     api_delete hc (''/api/definitions/'' @ i @ ''?cascade='' @ show_bool cascade)"

definition cmd_delete_all_definitions ::
  "'w http_client \<Rightarrow> string \<Rightarrow> bool \<Rightarrow> 'w desktop \<Rightarrow> ('w, unit) commanded" where
  "cmd_delete_all_definitions hc bpmn_id cascade =
     api_delete hc (''/api/definitions/bpmn/'' @ bpmn_id @ ''?cascade='' @ show_bool cascade)"

section \<open>Instances (commands/instances.rs)\<close>

definition start_payload :: "string \<Rightarrow> vars option \<Rightarrow> json" where
  "start_payload def_id vs =
     JObj ((''definition_key'', JStr def_id)
           # (case vs of None \<Rightarrow> [] | Some v \<Rightarrow> if v = [] then [] else [(''variables'', object_of v)]))"

definition cmd_start_instance ::
  "'w http_client \<Rightarrow> string \<Rightarrow> vars option \<Rightarrow> 'w desktop \<Rightarrow> ('w, string) commanded" where
  "cmd_start_instance hc def_id vs d =
     bindR (api_post hc ''/api/start'' (start_payload def_id vs) d) (\<lambda>d data. (d, Ok (text_at ''instance_id'' data)))"

definition cmd_start_timer_instance ::
  "'w http_client \<Rightarrow> string \<Rightarrow> vars option \<Rightarrow> 'w desktop \<Rightarrow> ('w, string) commanded" where
  "cmd_start_timer_instance hc def_id vs d =
     bindR (api_post hc ''/api/start/timer'' (start_payload def_id vs) d)
       (\<lambda>d data. (d, Ok (text_at ''instance_id'' data)))"

definition cmd_list_instances :: "'w http_client \<Rightarrow> 'w desktop \<Rightarrow> ('w, json) commanded" where
  "cmd_list_instances hc = api_get hc ''/api/instances''"

definition cmd_get_instance_details :: "'w http_client \<Rightarrow> string \<Rightarrow> 'w desktop \<Rightarrow> ('w, json) commanded" where
  "cmd_get_instance_details hc i = api_get hc (''/api/instances/'' @ i)"

text \<open>The text \<open>name=value\<close> of each pair, joined, after a question mark unless there is none.\<close>

definition param_text :: "string \<times> string \<Rightarrow> string" where
  "param_text p = fst p @ ''='' @ snd p"

definition query_text :: "query \<Rightarrow> string" where
  "query_text q = (if q = [] then [] else ''?'' @ join_char (CHR ''&'') (map param_text q))"

definition optional :: "string \<Rightarrow> string option \<Rightarrow> query" where
  "optional k v = (case v of None \<Rightarrow> [] | Some x \<Rightarrow> [(k, x)])"

definition unless_empty :: "string option \<Rightarrow> string option" where
  "unless_empty v = (case v of None \<Rightarrow> None | Some x \<Rightarrow> if x = [] then None else Some x)"

definition cmd_get_instance_history ::
  "'w http_client \<Rightarrow> string \<Rightarrow> string option \<Rightarrow> string option \<Rightarrow> 'w desktop \<Rightarrow> ('w, json) commanded" where
  "cmd_get_instance_history hc i ets ats =
     api_get hc (''/api/instances/'' @ i @ ''/history''
       @ query_text (optional ''event_types'' (unless_empty ets)
                     @ optional ''actor_types'' (unless_empty ats)))"

definition cmd_update_instance_variables ::
  "'w http_client \<Rightarrow> string \<Rightarrow> vars \<Rightarrow> 'w desktop \<Rightarrow> ('w, unit) commanded" where
  "cmd_update_instance_variables hc i vs =
     api_put hc (''/api/instances/'' @ i @ ''/variables'') (JObj [(''variables'', object_of vs)])"

definition cmd_suspend_instance :: "'w http_client \<Rightarrow> string \<Rightarrow> 'w desktop \<Rightarrow> ('w, unit) commanded" where
  "cmd_suspend_instance hc i = api_post_no_body hc (''/api/instances/'' @ i @ ''/suspend'') (JObj [])"

definition cmd_resume_instance :: "'w http_client \<Rightarrow> string \<Rightarrow> 'w desktop \<Rightarrow> ('w, unit) commanded" where
  "cmd_resume_instance hc i = api_post_no_body hc (''/api/instances/'' @ i @ ''/resume'') (JObj [])"

definition cmd_move_token ::
  "'w http_client \<Rightarrow> string \<Rightarrow> string \<Rightarrow> vars option \<Rightarrow> bool option \<Rightarrow> 'w desktop \<Rightarrow> ('w, unit) commanded" where
  "cmd_move_token hc i target vs cancel =
     api_post_no_body hc (''/api/instances/'' @ i @ ''/move-token'')
       (JObj [(''cancel_current'', JBool (case cancel of None \<Rightarrow> True | Some b \<Rightarrow> b)),
              (''target_node_id'', JStr target), (''variables'', or_empty vs)])"

definition mapping_object :: "(string, string) table option \<Rightarrow> json" where
  "mapping_object m = object_of (tmapv JStr (case m of None \<Rightarrow> [] | Some t \<Rightarrow> t))"

definition cmd_migrate_instance ::
  "'w http_client \<Rightarrow> string \<Rightarrow> string \<Rightarrow> (string, string) table option \<Rightarrow> 'w desktop \<Rightarrow> ('w, unit) commanded" where
  "cmd_migrate_instance hc i target m =
     api_post_no_body hc (''/api/instances/'' @ i @ ''/migrate'')
       (JObj [(''node_mapping'', mapping_object m), (''target_definition_key'', JStr target)])"

definition cmd_delete_instance :: "'w http_client \<Rightarrow> string \<Rightarrow> 'w desktop \<Rightarrow> ('w, unit) commanded" where
  "cmd_delete_instance hc i = api_delete hc (''/api/instances/'' @ i)"

record completed_filter =
  cf_definition_key :: "string option"
  cf_business_key :: "string option"
  cf_from :: "string option"
  cf_to :: "string option"
  cf_state :: "string option"
  cf_limit :: "nat option"
  cf_offset :: "nat option"

definition completed_params :: "completed_filter \<Rightarrow> query" where
  "completed_params f =
     optional ''definition_key'' (cf_definition_key f) @ optional ''business_key'' (cf_business_key f)
     @ optional ''from'' (cf_from f) @ optional ''to'' (cf_to f) @ optional ''state'' (cf_state f)
     @ optional ''limit'' (map_option show_nat (cf_limit f)) @ optional ''offset'' (map_option show_nat (cf_offset f))"

definition cmd_query_completed_instances ::
  "'w http_client \<Rightarrow> completed_filter \<Rightarrow> 'w desktop \<Rightarrow> ('w, json) commanded" where
  "cmd_query_completed_instances hc f = api_get hc (''/api/history/instances'' @ query_text (completed_params f))"

definition cmd_get_completed_instance :: "'w http_client \<Rightarrow> string \<Rightarrow> 'w desktop \<Rightarrow> ('w, json) commanded" where
  "cmd_get_completed_instance hc i = api_get hc (''/api/history/instances/'' @ i)"

section \<open>Tasks (commands/tasks.rs)\<close>

definition cmd_get_pending_tasks :: "'w http_client \<Rightarrow> 'w desktop \<Rightarrow> ('w, json) commanded" where
  "cmd_get_pending_tasks hc = api_get hc ''/api/tasks''"

definition cmd_complete_task ::
  "'w http_client \<Rightarrow> string \<Rightarrow> vars option \<Rightarrow> 'w desktop \<Rightarrow> ('w, unit) commanded" where
  "cmd_complete_task hc u vs = api_post_no_body hc (''/api/complete/'' @ u) (JObj [(''variables'', or_empty vs)])"

definition cmd_get_pending_service_tasks :: "'w http_client \<Rightarrow> 'w desktop \<Rightarrow> ('w, json) commanded" where
  "cmd_get_pending_service_tasks hc = api_get hc ''/api/service-tasks''"

definition fetch_payload :: "string \<Rightarrow> nat \<Rightarrow> string \<Rightarrow> int \<Rightarrow> json" where
  "fetch_payload worker max_tasks topic lock_duration =
     JObj [(''maxTasks'', json_nat max_tasks),
           (''topics'', JArr [JObj [(''lockDuration'', JNum (JInt lock_duration)), (''topicName'', JStr topic)]]),
           (''workerId'', JStr worker)]"

definition cmd_fetch_and_lock_service_tasks ::
  "'w http_client \<Rightarrow> string \<Rightarrow> nat \<Rightarrow> string \<Rightarrow> int \<Rightarrow> 'w desktop \<Rightarrow> ('w, json) commanded" where
  "cmd_fetch_and_lock_service_tasks hc worker max_tasks topic lock_duration =
     api_post hc ''/api/service-task/fetchAndLock'' (fetch_payload worker max_tasks topic lock_duration)"

definition cmd_complete_service_task ::
  "'w http_client \<Rightarrow> string \<Rightarrow> string \<Rightarrow> vars option \<Rightarrow> 'w desktop \<Rightarrow> ('w, unit) commanded" where
  "cmd_complete_service_task hc u worker vs =
     api_post_no_body hc (''/api/service-task/'' @ u @ ''/complete'')
       (JObj [(''variables'', or_empty vs), (''workerId'', JStr worker)])"

definition cmd_retry_incident ::
  "'w http_client \<Rightarrow> string \<Rightarrow> int option \<Rightarrow> 'w desktop \<Rightarrow> ('w, unit) commanded" where
  "cmd_retry_incident hc u retries =
     api_post_no_body hc (''/api/service-task/'' @ u @ ''/retry'')
       (JObj [(''retries'', or_null (\<lambda>n. JNum (JInt n)) retries)])"

definition cmd_resolve_incident ::
  "'w http_client \<Rightarrow> string \<Rightarrow> vars option \<Rightarrow> 'w desktop \<Rightarrow> ('w, unit) commanded" where
  "cmd_resolve_incident hc u vs =
     api_post_no_body hc (''/api/service-task/'' @ u @ ''/resolve'') (JObj [(''variables'', or_empty vs)])"

definition cmd_get_pending_timers :: "'w http_client \<Rightarrow> 'w desktop \<Rightarrow> ('w, json) commanded" where
  "cmd_get_pending_timers hc = api_get hc ''/api/timers''"

definition cmd_get_pending_message_catches :: "'w http_client \<Rightarrow> 'w desktop \<Rightarrow> ('w, json) commanded" where
  "cmd_get_pending_message_catches hc = api_get hc ''/api/messages''"

section \<open>Files (commands/files.rs)\<close>

text \<open>The last component of a path, as \<open>Path::file_name\<close> finds it on Unix.\<close>

definition path_file_name :: "string \<Rightarrow> string option" where
  "path_file_name p =
     (case rev (filter (\<lambda>c. c \<noteq> [] \<and> c \<noteq> ''.'') (split_char (CHR ''/'') p)) of
        [] \<Rightarrow> None
      | c # cs \<Rightarrow> if c = ''..'' then None else Some c)"

definition no_such_file :: string where
  "no_such_file = ''No such file or directory (os error 2)''"

definition read_file :: "string \<Rightarrow> string \<Rightarrow> 'w desktop \<Rightarrow> (msg, string) outcome" where
  "read_file what path d = ok_or (Msg what [AStr no_such_file]) (tget (dk_files d) path)"

definition file_path :: "string \<Rightarrow> string \<Rightarrow> string" where
  "file_path i v = ''/api/instances/'' @ i @ ''/files/'' @ v"

definition upload_part :: "'w http_client \<Rightarrow> string \<Rightarrow> string \<Rightarrow> upload_field" where
  "upload_part hc path data =
     \<lparr>uf_file_name = Some (case path_file_name path of None \<Rightarrow> ''unknown'' | Some n \<Rightarrow> n),
      uf_content_type = Some (hc_mime_guess hc path), uf_bytes = Inr (map of_char data)\<rparr>"

definition cmd_upload_instance_file ::
  "'w http_client \<Rightarrow> string \<Rightarrow> string \<Rightarrow> string \<Rightarrow> 'w desktop \<Rightarrow> ('w, json) commanded" where
  "cmd_upload_instance_file hc i v path d =
     bindR (liftR d (get_base_url d)) (\<lambda>d base.
     bindR (liftR d (read_file ''Cannot read file: {}'' path d)) (\<lambda>d data.
     case hc_mime_str hc (hc_mime_guess hc path) of
       Some er \<Rightarrow> (d, Err (Msg ''{}'' [AStr er]))
     | None \<Rightarrow>
         bindR (send hc ''{}'' \<lparr>cr_method = POST, cr_url = base @ file_path i v, cr_query = [],
                                cr_body = FormBody (Inr (Some (upload_part hc path data)))\<rparr> d) (\<lambda>d a.
           (d, if success (ha_status a) then Ok (JObj [(''status'', JStr ''success'')])
               else Err (Msg ''Upload failed with status: {}'' [ANat (ha_status a)])))))"

definition cmd_download_instance_file ::
  "'w http_client \<Rightarrow> string \<Rightarrow> string \<Rightarrow> string \<Rightarrow> 'w desktop \<Rightarrow> ('w, unit) commanded" where
  "cmd_download_instance_file hc i v path d =
     bindR (liftR d (get_base_url d)) (\<lambda>d base.
     bindR (send hc ''{}'' \<lparr>cr_method = GET, cr_url = base @ file_path i v, cr_query = [], cr_body = NoBody\<rparr> d) (\<lambda>d a.
       if success (ha_status a) then
         (case ha_body a of
            Inl er \<Rightarrow> (d, Err (Msg ''{}'' [AStr er]))
          | Inr data \<Rightarrow>
              (case hc_write hc path of
                 Some er \<Rightarrow> (d, Err (Msg ''Cannot write file: {}'' [AStr er]))
               | None \<Rightarrow> (d\<lparr>dk_files := tput path data (dk_files d)\<rparr>, Ok ())))
       else (d, Err (Msg ''Download failed with status: {}'' [ANat (ha_status a)]))))"

definition cmd_delete_instance_file ::
  "'w http_client \<Rightarrow> string \<Rightarrow> string \<Rightarrow> 'w desktop \<Rightarrow> ('w, unit) commanded" where
  "cmd_delete_instance_file hc i v = api_delete hc (file_path i v)"

section \<open>Monitoring (commands/monitoring.rs)\<close>

definition cmd_get_api_url :: "'w desktop \<Rightarrow> ('w, string) commanded" where
  "cmd_get_api_url d = (d, get_base_url d)"

definition trim_slashes :: "string \<Rightarrow> string" where
  "trim_slashes url = rev (dropWhile (\<lambda>c. c = CHR ''/'') (rev url))"

definition cmd_set_api_url :: "string \<Rightarrow> 'w desktop \<Rightarrow> ('w, unit) commanded" where
  "cmd_set_api_url url d =
     (if dk_poisoned d then (d, Err (Msg ''{}'' [AStr poison_text]))
      else (d\<lparr>dk_base_url := trim_slashes url\<rparr>, Ok ()))"

text \<open>The copies of the server's records; the two of \<open>StorageInfo\<close> and \<open>BucketInfo\<close> have the same fields.\<close>

record monitoring_view =
  mv_definitions :: nat
  mv_instances_total :: nat
  mv_instances_running :: nat
  mv_instances_completed :: nat
  mv_user_tasks :: nat
  mv_service_tasks :: nat
  mv_timers :: nat
  mv_message_catches :: nat
  mv_storage_info :: "storage_info option"

definition de_bucket_info :: "json \<Rightarrow> bucket_info option" where
  "de_bucket_info j =
     (case de_struct [(''name'', False), (''bucket_type'', False), (''entries'', False), (''size_bytes'', False)] j of
        Some [n, t, e, b] \<Rightarrow>
          do { name \<leftarrow> de_field de_string n; kind \<leftarrow> de_field de_string t; es \<leftarrow> de_field de_u64 e;
               bytes \<leftarrow> de_field de_u64 b;
               Some \<lparr>bi_name = name, bi_bucket_type = kind, bi_entries = es, bi_size_bytes = bytes\<rparr> }
      | _ \<Rightarrow> None)"

definition de_u16 :: "json \<Rightarrow> nat option" where
  "de_u16 j = map_option nat (de_int 0 (2 ^ 16) j)"

definition de_storage_info :: "json \<Rightarrow> storage_info option" where
  "de_storage_info j =
     (case de_struct [(''backend_name'', False), (''version'', False), (''host'', False), (''port'', False),
                      (''memory_bytes'', False), (''storage_bytes'', False), (''streams'', False),
                      (''consumers'', False), (''buckets'', True)] j of
        Some [n, v, h, p, m, st, ss, cs, bs] \<Rightarrow>
          do { name \<leftarrow> de_field de_string n; ver \<leftarrow> de_field de_string v; host \<leftarrow> de_field de_string h;
               port \<leftarrow> de_field de_u16 p; memory_bytes \<leftarrow> de_field de_u64 m; storage_bytes \<leftarrow> de_field de_u64 st;
               streams \<leftarrow> de_field de_u64 ss; consumers \<leftarrow> de_field de_u64 cs;
               buckets \<leftarrow> de_default [] (de_list de_bucket_info) bs;
               Some \<lparr>si_backend_name = name, si_version = ver, si_host = host, si_port = port,
                     si_memory_bytes = memory_bytes, si_storage_bytes = storage_bytes, si_streams = streams,
                     si_consumers = consumers, si_buckets = buckets\<rparr> }
      | _ \<Rightarrow> None)"

definition de_monitoring_view :: "json \<Rightarrow> monitoring_view option" where
  "de_monitoring_view j =
     (case de_struct [(''definitions_count'', False), (''instances_total'', False), (''instances_running'', False),
                      (''instances_completed'', False), (''pending_user_tasks'', False),
                      (''pending_service_tasks'', False), (''pending_timers'', True),
                      (''pending_message_catches'', True), (''storage_info'', False)] j of
        Some [ds, it, ir, ic, ut, st, ti, mc, si] \<Rightarrow>
          do { defs \<leftarrow> de_field de_u64 ds; total \<leftarrow> de_field de_u64 it; running \<leftarrow> de_field de_u64 ir;
               completed \<leftarrow> de_field de_u64 ic; user_tasks \<leftarrow> de_field de_u64 ut;
               service_tasks \<leftarrow> de_field de_u64 st; timers \<leftarrow> de_default 0 de_u64 ti;
               catches \<leftarrow> de_default 0 de_u64 mc; info \<leftarrow> de_option de_storage_info si;
               Some \<lparr>mv_definitions = defs, mv_instances_total = total, mv_instances_running = running,
                     mv_instances_completed = completed, mv_user_tasks = user_tasks,
                     mv_service_tasks = service_tasks, mv_timers = timers, mv_message_catches = catches,
                     mv_storage_info = info\<rparr> }
      | _ \<Rightarrow> None)"

text \<open>The texts are German; the second holds a letter outside ASCII.\<close>

definition invalid_answer :: string where
  "invalid_answer = ''Ung'' @ [CHR 0xC3, CHR 0xBC] @ ''ltige Antwort: {e}''"

definition cmd_get_monitoring_data :: "'w http_client \<Rightarrow> 'w desktop \<Rightarrow> ('w, monitoring_view) commanded" where
  "cmd_get_monitoring_data hc d =
     bindR (liftR d (get_base_url d)) (\<lambda>d base.
     bindR (send hc ''Verbindung fehlgeschlagen: {e}''
              \<lparr>cr_method = GET, cr_url = base @ ''/api/monitoring'', cr_query = [], cr_body = NoBody\<rparr> d) (\<lambda>d a.
       (d, if success (ha_status a)
           then and_then (json_of hc invalid_answer a) (\<lambda>j. ok_or (Msg invalid_answer []) (de_monitoring_view j))
           else Err (Msg ''Engine antwortete mit Status {}'' [ANat (ha_status a)]))))"

definition cmd_get_log_entries ::
  "'w http_client \<Rightarrow> string option \<Rightarrow> string option \<Rightarrow> nat option \<Rightarrow> 'w desktop \<Rightarrow> ('w, json) commanded" where
  "cmd_get_log_entries hc level search n d =
     bindR (liftR d (get_base_url d)) (\<lambda>d base.
     bindR (send hc ''{}'' \<lparr>cr_method = GET, cr_url = base @ ''/api/logs'',
                            cr_query = optional ''level'' level @ optional ''search'' search
                              @ optional ''limit'' (map_option show_nat n), cr_body = NoBody\<rparr> d) (\<lambda>d a.
       (d, if success (ha_status a) then json_of hc ''{}'' a
           else Err (Msg ''Status {}'' [ANat (ha_status a)]))))"

definition cmd_read_bpmn_file :: "string \<Rightarrow> 'w desktop \<Rightarrow> ('w, string) commanded" where
  "cmd_read_bpmn_file path d =
     (d, let failed = (\<lambda>er. Err (Msg ''Could not read file '{}': {}'' [AStr path, AStr er]))
         in case tget (dk_files d) path of
              None \<Rightarrow> failed no_such_file
            | Some t \<Rightarrow> if utf8 t then Ok t else failed ''stream did not contain valid UTF-8'')"

definition text_or_unknown :: "http_answer \<Rightarrow> string" where
  "text_or_unknown a = (case ha_body a of Inl er \<Rightarrow> ''Unknown error'' | Inr t \<Rightarrow> t)"

definition get_json :: "'w http_client \<Rightarrow> string \<Rightarrow> 'w desktop \<Rightarrow> ('w, json) commanded" where
  "get_json hc path d =
     bindR (liftR d (get_base_url d)) (\<lambda>d base.
     bindR (send hc ''{}'' \<lparr>cr_method = GET, cr_url = base @ path, cr_query = [], cr_body = NoBody\<rparr> d) (\<lambda>d a.
       (d, if success (ha_status a) then json_of hc ''{}'' a else Err (Msg ''{}'' [AStr (text_or_unknown a)]))))"

definition cmd_get_bucket_entries ::
  "'w http_client \<Rightarrow> string \<Rightarrow> nat \<Rightarrow> nat \<Rightarrow> 'w desktop \<Rightarrow> ('w, json) commanded" where
  "cmd_get_bucket_entries hc bucket offset n =
     get_json hc (''/api/monitoring/buckets/'' @ bucket @ ''/entries?offset='' @ show_nat offset
                    @ ''&limit='' @ show_nat n)"

definition cmd_get_bucket_entry_detail ::
  "'w http_client \<Rightarrow> string \<Rightarrow> string \<Rightarrow> 'w desktop \<Rightarrow> ('w, json) commanded" where
  "cmd_get_bucket_entry_detail hc bucket key =
     get_json hc (''/api/monitoring/buckets/'' @ bucket @ ''/entries/'' @ key)"

section \<open>The dispatch (main.rs)\<close>

text \<open>The commands with their arguments, by the file that declares them, and what they return.\<close>

datatype deploy_command =
    DeploySimple
  | DeployDefinition string string
  | ListDefinitionsCmd
  | GetDefinitionXmlCmd string
  | DeleteDefinitionCmd string bool
  | DeleteAllDefinitionsCmd string bool

datatype instance_command =
    StartCmd string "vars option"
  | StartTimerCmd string "vars option"
  | ListInstancesCmd
  | GetDetailsCmd string
  | GetHistoryCmd string "string option" "string option"
  | UpdateVariablesCmd string vars
  | SuspendCmd string
  | ResumeCmd string
  | MoveTokenCmd string string "vars option" "bool option"
  | MigrateCmd string string "(string, string) table option"
  | DeleteInstanceCmd string
  | QueryCompletedCmd completed_filter
  | GetCompletedCmd string
  | CorrelateCmd string "string option" "vars option"

datatype task_command =
    PendingTasksCmd
  | CompleteTaskCmd string "vars option"
  | PendingServiceTasksCmd
  | FetchCmd string nat string int
  | CompleteServiceTaskCmd string string "vars option"
  | RetryCmd string "int option"
  | ResolveCmd string "vars option"
  | PendingTimersCmd
  | PendingMessagesCmd

datatype other_command =
    UploadCmd string string string
  | DownloadCmd string string string
  | DeleteFileCmd string string
  | GetUrlCmd
  | SetUrlCmd string
  | MonitoringCmd
  | BucketEntriesCmd string nat nat
  | BucketEntryCmd string string
  | LogsCmd "string option" "string option" "nat option"
  | ReadFileCmd string

datatype desktop_command =
    DeployC deploy_command | InstanceC instance_command | TaskC task_command | OtherC other_command

datatype reply = RUnit | RText string | RTexts "string list" | RJson json | RMonitoring monitoring_view

definition replying :: "('a \<Rightarrow> reply) \<Rightarrow> ('w, 'a) commanded \<Rightarrow> ('w, reply) commanded" where
  "replying f r = bindR r (\<lambda>d x. (d, Ok (f x)))"

abbreviation unit_reply :: "('w, unit) commanded \<Rightarrow> ('w, reply) commanded" where
  "unit_reply \<equiv> replying (\<lambda>x. RUnit)"

primrec run_deploy :: "'w http_client \<Rightarrow> deploy_command \<Rightarrow> 'w desktop \<Rightarrow> ('w, reply) commanded" where
  "run_deploy hc DeploySimple d = replying RText (cmd_deploy_simple_process d)"
| "run_deploy hc (DeployDefinition xml name) d = replying RText (cmd_deploy_definition hc xml name d)"
| "run_deploy hc ListDefinitionsCmd d = replying RJson (cmd_list_definitions hc d)"
| "run_deploy hc (GetDefinitionXmlCmd i) d = replying RText (cmd_get_definition_xml hc i d)"
| "run_deploy hc (DeleteDefinitionCmd i c) d = unit_reply (cmd_delete_definition hc i c d)"
| "run_deploy hc (DeleteAllDefinitionsCmd b c) d = unit_reply (cmd_delete_all_definitions hc b c d)"

primrec run_instance :: "'w http_client \<Rightarrow> instance_command \<Rightarrow> 'w desktop \<Rightarrow> ('w, reply) commanded" where
  "run_instance hc (StartCmd k vs) d = replying RText (cmd_start_instance hc k vs d)"
| "run_instance hc (StartTimerCmd k vs) d = replying RText (cmd_start_timer_instance hc k vs d)"
| "run_instance hc ListInstancesCmd d = replying RJson (cmd_list_instances hc d)"
| "run_instance hc (GetDetailsCmd i) d = replying RJson (cmd_get_instance_details hc i d)"
| "run_instance hc (GetHistoryCmd i ets ats) d = replying RJson (cmd_get_instance_history hc i ets ats d)"
| "run_instance hc (UpdateVariablesCmd i vs) d = unit_reply (cmd_update_instance_variables hc i vs d)"
| "run_instance hc (SuspendCmd i) d = unit_reply (cmd_suspend_instance hc i d)"
| "run_instance hc (ResumeCmd i) d = unit_reply (cmd_resume_instance hc i d)"
| "run_instance hc (MoveTokenCmd i n vs c) d = unit_reply (cmd_move_token hc i n vs c d)"
| "run_instance hc (MigrateCmd i k m) d = unit_reply (cmd_migrate_instance hc i k m d)"
| "run_instance hc (DeleteInstanceCmd i) d = unit_reply (cmd_delete_instance hc i d)"
| "run_instance hc (QueryCompletedCmd f) d = replying RJson (cmd_query_completed_instances hc f d)"
| "run_instance hc (GetCompletedCmd i) d = replying RJson (cmd_get_completed_instance hc i d)"
| "run_instance hc (CorrelateCmd n bk vs) d = replying RTexts (cmd_correlate_message hc n bk vs d)"

primrec run_task :: "'w http_client \<Rightarrow> task_command \<Rightarrow> 'w desktop \<Rightarrow> ('w, reply) commanded" where
  "run_task hc PendingTasksCmd d = replying RJson (cmd_get_pending_tasks hc d)"
| "run_task hc (CompleteTaskCmd u vs) d = unit_reply (cmd_complete_task hc u vs d)"
| "run_task hc PendingServiceTasksCmd d = replying RJson (cmd_get_pending_service_tasks hc d)"
| "run_task hc (FetchCmd w n t l) d = replying RJson (cmd_fetch_and_lock_service_tasks hc w n t l d)"
| "run_task hc (CompleteServiceTaskCmd u w vs) d = unit_reply (cmd_complete_service_task hc u w vs d)"
| "run_task hc (RetryCmd u n) d = unit_reply (cmd_retry_incident hc u n d)"
| "run_task hc (ResolveCmd u vs) d = unit_reply (cmd_resolve_incident hc u vs d)"
| "run_task hc PendingTimersCmd d = replying RJson (cmd_get_pending_timers hc d)"
| "run_task hc PendingMessagesCmd d = replying RJson (cmd_get_pending_message_catches hc d)"

primrec run_other :: "'w http_client \<Rightarrow> other_command \<Rightarrow> 'w desktop \<Rightarrow> ('w, reply) commanded" where
  "run_other hc (UploadCmd i v path) d = replying RJson (cmd_upload_instance_file hc i v path d)"
| "run_other hc (DownloadCmd i v path) d = unit_reply (cmd_download_instance_file hc i v path d)"
| "run_other hc (DeleteFileCmd i v) d = unit_reply (cmd_delete_instance_file hc i v d)"
| "run_other hc GetUrlCmd d = replying RText (cmd_get_api_url d)"
| "run_other hc (SetUrlCmd url) d = unit_reply (cmd_set_api_url url d)"
| "run_other hc MonitoringCmd d = replying RMonitoring (cmd_get_monitoring_data hc d)"
| "run_other hc (BucketEntriesCmd b off n) d = replying RJson (cmd_get_bucket_entries hc b off n d)"
| "run_other hc (BucketEntryCmd b k) d = replying RJson (cmd_get_bucket_entry_detail hc b k d)"
| "run_other hc (LogsCmd lev q n) d = replying RJson (cmd_get_log_entries hc lev q n d)"
| "run_other hc (ReadFileCmd path) d = replying RText (cmd_read_bpmn_file path d)"

primrec run_command :: "'w http_client \<Rightarrow> desktop_command \<Rightarrow> 'w desktop \<Rightarrow> ('w, reply) commanded" where
  "run_command hc (DeployC c) d = run_deploy hc c d"
| "run_command hc (InstanceC c) d = run_instance hc c d"
| "run_command hc (TaskC c) d = run_task hc c d"
| "run_command hc (OtherC c) d = run_other hc c d"

definition initial_desktop :: "string option \<Rightarrow> 'w \<Rightarrow> (string, string) table \<Rightarrow> 'w desktop" where
  "initial_desktop engine_api_url w fs =
     \<lparr>dk_base_url = (case engine_api_url of None \<Rightarrow> ''http://localhost:8081'' | Some u \<Rightarrow> u), dk_poisoned = False,
      dk_world = w, dk_files = fs\<rparr>"

end
