(* ===== verification/EventStream.thy ===== *)
theory EventStream
  imports Desktop "HOL-Library.Sublist"
begin

text \<open>
  The event stream: the endpoint of the server (\<open>engine-server/src/server/events.rs\<close>), the consumer of the desktop
  application (\<open>desktop-tauri/src-tauri/src/sse_consumer.rs\<close>) with its reconnections, and what arrives at its end.
\<close>

section \<open>A subscription\<close>

text \<open>
  A receiver of the broadcast channel is the number of events it is past. The channel keeps the last 256: a
  receiver further behind learns how many it missed and goes on with the oldest one kept.
\<close>

definition channel_capacity :: nat where
  "channel_capacity = 256"

datatype received = Received engine_event | Lagged nat

definition subscribe_events :: "'p engine \<Rightarrow> nat" where
  "subscribe_events e = length (en_events e)"

definition recv :: "engine_event list \<Rightarrow> nat \<Rightarrow> (received \<times> nat) option" where
  "recv evs pos =
     (let oldest = length evs - channel_capacity
      in if pos < oldest then Some (Lagged (oldest - pos), oldest)
         else if pos < length evs then Some (Received (evs ! pos), Suc pos)
         else None)"

fun event_name :: "engine_event \<Rightarrow> string" where
  "event_name EvInstanceChanged = ''instance_changed''"
| "event_name EvTaskChanged = ''task_changed''"
| "event_name EvDefinitionChanged = ''definition_changed''"

definition kept :: "received \<Rightarrow> engine_event list" where
  "kept r = (case r of Received ev \<Rightarrow> [ev] | Lagged n \<Rightarrow> [])"

text \<open>
  The stream of one client. It is polled when the channel has seen the given numbers of events; a poll yields the
  next event, or nothing. \<open>None\<close> in the list is a tick of the keep-alive timer.
\<close>

fun engine_events :: "engine_event list \<Rightarrow> nat option list \<Rightarrow> nat \<Rightarrow> engine_event option list \<times> nat" where
  "engine_events evs [] pos = ([], pos)"
| "engine_events evs (None # ns) pos = (case engine_events evs ns pos of (out, p) \<Rightarrow> (None # out, p))"
| "engine_events evs (Some n # ns) pos =
     (case recv (take n evs) pos of
        None \<Rightarrow> engine_events evs ns pos
      | Some (r, pos') \<Rightarrow> (case engine_events evs ns pos' of (out, p) \<Rightarrow> (map Some (kept r) @ out, p)))"

text \<open>The text of an event with a name and data, and of the keep-alive comment (axum).\<close>

record sse_writer =
  sw_event :: "string \<Rightarrow> string \<Rightarrow> string"
  sw_keep_alive :: string

definition stream_text :: "sse_writer \<Rightarrow> engine_event option list \<Rightarrow> string" where
  "stream_text sw items =
     concat (map (\<lambda>x. case x of None \<Rightarrow> sw_keep_alive sw | Some ev \<Rightarrow> sw_event sw (event_name ev) []) items)"

section \<open>The consumer\<close>

text \<open>The types emitted for the lines from here on; a line that is not UTF-8 ends the loop.\<close>

fun consume :: "string list \<Rightarrow> string \<Rightarrow> string list" where
  "consume [] event_type = []"
| "consume (l # ls) event_type =
     (if \<not> utf8 l then []
      else if starts_with l ''event:'' then consume ls (trim (drop 6 l))
      else if starts_with l ''data:'' then
        (if event_type \<noteq> [] then event_type # consume ls event_type else consume ls event_type)
      else if l = [] then consume ls []
      else consume ls event_type)"

definition connect_and_consume :: "(string, http_answer) outcome \<Rightarrow> string list \<times> (msg, unit) outcome" where
  "connect_and_consume response =
     (case response of
        Err er \<Rightarrow> ([], Err (Msg ''{}'' [AStr er]))
      | Diverged \<Rightarrow> ([], Diverged)
      | Ok a \<Rightarrow>
          if \<not> success (ha_status a) then ([], Err (Msg ''HTTP {}'' [ANat (ha_status a)]))
          else (consume (file_lines [] (body_text a)) [], Ok ()))"

text \<open>
  The loop over the attempts: the sleeps between them, in seconds, and all types emitted. An attempt that never
  ends is the last.
\<close>

fun run_consumer :: "(string, http_answer) outcome list \<Rightarrow> nat \<Rightarrow> nat list \<times> string list" where
  "run_consumer [] backoff = ([], [])"
| "run_consumer (r # rs) backoff =
     (case connect_and_consume r of
        (out, Diverged) \<Rightarrow> ([], out)
      | (out, res) \<Rightarrow>
          (let pause = (if res = Ok () then 1 else backoff)
           in case run_consumer rs (min (pause * 2) 30) of (sleeps, later) \<Rightarrow> (pause # sleeps, out @ later)))"

definition event_stream_request :: "string \<Rightarrow> client_request" where
  "event_stream_request base = \<lparr>cr_method = GET, cr_url = base @ ''/api/events'', cr_query = [], cr_body = NoBody\<rparr>"

section \<open>What the stream delivers\<close>

definition delivered :: "engine_event list \<Rightarrow> nat option list \<Rightarrow> nat \<Rightarrow> engine_event list" where
  "delivered evs ns pos = List.map_filter (\<lambda>x. x) (fst (engine_events evs ns pos))"

definition position :: "engine_event list \<Rightarrow> nat option list \<Rightarrow> nat \<Rightarrow> nat" where
  "position evs ns pos = snd (engine_events evs ns pos)"

lemma delivered_simps [simp]:
  "delivered evs [] pos = []" "position evs [] pos = pos"
  "delivered evs (None # ns) pos = delivered evs ns pos" "position evs (None # ns) pos = position evs ns pos"
  by (simp_all add: delivered_def position_def case_prod_unfold map_filter_simps)

lemma map_filter_Some [simp]: "List.map_filter (\<lambda>x. x) (map Some xs @ ys) = xs @ List.map_filter (\<lambda>x. x) ys"
  by (induction xs) (simp_all add: map_filter_simps)

lemma delivered_poll:
  "delivered evs (Some n # ns) pos =
     (case recv (take n evs) pos of
        None \<Rightarrow> delivered evs ns pos
      | Some (r, pos') \<Rightarrow> kept r @ delivered evs ns pos')"
  "position evs (Some n # ns) pos =
     (case recv (take n evs) pos of None \<Rightarrow> position evs ns pos | Some (r, pos') \<Rightarrow> position evs ns pos')"
  by (auto simp: delivered_def position_def case_prod_unfold split: option.split)

text \<open>What a poll can do: nothing, skip to the oldest event kept, or take the next one.\<close>

lemma recv_cases:
  assumes "pos \<le> length evs" and "recv (take n evs) pos = Some (r, pos')"
  shows "(r = Lagged (pos' - pos) \<and> pos < pos' \<and> pos' + channel_capacity = length (take n evs)) \<or>
         (r = Received (evs ! pos) \<and> pos' = Suc pos \<and> pos < length evs)"
    and "pos' \<le> length evs"
  using assms by (auto simp: recv_def Let_def channel_capacity_def split: if_splits)

definition oldest_kept :: "engine_event list \<Rightarrow> nat \<Rightarrow> nat" where
  "oldest_kept evs pos = max pos (length evs - channel_capacity)"

lemma drop_later:
  assumes "pos \<le> pos'" and "pos' \<le> k" and "subseq xs (take (k - pos') (drop pos' evs))"
  shows "subseq xs (take (k - pos) (drop pos evs))"
proof -
  have "drop (pos' - pos) (take (k - pos) (drop pos evs)) = take (k - pos') (drop pos' evs)"
    using assms(1,2) by (simp add: drop_take)
  then show ?thesis
    using assms(3) by (metis append_take_drop_id list_emb_append2)
qed

lemma delivered_when_caught_up:
  assumes "pos \<le> length evs" and "position evs ns pos = length evs"
  shows "\<exists>xs. delivered evs ns pos = xs @ drop (oldest_kept evs pos) evs \<and>
    subseq xs (take (oldest_kept evs pos - pos) (drop pos evs))"
  using assms
proof (induction ns arbitrary: pos)
  case Nil
  then show ?case by (simp add: oldest_kept_def)
next
  case (Cons t ns)
  show ?case
  proof (cases t)
    case None
    then show ?thesis using Cons by simp
  next
    case (Some n)
    show ?thesis
    proof (cases "recv (take n evs) pos")
      case None
      then show ?thesis using Cons Some by (simp add: delivered_poll)
    next
      case (Some rp)
      obtain r pos' where rp: "rp = (r, pos')" by (cases rp)
      note p = Some [unfolded rp]
      have at_end: "position evs ns pos' = length evs"
        using Cons.prems(2) \<open>t = Some n\<close> p by (simp add: delivered_poll)
      note moved = recv_cases [OF Cons.prems(1) p]
      obtain xs where xs: "delivered evs ns pos' = xs @ drop (oldest_kept evs pos') evs"
        "subseq xs (take (oldest_kept evs pos' - pos') (drop pos' evs))"
        using Cons.IH [OF moved(2) at_end] by blast
      have d: "delivered evs (t # ns) pos = kept r @ delivered evs ns pos'"
        using \<open>t = Some n\<close> p by (simp add: delivered_poll)
      from moved(1) show ?thesis
      proof
        assume lag: "r = Lagged (pos' - pos) \<and> pos < pos' \<and> pos' + channel_capacity = length (take n evs)"
        then have k: "oldest_kept evs pos' = oldest_kept evs pos" "pos' \<le> oldest_kept evs pos"
          by (auto simp: oldest_kept_def)
        have "subseq xs (take (oldest_kept evs pos - pos) (drop pos evs))"
          using xs(2) lag k by (intro drop_later [of pos pos']) auto
        then show ?thesis using d xs(1) lag k by (simp add: kept_def)
      next
        assume nxt: "r = Received (evs ! pos) \<and> pos' = Suc pos \<and> pos < length evs"
        then have dp: "drop pos evs = evs ! pos # drop (Suc pos) evs" by (simp add: Cons_nth_drop_Suc)
        show ?thesis
        proof (cases "length evs - channel_capacity \<le> pos")
          case True
          then have "oldest_kept evs pos = pos" "oldest_kept evs pos' = Suc pos"
            using nxt by (simp_all add: oldest_kept_def)
          then show ?thesis using d xs nxt dp by (intro exI [of _ "[]"]) (simp add: kept_def)
        next
          case False
          then have k: "oldest_kept evs pos = length evs - channel_capacity"
            "oldest_kept evs pos' = length evs - channel_capacity" using nxt by (simp_all add: oldest_kept_def)
          have "oldest_kept evs pos - pos = Suc (oldest_kept evs pos - Suc pos)" using False k by simp
          then have "take (oldest_kept evs pos - pos) (drop pos evs)
                  = evs ! pos # take (oldest_kept evs pos - Suc pos) (drop (Suc pos) evs)"
            by (simp only: dp take_Suc_Cons)
          then show ?thesis using d xs nxt k by (intro exI [of _ "evs ! pos # xs"]) (simp add: kept_def)
        qed
      qed
    qed
  qed
qed

section \<open>What the consumer reads\<close>

text \<open>
  The format of server-sent events: a field is its name, a colon, perhaps a space and the value; a blank line ends
  an event; a line that begins with a colon is a comment.
\<close>

definition sse_writer_ok :: "sse_writer \<Rightarrow> bool" where
  "sse_writer_ok sw \<longleftrightarrow>
     (\<forall>ev. \<exists>a \<in> {[], '' ''}. \<exists>b \<in> {[], '' ''}.
        sw_event sw (event_name ev) []
          = ''event:'' @ a @ event_name ev @ [newline] @ ''data:'' @ b @ [newline] @ [newline]) \<and>
     (\<exists>c. list_all (in_range 0x20 0x7E) c \<and> sw_keep_alive sw = CHR '':'' # c @ [newline] @ [newline])"

lemma file_lines_Cons:
  "newline \<notin> set l \<Longrightarrow> file_lines [] (l @ newline # t) = strip_cr l # file_lines [] t"
  using file_lines_append [of "[]" l t] file_lines_line [of l "[]"] by simp

lemma frame_lines:
  assumes "a \<in> {[], '' ''}"
  shows "newline \<notin> set (''event:'' @ a @ event_name ev)" "strip_cr (''event:'' @ a @ event_name ev) = ''event:'' @ a @ event_name ev"
    "utf8 (''event:'' @ a @ event_name ev)" "trim (a @ event_name ev) = event_name ev" "event_name ev \<noteq> []"
    "newline \<notin> set (''data:'' @ a)" "strip_cr (''data:'' @ a) = ''data:'' @ a" "utf8 (''data:'' @ a)"
proof -
  have "\<forall>a \<in> set [[], '' '']. \<forall>ev \<in> set [EvInstanceChanged, EvTaskChanged, EvDefinitionChanged].
    newline \<notin> set (''event:'' @ a @ event_name ev) \<and> strip_cr (''event:'' @ a @ event_name ev) = ''event:'' @ a @ event_name ev \<and>
    utf8 (''event:'' @ a @ event_name ev) \<and> trim (a @ event_name ev) = event_name ev \<and> event_name ev \<noteq> [] \<and>
    newline \<notin> set (''data:'' @ a) \<and> strip_cr (''data:'' @ a) = ''data:'' @ a \<and> utf8 (''data:'' @ a)"
    by code_simp
  moreover have "ev \<in> set [EvInstanceChanged, EvTaskChanged, EvDefinitionChanged]" by (cases ev) simp_all
  moreover have "a \<in> set [[], '' '']" using assms by auto
  ultimately show "newline \<notin> set (''event:'' @ a @ event_name ev)" "strip_cr (''event:'' @ a @ event_name ev) = ''event:'' @ a @ event_name ev"
    "utf8 (''event:'' @ a @ event_name ev)" "trim (a @ event_name ev) = event_name ev" "event_name ev \<noteq> []"
    "newline \<notin> set (''data:'' @ a)" "strip_cr (''data:'' @ a) = ''data:'' @ a" "utf8 (''data:'' @ a)"
    by blast+
qed

lemma consume_event:
  assumes "a \<in> {[], '' ''}" and "b \<in> {[], '' ''}"
  shows "consume (file_lines [] (''event:'' @ a @ event_name ev @ [newline] @ ''data:'' @ b @ [newline] @ [newline] @ t)) []
    = event_name ev # consume (file_lines [] t) []"
proof -
  have nil: "file_lines [] ([] @ newline # t) = [] # file_lines [] t"
    by (subst file_lines_Cons) (simp_all add: strip_cr_def)
  have data: "file_lines [] ((''data:'' @ b) @ newline # [] @ newline # t) = (''data:'' @ b) # [] # file_lines [] t"
    by (simp only: file_lines_Cons [OF frame_lines(6) [OF assms(2)]] frame_lines(7) [OF assms(2)] nil)
  have "file_lines [] ((''event:'' @ a @ event_name ev) @ newline # (''data:'' @ b) @ newline # [] @ newline # t)
    = (''event:'' @ a @ event_name ev) # (''data:'' @ b) # [] # file_lines [] t"
    by (simp only: file_lines_Cons [OF frame_lines(1) [OF assms(1)]] frame_lines(2) [OF assms(1)] data)
  moreover have "''event:'' @ a @ event_name ev @ [newline] @ ''data:'' @ b @ [newline] @ [newline] @ t
    = (''event:'' @ a @ event_name ev) @ newline # (''data:'' @ b) @ newline # [] @ newline # t"
    by simp
  ultimately have "file_lines [] (''event:'' @ a @ event_name ev @ [newline] @ ''data:'' @ b @ [newline] @ [newline] @ t)
    = (''event:'' @ a @ event_name ev) # (''data:'' @ b) # [] # file_lines [] t"
    by (simp only:)
  then show ?thesis
    using frame_lines(3-5) [OF assms(1), of ev] frame_lines(8) [OF assms(2)]
    by (simp del: file_lines.simps utf8.simps(2))
qed

lemma consume_comment:
  assumes "list_all (in_range 0x20 0x7E) c"
  shows "consume (file_lines [] (CHR '':'' # c @ [newline] @ [newline] @ t)) [] = consume (file_lines [] t) []"
proof -
  let ?l = "CHR '':'' # c"
  have r: "list_all (in_range 0x20 0x7E) ?l" using assms by (simp add: in_range_def)
  then have "newline \<notin> set ?l" by (auto simp: list_all_iff in_range_def newline_def)
  moreover have "CHR 0x0D \<notin> set ?l" using r by (auto simp: list_all_iff in_range_def)
  then have "strip_cr ?l = ?l" by (auto simp: strip_cr_def dest: last_in_set)
  ultimately have "file_lines [] (?l @ newline # newline # t) = ?l # [] # file_lines [] t"
    using file_lines_Cons [of ?l "newline # t"] file_lines_Cons [of "[]" t]
    by (simp del: file_lines.simps add: strip_cr_def [of "[]"])
  moreover have "utf8 ?l" using r by (intro ascii_utf8) (auto simp: list_all_iff in_range_def)
  ultimately show ?thesis by (simp del: file_lines.simps utf8.simps(2))
qed

lemma consume_stream:
  assumes "sse_writer_ok sw"
  shows "consume (file_lines [] (stream_text sw items)) [] = map event_name (List.map_filter (\<lambda>x. x) items)"
proof (induction items)
  case Nil
  show ?case by (simp add: stream_text_def map_filter_simps)
next
  case (Cons x items)
  show ?case
  proof (cases x)
    case None
    obtain c where "list_all (in_range 0x20 0x7E) c" "sw_keep_alive sw = CHR '':'' # c @ [newline] @ [newline]"
      using assms by (auto simp: sse_writer_ok_def)
    then show ?thesis
      using None Cons consume_comment [of c "stream_text sw items"] by (simp add: stream_text_def map_filter_simps)
  next
    case (Some ev)
    obtain a b where "a \<in> {[], '' ''}" "b \<in> {[], '' ''}" and
      "sw_event sw (event_name ev) [] = ''event:'' @ a @ event_name ev @ [newline] @ ''data:'' @ b @ [newline] @ [newline]"
      using assms unfolding sse_writer_ok_def by blast
    then show ?thesis
      using Some Cons consume_event [of a b ev "stream_text sw items"] by (simp add: stream_text_def map_filter_simps)
  qed
qed

definition stream_answer :: "sse_writer \<Rightarrow> engine_event list \<Rightarrow> nat option list \<Rightarrow> nat \<Rightarrow> http_answer" where
  "stream_answer sw evs ns pos = \<lparr>ha_status = 200, ha_body = Inr (stream_text sw (fst (engine_events evs ns pos)))\<rparr>"

text \<open>
  C39. What a subscriber of the event stream that has caught up was told: of the events since it subscribed all that
  the channel still holds, in order and last of all, after some of the earlier ones, in order too. When it subscribed
  at most 256 events ago nothing is lost: the desktop application emits exactly the events since then.
\<close>

theorem events_reach_the_desktop:
  assumes "sse_writer_ok sw" and "pos \<le> length evs" and "position evs ns pos = length evs"
  shows "(\<exists>xs. fst (connect_and_consume (Ok (stream_answer sw evs ns pos)))
             = map event_name (xs @ drop (oldest_kept evs pos) evs) \<and>
           subseq xs (take (oldest_kept evs pos - pos) (drop pos evs))) \<and>
    (length evs \<le> pos + 256 \<longrightarrow>
       fst (connect_and_consume (Ok (stream_answer sw evs ns pos))) = map event_name (drop pos evs))"
proof -
  have c: "fst (connect_and_consume (Ok (stream_answer sw evs ns pos))) = map event_name (delivered evs ns pos)"
    using consume_stream [OF assms(1)]
    by (simp add: connect_and_consume_def stream_answer_def success_def body_text_def delivered_def)
  obtain xs where xs: "delivered evs ns pos = xs @ drop (oldest_kept evs pos) evs"
    "subseq xs (take (oldest_kept evs pos - pos) (drop pos evs))"
    using delivered_when_caught_up [OF assms(2,3)] by blast
  moreover have "oldest_kept evs pos = pos" if "length evs \<le> pos + 256"
    using that by (simp add: oldest_kept_def channel_capacity_def)
  ultimately show ?thesis using c by auto
qed

definition plain_writer :: sse_writer where
  "plain_writer =
     \<lparr>sw_event = (\<lambda>n d. ''event: '' @ n @ [newline] @ ''data: '' @ d @ [newline] @ [newline]),
      sw_keep_alive = '':'' @ [newline] @ [newline]\<rparr>"

lemma plain_writer_ok: "sse_writer_ok plain_writer"
  unfolding sse_writer_ok_def
proof (intro conjI allI)
  fix ev
  show "\<exists>a \<in> {[], '' ''}. \<exists>b \<in> {[], '' ''}. sw_event plain_writer (event_name ev) []
          = ''event:'' @ a @ event_name ev @ [newline] @ ''data:'' @ b @ [newline] @ [newline]"
    by (intro bexI [of _ "'' ''"]) (simp_all add: plain_writer_def)
  show "\<exists>c. list_all (in_range 0x20 0x7E) c \<and> sw_keep_alive plain_writer = CHR '':'' # c @ [newline] @ [newline]"
    by (intro exI [of _ "[]"]) (simp add: plain_writer_def)
qed

theorem events_reach_the_desktop_witness:
  "fst (connect_and_consume (Ok (stream_answer plain_writer [EvDefinitionChanged, EvTaskChanged, EvInstanceChanged]
          [Some 2, None, Some 3, Some 3] 1))) = [''task_changed'', ''instance_changed'']"
proof -
  have "position [EvDefinitionChanged, EvTaskChanged, EvInstanceChanged] [Some 2, None, Some 3, Some 3] 1 = 3"
    by code_simp
  from events_reach_the_desktop [OF plain_writer_ok, of 1 _ "[Some 2, None, Some 3, Some 3]"] this
  show ?thesis by simp
qed

section \<open>The pauses between attempts\<close>

lemma pauses_bounded:
  assumes "1 \<le> b" and "b \<le> 30" and "p \<in> set (fst (run_consumer rs b))"
  shows "1 \<le> p \<and> p \<le> 30"
  using assms
proof (induction rs arbitrary: b)
  case (Cons r rs)
  obtain out res where r: "connect_and_consume r = (out, res)" by fastforce
  let ?pause = "if res = Ok () then 1 else b"
  show ?case
  proof (cases "res = Diverged")
    case True
    then show ?thesis using Cons.prems(3) r by simp
  next
    case False
    then have "fst (run_consumer (r # rs) b) = ?pause # fst (run_consumer rs (min (?pause * 2) 30))"
      using r by (cases res) (auto simp: Let_def case_prod_unfold)
    then show ?thesis using Cons.IH [of "min (?pause * 2) 30"] Cons.prems by auto
  qed
qed simp

text \<open>Failures in a row wait twice as long each time, up to half a minute; after a stream that ended it starts again.\<close>

lemma pauses_double:
  assumes "b \<le> 30" and "\<forall>r \<in> set rs. \<exists>er. snd (connect_and_consume r) = Err er" and "k < length rs"
  shows "fst (run_consumer rs b) ! k = min (b * 2 ^ k) 30"
  using assms
proof (induction rs arbitrary: b k)
  case (Cons r rs)
  obtain out er where "connect_and_consume r = (out, Err er)" using Cons.prems(2) by (cases "connect_and_consume r") auto
  then have e: "fst (run_consumer (r # rs) b) = b # fst (run_consumer rs (min (b * 2) 30))"
    by (simp add: case_prod_unfold)
  show ?case
  proof (cases k)
    case 0
    then show ?thesis using e Cons.prems(1) by simp
  next
    case (Suc m)
    have "fst (run_consumer rs (min (b * 2) 30)) ! m = min (min (b * 2) 30 * 2 ^ m) 30"
      using Cons.IH [of "min (b * 2) 30" m] Cons.prems Suc by simp
    also have "\<dots> = min (b * 2 ^ k) 30"
    proof (cases "b * 2 \<le> 30")
      case True
      then show ?thesis using Suc by (simp add: mult.assoc)
    next
      case False
      then have "30 \<le> b * 2" by simp
      moreover have "x \<le> x * 2 ^ m" for x :: nat by simp
      ultimately have "30 \<le> b * 2 * 2 ^ m" "(30::nat) \<le> 30 * 2 ^ m" by (blast intro: order_trans)+
      then have "min (b * 2 ^ k) 30 = 30" "min (30 * 2 ^ m) 30 = (30::nat)" "min (b * 2) 30 = 30"
        using \<open>30 \<le> b * 2\<close> Suc by (simp_all only: min_absorb2 power_Suc mult.assoc)
      then show ?thesis by (simp only:)
    qed
    finally show ?thesis using e Suc by simp
  qed
qed simp

end
