(* ===== verification/DesktopRequests.thy ===== *)
theory DesktopRequests
  imports Desktop
begin

text \<open>
  The desktop application against the server: the request each command puts on the wire is the one of its
  operation (a history command loses its filter by actor types on the way), and a command run against a server changes it as that request does and succeeds when it is answered
  with success.
\<close>

section \<open>The wire\<close>

text \<open>
  What the URL of a request and the pairs added to it are at the server, and the length of a body. For texts of
  letters, digits, hyphens and underscores (in values of the query also dots, commas and colons), which URLs hold as
  they are, these are the segments and pairs the text was made of; added pairs are encoded and arrive as they were.
\<close>

record wire =
  wi_target :: "string \<Rightarrow> query \<Rightarrow> string list \<times> query"
  wi_bytes :: "http_body \<Rightarrow> nat"

definition plain_char :: "char \<Rightarrow> bool" where
  "plain_char c \<longleftrightarrow> in_range 48 57 c \<or> in_range 65 90 c \<or> in_range 97 122 c \<or> c = CHR ''-'' \<or> c = CHR ''_''"

definition plain :: "string \<Rightarrow> bool" where
  "plain s \<longleftrightarrow> s \<noteq> [] \<and> list_all plain_char s"

definition plain_value :: "string \<Rightarrow> bool" where
  "plain_value s \<longleftrightarrow> list_all (\<lambda>c. plain_char c \<or> c = CHR ''.'' \<or> c = CHR '','' \<or> c = CHR '':'') s"

definition path_text :: "string list \<Rightarrow> string" where
  "path_text segs = concat (map (Cons (CHR ''/'')) segs)"

definition wire_ok :: "wire \<Rightarrow> string \<Rightarrow> bool" where
  "wire_ok w base \<longleftrightarrow>
     (\<forall>segs q added. list_all plain segs \<longrightarrow> list_all (\<lambda>(k, v). plain k \<and> plain_value v) q \<longrightarrow>
        wi_target w (base @ path_text segs @ query_text q) added = (segs, q @ added))"

definition on_wire :: "wire \<Rightarrow> client_request \<Rightarrow> http_request" where
  "on_wire w rq =
     (case wi_target w (cr_url rq) (cr_query rq) of
        (segs, q) \<Rightarrow> \<lparr>rq_method = cr_method rq, rq_path = segs, rq_query = q, rq_body = cr_body rq,
                     rq_bytes = wi_bytes w (cr_body rq)\<rparr>)"

section \<open>What a command sends\<close>

text \<open>Method, segments of the path, the query in the URL, the pairs added, and the body.\<close>

type_synonym target = "http_method \<times> string list \<times> query \<times> query \<times> http_body"

definition request_to :: "string \<Rightarrow> target \<Rightarrow> client_request" where
  "request_to base t =
     (case t of (m, segs, q, added, b) \<Rightarrow>
        \<lparr>cr_method = m, cr_url = base @ path_text segs @ query_text q, cr_query = added, cr_body = b\<rparr>)"

definition plain_target :: "target \<Rightarrow> bool" where
  "plain_target t \<longleftrightarrow> (case t of (m, segs, q, added, b) \<Rightarrow>
     list_all plain segs \<and> list_all (\<lambda>(k, v). plain k \<and> plain_value v) q)"

definition get_to :: "string list \<Rightarrow> query \<Rightarrow> target" where
  "get_to segs q = (GET, ''api'' # segs, q, [], NoBody)"

definition post_to :: "string list \<Rightarrow> json \<Rightarrow> target" where
  "post_to segs j = (POST, ''api'' # segs, [], [], JsonBody j)"

definition delete_to :: "string list \<Rightarrow> query \<Rightarrow> target" where
  "delete_to segs q = (DELETE, ''api'' # segs, q, [], NoBody)"

lemmas target_defs = get_to_def post_to_def delete_to_def

primrec deploy_target :: "deploy_command \<Rightarrow> target option" where
  "deploy_target DeploySimple = None"
| "deploy_target (DeployDefinition xml name) =
     Some (post_to [''deploy''] (JObj [(''name'', JStr name), (''xml'', JStr xml)]))"
| "deploy_target ListDefinitionsCmd = Some (get_to [''definitions''] [])"
| "deploy_target (GetDefinitionXmlCmd i) = Some (get_to [''definitions'', i, ''xml''] [])"
| "deploy_target (DeleteDefinitionCmd i c) = Some (delete_to [''definitions'', i] [(''cascade'', show_bool c)])"
| "deploy_target (DeleteAllDefinitionsCmd b c) =
     Some (delete_to [''definitions'', ''bpmn'', b] [(''cascade'', show_bool c)])"

primrec instance_target :: "instance_command \<Rightarrow> target" where
  "instance_target (StartCmd k vs) = post_to [''start''] (start_payload k vs)"
| "instance_target (StartTimerCmd k vs) = post_to [''start'', ''timer''] (start_payload k vs)"
| "instance_target ListInstancesCmd = get_to [''instances''] []"
| "instance_target (GetDetailsCmd i) = get_to [''instances'', i] []"
| "instance_target (GetHistoryCmd i ets ats) =
     get_to [''instances'', i, ''history'']
       (optional ''event_types'' (unless_empty ets) @ optional ''actor_types'' (unless_empty ats))"
| "instance_target (UpdateVariablesCmd i vs) =
     (PUT, [''api'', ''instances'', i, ''variables''], [], [], JsonBody (JObj [(''variables'', object_of vs)]))"
| "instance_target (SuspendCmd i) = post_to [''instances'', i, ''suspend''] (JObj [])"
| "instance_target (ResumeCmd i) = post_to [''instances'', i, ''resume''] (JObj [])"
| "instance_target (MoveTokenCmd i n vs c) =
     post_to [''instances'', i, ''move-token'']
       (JObj [(''cancel_current'', JBool (case c of None \<Rightarrow> True | Some b \<Rightarrow> b)),
              (''target_node_id'', JStr n), (''variables'', or_empty vs)])"
| "instance_target (MigrateCmd i k m) =
     post_to [''instances'', i, ''migrate'']
       (JObj [(''node_mapping'', mapping_object m), (''target_definition_key'', JStr k)])"
| "instance_target (DeleteInstanceCmd i) = delete_to [''instances'', i] []"
| "instance_target (QueryCompletedCmd f) = get_to [''history'', ''instances''] (completed_params f)"
| "instance_target (GetCompletedCmd i) = get_to [''history'', ''instances'', i] []"
| "instance_target (CorrelateCmd n bk vs) =
     post_to [''message'']
       (JObj [(''businessKey'', or_null JStr bk), (''messageName'', JStr n), (''variables'', or_empty vs)])"

primrec task_target :: "task_command \<Rightarrow> target" where
  "task_target PendingTasksCmd = get_to [''tasks''] []"
| "task_target (CompleteTaskCmd u vs) = post_to [''complete'', u] (JObj [(''variables'', or_empty vs)])"
| "task_target PendingServiceTasksCmd = get_to [''service-tasks''] []"
| "task_target (FetchCmd w n t l) = post_to [''service-task'', ''fetchAndLock''] (fetch_payload w n t l)"
| "task_target (CompleteServiceTaskCmd u w vs) =
     post_to [''service-task'', u, ''complete''] (JObj [(''variables'', or_empty vs), (''workerId'', JStr w)])"
| "task_target (RetryCmd u n) =
     post_to [''service-task'', u, ''retry''] (JObj [(''retries'', or_null (\<lambda>n. JNum (JInt n)) n)])"
| "task_target (ResolveCmd u vs) =
     post_to [''service-task'', u, ''resolve''] (JObj [(''variables'', or_empty vs)])"
| "task_target PendingTimersCmd = get_to [''timers''] []"
| "task_target PendingMessagesCmd = get_to [''messages''] []"

primrec other_target :: "'w http_client \<Rightarrow> (string, string) table \<Rightarrow> other_command \<Rightarrow> target option" where
  "other_target hc fs (UploadCmd i v path) =
     (case tget fs path of
        None \<Rightarrow> None
      | Some data \<Rightarrow>
          if hc_mime_str hc (hc_mime_guess hc path) = None
          then Some (POST, [''api'', ''instances'', i, ''files'', v], [], [],
                     FormBody (Inr (Some (upload_part hc path data))))
          else None)"
| "other_target hc fs (DownloadCmd i v path) = Some (get_to [''instances'', i, ''files'', v] [])"
| "other_target hc fs (DeleteFileCmd i v) = Some (delete_to [''instances'', i, ''files'', v] [])"
| "other_target hc fs GetUrlCmd = None"
| "other_target hc fs (SetUrlCmd url) = None"
| "other_target hc fs MonitoringCmd = Some (get_to [''monitoring''] [])"
| "other_target hc fs (BucketEntriesCmd b off n) =
     Some (get_to [''monitoring'', ''buckets'', b, ''entries''] [(''offset'', show_nat off), (''limit'', show_nat n)])"
| "other_target hc fs (BucketEntryCmd b k) = Some (get_to [''monitoring'', ''buckets'', b, ''entries'', k] [])"
| "other_target hc fs (LogsCmd lev q n) =
     Some (GET, [''api'', ''logs''], [],
           optional ''level'' lev @ optional ''search'' q @ optional ''limit'' (map_option show_nat n), NoBody)"
| "other_target hc fs (ReadFileCmd path) = None"

primrec command_target :: "'w http_client \<Rightarrow> (string, string) table \<Rightarrow> desktop_command \<Rightarrow> target option" where
  "command_target hc fs (DeployC c) = deploy_target c"
| "command_target hc fs (InstanceC c) = Some (instance_target c)"
| "command_target hc fs (TaskC c) = Some (task_target c)"
| "command_target hc fs (OtherC c) = other_target hc fs c"

section \<open>A command sends that, once\<close>

text \<open>
  The world after a result, and that a result is good only when the answer was: \<open>base\<close> is the address, and there
  is nothing to send in the last case.
\<close>

definition sends :: "'w http_client \<Rightarrow> target option \<Rightarrow> 'w desktop \<Rightarrow> ('w, 'a) commanded \<Rightarrow> bool" where
  "sends hc t d r \<longleftrightarrow>
     (case t of
        None \<Rightarrow> dk_world (fst r) = dk_world d
      | Some t \<Rightarrow>
          (case hc_send hc (request_to (dk_base_url d) t) (dk_world d) of
             (w, a) \<Rightarrow> dk_world (fst r) = w \<and> (\<forall>x. snd r = Ok x \<longrightarrow> (\<exists>h. a = Ok h \<and> success (ha_status h)))))"

lemma send_cases:
  "send hc what rq d =
     (d\<lparr>dk_world := fst (hc_send hc rq (dk_world d))\<rparr>, map_err (\<lambda>er. Msg what [AStr er]) (snd (hc_send hc rq (dk_world d))))"
  by (simp add: send_def case_prod_unfold)

lemma sends_replying:
  "sends hc t d r \<Longrightarrow> sends hc t d (replying f r)"
  by (cases r; cases "snd r")
     (auto simp: sends_def replying_def split: option.splits prod.splits)

lemma sends_then:
  "sends hc t d r \<Longrightarrow> sends hc t d (bindR r (\<lambda>d x. (d, Ok (f x))))"
  by (cases r; cases "snd r") (auto simp: sends_def split: option.splits prod.splits)

text \<open>A request and a judgement of its answer that is good only on success.\<close>

lemma sends_request:
  assumes "\<not> dk_poisoned d" and "\<And>base. rq base = request_to base t"
    and "\<And>d a. dk_world (fst (k d a)) = dk_world d" and "\<And>d a x. snd (k d a) = Ok x \<Longrightarrow> success (ha_status a)"
  shows "sends hc (Some t) d (bindR (liftR d (get_base_url d)) (\<lambda>d base. bindR (send hc what (rq base) d) k))"
proof -
  obtain w a where s: "hc_send hc (request_to (dk_base_url d) t) (dk_world d) = (w, a)" by fastforce
  show ?thesis
    using assms(3,4) by (cases a) (auto simp: assms(1,2) get_base_url_def liftR_def send_cases s sends_def)
qed

lemma sends_helpers:
  assumes "\<not> dk_poisoned d" and "path = path_text segs @ query_text q"
  shows "sends hc (Some (GET, segs, q, [], NoBody)) d (api_get hc path d)"
    "sends hc (Some (GET, segs, q, [], NoBody)) d (get_json hc path d)"
    "sends hc (Some (POST, segs, q, [], JsonBody j)) d (api_post hc path j d)"
    "sends hc (Some (POST, segs, q, [], JsonBody j)) d (api_post_no_body hc path j d)"
    "sends hc (Some (PUT, segs, q, [], JsonBody j)) d (api_put hc path j d)"
    "sends hc (Some (DELETE, segs, q, [], NoBody)) d (api_delete hc path d)"
  unfolding api_get_def get_json_def api_post_def api_post_no_body_def api_put_def api_delete_def
  by (rule sends_request; use assms in \<open>auto simp: request_to_def split: if_splits\<close>)+

lemmas text_defs = path_text_def query_text_def param_text_def file_path_def optional_def unless_empty_def

lemma deploy_sends:
  assumes "\<not> dk_poisoned d"
  shows "sends hc (deploy_target c) d (run_deploy hc c d)"
proof (cases c)
  case DeploySimple
  then show ?thesis by (simp add: sends_def replying_def cmd_deploy_simple_process_def)
next
  case (DeployDefinition xml name)
  show ?thesis
    unfolding DeployDefinition run_deploy.simps deploy_target.simps cmd_deploy_definition_def post_to_def
    by (intro sends_replying sends_then sends_helpers(3) assms) (simp add: text_defs)
next
  case ListDefinitionsCmd
  show ?thesis
    unfolding ListDefinitionsCmd run_deploy.simps deploy_target.simps cmd_list_definitions_def get_to_def
    by (intro sends_replying sends_helpers(1) assms) (simp add: text_defs)
next
  case (GetDefinitionXmlCmd i)
  show ?thesis
    unfolding GetDefinitionXmlCmd run_deploy.simps deploy_target.simps cmd_get_definition_xml_def get_to_def
    by (intro sends_replying sends_request assms) (auto simp: request_to_def text_defs split: if_splits sum.splits)
next
  case (DeleteDefinitionCmd i b)
  show ?thesis
    unfolding DeleteDefinitionCmd run_deploy.simps deploy_target.simps cmd_delete_definition_def delete_to_def
    by (intro sends_replying sends_helpers(6) assms) (simp add: text_defs)
next
  case (DeleteAllDefinitionsCmd i b)
  show ?thesis
    unfolding DeleteAllDefinitionsCmd run_deploy.simps deploy_target.simps cmd_delete_all_definitions_def delete_to_def
    by (intro sends_replying sends_helpers(6) assms) (simp add: text_defs)
qed

lemmas instance_command_defs =
  cmd_start_instance_def cmd_start_timer_instance_def cmd_list_instances_def cmd_get_instance_details_def
  cmd_get_instance_history_def cmd_update_instance_variables_def cmd_suspend_instance_def cmd_resume_instance_def
  cmd_move_token_def cmd_migrate_instance_def cmd_delete_instance_def cmd_query_completed_instances_def
  cmd_get_completed_instance_def cmd_correlate_message_def

lemma instance_sends:
  assumes "\<not> dk_poisoned d"
  shows "sends hc (Some (instance_target c)) d (run_instance hc c d)"
  by (cases c; simp only: run_instance.simps instance_target.simps instance_command_defs target_defs;
      (intro sends_replying sends_then sends_helpers assms | intro sends_replying sends_helpers assms);
      simp add: path_text_def query_text_def)

lemmas task_command_defs =
  cmd_get_pending_tasks_def cmd_complete_task_def cmd_get_pending_service_tasks_def
  cmd_fetch_and_lock_service_tasks_def cmd_complete_service_task_def cmd_retry_incident_def
  cmd_resolve_incident_def cmd_get_pending_timers_def cmd_get_pending_message_catches_def

lemma task_sends:
  assumes "\<not> dk_poisoned d"
  shows "sends hc (Some (task_target c)) d (run_task hc c d)"
  by (cases c; simp only: run_task.simps task_target.simps task_command_defs target_defs;
      intro sends_replying sends_helpers assms; simp add: path_text_def query_text_def)

lemma upload_sends:
  assumes "\<not> dk_poisoned d"
  shows "sends hc (other_target hc (dk_files d) (UploadCmd i v path)) d (cmd_upload_instance_file hc i v path d)"
proof -
  have base: "get_base_url d = Ok (dk_base_url d)" using assms by (simp add: get_base_url_def)
  show ?thesis
  proof (cases "tget (dk_files d) path")
    case None
    then show ?thesis
      by (simp add: sends_def cmd_upload_instance_file_def read_file_def base liftR_def)
  next
    case (Some data)
    show ?thesis
    proof (cases "hc_mime_str hc (hc_mime_guess hc path)")
      case (Some er)
      then show ?thesis using \<open>tget _ _ = _\<close>
        by (simp add: sends_def cmd_upload_instance_file_def read_file_def base liftR_def)
    next
      case None
      let ?t = "(POST, [''api'', ''instances'', i, ''files'', v], [], [], FormBody (Inr (Some (upload_part hc path data)))) :: target"
      let ?k = "\<lambda>d a. (d :: 'a desktop, if success (ha_status a) then Ok (JObj [(''status'', JStr ''success'')])
               else Err (Msg ''Upload failed with status: {}'' [ANat (ha_status a)]))"
      have "cmd_upload_instance_file hc i v path d =
        bindR (liftR d (get_base_url d)) (\<lambda>d base.
        bindR (send hc ''{}'' \<lparr>cr_method = POST, cr_url = base @ file_path i v, cr_query = [],
                               cr_body = FormBody (Inr (Some (upload_part hc path data)))\<rparr> d) ?k)"
        using Some None by (simp add: cmd_upload_instance_file_def read_file_def base liftR_def)
      moreover have "sends hc (Some ?t) d \<dots>"
        by (rule sends_request) (auto simp: assms request_to_def text_defs split: if_splits)
      ultimately show ?thesis using Some None by simp
    qed
  qed
qed

lemma other_sends:
  assumes "\<not> dk_poisoned d"
  shows "sends hc (other_target hc (dk_files d) c) d (run_other hc c d)"
proof (cases c)
  case (UploadCmd i v path)
  show ?thesis
    unfolding UploadCmd run_other.simps by (intro sends_replying upload_sends assms)
next
  case (DownloadCmd i v path)
  show ?thesis
    unfolding DownloadCmd run_other.simps other_target.simps cmd_download_instance_file_def get_to_def
    by (intro sends_replying sends_request assms)
       (auto simp: request_to_def text_defs split: if_splits sum.splits option.splits)
next
  case (DeleteFileCmd i v)
  show ?thesis
    unfolding DeleteFileCmd run_other.simps other_target.simps cmd_delete_instance_file_def delete_to_def
    by (intro sends_replying sends_helpers(6) assms) (simp add: text_defs)
next
  case GetUrlCmd
  then show ?thesis using assms
    by (simp add: sends_def replying_def cmd_get_api_url_def get_base_url_def)
next
  case (SetUrlCmd url)
  then show ?thesis using assms by (simp add: sends_def replying_def cmd_set_api_url_def)
next
  case MonitoringCmd
  show ?thesis
    unfolding MonitoringCmd run_other.simps other_target.simps cmd_get_monitoring_data_def get_to_def
    by (intro sends_replying sends_request assms) (auto simp: request_to_def text_defs split: if_splits)
next
  case (BucketEntriesCmd b off n)
  show ?thesis
    unfolding BucketEntriesCmd run_other.simps other_target.simps cmd_get_bucket_entries_def get_to_def
    by (intro sends_replying sends_helpers(2) assms) (simp add: text_defs)
next
  case (BucketEntryCmd b k)
  show ?thesis
    unfolding BucketEntryCmd run_other.simps other_target.simps cmd_get_bucket_entry_detail_def get_to_def
    by (intro sends_replying sends_helpers(2) assms) (simp add: text_defs)
next
  case (LogsCmd lev q n)
  show ?thesis
    unfolding LogsCmd run_other.simps other_target.simps cmd_get_log_entries_def
    by (intro sends_replying sends_request assms)
       (auto simp: request_to_def path_text_def query_text_def split: if_splits)
next
  case (ReadFileCmd path)
  then show ?thesis
    by (simp add: sends_def replying_def cmd_read_bpmn_file_def Let_def split: option.split)
qed

lemma command_sends:
  assumes "\<not> dk_poisoned d"
  shows "sends hc (command_target hc (dk_files d) c) d (run_command hc c d)"
  using deploy_sends [OF assms] instance_sends [OF assms] task_sends [OF assms] other_sends [OF assms]
  by (cases c) simp_all

section \<open>What a command means\<close>

text \<open>
  The request each command stands for, with all its arguments. A map arrives in the order of its keys, and an empty map
  of variables is not sent with a start.
\<close>

definition sent_vars :: "vars option \<Rightarrow> vars option" where
  "sent_vars vs = Some (sort_key fst (case vs of None \<Rightarrow> [] | Some v \<Rightarrow> v))"

definition sent_start_vars :: "vars option \<Rightarrow> vars option" where
  "sent_start_vars vs = (case vs of None \<Rightarrow> None | Some v \<Rightarrow> if v = [] then None else Some (sort_key fst v))"

definition sent_mapping :: "(string, string) table option \<Rightarrow> (string, string) table" where
  "sent_mapping m = sort_key fst (case m of None \<Rightarrow> [] | Some t \<Rightarrow> t)"

definition sent_time :: "(string \<Rightarrow> time option) \<Rightarrow> string option \<Rightarrow> time option" where
  "sent_time dt x = Option.bind x dt"

primrec deploy_meant :: "deploy_command \<Rightarrow> request" where
  "deploy_meant DeploySimple = Monitor Health"
| "deploy_meant (DeployDefinition xml name) = Definitions (Deploy xml)"
| "deploy_meant ListDefinitionsCmd = Definitions ListDefinitions"
| "deploy_meant (GetDefinitionXmlCmd i) = Definitions (GetDefinitionXml i)"
| "deploy_meant (DeleteDefinitionCmd i c) = Definitions (DeleteDefinitionReq i (Some c))"
| "deploy_meant (DeleteAllDefinitionsCmd b c) = Definitions (DeleteAllDefinitionsReq b (Some c))"

primrec instance_meant :: "(string \<Rightarrow> time option) \<Rightarrow> instance_command \<Rightarrow> request" where
  "instance_meant dt (StartCmd k vs) = Instances (Start k (sent_start_vars vs))"
| "instance_meant dt (StartTimerCmd k vs) = Instances (StartTimer k (sent_start_vars vs))"
| "instance_meant dt ListInstancesCmd = Instances ListInstances"
| "instance_meant dt (GetDetailsCmd i) = Instances (GetInstance i)"
| "instance_meant dt (GetHistoryCmd i ets ats) =
     Monitor (GetHistory i \<lparr>sq_event_types = unless_empty ets, sq_node_id = None, sq_actor_type = unless_empty ats,
                           sq_from = None, sq_to = None, sq_limit = None, sq_offset = None\<rparr>)"
| "instance_meant dt (UpdateVariablesCmd i vs) = Instances (UpdateVariablesReq i (sort_key fst vs))"
| "instance_meant dt (SuspendCmd i) = Instances (SuspendReq i)"
| "instance_meant dt (ResumeCmd i) = Instances (ResumeReq i)"
| "instance_meant dt (MoveTokenCmd i n vs c) =
     Instances (MoveTokenReq i n (sent_vars vs) (Some (case c of None \<Rightarrow> True | Some b \<Rightarrow> b)))"
| "instance_meant dt (MigrateCmd i k m) = Instances (MigrateReq i k (sent_mapping m))"
| "instance_meant dt (DeleteInstanceCmd i) = Instances (DeleteInstanceReq i)"
| "instance_meant dt (QueryCompletedCmd f) =
     Monitor (ListCompleted
       \<lparr>ciq_definition_key = cf_definition_key f, ciq_business_key = cf_business_key f,
        ciq_from = sent_time dt (cf_from f), ciq_to = sent_time dt (cf_to f), ciq_state = cf_state f,
        ciq_limit = cf_limit f, ciq_offset = cf_offset f\<rparr>)"
| "instance_meant dt (GetCompletedCmd i) = Monitor (GetCompleted i)"
| "instance_meant dt (CorrelateCmd n bk vs) = Instances (CorrelateMessageReq n bk (sent_vars vs))"

primrec task_meant :: "task_command \<Rightarrow> request" where
  "task_meant PendingTasksCmd = Tasks GetTasks"
| "task_meant (CompleteTaskCmd u vs) = Tasks (CompleteTask u (sent_vars vs))"
| "task_meant PendingServiceTasksCmd = Tasks GetServiceTasks"
| "task_meant (FetchCmd w n t l) =
     Tasks (FetchAndLock \<lparr>fq_worker_id = w, fq_max_tasks = n, fq_topics = [(t, l)], fq_timeout = None\<rparr>)"
| "task_meant (CompleteServiceTaskCmd u w vs) = Tasks (CompleteServiceTaskReq u w (sent_vars vs))"
| "task_meant (RetryCmd u n) = Tasks (RetryIncidentReq u n)"
| "task_meant (ResolveCmd u vs) = Tasks (ResolveIncidentReq u (sent_vars vs))"
| "task_meant PendingTimersCmd = Events GetTimers"
| "task_meant PendingMessagesCmd = Events GetMessages"

primrec other_meant :: "'w http_client \<Rightarrow> (string, string) table \<Rightarrow> other_command \<Rightarrow> request" where
  "other_meant hc fs (UploadCmd i v path) =
     Files (UploadFileReq i v (Inr (map_option (upload_part hc path) (tget fs path))))"
| "other_meant hc fs (DownloadCmd i v path) = Files (GetFileReq i v)"
| "other_meant hc fs (DeleteFileCmd i v) = Files (DeleteFileReq i v)"
| "other_meant hc fs GetUrlCmd = Monitor Health"
| "other_meant hc fs (SetUrlCmd url) = Monitor Health"
| "other_meant hc fs MonitoringCmd = Monitor GetMonitoring"
| "other_meant hc fs (BucketEntriesCmd b off n) = Monitor (GetBucketEntries b (Some off) (Some n))"
| "other_meant hc fs (BucketEntryCmd b k) = Monitor (GetBucketEntryDetail b k)"
| "other_meant hc fs (LogsCmd lev q n) = Monitor (GetLogs lev q n)"
| "other_meant hc fs (ReadFileCmd path) = Monitor Health"

primrec command_meant ::
  "(string \<Rightarrow> time option) \<Rightarrow> 'w http_client \<Rightarrow> (string, string) table \<Rightarrow> desktop_command \<Rightarrow> request" where
  "command_meant dt hc fs (DeployC c) = deploy_meant c"
| "command_meant dt hc fs (InstanceC c) = instance_meant dt c"
| "command_meant dt hc fs (TaskC c) = task_meant c"
| "command_meant dt hc fs (OtherC c) = other_meant hc fs c"

text \<open>
  The request that arrives. One argument gets lost on the way: the application sends the actor types of the history
  command as \<open>actor_types\<close>, and the server knows the parameter \<open>actor_type\<close> only.
\<close>

fun without_actor_filter :: "request \<Rightarrow> request" where
  "without_actor_filter (Monitor (GetHistory i q)) = Monitor (GetHistory i (q\<lparr>sq_actor_type := None\<rparr>))"
| "without_actor_filter r = r"

fun filters_by_actor :: "desktop_command \<Rightarrow> bool" where
  "filters_by_actor (InstanceC (GetHistoryCmd i ets ats)) = (unless_empty ats \<noteq> None)"
| "filters_by_actor c = False"

definition command_arrives ::
  "(string \<Rightarrow> time option) \<Rightarrow> 'w http_client \<Rightarrow> (string, string) table \<Rightarrow> desktop_command \<Rightarrow> request" where
  "command_arrives dt hc fs c =
     (if filters_by_actor c then without_actor_filter (command_meant dt hc fs c) else command_meant dt hc fs c)"

lemma command_arrives_whole [simp]: "\<not> filters_by_actor c \<Longrightarrow> command_arrives dt hc fs c = command_meant dt hc fs c"
  by (simp add: command_arrives_def)

text \<open>
  Arguments in the range of their types, texts of instants the server can read, and the one key of a definition that
  its path cannot hold.
\<close>

definition readable_time :: "(string \<Rightarrow> time option) \<Rightarrow> string option \<Rightarrow> bool" where
  "readable_time dt x \<longleftrightarrow> (case x of None \<Rightarrow> True | Some t \<Rightarrow> dt t \<noteq> None)"

definition small :: "nat option \<Rightarrow> bool" where
  "small x \<longleftrightarrow> (case x of None \<Rightarrow> True | Some n \<Rightarrow> n < 2 ^ 64)"

fun typed_arguments :: "(string \<Rightarrow> time option) \<Rightarrow> desktop_command \<Rightarrow> bool" where
  "typed_arguments dt (DeployC (GetDefinitionXmlCmd i)) = (i \<noteq> ''bpmn'')"
| "typed_arguments dt (InstanceC (QueryCompletedCmd f)) =
     (readable_time dt (cf_from f) \<and> readable_time dt (cf_to f) \<and> small (cf_limit f) \<and> small (cf_offset f))"
| "typed_arguments dt (TaskC (FetchCmd w n t l)) = (n < 2 ^ 64 \<and> - (2 ^ 63) \<le> l \<and> l < 2 ^ 63)"
| "typed_arguments dt (TaskC (RetryCmd u (Some n))) = (- (2 ^ 31) \<le> n \<and> n < 2 ^ 31)"
| "typed_arguments dt (OtherC (BucketEntriesCmd b off n)) = (off < 2 ^ 64 \<and> n < 2 ^ 64)"
| "typed_arguments dt (OtherC (LogsCmd lev q n)) = small n"
| "typed_arguments dt c = True"

section \<open>Round trips of the encodings\<close>

lemma those_Some [simp]: "those (map Some xs) = Some xs"
  by (induction xs) simp_all

lemma de_vars_object [simp]: "de_vars (object_of vs) = Some (sort_key fst vs)"
proof -
  have "(\<lambda>(k, v). map_option (Pair k) (Some v)) = (Some :: string \<times> json \<Rightarrow> _)" by auto
  then show ?thesis by (simp add: de_vars_def object_of_def)
qed

lemma insort_key_mapv:
  "insort_key fst (k, f v) (map (\<lambda>kv. (fst kv, f (snd kv))) t) = map (\<lambda>kv. (fst kv, f (snd kv))) (insort_key fst (k, v) t)"
  by (induction t) auto

lemma sort_key_tmapv: "sort_key fst (tmapv f t) = tmapv f (sort_key fst t)"
  by (induction t) (auto simp: tmapv_def sort_key_def insort_key_mapv case_prod_unfold)

lemma those_strings: "those (map (\<lambda>(k, v). map_option (Pair k) (de_string v)) (tmapv JStr t)) = Some t"
  by (induction t) (auto simp: tmapv_def)

lemma de_mapping_object [simp]: "de_map de_string (mapping_object m) = Some (sent_mapping m)"
  by (simp add: mapping_object_def object_of_def sent_mapping_def sort_key_tmapv those_strings)

lemma de_option_object [simp]: "de_option de_vars (Some (object_of vs)) = Some (Some (sort_key fst vs))"
  using de_vars_object [of vs] by (simp add: object_of_def)

lemma de_or_empty [simp]: "de_option de_vars (Some (or_empty vs)) = Some (sent_vars vs)"
  by (simp add: or_empty_def sent_vars_def)

lemma de_or_null:
  "de_option de_string (Some (or_null JStr x)) = Some x"
  "(\<And>n. m = Some n \<Longrightarrow> - (2 ^ 31) \<le> n \<and> n < 2 ^ 31) \<Longrightarrow>
     de_option de_i32 (Some (or_null (\<lambda>n. JNum (JInt n)) m)) = Some m"
  by (cases x; simp add: or_null_def) (cases m; simp add: or_null_def de_i32_def)

lemma de_json_nat: "n < 2 ^ 64 \<Longrightarrow> de_u64 (json_nat n) = Some n"
  by (simp add: de_u64_def json_nat_def)

lemma query_usize_show: "n < 2 ^ 64 \<Longrightarrow> query_usize (show_nat n) = Some n"
proof -
  assume n: "n < 2 ^ 64"
  obtain c cs where s: "show_nat n = c # cs" using show_nat_not_Nil by (cases "show_nat n") auto
  then have "is_digit c" using show_nat_digits [of n] by simp
  then have "c \<noteq> CHR ''+''" by (auto simp: is_digit_def)
  then show ?thesis
    using n show_nat_digits [of n] digits_val_show_nat [of n] by (simp add: parse_unsigned_def s)
qed

lemma query_bool_show [simp]: "query_bool (show_bool b) = Some b"
  by (simp add: query_bool_def show_bool_def)

lemma filter_optional [simp]:
  "filter (\<lambda>p. fst p = k) (optional k' v) = (if k = k' then optional k v else [])"
  by (auto simp: optional_def split: option.split)

lemma query_field_one:
  "query_field f k q = (case filter (\<lambda>p. fst p = k) q of [] \<Rightarrow> Some None | [p] \<Rightarrow> map_option Some (f (snd p)) | _ \<Rightarrow> None)"
  by (auto simp: query_field_def split: list.split)

lemma query_field_optional:
  assumes "filter (\<lambda>p. fst p = k) q = optional k v"
  shows "query_field f k q = (case v of None \<Rightarrow> Some None | Some x \<Rightarrow> map_option Some (f x))"
  by (simp add: query_field_one assms optional_def split: option.split)

lemma optional_number:
  "small n \<Longrightarrow> (case map_option show_nat n of None \<Rightarrow> Some None | Some x \<Rightarrow> map_option Some (query_usize x)) = Some n"
  by (cases n) (simp_all add: small_def query_usize_show)

lemma optional_text: "(case v of None \<Rightarrow> Some None | Some x \<Rightarrow> map_option Some (Some x)) = Some v"
  by (cases v) simp_all

lemma optional_time:
  "readable_time dt v \<Longrightarrow> (case v of None \<Rightarrow> Some None | Some x \<Rightarrow> map_option Some (dt x)) = Some (sent_time dt v)"
  by (cases v) (auto simp: readable_time_def sent_time_def)

section \<open>Every command reaches its handler\<close>

definition sendable :: "wire \<Rightarrow> target \<Rightarrow> bool" where
  "sendable w t \<longleftrightarrow> plain_target t \<and> (case t of (m, segs, q, added, b) \<Rightarrow> wi_bytes w b \<le> body_limit)"

definition endpoint_result :: "wire \<Rightarrow> route_table \<Rightarrow> string \<Rightarrow> target \<Rightarrow> request option" where
  "endpoint_result w rs pattern t =
     (case t of (m, segs, q, added, b) \<Rightarrow>
        (case map_of (the (map_of rs pattern)) m of
           None \<Rightarrow> None
         | Some ep \<Rightarrow> ep (the (match_path (segments pattern) segs))
             \<lparr>rq_method = m, rq_path = segs, rq_query = q @ added, rq_body = b, rq_bytes = wi_bytes w b\<rparr>))"

lemma routed_by:
  assumes "set rs \<subseteq> set (routes dt)" and "wire_ok w base" and "sendable w t" and "t = (m, segs, q, added, b)"
    and "pattern \<in> fst ` set rs" and "match_path (segments pattern) segs \<noteq> None"
    and "segs \<noteq> [''api'', ''events''] \<and> segs \<noteq> [''metrics'']"
    and "segments pattern = xml_route \<Longrightarrow> match_path bpmn_route segs = None"
    and "endpoint_result w rs pattern t = Some r"
  shows "http_route dt metrics (on_wire w (request_to base t)) = Routed r"
proof -
  let ?rq = "\<lparr>rq_method = m, rq_path = segs, rq_query = q @ added, rq_body = b, rq_bytes = wi_bytes w b\<rparr>"
  have "on_wire w (request_to base t) = ?rq"
    using assms(2-4) by (simp add: on_wire_def request_to_def wire_ok_def plain_target_def sendable_def)
  moreover obtain ps where ps: "match_path (segments pattern) segs = Some ps" using assms(6) by blast
  have "(pattern, the (map_of rs pattern)) \<in> set (routes dt)"
    using assms(1,5) by (metis map_of_SomeD map_of_eq_None_iff option.collapse subsetD)
  then have "http_route dt metrics ?rq =
    (case map_of (the (map_of rs pattern)) (rq_method ?rq) of
       None \<Rightarrow> MethodNotAllowed
     | Some ep \<Rightarrow> (case ep ps ?rq of None \<Rightarrow> Rejected | Some r \<Rightarrow> Routed r))"
    by (rule http_route_by) (use assms(7,8) ps in simp_all)
  ultimately show ?thesis using assms(4,9) ps by (auto simp: endpoint_result_def split: option.splits)
qed

lemma route_pieces:
  "set start_routes \<subseteq> set (routes dt)" "set definition_routes \<subseteq> set (routes dt)"
  "set (instance_routes dt) \<subseteq> set (routes dt)" "set (monitor_routes dt) \<subseteq> set (routes dt)"
  "set event_routes \<subseteq> set (routes dt)" "set service_routes \<subseteq> set (routes dt)" "set log_routes \<subseteq> set (routes dt)"
  by (auto simp: routes_def)

lemmas routing = endpoint_result_def segments_def is_param_def xml_route_def bpmn_route_def target_defs

lemma plain_not_Nil [simp]: "plain s \<Longrightarrow> s \<noteq> []"
  by (auto simp: plain_def)

lemmas decoding = with_json_def plain_target_def de_struct_def sendable_def
  de_deploy_request_def de_update_variables_request_def de_move_token_request_def
  de_migrate_instance_request_def de_complete_request_def de_resolve_incident_request_def
  de_complete_service_task_request_def plainly_def with_form_def

lemma de_start_payload [simp]: "de_start_request (start_payload k vs) = Some (k, sent_start_vars vs)"
  by (cases vs) (auto simp: de_start_request_def start_payload_def de_struct_def sent_start_vars_def)

lemma de_fetch_payload:
  assumes "n < 2 ^ 64" and "- (2 ^ 63) \<le> l" and "l < 2 ^ 63"
  shows "de_fetch_request (fetch_payload w n t l)
    = Some \<lparr>fq_worker_id = w, fq_max_tasks = n, fq_topics = [(t, l)], fq_timeout = None\<rparr>"
  using assms
  by (simp add: de_fetch_request_def fetch_payload_def de_struct_def de_json_nat de_topic_request_def de_i64_def)

lemma de_correlate_payload [simp]:
  "de_correlate_message_request
     (JObj [(''businessKey'', or_null JStr bk), (''messageName'', JStr n), (''variables'', or_empty vs)])
   = Some (n, bk, sent_vars vs)"
  by (simp add: de_correlate_message_request_def de_struct_def de_or_null)

lemma de_retry_payload:
  assumes "typed_arguments dt (TaskC (RetryCmd u n))"
  shows "de_retry_incident_request (JObj [(''retries'', or_null (\<lambda>n. JNum (JInt n)) n)]) = Some n"
  using assms by (cases n) (simp_all add: de_retry_incident_request_def de_struct_def or_null_def de_i32_def)

lemma history_params:
  "de_history_query dt (optional ''event_types'' ets @ optional ''actor_types'' ats)
   = Some \<lparr>sq_event_types = ets, sq_node_id = None, sq_actor_type = None, sq_from = None, sq_to = None,
           sq_limit = None, sq_offset = None\<rparr>"
  by (simp add: de_history_query_def query_field_optional [where v = ets] query_field_optional [where v = None]
      optional_text optional_def [of _ None])

lemma completed_params_query:
  assumes "typed_arguments dt (InstanceC (QueryCompletedCmd f))"
  shows "de_completed_query dt (completed_params f)
    = Some \<lparr>ciq_definition_key = cf_definition_key f, ciq_business_key = cf_business_key f,
            ciq_from = sent_time dt (cf_from f), ciq_to = sent_time dt (cf_to f), ciq_state = cf_state f,
            ciq_limit = cf_limit f, ciq_offset = cf_offset f\<rparr>"
proof -
  let ?q = "completed_params f"
  have texts: "query_field Some ''definition_key'' ?q = Some (cf_definition_key f)"
    "query_field Some ''business_key'' ?q = Some (cf_business_key f)"
    "query_field Some ''state'' ?q = Some (cf_state f)"
    by (subst query_field_optional [where v = "cf_definition_key f"] query_field_optional [where v = "cf_business_key f"]
          query_field_optional [where v = "cf_state f"], simp add: completed_params_def, simp add: optional_text)+
  have times: "query_field dt ''from'' ?q = Some (sent_time dt (cf_from f))"
    "query_field dt ''to'' ?q = Some (sent_time dt (cf_to f))"
    using assms by (subst query_field_optional [where v = "cf_from f"] query_field_optional [where v = "cf_to f"],
        simp add: completed_params_def, simp add: optional_time)+
  have numbers: "query_field query_usize ''limit'' ?q = Some (cf_limit f)"
    "query_field query_usize ''offset'' ?q = Some (cf_offset f)"
    using assms by (subst query_field_optional [where v = "map_option show_nat (cf_limit f)"]
        query_field_optional [where v = "map_option show_nat (cf_offset f)"],
        simp add: completed_params_def, simp only: typed_arguments.simps optional_number)+
  show ?thesis by (simp add: de_completed_query_def texts times numbers)
qed

lemma log_params:
  assumes "small n"
  shows "de_log_query (optional ''level'' lev @ optional ''search'' q @ optional ''limit'' (map_option show_nat n))
    = Some (lev, q, n)"
proof -
  let ?q = "optional ''level'' lev @ optional ''search'' q @ optional ''limit'' (map_option show_nat n)"
  have "query_field Some ''level'' ?q = Some lev"
    by (subst query_field_optional [where v = lev]) (simp_all add: optional_text)
  moreover have "query_field Some ''search'' ?q = Some q"
    by (subst query_field_optional [where v = q]) (simp_all add: optional_text)
  moreover have "query_field query_usize ''limit'' ?q = Some n"
    using assms by (subst query_field_optional [where v = "map_option show_nat n"]) (simp, simp only: optional_number)
  ultimately show ?thesis by (simp add: de_log_query_def)
qed

lemma bucket_params:
  assumes "off < 2 ^ 64" and "n < 2 ^ 64"
  shows "de_bucket_entries_query [(''offset'', show_nat off), (''limit'', show_nat n)] = Some (Some off, Some n)"
  using assms by (simp add: de_bucket_entries_query_def query_field_def query_usize_show)

lemma cascade_param [simp]: "de_delete_definition_query [(''cascade'', show_bool b)] = Some (Some b)"
  by (simp add: de_delete_definition_query_def query_field_def)

lemmas payloads = de_fetch_payload de_retry_payload history_params completed_params_query log_params bucket_params

lemma deploy_routed:
  assumes "wire_ok w base" and "Some t = deploy_target c" and "sendable w t"
    and "typed_arguments dt (DeployC c)"
  shows "http_route dt metrics (on_wire w (request_to base t)) = Routed (deploy_meant c)"
proof (cases c)
  case DeploySimple
  then show ?thesis using assms(2) by simp
next
  case (DeployDefinition xml name)
  then show ?thesis
    using assms by (intro routed_by [OF route_pieces(1) assms(1,3), where pattern = "''/api/deploy''"])
      (simp add: routing decoding payloads start_routes_def)+
next
  case ListDefinitionsCmd
  then show ?thesis
    using assms by (intro routed_by [OF route_pieces(2) assms(1,3), where pattern = "''/api/definitions''"])
      (simp add: routing decoding payloads definition_routes_def)+
next
  case (GetDefinitionXmlCmd i)
  then show ?thesis
    using assms by (intro routed_by [OF route_pieces(2) assms(1,3), where pattern = "''/api/definitions/{id}/xml''"])
      (simp add: routing decoding payloads definition_routes_def)+
next
  case (DeleteDefinitionCmd i b)
  then show ?thesis
    using assms by (intro routed_by [OF route_pieces(2) assms(1,3), where pattern = "''/api/definitions/{id}''"])
      (simp add: routing decoding payloads definition_routes_def)+
next
  case (DeleteAllDefinitionsCmd i b)
  then show ?thesis
    using assms by (intro routed_by [OF route_pieces(2) assms(1,3), where pattern = "''/api/definitions/bpmn/{bpmn_id}''"])
      (simp add: routing decoding payloads definition_routes_def)+
qed

lemma instance_routed:
  assumes "wire_ok w base" and "t = instance_target c" and "sendable w t"
    and "typed_arguments dt (InstanceC c)"
  shows "http_route dt metrics (on_wire w (request_to base t)) = Routed (command_arrives dt hc fs (InstanceC c))"
proof (cases c)
  case (StartCmd k vs)
  then show ?thesis
    using assms by (intro routed_by [OF route_pieces(1) assms(1,3), where pattern = "''/api/start''"])
      (simp add: command_arrives_def routing decoding payloads start_routes_def)+
next
  case (StartTimerCmd k vs)
  then show ?thesis
    using assms by (intro routed_by [OF route_pieces(1) assms(1,3), where pattern = "''/api/start/timer''"])
      (simp add: command_arrives_def routing decoding payloads start_routes_def)+
next
  case ListInstancesCmd
  then show ?thesis
    using assms by (intro routed_by [OF route_pieces(1) assms(1,3), where pattern = "''/api/instances''"])
      (simp add: command_arrives_def routing decoding payloads start_routes_def)+
next
  case (GetDetailsCmd i)
  then show ?thesis
    using assms by (intro routed_by [OF route_pieces(1) assms(1,3), where pattern = "''/api/instances/{id}''"])
      (simp add: command_arrives_def routing decoding payloads start_routes_def)+
next
  case (GetHistoryCmd i ets ats)
  then show ?thesis
    using assms by (intro routed_by [OF route_pieces(3) assms(1,3), where pattern = "''/api/instances/{id}/history''"])
      (auto simp: command_arrives_def routing decoding payloads instance_routes_def)+
next
  case (UpdateVariablesCmd i vs)
  then show ?thesis
    using assms by (intro routed_by [OF route_pieces(3) assms(1,3), where pattern = "''/api/instances/{id}/variables''"])
      (simp add: command_arrives_def routing decoding payloads instance_routes_def)+
next
  case (SuspendCmd i)
  then show ?thesis
    using assms by (intro routed_by [OF route_pieces(3) assms(1,3), where pattern = "''/api/instances/{id}/suspend''"])
      (simp add: command_arrives_def routing decoding payloads instance_routes_def)+
next
  case (ResumeCmd i)
  then show ?thesis
    using assms by (intro routed_by [OF route_pieces(3) assms(1,3), where pattern = "''/api/instances/{id}/resume''"])
      (simp add: command_arrives_def routing decoding payloads instance_routes_def)+
next
  case (MoveTokenCmd i n vs b)
  then show ?thesis
    using assms by (intro routed_by [OF route_pieces(3) assms(1,3), where pattern = "''/api/instances/{id}/move-token''"])
      (simp add: command_arrives_def routing decoding payloads instance_routes_def)+
next
  case (MigrateCmd i k m)
  then show ?thesis
    using assms by (intro routed_by [OF route_pieces(3) assms(1,3), where pattern = "''/api/instances/{id}/migrate''"])
      (simp add: command_arrives_def routing decoding payloads instance_routes_def)+
next
  case (DeleteInstanceCmd i)
  then show ?thesis
    using assms by (intro routed_by [OF route_pieces(1) assms(1,3), where pattern = "''/api/instances/{id}''"])
      (simp add: command_arrives_def routing decoding payloads start_routes_def)+
next
  case (QueryCompletedCmd f)
  then show ?thesis
    using assms by (intro routed_by [OF route_pieces(4) assms(1,3), where pattern = "''/api/history/instances''"])
      (simp add: command_arrives_def routing decoding payloads monitor_routes_def)+
next
  case (GetCompletedCmd i)
  then show ?thesis
    using assms by (intro routed_by [OF route_pieces(4) assms(1,3), where pattern = "''/api/history/instances/{id}''"])
      (simp add: command_arrives_def routing decoding payloads monitor_routes_def)+
next
  case (CorrelateCmd n bk vs)
  then show ?thesis
    using assms by (intro routed_by [OF route_pieces(5) assms(1,3), where pattern = "''/api/message''"])
      (simp add: command_arrives_def routing decoding payloads event_routes_def)+
qed

lemma task_routed:
  assumes "wire_ok w base" and "t = task_target c" and "sendable w t"
    and "typed_arguments dt (TaskC c)"
  shows "http_route dt metrics (on_wire w (request_to base t)) = Routed (task_meant c)"
proof (cases c)
  case PendingTasksCmd
  then show ?thesis
    using assms by (intro routed_by [OF route_pieces(1) assms(1,3), where pattern = "''/api/tasks''"])
      (simp add: routing decoding payloads start_routes_def)+
next
  case (CompleteTaskCmd u vs)
  then show ?thesis
    using assms by (intro routed_by [OF route_pieces(1) assms(1,3), where pattern = "''/api/complete/{id}''"])
      (simp add: routing decoding payloads start_routes_def)+
next
  case PendingServiceTasksCmd
  then show ?thesis
    using assms by (intro routed_by [OF route_pieces(6) assms(1,3), where pattern = "''/api/service-tasks''"])
      (simp add: routing decoding payloads service_routes_def)+
next
  case (FetchCmd wk n tp l)
  then show ?thesis
    using assms by (intro routed_by [OF route_pieces(6) assms(1,3), where pattern = "''/api/service-task/fetchAndLock''"])
      (simp add: routing decoding payloads service_routes_def)+
next
  case (CompleteServiceTaskCmd u wk vs)
  then show ?thesis
    using assms by (intro routed_by [OF route_pieces(6) assms(1,3), where pattern = "''/api/service-task/{id}/complete''"])
      (simp add: routing decoding payloads service_routes_def)+
next
  case (RetryCmd u n)
  then show ?thesis
    using assms by (intro routed_by [OF route_pieces(6) assms(1,3), where pattern = "''/api/service-task/{id}/retry''"])
      (simp add: routing decoding payloads service_routes_def)+
next
  case (ResolveCmd u vs)
  then show ?thesis
    using assms by (intro routed_by [OF route_pieces(6) assms(1,3), where pattern = "''/api/service-task/{id}/resolve''"])
      (simp add: routing decoding payloads service_routes_def)+
next
  case PendingTimersCmd
  then show ?thesis
    using assms by (intro routed_by [OF route_pieces(5) assms(1,3), where pattern = "''/api/timers''"])
      (simp add: routing decoding payloads event_routes_def)+
next
  case PendingMessagesCmd
  then show ?thesis
    using assms by (intro routed_by [OF route_pieces(5) assms(1,3), where pattern = "''/api/messages''"])
      (simp add: routing decoding payloads event_routes_def)+
qed

lemma other_routed:
  assumes "wire_ok w base" and "Some t = other_target hc fs c" and "sendable w t"
    and "typed_arguments dt (OtherC c)"
  shows "http_route dt metrics (on_wire w (request_to base t)) = Routed (other_meant hc fs c)"
proof (cases c)
  case (UploadCmd i v path)
  then obtain data where "tget fs path = Some data"
    "t = (POST, [''api'', ''instances'', i, ''files'', v], [], [], FormBody (Inr (Some (upload_part hc path data))))"
    using assms(2) by (auto split: option.splits if_splits)
  with UploadCmd show ?thesis
    using assms by (intro routed_by [OF route_pieces(3) assms(1,3), where pattern = "''/api/instances/{id}/files/{var_name}''"])
      (simp add: routing decoding payloads instance_routes_def)+
next
  case (DownloadCmd i v path)
  then show ?thesis
    using assms by (intro routed_by [OF route_pieces(3) assms(1,3), where pattern = "''/api/instances/{id}/files/{var_name}''"])
      (simp add: routing decoding payloads instance_routes_def)+
next
  case (DeleteFileCmd i v)
  then show ?thesis
    using assms by (intro routed_by [OF route_pieces(3) assms(1,3), where pattern = "''/api/instances/{id}/files/{var_name}''"])
      (simp add: routing decoding payloads instance_routes_def)+
next
  case GetUrlCmd
  then show ?thesis using assms(2) by simp
next
  case (SetUrlCmd url)
  then show ?thesis using assms(2) by simp
next
  case MonitoringCmd
  then show ?thesis
    using assms by (intro routed_by [OF route_pieces(4) assms(1,3), where pattern = "''/api/monitoring''"])
      (simp add: routing decoding payloads monitor_routes_def)+
next
  case (BucketEntriesCmd b off n)
  then show ?thesis
    using assms by (intro routed_by [OF route_pieces(4) assms(1,3), where pattern = "''/api/monitoring/buckets/{bucket}/entries''"])
      (simp add: routing decoding payloads monitor_routes_def)+
next
  case (BucketEntryCmd b k)
  then show ?thesis
    using assms by (intro routed_by [OF route_pieces(4) assms(1,3), where pattern = "''/api/monitoring/buckets/{bucket}/entries/{key}''"])
      (simp add: routing decoding payloads monitor_routes_def)+
next
  case (LogsCmd lev q n)
  then show ?thesis
    using assms by (intro routed_by [OF route_pieces(7) assms(1,3), where pattern = "''/api/logs''"])
      (simp add: routing decoding payloads log_routes_def)+
next
  case (ReadFileCmd path)
  then show ?thesis using assms(2) by simp
qed

end
