(* ===== verification/DesktopServer.thy ===== *)
theory DesktopServer
  imports DesktopRequests "HOL-Library.Countable"
begin

text \<open>
  The desktop application and the server together: the client of the commands is a server that routes and serves
  the requests, with the bodies of its answers.
\<close>

section \<open>The bodies of the answers\<close>

definition deploy_response :: "string \<times> int \<Rightarrow> json" where
  "deploy_response kv = JObj [(''definition_key'', JStr (fst kv)), (''version'', JNum (JInt (snd kv)))]"

definition start_response :: "string \<Rightarrow> json" where
  "start_response i = JObj [(''instance_id'', JStr i)]"

definition start_latest_response :: "string \<times> string \<times> int \<Rightarrow> json" where
  "start_latest_response x =
     (case x of (i, k, v) \<Rightarrow>
        JObj [(''definition_key'', JStr k), (''instance_id'', JStr i), (''version'', JNum (JInt v))])"

definition correlate_response :: "string list \<Rightarrow> json" where
  "correlate_response ids = JObj [(''affectedInstances'', JArr (map JStr ids))]"

definition error_response :: "string \<Rightarrow> json" where
  "error_response m = JObj [(''error'', JStr m)]"

instance json_number :: countable
  by countable_datatype

instance json :: countable
  by countable_datatype

text \<open>The records of the monitoring endpoint; their instants and counters are numbers.\<close>

definition bucket_json :: "bucket_info \<Rightarrow> json" where
  "bucket_json b =
     JObj [(''bucket_type'', JStr (bi_bucket_type b)), (''entries'', json_nat (bi_entries b)), (''name'', JStr (bi_name b)),
           (''size_bytes'', json_nat (bi_size_bytes b))]"

definition storage_json :: "storage_info \<Rightarrow> json" where
  "storage_json i =
     JObj [(''backend_name'', JStr (si_backend_name i)), (''buckets'', JArr (map bucket_json (si_buckets i))),
           (''consumers'', json_nat (si_consumers i)), (''host'', JStr (si_host i)),
           (''memory_bytes'', json_nat (si_memory_bytes i)), (''port'', json_nat (si_port i)),
           (''storage_bytes'', json_nat (si_storage_bytes i)), (''streams'', json_nat (si_streams i)),
           (''version'', JStr (si_version i))]"

definition monitoring_response :: "monitoring_data \<Rightarrow> json" where
  "monitoring_response m =
     JObj [(''definitions_count'', json_nat (md_definitions m)), (''instances_completed'', json_nat (md_instances_completed m)),
           (''instances_running'', json_nat (md_instances_running m)), (''instances_total'', json_nat (md_instances_total m)),
           (''pending_message_catches'', json_nat (md_message_catches m)),
           (''pending_service_tasks'', json_nat (md_service_tasks m)), (''pending_timers'', json_nat (md_timers m)),
           (''pending_user_tasks'', json_nat (md_user_tasks m)), (''persistence_errors'', json_nat (md_persistence_errors m)),
           (''storage_info'', or_null storage_json (md_storage_info m))]"

text \<open>The desktop application reads back everything but the count of persistence errors, which its record has no field for.\<close>

definition fits_u64 :: "nat \<Rightarrow> bool" where
  "fits_u64 n \<longleftrightarrow> n < 2 ^ 64"

definition storage_fits :: "storage_info \<Rightarrow> bool" where
  "storage_fits i \<longleftrightarrow>
     si_port i < 2 ^ 16 \<and> fits_u64 (si_memory_bytes i) \<and> fits_u64 (si_storage_bytes i) \<and> fits_u64 (si_streams i) \<and>
     fits_u64 (si_consumers i) \<and> list_all (\<lambda>b. fits_u64 (bi_entries b) \<and> fits_u64 (bi_size_bytes b)) (si_buckets i)"

lemma de_u64_fits [simp]: "fits_u64 n \<Longrightarrow> de_u64 (json_nat n) = Some n"
  by (simp add: fits_u64_def de_json_nat)

lemma bucket_back: "fits_u64 (bi_entries b) \<Longrightarrow> fits_u64 (bi_size_bytes b) \<Longrightarrow> de_bucket_info (bucket_json b) = Some b"
  by (simp add: de_bucket_info_def bucket_json_def de_struct_def)

lemma buckets_back:
  "list_all (\<lambda>b. fits_u64 (bi_entries b) \<and> fits_u64 (bi_size_bytes b)) bs \<Longrightarrow>
   those (map (de_bucket_info \<circ> bucket_json) bs) = Some bs"
  by (induction bs) (simp_all add: bucket_back)

lemma storage_back: "storage_fits i \<Longrightarrow> de_storage_info (storage_json i) = Some i"
  by (simp add: de_storage_info_def storage_json_def de_struct_def storage_fits_def buckets_back)
     (simp add: de_u16_def json_nat_def)

lemma monitoring_survives:
  assumes "list_all fits_u64 [md_definitions m, md_instances_total m, md_instances_running m, md_instances_completed m,
      md_user_tasks m, md_service_tasks m, md_timers m, md_message_catches m]"
    and "\<And>i. md_storage_info m = Some i \<Longrightarrow> storage_fits i"
  shows "de_monitoring_view (monitoring_response m) =
    Some \<lparr>mv_definitions = md_definitions m, mv_instances_total = md_instances_total m,
          mv_instances_running = md_instances_running m, mv_instances_completed = md_instances_completed m,
          mv_user_tasks = md_user_tasks m, mv_service_tasks = md_service_tasks m, mv_timers = md_timers m,
          mv_message_catches = md_message_catches m, mv_storage_info = md_storage_info m\<rparr>"
proof -
  have "de_option de_storage_info (Some (or_null storage_json (md_storage_info m))) = Some (md_storage_info m)"
  proof (cases "md_storage_info m")
    case (Some i)
    have "storage_json i \<noteq> JNull" by (simp add: storage_json_def)
    then show ?thesis
      using storage_back [OF assms(2) [OF Some]] Some by (cases "storage_json i") (simp_all add: or_null_def)
  qed (simp add: or_null_def)
  then show ?thesis
    using assms(1) by (simp add: de_monitoring_view_def monitoring_response_def de_struct_def)
qed

text \<open>
  The server at the other end: its environment, the clock and the other clients for the long poll, serde's text of a
  JSON value, the text of a message, the bodies of the other answers, and the answers of axum to requests that
  reach no handler.
\<close>

record 'p remote =
  re_server :: "'p server_env"
  re_clock :: "nat \<Rightarrow> nat"
  re_others :: "nat \<Rightarrow> 'p app \<Rightarrow> 'p app"
  re_json :: "json \<Rightarrow> string"
  re_message :: "msg \<Rightarrow> string"
  re_body :: "request \<Rightarrow> 'p app \<Rightarrow> string"
  re_refusal :: "routed \<Rightarrow> http_answer"
  re_time :: "string \<Rightarrow> time option"
  re_metrics :: bool

definition responded :: "'p remote \<Rightarrow> ('a \<Rightarrow> json) \<Rightarrow> (app_error, 'a) outcome \<Rightarrow> string" where
  "responded re f r =
     (case r of
        Ok x \<Rightarrow> re_json re (f x)
      | Err er \<Rightarrow> re_json re (error_response (re_message re (snd (into_response er))))
      | Diverged \<Rightarrow> [])"

fun answer_body :: "'p remote \<Rightarrow> request \<Rightarrow> 'p app \<Rightarrow> string" where
  "answer_body re (Definitions (Deploy xml)) s =
     responded re deploy_response (snd (http_deploy_definition (re_server re) xml s))"
| "answer_body re (Definitions (GetDefinitionXml i)) s =
     (case http_get_definition_xml (re_server re) i s of
        Ok xml \<Rightarrow> xml
      | r \<Rightarrow> responded re JStr r)"
| "answer_body re (Instances (Start k vs)) s =
     responded re start_response (snd (http_start_instance (re_server re) k vs s))"
| "answer_body re (Instances (StartLatest b vs)) s =
     responded re start_latest_response (snd (http_start_instance_latest (re_server re) b vs s))"
| "answer_body re (Instances (StartTimer k vs)) s =
     responded re start_response (snd (http_start_timer_instance (re_server re) k vs s))"
| "answer_body re (Instances (CorrelateMessageReq n bk vs)) s =
     responded re correlate_response (snd (http_correlate_message (re_server re) n bk vs s))"
| "answer_body re (Monitor GetMonitoring) s =
     re_json re (monitoring_response (http_get_monitoring_data (re_server re) s))"
| "answer_body re r s = re_body re r s"

definition served :: "'p remote \<Rightarrow> request \<Rightarrow> 'p app \<Rightarrow> 'p app \<times> http_status option" where
  "served re = serve (re_server re) (re_clock re) (re_others re)"

definition remote_send :: "wire \<Rightarrow> 'p remote \<Rightarrow> client_request \<Rightarrow> 'p app \<Rightarrow> 'p app \<times> (string, http_answer) outcome" where
  "remote_send w re rq s =
     (case http_route (re_time re) (re_metrics re) (on_wire w rq) of
        Routed r \<Rightarrow>
          (case served re r s of
             (s', None) \<Rightarrow> (s', Diverged)
           | (s', Some st) \<Rightarrow> (s', Ok \<lparr>ha_status = status_code st, ha_body = Inr (answer_body re r s)\<rparr>))
      | other \<Rightarrow> (s, Ok (re_refusal re other)))"

section \<open>Commands are requests\<close>

lemma command_routed:
  assumes "wire_ok w base" and "command_target hc fs c = Some t" and "sendable w t" and "typed_arguments dt c"
  shows "http_route dt metrics (on_wire w (request_to base t)) = Routed (command_arrives dt hc fs c)"
proof (cases c)
  case (DeployC c)
  then show ?thesis
    using deploy_routed [OF assms(1) _ assms(3), of c dt metrics] assms(2,4) by (simp add: command_arrives_def)
next
  case (InstanceC c)
  then show ?thesis
    using instance_routed [OF assms(1) _ assms(3), of c dt metrics hc fs] assms(2,4) by simp
next
  case (TaskC c)
  then show ?thesis
    using task_routed [OF assms(1) _ assms(3), of c dt metrics] assms(2,4) by (simp add: command_arrives_def)
next
  case (OtherC c)
  then show ?thesis
    using other_routed [OF assms(1) _ assms(3), of hc fs c dt metrics] assms(2,4) by (simp add: command_arrives_def)
qed

text \<open>
  C36. A command of the desktop application that sends a request fits the interface of the server: the path, query and
  body of what it sends are taken apart by the router into the request of the command's operation, with the arguments of
  the command, except for one: a history command that filters by actor types reaches the server without that filter.
  (The arguments are in the range of their types and plain enough for a URL; a command without a target, which asks for
  the address, changes it or reads a file, sends nothing.)
\<close>

theorem commands_reach_their_handlers:
  assumes "wire_ok w (dk_base_url d)" and "\<not> dk_poisoned d"
    and "command_target hc (dk_files d) c = Some t" and "sendable w t" and "typed_arguments dt c"
  shows "\<exists>rq. dk_world (fst (run_command hc c d)) = fst (hc_send hc rq (dk_world d)) \<and>
    http_route dt metrics (on_wire w rq) =
      Routed (if filters_by_actor c then without_actor_filter (command_meant dt hc (dk_files d) c)
              else command_meant dt hc (dk_files d) c)"
proof (intro exI conjI)
  show "dk_world (fst (run_command hc c d)) = fst (hc_send hc (request_to (dk_base_url d) t) (dk_world d))"
    using command_sends [OF assms(2), of hc c] assms(3) by (simp add: sends_def case_prod_unfold)
  show "http_route dt metrics (on_wire w (request_to (dk_base_url d) t)) =
      Routed (if filters_by_actor c then without_actor_filter (command_meant dt hc (dk_files d) c)
              else command_meant dt hc (dk_files d) c)"
    using command_routed [OF assms(1,3-5), of metrics] by (simp add: command_arrives_def)
qed

text \<open>
  C37. A command run against a server changes it exactly as its request does, and is reported as done only when the
  server answered it with a status of success.
\<close>

theorem desktop_drives_the_server:
  assumes "wire_ok w (dk_base_url d)" and "\<not> dk_poisoned d" and "hc_send hc = remote_send w re"
    and "command_target hc (dk_files d) c = Some t" and "sendable w t" and "typed_arguments (re_time re) c"
  shows "dk_world (fst (run_command hc c d)) = fst (served re (command_arrives (re_time re) hc (dk_files d) c) (dk_world d)) \<and>
    (\<forall>x. snd (run_command hc c d) = Ok x \<longrightarrow>
       (\<exists>st. snd (served re (command_arrives (re_time re) hc (dk_files d) c) (dk_world d)) = Some st \<and>
             success (status_code st)))"
proof -
  let ?r = "command_arrives (re_time re) hc (dk_files d) c"
  have "http_route (re_time re) (re_metrics re) (on_wire w (request_to (dk_base_url d) t)) = Routed ?r"
    by (rule command_routed) (rule assms)+
  then have "hc_send hc (request_to (dk_base_url d) t) (dk_world d) =
    (case served re ?r (dk_world d) of
       (s', None) \<Rightarrow> (s', Diverged)
     | (s', Some st) \<Rightarrow> (s', Ok \<lparr>ha_status = status_code st, ha_body = Inr (answer_body re ?r (dk_world d))\<rparr>))"
    by (simp add: assms(3) remote_send_def)
  with command_sends [OF assms(2), of hc c] assms(4) show ?thesis
    by (cases "served re ?r (dk_world d)"; cases "snd (served re ?r (dk_world d))") (auto simp: sends_def)
qed

section \<open>A deployed text is read back\<close>

lemma remote_answer:
  assumes "wire_ok w (dk_base_url d)" and "command_target hc fs c = Some t" and "sendable w t"
    and "typed_arguments (re_time re) c" and "hc_send hc = remote_send w re"
    and "served re (command_arrives (re_time re) hc fs c) (dk_world d) = (s', Some st)"
  shows "hc_send hc (request_to (dk_base_url d) t) (dk_world d) =
    (s', Ok \<lparr>ha_status = status_code st, ha_body = Inr (answer_body re (command_arrives (re_time re) hc fs c) (dk_world d))\<rparr>)"
  using command_routed [OF assms(1-4), of "re_metrics re"] assms(5,6) by (simp add: remote_send_def)

text \<open>The request of the deployment command, and of the command that reads a text.\<close>

definition deploy_request :: "string \<Rightarrow> string \<Rightarrow> target" where
  "deploy_request xml name = (POST, [''api'', ''deploy''], [], [], JsonBody (JObj [(''name'', JStr name), (''xml'', JStr xml)]))"

definition xml_request :: "string \<Rightarrow> target" where
  "xml_request key = (GET, [''api'', ''definitions'', key, ''xml''], [], [], NoBody)"

lemma deploy_request_text:
  "\<lparr>cr_method = POST, cr_url = base @ ''/api/deploy'', cr_query = [],
    cr_body = JsonBody (JObj [(''name'', JStr name), (''xml'', JStr xml)])\<rparr> = request_to base (deploy_request xml name)"
  by (simp add: request_to_def deploy_request_def path_text_def query_text_def)

lemma xml_request_text:
  "\<lparr>cr_method = GET, cr_url = base @ ''/api/definitions/'' @ key @ ''/xml'', cr_query = [], cr_body = NoBody\<rparr>
   = request_to base (xml_request key)"
  by (simp add: request_to_def xml_request_def path_text_def query_text_def)

lemma plain_literals: "plain ''api''" "plain ''deploy''" "plain ''definitions''" "plain ''xml''"
  by (simp_all add: plain_def plain_char_def in_range_def)

lemmas deploy_command_defs = cmd_deploy_definition_def api_post_def get_base_url_def liftR_def send_cases deploy_request_text

lemma deploy_target_is: "command_target hc fs (DeployC (DeployDefinition xml name)) = Some (deploy_request xml name)"
  by (simp add: deploy_request_def post_to_def)

lemma deploy_command_succeeds:
  assumes "wire_ok w (dk_base_url d)" and "\<not> dk_poisoned d" and "hc_send hc = remote_send w re"
    and "\<And>j. hc_from_str hc (re_json re j) = Inr j" and "sendable w (deploy_request xml name)"
    and "http_deploy_definition (re_server re) xml (dk_world d) = (s', Ok (key, v))"
  shows "cmd_deploy_definition hc xml name d = (d\<lparr>dk_world := s'\<rparr>, Ok key)"
proof -
  have "served re (Definitions (Deploy xml)) (dk_world d) = (s', Some StatusOk)"
    by (simp add: served_def assms(6) answer_def)
  then have "hc_send hc (request_to (dk_base_url d) (deploy_request xml name)) (dk_world d)
    = (s', Ok \<lparr>ha_status = 200, ha_body = Inr (re_json re (deploy_response (key, v)))\<rparr>)"
    using remote_answer [OF assms(1) deploy_target_is assms(5) _ assms(3)] by (simp add: assms(6) responded_def)
  then show ?thesis
    using assms(2) by (simp add: deploy_command_defs success_def json_of_def assms(4) text_at_def index_str_def deploy_response_def)
qed

lemma deploy_command_answer:
  assumes "wire_ok w (dk_base_url d)" and "\<not> dk_poisoned d" and "hc_send hc = remote_send w re"
    and "\<And>j. hc_from_str hc (re_json re j) = Inr j" and "sendable w (deploy_request xml name)"
    and "run_command hc (DeployC (DeployDefinition xml name)) d = (d', Ok (RText key))"
  shows "\<exists>s' v. http_deploy_definition (re_server re) xml (dk_world d) = (s', Ok (key, v)) \<and> d' = d\<lparr>dk_world := s'\<rparr>"
proof -
  let ?s = "dk_world d" and ?r = "Definitions (Deploy xml)"
  obtain s' res where h: "http_deploy_definition (re_server re) xml ?s = (s', res)" by fastforce
  note t = deploy_target_is [of hc "dk_files d" xml name]
  have sv: "served re ?r ?s = (s', case res of Ok x \<Rightarrow> Some StatusOk | Err er \<Rightarrow> Some (fst (into_response er)) | Diverged \<Rightarrow> None)"
    by (simp add: served_def h answer_def)
  have run: "cmd_deploy_definition hc xml name d = (d', Ok key)"
    using assms(6) by (cases "cmd_deploy_definition hc xml name d"; cases "snd (cmd_deploy_definition hc xml name d)")
      (auto simp: replying_def)
  show ?thesis
  proof (cases res)
    case (Ok kv)
    then have "cmd_deploy_definition hc xml name d = (d\<lparr>dk_world := s'\<rparr>, Ok (fst kv))"
      using h by (intro deploy_command_succeeds [OF assms(1-5), of _ _ "snd kv"]) simp
    then show ?thesis using run h Ok by (cases kv) auto
  next
    case (Err er)
    have "hc_send hc (request_to (dk_base_url d) (deploy_request xml name)) ?s
      = (s', Ok \<lparr>ha_status = status_code (fst (into_response er)), ha_body = Inr (answer_body re ?r ?s)\<rparr>)"
      using remote_answer [OF assms(1) t assms(5) _ assms(3)] sv Err by (simp add: h)
    moreover have "\<not> success (status_code (fst (into_response er)))"
      by (cases er rule: into_response.cases) (simp_all add: success_def)
    ultimately show ?thesis using run assms(2) by (simp add: deploy_command_defs)
  next
    case Diverged
    then have "hc_send hc (request_to (dk_base_url d) (deploy_request xml name)) ?s = (s', Diverged)"
      using command_routed [OF assms(1) t assms(5), of "re_time re" "re_metrics re"] sv
      by (simp add: assms(3) remote_send_def)
    then show ?thesis using run assms(2) by (simp add: deploy_command_defs)
  qed
qed

text \<open>
  C38. A text deployed through the desktop application is read back through it: with the key that the deployment
  returned, the command for the text of a definition returns the same text.
\<close>

theorem deployed_text_returns_to_the_desktop:
  assumes "wire_ok w (dk_base_url d)" and "\<not> dk_poisoned d" and "hc_send hc = remote_send w re"
    and "\<And>j. hc_from_str hc (re_json re j) = Inr j"
    and "\<And>u. plain (env_uuid_str (sv_engine (re_server re)) u) \<and> env_uuid_str (sv_engine (re_server re)) u \<noteq> ''bpmn''"
    and "sendable w (deploy_request xml name)" and "wi_bytes w NoBody \<le> body_limit"
    and "run_command hc (DeployC (DeployDefinition xml name)) d = (d', Ok (RText key))"
  shows "run_command hc (DeployC (GetDefinitionXmlCmd key)) d' = (d', Ok (RText xml))"
proof -
  obtain s' v where h: "http_deploy_definition (re_server re) xml (dk_world d) = (s', Ok (key, v))"
    and d': "d' = d\<lparr>dk_world := s'\<rparr>"
    using deploy_command_answer [OF assms(1-4,6,8)] by blast
  from h obtain u where "key = env_uuid_str (sv_engine (re_server re)) u"
    by (auto simp: http_deploy_definition_def Let_def split: if_splits prod.splits outcome.splits)
  then have key: "plain key" "key \<noteq> ''bpmn''" using assms(5) by auto
  have x: "http_get_definition_xml (re_server re) key s' = Ok xml" by (rule deployed_text_is_read_back(1) [OF h])
  then have sv: "served re (Definitions (GetDefinitionXml key)) s' = (s', Some StatusOk)"
    by (simp add: served_def looking_def answer_def)
  have t: "command_target hc fs (DeployC (GetDefinitionXmlCmd key)) = Some (xml_request key)" for fs
    by (simp add: xml_request_def get_to_def)
  have "sendable w (xml_request key)"
    using key assms(7) by (simp add: sendable_def plain_target_def xml_request_def plain_literals)
  then have "hc_send hc (request_to (dk_base_url d') (xml_request key)) (dk_world d')
      = (s', Ok \<lparr>ha_status = 200, ha_body = Inr xml\<rparr>)"
    using remote_answer [OF _ t _ _ assms(3), of d' "dk_files d'" s' StatusOk] assms(1) key sv x by (simp add: d')
  then have "cmd_get_definition_xml hc key d' = (d', Ok xml)"
    using assms(2) unfolding cmd_get_definition_xml_def xml_request_text
    by (simp add: d' get_base_url_def liftR_def send_cases success_def)
  then show ?thesis by (simp add: replying_def)
qed

section \<open>A concrete wire and server\<close>

definition pair_at :: "string \<Rightarrow> string \<times> string" where
  "pair_at s = (case split_at ''='' s of None \<Rightarrow> (s, []) | Some kv \<Rightarrow> kv)"

definition plain_wire :: "string \<Rightarrow> wire" where
  "plain_wire base =
     \<lparr>wi_target = (\<lambda>url added.
        let t = drop (length base) url
        in case split_at ''?'' t of
             None \<Rightarrow> (tl (split_char (CHR ''/'') t), added)
           | Some (p, q) \<Rightarrow> (tl (split_char (CHR ''/'') p), map pair_at (split_char (CHR ''&'') q) @ added)),
      wi_bytes = (\<lambda>b. 0)\<rparr>"

lemma split_at_char: "c \<notin> set a \<Longrightarrow> split_at [c] (a @ c # b) = Some (a, b)"
  by (induction a) auto

lemma split_at_char_None: "c \<notin> set a \<Longrightarrow> split_at [c] a = None"
  by (induction a) auto

lemma plain_chars: "plain s \<Longrightarrow> c \<in> set s \<Longrightarrow> plain_char c"
  by (simp add: plain_def list_all_iff)

lemma reserved: "\<not> plain_char (CHR ''/'')" "\<not> plain_char (CHR ''?'')" "\<not> plain_char (CHR ''='')" "\<not> plain_char (CHR ''&'')"
  by (simp_all add: plain_char_def in_range_def)

lemma split_path_text: "list_all plain segs \<Longrightarrow> split_char (CHR ''/'') (path_text segs) = [] # segs"
proof (induction segs)
  case (Cons x segs)
  have x: "CHR ''/'' \<notin> set x" using Cons.prems plain_chars reserved by auto
  show ?case
  proof (cases segs)
    case Nil
    then show ?thesis using x by (simp add: path_text_def split_char_none)
  next
    case (Cons y ys)
    then have "path_text segs = CHR ''/'' # y @ path_text ys" by (simp add: path_text_def)
    then show ?thesis
      using Cons.IH Cons.prems x split_char_append [of "CHR ''/''" x "y @ path_text ys"] \<open>segs = _\<close>
      by (simp add: path_text_def)
  qed
qed (simp add: path_text_def)

lemma pairs_back:
  assumes "list_all (\<lambda>(k, v). plain k \<and> plain_value v) q" and "q \<noteq> []"
  shows "map pair_at (split_char (CHR ''&'') (join_char (CHR ''&'') (map param_text q))) = q"
proof -
  have "CHR ''&'' \<notin> set (param_text p)" "pair_at (param_text p) = p" if "p \<in> set q" for p
  proof -
    from that assms(1) have kv: "plain (fst p)" "plain_value (snd p)" by (auto simp: list_all_iff)
    then show "CHR ''&'' \<notin> set (param_text p)"
      using plain_chars reserved by (auto simp: param_text_def plain_value_def list_all_iff)
    have "CHR ''='' \<notin> set (fst p)" using kv(1) plain_chars reserved by auto
    then show "pair_at (param_text p) = p"
      using split_at_char [of "CHR ''=''" "fst p" "snd p"] by (simp add: pair_at_def param_text_def)
  qed
  then show ?thesis
    using assms(2) by (subst split_join) (auto intro: map_idI)
qed

lemma plain_wire_ok: "wire_ok (plain_wire base) base"
  unfolding wire_ok_def
proof (intro allI impI)
  fix segs q added
  assume a: "list_all plain segs" "list_all (\<lambda>(k, v). plain k \<and> plain_value v) (q :: query)"
  have "CHR ''?'' \<notin> set x" if "x \<in> set segs" for x
    using that a(1) plain_chars [of x] reserved(2) by (auto simp: list_all_iff)
  then have no: "CHR ''?'' \<notin> set (path_text segs)" by (auto simp: path_text_def)
  show "wi_target (plain_wire base) (base @ path_text segs @ query_text q) added = (segs, q @ added)"
  proof (cases "q = []")
    case True
    then show ?thesis using no split_path_text [OF a(1)]
      by (simp add: plain_wire_def query_text_def split_at_char_None)
  next
    case False
    then show ?thesis
      using no split_path_text [OF a(1)] pairs_back [OF a(2)]
        split_at_char [of "CHR ''?''" "path_text segs" "join_char (CHR ''&'') (map param_text q)"]
      by (simp add: plain_wire_def query_text_def)
  qed
qed

definition sample_remote :: "memory remote" where
  "sample_remote =
     \<lparr>re_server = sample_server, re_clock = (\<lambda>k. 500 * k), re_others = (\<lambda>k s. s),
      re_json = (\<lambda>j. replicate (to_nat j) CHR ''x''), re_message = (\<lambda>m. ''message''), re_body = (\<lambda>r s. ''null''),
      re_refusal = (\<lambda>r. \<lparr>ha_status = 404, ha_body = Inr []\<rparr>), re_time = (\<lambda>t. None), re_metrics = False\<rparr>"

definition sample_client :: "memory app http_client" where
  "sample_client =
     \<lparr>hc_send = remote_send (plain_wire ''http://localhost:8081'') sample_remote,
      hc_from_str = (\<lambda>t. Inr (from_nat (length t))), hc_mime_guess = (\<lambda>p. ''text/plain''),
      hc_mime_str = (\<lambda>m. None), hc_write = (\<lambda>p. None)\<rparr>"

definition sample_desktop :: "memory app desktop" where
  "sample_desktop = initial_desktop None sample_app []"

lemma sample_desktop_facts:
  "wire_ok (plain_wire ''http://localhost:8081'') (dk_base_url sample_desktop)" "\<not> dk_poisoned sample_desktop"
  "hc_send sample_client = remote_send (plain_wire ''http://localhost:8081'') sample_remote"
  "hc_from_str sample_client (re_json sample_remote j) = Inr j"
  "wi_bytes (plain_wire b) x = 0"
  by (simp_all add: sample_desktop_def initial_desktop_def plain_wire_ok sample_client_def sample_remote_def)
     (simp add: plain_wire_def)

theorem commands_reach_their_handlers_witness:
  "\<exists>rq. dk_world (fst (run_command sample_client (InstanceC (SuspendCmd ''7'')) sample_desktop))
          = fst (hc_send sample_client rq (dk_world sample_desktop)) \<and>
        http_route (\<lambda>t. None) False (on_wire (plain_wire ''http://localhost:8081'') rq) = Routed (Instances (SuspendReq ''7''))"
proof -
  let ?c = "InstanceC (SuspendCmd ''7'')"
  have t: "command_target sample_client (dk_files sample_desktop) ?c
    = Some (POST, [''api'', ''instances'', ''7'', ''suspend''], [], [], JsonBody (JObj []))"
    by (simp add: post_to_def)
  have "sendable (plain_wire ''http://localhost:8081'') (POST, [''api'', ''instances'', ''7'', ''suspend''], [], [], JsonBody (JObj []))"
    by (simp add: sendable_def plain_target_def sample_desktop_facts plain_def plain_char_def in_range_def)
  from commands_reach_their_handlers [OF sample_desktop_facts(1,2) t this] show ?thesis by simp
qed

theorem desktop_drives_the_server_witness:
  "dk_world (fst (run_command sample_client (InstanceC (SuspendCmd ''7'')) sample_desktop))
     = fst (served sample_remote (Instances (SuspendReq ''7'')) sample_app)"
proof -
  let ?c = "InstanceC (SuspendCmd ''7'')"
  have t: "command_target sample_client (dk_files sample_desktop) ?c
    = Some (POST, [''api'', ''instances'', ''7'', ''suspend''], [], [], JsonBody (JObj []))"
    by (simp add: post_to_def)
  have "sendable (plain_wire ''http://localhost:8081'') (POST, [''api'', ''instances'', ''7'', ''suspend''], [], [], JsonBody (JObj []))"
    by (simp add: sendable_def plain_target_def sample_desktop_facts plain_def plain_char_def in_range_def)
  from desktop_drives_the_server [OF sample_desktop_facts(1,2,3) t this] show ?thesis
    by (simp add: sample_desktop_def initial_desktop_def)
qed

lemma show_nat_plain: "plain (show_nat n) \<and> show_nat n \<noteq> ''bpmn''"
proof -
  have d: "list_all is_digit (show_nat n)" by (rule show_nat_digits)
  have "plain_char c" if "is_digit c" for c using that by (simp add: is_digit_def plain_char_def in_range_def)
  then have "list_all plain_char (show_nat n)" using d by (auto simp: list_all_iff)
  moreover have "\<not> list_all is_digit ''bpmn''" by (simp add: is_digit_def)
  ultimately show ?thesis using d by (auto simp: plain_def)
qed

definition later_desktop :: "memory app desktop" where
  "later_desktop = sample_desktop\<lparr>dk_world := sample_app\<lparr>ap_engine := (ap_engine sample_app)\<lparr>en_draws := 6\<rparr>\<rparr>\<rparr>"

lemma sample_deployment:
  "\<exists>s' k v. http_deploy_definition sample_server [] (dk_world later_desktop) = (s', Ok (k, v))"
proof -
  obtain d where p: "parse_bpmn_xml sample_parser 7 [] = Ok d" using sample_parses by blast
  show ?thesis
    by (simp add: http_deploy_definition_def sample_server_def sample_app_def draw_def memory_env_def
        with_persistence_def engine_new_def p Let_def later_desktop_def split: prod.split)
qed

theorem deployed_text_returns_to_the_desktop_witness:
  "\<exists>d' key. run_command sample_client (DeployC (DeployDefinition [] ''n'')) later_desktop = (d', Ok (RText key)) \<and>
     run_command sample_client (DeployC (GetDefinitionXmlCmd key)) d' = (d', Ok (RText []))"
proof -
  let ?w = "plain_wire ''http://localhost:8081''"
  obtain s' k v where h: "http_deploy_definition (re_server sample_remote) [] (dk_world later_desktop) = (s', Ok (k, v))"
    using sample_deployment by (auto simp: sample_remote_def)
  have s: "sendable ?w (deploy_request [] ''n'')"
    by (simp add: sendable_def plain_target_def deploy_request_def plain_literals sample_desktop_facts)
  have "wire_ok ?w (dk_base_url later_desktop)" "\<not> dk_poisoned later_desktop"
    using sample_desktop_facts(1,2) by (simp_all add: later_desktop_def)
  note facts = this sample_desktop_facts(3,4)
  have run: "run_command sample_client (DeployC (DeployDefinition [] ''n'')) later_desktop
      = (later_desktop\<lparr>dk_world := s'\<rparr>, Ok (RText k))"
    by (simp add: deploy_command_succeeds [OF facts s h] replying_def)
  have "plain (env_uuid_str (sv_engine (re_server sample_remote)) u) \<and> env_uuid_str (sv_engine (re_server sample_remote)) u \<noteq> ''bpmn''" for u
    using show_nat_plain by (simp add: sample_remote_def sample_server_def memory_env_def)
  from deployed_text_returns_to_the_desktop [OF facts this s _ run] run show ?thesis
    by (auto simp: sample_desktop_facts)
qed

end
