(* ===== verification/Orchestrator.thy ===== *)
theory Orchestrator
  imports DesktopServer
begin

text \<open>
  The agent orchestrator (\<open>agent-orchestrator/src/main.rs\<close>): one pass that deploys an example, starts it, works off
  its tasks over HTTP and fetches the final state; and what any client of the server can do to the engine.
\<close>

section \<open>The pass\<close>

definition post_json :: "string \<Rightarrow> json \<Rightarrow> client_request" where
  "post_json url j = \<lparr>cr_method = POST, cr_url = url, cr_query = [], cr_body = JsonBody j\<rparr>"

definition get_url :: "string \<Rightarrow> client_request" where
  "get_url url = \<lparr>cr_method = GET, cr_url = url, cr_query = [], cr_body = NoBody\<rparr>"

definition anyhow :: "string \<Rightarrow> msg" where
  "anyhow er = Msg ''{}'' [AStr er]"

text \<open>\<open>send().await?\<close>, and \<open>send().await?.json().await?\<close>: the status of the answer is not looked at.\<close>

definition sent_only :: "'w http_client \<Rightarrow> client_request \<Rightarrow> 'w \<Rightarrow> 'w \<times> (msg, http_answer) outcome" where
  "sent_only hc rq w = (case hc_send hc rq w of (w', r) \<Rightarrow> (w', map_err anyhow r))"

definition sent_json :: "'w http_client \<Rightarrow> client_request \<Rightarrow> 'w \<Rightarrow> 'w \<times> (msg, json) outcome" where
  "sent_json hc rq w = bindR (sent_only hc rq w) (\<lambda>w a. (w, json_of hc ''{}'' a))"

definition sent_array :: "'w http_client \<Rightarrow> client_request \<Rightarrow> 'w \<Rightarrow> 'w \<times> (msg, json list) outcome" where
  "sent_array hc rq w =
     bindR (sent_json hc rq w) (\<lambda>w j. (w, case j of JArr vs \<Rightarrow> Ok vs | _ \<Rightarrow> Err (Msg ''invalid type, expected a sequence'' [])))"

text \<open>A loop over the tasks found: the text of a field, and a request with it whose answer is dropped.\<close>

primrec complete_each ::
  "'w http_client \<Rightarrow> string \<Rightarrow> msg \<Rightarrow> (string \<Rightarrow> client_request) \<Rightarrow> json list \<Rightarrow> 'w \<Rightarrow> 'w \<times> (msg, unit) outcome" where
  "complete_each hc field missing rq [] w = (w, Ok ())"
| "complete_each hc field missing rq (task # tasks) w =
     (case index_str field task of
        None \<Rightarrow> (w, Err missing)
      | Some task_id \<Rightarrow> bindR (sent_only hc (rq task_id) w) (\<lambda>w a. complete_each hc field missing rq tasks w))"

definition orchestrator_fetch :: json where
  "orchestrator_fetch = fetch_payload ''orchestrator'' 10 ''InitialProcessing'' 10000"

definition complete_request :: "string \<Rightarrow> string \<Rightarrow> client_request" where
  "complete_request base_url task_id =
     post_json (base_url @ ''/api/service-task/'' @ task_id @ ''/complete'')
       (JObj [(''variables'', JObj [(''processed'', JBool True)]), (''workerId'', JStr ''orchestrator'')])"

definition complete_user_request :: "string \<Rightarrow> string \<Rightarrow> client_request" where
  "complete_user_request base_url task_id =
     post_json (base_url @ ''/api/complete/'' @ task_id) (JObj [(''variables'', JObj [])])"

definition orchestrator ::
  "'w http_client \<Rightarrow> (string \<Rightarrow> string option) \<Rightarrow> (string, string) table \<Rightarrow> 'w \<Rightarrow> 'w \<times> (msg, json) outcome" where
  "orchestrator hc getenv fs w =
     (let base_url = (case getenv ''ENGINE_API_URL'' of None \<Rightarrow> ''http://localhost:8081'' | Some u \<Rightarrow> u)
      in case tget fs ''example.bpmn'' of
           None \<Rightarrow> (w, Err (anyhow no_such_file))
         | Some bpmn_xml \<Rightarrow>
             if \<not> utf8 bpmn_xml then (w, Err (anyhow ''stream did not contain valid UTF-8'')) else
             bindR (sent_json hc (post_json (base_url @ ''/api/deploy'')
                      (JObj [(''name'', JStr ''example''), (''xml'', JStr bpmn_xml)])) w) (\<lambda>w deploy_res.
             bindR (liftR w (ok_or (Msg ''Missing or invalid 'definition_key' in deploy response'' [])
                      (index_str ''definition_key'' deploy_res))) (\<lambda>w def_key.
             bindR (sent_json hc (post_json (base_url @ ''/api/start'') (JObj [(''definition_key'', JStr def_key)])) w) (\<lambda>w start_res.
             bindR (liftR w (ok_or (Msg ''Missing or invalid 'instance_id' in start response'' [])
                      (index_str ''instance_id'' start_res))) (\<lambda>w instance_id.
             bindR (sent_array hc (post_json (base_url @ ''/api/service-task/fetchAndLock'') orchestrator_fetch) w) (\<lambda>w tasks.
             bindR (complete_each hc ''id'' (Msg ''Missing or invalid 'id' in service task payload'' [])
                      (complete_request base_url) tasks w) (\<lambda>w u.
             bindR (sent_array hc (get_url (base_url @ ''/api/tasks'')) w) (\<lambda>w user_tasks.
             bindR (complete_each hc ''task_id'' (Msg ''Missing or invalid 'task_id' in user task payload'' [])
                      (complete_user_request base_url) user_tasks w) (\<lambda>w u.
             sent_json hc (get_url (base_url @ ''/api/instances/'' @ instance_id)) w)))))))))"

section \<open>What it can do\<close>

text \<open>
  All that happens to the world of the client happens by requests it sends: what every request keeps, the pass keeps.
\<close>

definition kept_by :: "'w http_client \<Rightarrow> ('w \<Rightarrow> bool) \<Rightarrow> bool" where
  "kept_by hc P \<longleftrightarrow> (\<forall>rq w. P w \<longrightarrow> P (fst (hc_send hc rq w)))"

lemma sent_keeps:
  assumes "kept_by hc P" and "P w"
  shows "keeps P (sent_only hc rq w)" "keeps P (sent_json hc rq w)" "keeps P (sent_array hc rq w)"
proof -
  have only: "keeps P (sent_only hc rq w)" if "P w" for w
    using assms(1) that by (simp add: keeps_def sent_only_def case_prod_unfold kept_by_def)
  then show "keeps P (sent_only hc rq w)" using assms(2) .
  have js: "keeps P (sent_json hc rq w)" if "P w" for w
    unfolding sent_json_def by (intro keeps_intro only that)
  then show "keeps P (sent_json hc rq w)" using assms(2) .
  show "keeps P (sent_array hc rq w)"
    unfolding sent_array_def by (intro keeps_intro js assms(2))
qed

lemma complete_each_keeps:
  assumes "kept_by hc P" and "P w"
  shows "keeps P (complete_each hc field missing rq tasks w)"
  using assms(2)
proof (induction tasks arbitrary: w)
  case (Cons task tasks)
  show ?case
    unfolding complete_each.simps by (intro keeps_intro sent_keeps(1) [OF assms(1)] Cons)
qed (simp add: keeps_def)

lemma orchestrator_keeps:
  assumes "kept_by hc P" and "P w"
  shows "P (fst (orchestrator hc getenv fs w))"
proof -
  have "keeps P (orchestrator hc getenv fs w)"
    unfolding orchestrator_def
    by (intro keeps_intro sent_keeps [OF assms(1)] complete_each_keeps [OF assms(1)] assms(2))
  then show ?thesis by (simp add: keeps_def)
qed

section \<open>Clients and the engine\<close>

text \<open>Nothing a client sends takes the engine out of the states that its own calls reach.\<close>

lemma remote_keeps_reachable:
  assumes "reachable (sv_engine (re_server re)) (ap_engine s)"
    and "\<And>k s. reachable (sv_engine (re_server re)) (ap_engine s) \<Longrightarrow>
           reachable (sv_engine (re_server re)) (ap_engine (re_others re k s))"
  shows "reachable (sv_engine (re_server re)) (ap_engine (fst (remote_send w re rq s)))"
proof (cases "http_route (re_time re) (re_metrics re) (on_wire w rq)")
  case (Routed r)
  have "reachable (sv_engine (re_server re)) (ap_engine (fst (served re r s)))"
    unfolding served_def by (rule requests_keep_the_engine_reachable [OF assms(1)]) (rule assms(2))
  then show ?thesis
    using Routed by (cases "served re r s"; cases "snd (served re r s)") (simp_all add: remote_send_def)
qed (simp_all add: remote_send_def assms(1))

lemma clients_keep_the_engine_reachable:
  assumes "hc_send hc = remote_send w re"
    and "\<And>k s. reachable (sv_engine (re_server re)) (ap_engine s) \<Longrightarrow>
           reachable (sv_engine (re_server re)) (ap_engine (re_others re k s))"
  shows "reachable (sv_engine (re_server re)) (ap_engine s) \<Longrightarrow>
      reachable (sv_engine (re_server re)) (ap_engine (fst (orchestrator hc getenv fs s)))"
    "reachable (sv_engine (re_server re)) (ap_engine (dk_world d)) \<Longrightarrow> \<not> dk_poisoned d \<Longrightarrow>
      reachable (sv_engine (re_server re)) (ap_engine (dk_world (fst (run_command hc c d))))"
proof -
  let ?P = "\<lambda>s. reachable (sv_engine (re_server re)) (ap_engine s)"
  have send: "?P s \<Longrightarrow> ?P (fst (hc_send hc rq s))" for rq s
    using remote_keeps_reachable [OF _ assms(2), of s w rq] assms(1) by simp
  then have "kept_by hc ?P" by (simp add: kept_by_def)
  then show "?P s \<Longrightarrow> ?P (fst (orchestrator hc getenv fs s))"
    by (rule orchestrator_keeps [where P = ?P])
  assume "?P (dk_world d)" "\<not> dk_poisoned d"
  with command_sends [of d hc c] send show "?P (dk_world (fst (run_command hc c d)))"
    by (auto simp: sends_def case_prod_unfold split: option.splits)
qed

section \<open>Its requests\<close>

text \<open>
  The requests of the pass are those of commands of the desktop application. The lock it asks for is of 10000
  seconds, the unit of the engine.
\<close>

lemma orchestrator_requests:
  "post_json (base @ ''/api/start'') (JObj [(''definition_key'', JStr k)]) = request_to base (instance_target (StartCmd k None))"
  "post_json (base @ ''/api/service-task/fetchAndLock'') orchestrator_fetch
     = request_to base (task_target (FetchCmd ''orchestrator'' 10 ''InitialProcessing'' 10000))"
  "complete_request base u
     = request_to base (task_target (CompleteServiceTaskCmd u ''orchestrator'' (Some [(''processed'', JBool True)])))"
  "get_url (base @ ''/api/tasks'') = request_to base (task_target PendingTasksCmd)"
  "complete_user_request base u = request_to base (task_target (CompleteTaskCmd u None))"
  "get_url (base @ ''/api/instances/'' @ i) = request_to base (instance_target (GetDetailsCmd i))"
  by (simp_all add: request_to_def post_json_def get_url_def complete_request_def complete_user_request_def
      orchestrator_fetch_def target_defs path_text_def query_text_def start_payload_def or_empty_def object_of_def)

lemma orchestrator_deploys:
  "post_json (base @ ''/api/deploy'') (JObj [(''name'', JStr ''example''), (''xml'', JStr xml)])
     = request_to base (deploy_request xml ''example'')"
  by (simp add: request_to_def post_json_def deploy_request_def path_text_def query_text_def)

text \<open>
  So its completions reach the handler of the completion. A refused completion is not noticed: the loop goes on.
\<close>

lemma refused_completion_goes_on:
  assumes "wire_ok w base" and "plain u" and "wi_bytes w (cr_body (complete_request base u)) \<le> body_limit"
    and "hc_send hc = remote_send w re"
    and "served re (Tasks (CompleteServiceTaskReq u ''orchestrator'' (Some [(''processed'', JBool True)]))) s = (s', Some st)"
    and "index_str ''id'' task = Some u"
  shows "complete_each hc ''id'' missing (complete_request base) (task # tasks) s
    = complete_each hc ''id'' missing (complete_request base) tasks s'"
proof -
  let ?c = "TaskC (CompleteServiceTaskCmd u ''orchestrator'' (Some [(''processed'', JBool True)]))"
  let ?t = "task_target (CompleteServiceTaskCmd u ''orchestrator'' (Some [(''processed'', JBool True)]))"
  have "sendable w ?t"
    using assms(2,3) plain_literals
    by (simp add: sendable_def plain_target_def post_to_def complete_request_def post_json_def or_empty_def object_of_def)
       (simp add: plain_def plain_char_def in_range_def)
  then have "http_route (re_time re) (re_metrics re) (on_wire w (complete_request base u))
      = Routed (Tasks (CompleteServiceTaskReq u ''orchestrator'' (Some [(''processed'', JBool True)])))"
    using command_routed [OF assms(1), of hc "[]" ?c ?t "re_time re" "re_metrics re"]
    by (simp add: orchestrator_requests sent_vars_def)
  then show ?thesis
    using assms(4-6) by (simp add: sent_only_def remote_send_def)
qed

end
