(* ===== verification/FuzzEngine.thy ===== *)
theory FuzzEngine
  imports BpmnParser DefinitionOps Nesting "HOL-Library.Code_Target_Numeral"
begin

text \<open>
  From a text to a running instance: the way through the parser, the deployment and the start that
  \<open>fuzz/fuzz_targets/fuzz_deploy_roundtrip.rs\<close> takes, and the fuzz targets of the parser alone.
\<close>

section \<open>The targets\<close>

text \<open>\<open>fuzz_bpmn_parser.rs\<close>: what the parser is given, and what it answers.\<close>

definition fuzz_bpmn_parser ::
  "parser_env \<Rightarrow> uuid \<Rightarrow> string \<Rightarrow> (engine_error, process_definition) outcome option" where
  "fuzz_bpmn_parser px fresh bytes = (if utf8 bytes then Some (parse_bpmn_xml px fresh bytes) else None)"

text \<open>\<open>fuzz_iso8601_duration.rs\<close>: the text inside a document with one timer start event.\<close>

definition line_end :: string where
  "line_end = [CHR 0x0A]"

definition duration_document :: "string \<Rightarrow> string" where
  "duration_document duration_str =
     ''<?xml version=\"1.0\" encoding=\"UTF-8\"?>'' @ line_end @
     ''<definitions xmlns=\"http://www.omg.org/spec/BPMN/20100524/MODEL\">'' @ line_end @
     ''  <process id=\"fuzz_proc\" isExecutable=\"true\">'' @ line_end @
     ''    <startEvent id=\"start\">'' @ line_end @
     ''      <timerEventDefinition>'' @ line_end @
     ''        <timeDuration>'' @ duration_str @ ''</timeDuration>'' @ line_end @
     ''      </timerEventDefinition>'' @ line_end @
     ''    </startEvent>'' @ line_end @
     ''    <endEvent id=\"end\"/>'' @ line_end @
     ''    <sequenceFlow id=\"f1\" sourceRef=\"start\" targetRef=\"end\"/>'' @ line_end @
     ''  </process>'' @ line_end @
     ''</definitions>''"

definition fuzz_iso8601_duration ::
  "parser_env \<Rightarrow> uuid \<Rightarrow> string \<Rightarrow> (engine_error, process_definition) outcome option" where
  "fuzz_iso8601_duration px fresh bytes =
     (if \<not> utf8 bytes then None
      else if CHR ''<'' \<in> set bytes \<or> CHR ''>'' \<in> set bytes \<or> CHR ''&'' \<in> set bytes then None
      else Some (parse_bpmn_xml px fresh (duration_document bytes)))"

text \<open>
  \<open>fuzz_deploy_roundtrip.rs\<close>: parse, deploy into a new engine, start, and look at the result. The depth bounds the
  nesting of the batches.
\<close>

record round_trip =
  rt_engine :: "memory engine"
  rt_deployed :: "uuid \<times> int"
  rt_started :: "(engine_error, uuid) outcome"
  rt_listings :: "(user_task list \<times> service_task list \<times> (engine_error, process_instance) outcome) option"

definition fuzz_deploy_roundtrip ::
  "memory eenv \<Rightarrow> parser_env \<Rightarrow> (string \<Rightarrow> string option) \<Rightarrow> time \<Rightarrow> uuid \<Rightarrow> nat \<Rightarrow> nat \<Rightarrow> string \<Rightarrow> round_trip option" where
  "fuzz_deploy_roundtrip ev px getenv now fresh draws depth bytes =
     (if \<not> (utf8 bytes \<and> 10 \<le> length bytes \<and> length bytes \<le> 65536) then None
      else case parse_bpmn_xml px fresh bytes of
        Ok def \<Rightarrow>
          (case deploy_definition ev def (with_persistence memory_new (engine_new getenv now draws)) of
             (e1, deployed) \<Rightarrow>
               (case start_instance ev (run_instance_batch ev depth) (fst deployed) e1 of
                  (e2, start_result) \<Rightarrow>
                    Some \<lparr> rt_engine = e2, rt_deployed = deployed, rt_started = start_result,
                      rt_listings =
                        (case start_result of
                           Ok i \<Rightarrow> Some (get_pending_user_tasks e2, get_pending_service_tasks e2,
                                          get_instance_details ev i e2)
                         | _ \<Rightarrow> None) \<rparr>))
      | _ \<Rightarrow> None)"

section \<open>Starting a flat definition\<close>

lemma alone_scope_listener [alone_intro]: "alone i e0 e \<Longrightarrow> alone i e0 (register_scope_listener ev i l e)"
  by (cases l) (auto simp: register_scope_listener_def intro: alone_intro dest: alone_draw split: prod.split)

lemma alone_inst:
  assumes "alone i e0 e" and "inst_get e0 i = Some x"
  shows "\<exists>y. inst_get e i = Some y \<and> identity y = identity x"
  using assms by (cases "inst_get e i") (auto simp: alone_def)

lemma validated_start:
  assumes "reg_get e k = Some def"
  shows "validate_start_request k e \<noteq> Diverged" and "validate_start_request k e = Ok ds \<Longrightarrow> fst ds = def"
proof -
  show "validate_start_request k e \<noteq> Diverged"
  proof (cases "start_event def")
    case None
    with assms show ?thesis by (simp add: validate_start_request_def)
  next
    case (Some se)
    with assms show ?thesis by (cases "snd se") (simp_all add: validate_start_request_def)
  qed
  show "fst ds = def" if "validate_start_request k e = Ok ds"
  proof (cases "start_event def")
    case None
    with assms that show ?thesis by (simp add: validate_start_request_def)
  next
    case (Some se)
    with assms that show ?thesis by (cases "snd se") (auto simp: validate_start_request_def)
  qed
qed

text \<open>What a start does before the batch: the new instance, and everything else as it was.\<close>

lemma flat_start_returns:
  assumes "reg_get e k = Some def" and "flat_definition def"
  shows "\<exists>e' r. start_instance ev (run_instance_batch ev (Suc depth)) k e = (e', r) \<and> r \<noteq> Diverged \<and>
     en_defs e' = en_defs e \<and>
     (\<forall>j. j \<noteq> env_uuid_v4 ev (en_draws e) \<longrightarrow> inst_get e' j = inst_get e j) \<and>
     (\<forall>i. r = Ok i \<longrightarrow> i = env_uuid_v4 ev (en_draws e) \<and>
        (\<exists>x. inst_get e' i = Some x \<and> pi_definition_key x = k \<and> pi_parent x = None))"
proof (cases "validate_start_request k e")
  case (Err er)
  then show ?thesis
    by (simp add: start_instance_def start_instance_with_variables_def start_with_parent_def liftR_def)
next
  case Diverged
  with validated_start(1) [OF assms(1)] show ?thesis by simp
next
  case (Ok ds)
  then obtain s where ds: "ds = (def, s)" using validated_start(2) [OF assms(1)] by (cases ds) auto
  obtain i e1 where d1: "draw ev e = (i, e1)" by fastforce
  obtain n2 bkey where bk: "take_business_key ev [] (en_draws e1) = (n2, bkey)" by fastforce
  obtain n3 x0 where x0: "build_initial_instance ev k i s [] None (en_now e1) n2 = (n3, x0)" by fastforce
  define e2 where "e2 = inst_put i (x0\<lparr>pi_business_key := bkey\<rparr>) (e1\<lparr>en_draws := n3\<rparr>)"
  define e3 where "e3 = record_history_event ev i HInstanceStarted
      (Msg ''Started instance of process {}'' [AStr (pd_id def)]) ActorEngine None None e2"
  obtain u e4 where d4: "draw ev e3 = (u, e4)" by fastforce
  define e5 where "e5 = fold (register_scope_listener ev i) (pd_event_listeners def) e4"
  have x: "inst_get e2 i = Some (x0\<lparr>pi_business_key := bkey\<rparr>)" "pi_definition_key x0 = k" "pi_parent x0 = None"
    using x0 by (auto simp: e2_def insts.get_put build_initial_instance_def initial_instance_def)
  have "alone i e2 e4"
    using alone_draw [OF d4] by (simp add: e3_def alone_intro)
  then have a5: "alone i e2 e5" unfolding e5_def by (intro alone_fold alone_intro)
  have defs: "en_defs e2 = en_defs e" "\<And>j. j \<noteq> i \<Longrightarrow> inst_get e2 j = inst_get e j"
    and i: "i = env_uuid_v4 ev (en_draws e)"
    using d1 insts.get_put [of i _ "e1\<lparr>en_draws := n3\<rparr>"] by (auto simp: e2_def draw_def frame) (simp add: inst_get_def)
  from alone_inst [OF a5 x(1)] obtain y where
    y: "inst_get e5 i = Some y" "pi_definition_key y = k" "pi_parent y = None"
    using x(2,3) by (auto simp: identity_def)
  have "runs_flat i e5" using y assms a5 defs by (auto simp: runs_flat_def alone_def reg_get_def)
  from batch_body_returns [OF this, of ev "run_instance_batch ev depth" "token_with_variables u s []"] y
  have b: "returns (alone i e5) (run_instance_batch ev (Suc depth) i (token_with_variables u s []) e5)" by simp
  obtain e6 r6 where run: "run_instance_batch ev (Suc depth) i (token_with_variables u s []) e5 = (e6, r6)" by fastforce
  with b have a6: "alone i e5 e6" "r6 \<noteq> Diverged" by (simp_all add: settles_def)
  have a7: "alone i e5 (persist_instance ev i e6)" by (intro alone_intro a6)
  from alone_inst [OF a7 y(1)] y(2,3) obtain z where
    z: "inst_get (persist_instance ev i e6) i = Some z" "pi_definition_key z = k" "pi_parent z = None"
    by (auto simp: identity_def)
  have no_vars: "tdel k' [] = ([] :: vars)" for k' by (simp add: tdel_def)
  have st: "start_instance ev (run_instance_batch ev (Suc depth)) k e =
      bindR (e6, r6) (\<lambda>e6 w. (persist_instance ev i e6, Ok i))"
    using Ok ds d1 bk x0 d4 no_vars
    by (simp add: start_instance_def start_instance_with_variables_def start_with_parent_def liftR_def Let_def
        e2_def [symmetric] e3_def [symmetric] e5_def [symmetric] run del: run_instance_batch.simps)
  have left: "en_defs e' = en_defs e \<and> (\<forall>j. j \<noteq> i \<longrightarrow> inst_get e' j = inst_get e j)" if "alone i e5 e'" for e'
    using alone_trans [OF a5 that] defs by (simp add: alone_def)
  show ?thesis
  proof (cases r6)
    case (Ok w)
    then show ?thesis using st left [OF a7] z unfolding i [symmetric] by simp
  next
    case (Err er)
    then show ?thesis using st left [OF a6(1)] unfolding i [symmetric] by simp
  next
    case Diverged
    with a6(2) show ?thesis by simp
  qed
qed

text \<open>
  A start in full: a definition that starts by a timer is refused; otherwise the new instance stands at the start event,
  and the start comes out as the batch of its first token does.
\<close>

definition fresh_instance :: "process_instance \<Rightarrow> uuid \<Rightarrow> uuid \<Rightarrow> string \<Rightarrow> bool" where
  "fresh_instance x i k s \<longleftrightarrow>
     pi_id x = i \<and> pi_definition_key x = k \<and> pi_node x = s \<and> pi_state x = Running \<and> pi_vars x = [] \<and>
     pi_parent x = None \<and> pi_tokens x = [] \<and> pi_active x = [] \<and> pi_barriers x = []"

lemma start_runs_its_first_batch:
  assumes "reg_get e k = Some def" and "pd_event_listeners def = []" and "start_event def = Some (s, el)"
    and "start_instance ev rec k e = (e', r)" and "i = env_uuid_v4 ev (en_draws e)"
  shows "if \<exists>t. el = TimerStartEvent t
    then e' = e \<and> (\<exists>m. r = Err (InvalidDefinition m))
    else \<exists>eb x u ec res. inst_get eb i = Some x \<and> fresh_instance x i k s \<and>
      (\<forall>j. j \<noteq> i \<longrightarrow> inst_get eb j = inst_get e j) \<and> en_defs eb = en_defs e \<and>
      rec i (token_with_variables u s []) eb = (ec, res) \<and>
      (case res of Ok w \<Rightarrow> e' = persist_instance ev i ec \<and> r = Ok i
       | Err er \<Rightarrow> e' = ec \<and> r = Err er | Diverged \<Rightarrow> e' = ec \<and> r = Diverged)"
proof (cases "\<exists>t. el = TimerStartEvent t")
  case True
  then show ?thesis
    using assms by (auto simp: start_instance_def start_instance_with_variables_def start_with_parent_def liftR_def
        validate_start_request_def)
next
  case False
  then have v: "validate_start_request k e = Ok (def, s)"
    using assms(1,3) by (cases el) (simp_all add: validate_start_request_def)
  obtain e1 where d1: "draw ev e = (i, e1)" using assms(5) by (simp add: draw_def)
  obtain n2 bkey where bk: "take_business_key ev [] (en_draws e1) = (n2, bkey)" by fastforce
  obtain n3 x0 where x0: "build_initial_instance ev k i s [] None (en_now e1) n2 = (n3, x0)" by fastforce
  define e2 where "e2 = inst_put i (x0\<lparr>pi_business_key := bkey\<rparr>) (e1\<lparr>en_draws := n3\<rparr>)"
  define e3 where "e3 = record_history_event ev i HInstanceStarted
      (Msg ''Started instance of process {}'' [AStr (pd_id def)]) ActorEngine None None e2"
  obtain u e4 where d4: "draw ev e3 = (u, e4)" by fastforce
  obtain ec res where run: "rec i (token_with_variables u s []) e4 = (ec, res)" by fastforce
  have "same_tables e3 e4" using same_tables_draw d4 by (metis snd_conv)
  then have same: "same_tables e2 e4" by (simp add: e3_def same_tables_def frame)
  have x: "inst_get e4 i = Some (x0\<lparr>pi_business_key := bkey\<rparr>)" "fresh_instance (x0\<lparr>pi_business_key := bkey\<rparr>) i k s"
    using x0 same_tablesD [OF same]
    by (auto simp: e2_def insts.get_put build_initial_instance_def initial_instance_def fresh_instance_def)
  have draws: "inst_get (e\<lparr>en_draws := n\<rparr>) = inst_get e" for n by (simp add: inst_get_def fun_eq_iff)
  have others: "\<forall>j. j \<noteq> i \<longrightarrow> inst_get e4 j = inst_get e j" "en_defs e4 = en_defs e"
    using d1 same_tablesD [OF same] draws by (auto simp: e2_def draw_def frame insts.get_put)
  have no_vars: "tdel k' [] = ([] :: vars)" for k' by (simp add: tdel_def)
  have "start_instance ev rec k e = bindR (ec, res) (\<lambda>e6 w. (persist_instance ev i e6, Ok i))"
    using v d1 bk x0 d4 no_vars run assms(2)
    by (simp add: start_instance_def start_instance_with_variables_def start_with_parent_def liftR_def Let_def
        e2_def [symmetric] e3_def [symmetric])
  with x others run assms(4) show ?thesis
    unfolding if_not_P [OF False]
    by - (rule exI [of _ e4], rule exI [of _ "x0\<lparr>pi_business_key := bkey\<rparr>"], rule exI [of _ u], rule exI [of _ ec],
      rule exI [of _ res], cases res, simp_all)
qed

section \<open>A new document in a new engine\<close>

lemma parsed_definition:
  assumes "parse_bpmn_xml px fresh bytes = Ok d"
  shows "pd_key d = fresh" and "pd_version d = 1" and "pd_sub_processes d = []" and "pd_event_listeners d = []"
proof -
  from assms obtain defs p b where tr: "translate_process px (lookups_of defs) p = Ok b" and bd: "build fresh b = Ok d"
    by (rule parse_Ok)
  note adds = translate_adds(1) [OF tr]
  show "pd_key d = fresh" "pd_version d = 1" using build_adds [OF bd adds] by simp_all
  have "db_sub_processes b = []" "db_event_listeners b = []" using adds by (simp_all add: adds_def builder_new_def)
  then show "pd_sub_processes d = []" "pd_event_listeners d = []"
    using bd by (auto simp: build_def and_then_Ok_iff new_definition_Ok_iff split: option.splits)
qed

lemma parsed_start:
  assumes "parse_bpmn_xml px fresh bytes = Ok d"
  shows "\<exists>s el. start_event d = Some (s, el)"
proof -
  from assms obtain defs p b where tr: "translate_process px (lookups_of defs) p = Ok b" and bd: "build fresh b = Ok d"
    by (rule parse_Ok)
  have "filter is_start_element (tvals (pd_nodes d)) \<noteq> []"
    using build_adds(6) [OF bd translate_adds(1) [OF tr]] by (auto simp: well_formed_graph_def)
  then have "\<exists>ne \<in> set (pd_nodes d). is_start_element (snd ne)"
    by (auto simp: filter_empty_conv tvals_def)
  from find_exists_Some [OF this] show ?thesis by (auto simp: start_event_def)
qed

text \<open>The deployment of a definition without sub-processes.\<close>

lemma plain_deployment:
  assumes "pd_sub_processes d = []" and "deploy_definition ev d e = (e', k, v)"
  shows "k = pd_key d" and "reg_get e' k = Some (normalize_definition d (highest_version e (pd_id d)))"
    and "inst_get e' i = inst_get e i"
proof -
  let ?def = "normalize_definition d (highest_version e (pd_id d))"
  have drop: "drop_sub_processes ?def = ?def"
    using assms(1) by (cases d) (simp add: normalize_definition_def split: option.split)
  have run: "deploy_definition ev d e =
      (emit_event EvDefinitionChanged (persist_definition ev (pd_key d) (reg_insert (pd_key d) ?def e)), pd_key d, pd_version ?def)"
    using assms(1) by (simp add: deploy_definition_def Let_def drop)
  note same = same_tablesD [OF same_tables_emit] same_tablesD [OF same_tables_persist(1)]
  show "k = pd_key d" using assms(2) run by simp
  show "reg_get e' k = Some ?def"
    using assms(2) run by (auto simp: same registry.get_put)
  show "inst_get e' i = inst_get e i"
    using assms(2) run by (auto simp: same reg_insert_def inst_get_def)
qed

lemma normalize_flat: "flat_definition (normalize_definition d h) \<longleftrightarrow> flat_definition d"
  by (cases d) (simp add: normalize_definition_def flat_definition_def get_node_def split: option.split)

lemma normalize_start:
  "start_event (normalize_definition d h) = start_event d"
  "pd_event_listeners (normalize_definition d h) = pd_event_listeners d"
  by (cases d, simp add: normalize_definition_def start_event_def split: option.split)+


text \<open>The fuzz target on such a document: it gets through, and what it asks for at its end is there.\<close>

lemma fuzz_deploy_roundtrip_returns:
  assumes "utf8 bytes" and "10 \<le> length bytes" and "length bytes \<le> 65536"
    and "parse_bpmn_xml px fresh bytes = Ok d" and "flat_definition d"
  shows "\<exists>rt. fuzz_deploy_roundtrip ev px getenv now fresh draws (Suc depth) bytes = Some rt \<and>
    fst (rt_deployed rt) = fresh \<and> rt_started rt \<noteq> Diverged \<and>
    (\<forall>i. rt_started rt = Ok i \<longrightarrow>
       (\<exists>us ss x. rt_listings rt = Some (us, ss, Ok x) \<and> pi_definition_key x = fresh))"
proof -
  obtain e1 k v where dep: "deploy_definition ev d (with_persistence memory_new (engine_new getenv now draws)) = (e1, k, v)"
    by (metis prod_cases3)
  note p = parsed_definition [OF assms(4)]
  note facts = plain_deployment [OF p(3) dep]
  from flat_start_returns [OF facts(2), of ev depth] assms(5) obtain e2 r where
    st: "start_instance ev (run_instance_batch ev (Suc depth)) k e1 = (e2, r)" "r \<noteq> Diverged"
    "\<forall>i. r = Ok i \<longrightarrow> (\<exists>x. inst_get e2 i = Some x \<and> pi_definition_key x = k)"
    by (auto simp: normalize_flat simp del: run_instance_batch.simps)
  show ?thesis
    using assms(1-4) dep st facts(1) p(1)
    by (auto simp: fuzz_deploy_roundtrip_def get_instance_details_def get_instance_or_archived_def
        simp del: run_instance_batch.simps split: outcome.split)
qed

text \<open>A start event and an end event: the start gives the new instance, which is found.\<close>

definition plain_parser :: parser_env where
  "plain_parser = sample_parser\<lparr>px_from_str := (\<lambda>x. Inr
     (sample_document\<lparr>bd_processes := [plain_process\<lparr>pr_sequence_flows := [plain_flow ''f'' ''s'' ''e'']\<rparr>]\<rparr>))\<rparr>"

lemma plain_starts:
  "case parse_bpmn_xml plain_parser 7 [] of
     Ok d \<Rightarrow>
       list_all (\<lambda>(n, el). \<not> nests el) (pd_nodes d) \<and>
       (case deploy_definition memory_env d (engine_new (\<lambda>s. None) 0 0) of
          (e1, k, v) \<Rightarrow>
            (case start_instance memory_env (run_instance_batch memory_env 1) k e1 of
               (e2, r) \<Rightarrow> (case r of Ok i \<Rightarrow> True | _ \<Rightarrow> False)))
   | _ \<Rightarrow> False"
  by code_simp


end
