(* ===== verification/FuzzInputs.thy ===== *)
theory FuzzInputs
  imports Desktop
begin

text \<open>
  The fuzz targets that make up structured inputs (\<open>fuzz/fuzz_targets\<close>): the generators of
  \<open>fuzz_history_diff.rs\<close> and \<open>fuzz_condition.rs\<close>, and the payloads that \<open>fuzz_server_payloads.rs\<close> repeats
  from the server. The crate \<open>arbitrary\<close>, which turns the bytes of the fuzzer into choices, is a parameter.
\<close>

section \<open>Choices (arbitrary)\<close>

text \<open>
  A source of choices: each call gives a value, or fails, and goes on in the bytes. A number that is not finite is
  \<open>None\<close>.
\<close>

record 'u unstructured =
  un_range :: "nat \<Rightarrow> nat \<Rightarrow> 'u \<Rightarrow> nat option \<times> 'u"
  un_bool :: "'u \<Rightarrow> bool option \<times> 'u"
  un_i64 :: "'u \<Rightarrow> int option \<times> 'u"
  un_f64 :: "'u \<Rightarrow> rat option option \<times> 'u"
  un_u64 :: "'u \<Rightarrow> nat option \<times> 'u"
  un_u128 :: "'u \<Rightarrow> uuid option \<times> 'u"
  un_string :: "'u \<Rightarrow> string option \<times> 'u"

type_synonym ('u, 'a) gen = "'u \<Rightarrow> 'a option \<times> 'u"

definition yields :: "'a \<Rightarrow> ('u, 'a) gen" where
  "yields a u = (Some a, u)"

definition and_gen :: "('u, 'a) gen \<Rightarrow> ('a \<Rightarrow> ('u, 'b) gen) \<Rightarrow> ('u, 'b) gen" where
  "and_gen g f u = (case g u of (None, u') \<Rightarrow> (None, u') | (Some a, u') \<Rightarrow> f a u')"

definition map_gen :: "('a \<Rightarrow> 'b) \<Rightarrow> ('u, 'a) gen \<Rightarrow> ('u, 'b) gen" where
  "map_gen f g = and_gen g (\<lambda>a. yields (f a))"

text \<open>\<open>g.unwrap_or(a)\<close>, and a loop over a range that makes one value in each round.\<close>

definition or_gen :: "('u, 'a) gen \<Rightarrow> 'a \<Rightarrow> ('u, 'a) gen" where
  "or_gen g a u = (case g u of (None, u') \<Rightarrow> (Some a, u') | (Some b, u') \<Rightarrow> (Some b, u'))"

primrec times_gen :: "nat \<Rightarrow> ('u, 'a) gen \<Rightarrow> ('u, 'a list) gen" where
  "times_gen 0 g = yields []"
| "times_gen (Suc n) g = and_gen g (\<lambda>x. and_gen (times_gen n g) (\<lambda>xs. yields (x # xs)))"

section \<open>Values (fuzz\_history\_diff.rs)\<close>

text \<open>The characters of the long texts, in UTF-8.\<close>

definition fuzz_chars :: "string list" where
  "fuzz_chars =
     [''a'', [CHR 0xC3, CHR 0xA4], [CHR 0xE2, CHR 0x82, CHR 0xAC], [CHR 0xF0, CHR 0x9F, CHR 0xA6, CHR 0x80], ''x'',
      [CHR 0xC3, CHR 0xB6], [CHR 0xE6, CHR 0x97, CHR 0xA5], [CHR 0xE6, CHR 0x9C, CHR 0xAC]]"

definition long_string :: "'u unstructured \<Rightarrow> ('u, string) gen" where
  "long_string un =
     and_gen (un_range un 1000 1100) (\<lambda>base_len.
     and_gen (un_bool un) (\<lambda>use_multibyte.
       if use_multibyte
       then map_gen concat (times_gen base_len (map_gen (\<lambda>i. fuzz_chars ! i) (or_gen (un_range un 0 7) 0)))
       else yields (replicate base_len (CHR ''A''))))"

definition file_shaped :: "string \<Rightarrow> nat \<Rightarrow> json" where
  "file_shaped filename n =
     object_of [(''type'', JStr ''file''), (''filename'', JStr filename), (''size_bytes'', json_nat n)]"

definition float_or_zero :: "rat option \<Rightarrow> json" where
  "float_or_zero x = JNum (case x of None \<Rightarrow> JInt 0 | Some q \<Rightarrow> JFloat q)"

definition inserted :: "('k \<times> 'v) list \<Rightarrow> ('k, 'v) table" where
  "inserted kvs = fold (\<lambda>(k, v). tput k v) kvs []"

function arb_value :: "'u unstructured \<Rightarrow> nat \<Rightarrow> ('u, json) gen" where
  "arb_value un depth =
     (if depth > 4 then yields JNull
      else
        let inner = arb_value un (Suc depth)
        in and_gen (un_range un 0 7) (\<lambda>choice.
             if choice = 1 then map_gen JBool (un_bool un)
             else if choice = 2 then map_gen (\<lambda>i. JNum (JInt i)) (un_i64 un)
             else if choice = 3 then map_gen float_or_zero (un_f64 un)
             else if choice = 4 then map_gen JStr (un_string un)
             else if choice = 5 then map_gen JStr (long_string un)
             else if choice = 6 then
               and_gen (un_range un 120 140) (\<lambda>len. map_gen JArr (times_gen len (or_gen inner JNull)))
             else if choice = 7 then
               and_gen (un_bool un) (\<lambda>is_file_ref.
                 if is_file_ref
                 then and_gen (un_string un) (\<lambda>filename. map_gen (file_shaped filename) (un_u64 un))
                 else and_gen (un_range un 0 5) (\<lambda>field_count.
                   map_gen (\<lambda>kvs. object_of (inserted kvs))
                     (times_gen field_count (and_gen (un_string un) (\<lambda>k. map_gen (Pair k) inner)))))
             else yields JNull))"
  by pat_completeness auto
termination by (relation "measure (\<lambda>(un, depth). 5 - depth)") auto

declare arb_value.simps [simp del]

definition arb_variables :: "'u unstructured \<Rightarrow> ('u, vars) gen" where
  "arb_variables un =
     and_gen (un_range un 0 20) (\<lambda>n.
       map_gen inserted (times_gen n (and_gen (un_string un) (\<lambda>key. map_gen (Pair key) (arb_value un 0)))))"

text \<open>
  A suspended state wraps another one, to any depth: the number of calls is bounded by the bytes only. \<open>None\<close> in
  front is out of fuel. The token of a called activity gets the identifier of its constructor.
\<close>

primrec arb_instance_state :: "'z env_scheme \<Rightarrow> 'u unstructured \<Rightarrow> nat \<Rightarrow> 'u \<Rightarrow> (instance_state option \<times> 'u) option" where
  "arb_instance_state ev un 0 u = None"
| "arb_instance_state ev un (Suc n) u =
     (case un_range un 0 10 u of
        (None, u) \<Rightarrow> Some (None, u)
      | (Some variant, u) \<Rightarrow>
          if variant = 9 then
            (case arb_instance_state ev un n u of
               None \<Rightarrow> None
             | Some (r, u) \<Rightarrow> Some (Some (Suspended (case r of None \<Rightarrow> Running | Some s \<Rightarrow> s)), u))
          else Some
            ((if variant = 0 then yields Running
              else if variant = 1 then map_gen WaitingOnUserTask (un_u128 un)
              else if variant = 2 then map_gen WaitingOnServiceTask (un_u128 un)
              else if variant = 3 then map_gen WaitingOnTimer (un_u128 un)
              else if variant = 4 then map_gen WaitingOnMessage (un_u128 un)
              else if variant = 5 then yields WaitingOnEventBasedGateway
              else if variant = 6 then map_gen ParallelExecution (un_range un 0 100)
              else if variant = 7 then yields Completed
              else if variant = 8 then map_gen CompletedWithError (un_string un)
              else and_gen (un_u128 un) (\<lambda>sub.
                     map_gen (\<lambda>s. WaitingOnCallActivity sub (token_new (env_uuid_v4 ev 0) s)) (or_gen (un_string un) [])))
             u))"

declare arb_instance_state.simps(2) [simp del]

section \<open>The target\<close>

primrec keep_some :: "'u unstructured \<Rightarrow> nat \<Rightarrow> nat \<Rightarrow> vars \<Rightarrow> vars \<Rightarrow> ('u, vars) gen" where
  "keep_some un keep_ratio i [] new = yields new"
| "keep_some un keep_ratio i (kv # kvs) new =
     (if i mod 256 mod 10 < keep_ratio
      then and_gen (or_gen (un_bool un) False) (\<lambda>mutate.
           and_gen (if mutate then or_gen (arb_value un 0) JNull else yields (snd kv)) (\<lambda>v.
             keep_some un keep_ratio (Suc i) kvs (tput (fst kv) v new)))
      else keep_some un keep_ratio (Suc i) kvs new)"

primrec extra_keys :: "'u unstructured \<Rightarrow> nat \<Rightarrow> vars \<Rightarrow> ('u, vars) gen" where
  "extra_keys un 0 new = yields new"
| "extra_keys un (Suc n) new =
     (\<lambda>u. case un_string un u of
        (None, u) \<Rightarrow> extra_keys un n new u
      | (Some k, u) \<Rightarrow> and_gen (or_gen (arb_value un 0) JNull) (\<lambda>v. extra_keys un n (tput k v new)) u)"

definition new_variables :: "'u unstructured \<Rightarrow> vars \<Rightarrow> ('u, vars) gen" where
  "new_variables un vars_old =
     and_gen (or_gen (un_range un 0 10) 5) (\<lambda>keep_ratio.
     and_gen (keep_some un keep_ratio 0 vars_old []) (\<lambda>kept.
     and_gen (or_gen (un_range un 0 8) 0) (\<lambda>extra. extra_keys un extra kept)))"

definition fuzz_instance :: "instance_state \<Rightarrow> string \<Rightarrow> vars \<Rightarrow> process_instance" where
  "fuzz_instance s n vs =
     \<lparr> pi_id = uuid_nil, pi_definition_key = uuid_nil, pi_business_key = [], pi_parent = None, pi_state = s,
       pi_node = n, pi_audit = [], pi_vars = vs, pi_tokens = [], pi_active = [], pi_barriers = [],
       pi_mi = [], pi_comp_log = [], pi_started_at = None, pi_completed_at = None \<rparr>"

definition compare_instances :: "process_instance \<Rightarrow> process_instance \<Rightarrow> history_diff \<times> history_diff" where
  "compare_instances old new =
     (calculate_diff old new,
      calculate_diff_from_snapshot \<lparr>ds_state = pi_state old, ds_node = pi_node old, ds_vars = pi_vars old\<rparr> new)"

text \<open>\<open>None\<close> in front is out of fuel, \<open>None\<close> behind an early return.\<close>

definition fuzz_history_diff ::
  "'z env_scheme \<Rightarrow> 'u unstructured \<Rightarrow> nat \<Rightarrow> (string \<Rightarrow> 'u) \<Rightarrow> string \<Rightarrow> (history_diff \<times> history_diff) option option" where
  "fuzz_history_diff ev un fuel start bytes =
     (if bytes = [] \<or> length bytes > 1024 * 64 then Some None
      else case arb_variables un (start bytes) of
        (None, u) \<Rightarrow> Some None
      | (Some vars_old, u) \<Rightarrow>
          (case new_variables un vars_old u of
             (None, u) \<Rightarrow> Some None
           | (Some vars_new, u) \<Rightarrow>
               (case arb_instance_state ev un fuel u of
                  None \<Rightarrow> None
                | Some (s1, u) \<Rightarrow>
                    (case arb_instance_state ev un fuel u of
                       None \<Rightarrow> None
                     | Some (s2, u) \<Rightarrow>
                         (let old_state = (case s1 of None \<Rightarrow> Running | Some s \<Rightarrow> s);
                              new_state = (case s2 of None \<Rightarrow> Completed | Some s \<Rightarrow> s);
                              (n1, u) = un_string un u;
                              old_node = (case n1 of None \<Rightarrow> ''start'' | Some n \<Rightarrow> n);
                              (n2, u) = un_string un u;
                              new_node = (case n2 of None \<Rightarrow> ''end'' | Some n \<Rightarrow> n)
                          in Some (Some (compare_instances
                               (fuzz_instance old_state old_node vars_old)
                               (fuzz_instance new_state new_node vars_new))))))))"

section \<open>What the generators need\<close>

text \<open>
  The crate consumes bytes: a choice from a range takes some while there are any, and is the start of the range
  when there are none; nothing gives bytes back.
\<close>

definition shrinks :: "('u \<Rightarrow> nat) \<Rightarrow> ('u, 'a) gen \<Rightarrow> bool" where
  "shrinks remaining g \<longleftrightarrow> (\<forall>u. remaining (snd (g u)) \<le> remaining u)"

definition consuming :: "'u unstructured \<Rightarrow> ('u \<Rightarrow> nat) \<Rightarrow> bool" where
  "consuming un remaining \<longleftrightarrow>
     shrinks remaining (un_bool un) \<and> shrinks remaining (un_i64 un) \<and> shrinks remaining (un_f64 un) \<and>
     shrinks remaining (un_u64 un) \<and> shrinks remaining (un_u128 un) \<and> shrinks remaining (un_string un) \<and>
     (\<forall>lo hi. shrinks remaining (un_range un lo hi)) \<and>
     (\<forall>lo hi u. 0 < remaining u \<longrightarrow> remaining (snd (un_range un lo hi u)) < remaining u) \<and>
     (\<forall>lo hi u r. remaining u = 0 \<longrightarrow> fst (un_range un lo hi u) = Some r \<longrightarrow> r = lo)"

named_theorems shrinks_intro "generators that give no bytes back"

lemma shrinks_yields [shrinks_intro]: "shrinks m (yields a)"
  by (simp add: shrinks_def yields_def)

lemma shrinks_and [shrinks_intro]: "shrinks m g \<Longrightarrow> (\<And>a. shrinks m (f a)) \<Longrightarrow> shrinks m (and_gen g f)"
  unfolding shrinks_def
proof (intro allI)
  fix u
  assume g: "\<forall>u. m (snd (g u)) \<le> m u" and f: "\<And>a. \<forall>u. m (snd (f a u)) \<le> m u"
  obtain r u' where r: "g u = (r, u')" by fastforce
  with g have "m u' \<le> m u" by (metis snd_conv)
  with r f show "m (snd (and_gen g f u)) \<le> m u"
    by (cases r) (auto simp: and_gen_def intro: order_trans)
qed

lemma shrinks_map [shrinks_intro]: "shrinks m g \<Longrightarrow> shrinks m (map_gen f g)"
  unfolding map_gen_def by (intro shrinks_intro)

lemma shrinks_or [shrinks_intro]: "shrinks m g \<Longrightarrow> shrinks m (or_gen g a)"
  unfolding shrinks_def
proof (intro allI)
  fix u
  assume g: "\<forall>u. m (snd (g u)) \<le> m u"
  obtain r u' where r: "g u = (r, u')" by fastforce
  with g have "m u' \<le> m u" by (metis snd_conv)
  with r show "m (snd (or_gen g a u)) \<le> m u" by (cases r) (simp_all add: or_gen_def)
qed

lemma shrinks_times [shrinks_intro]: "shrinks m g \<Longrightarrow> shrinks m (times_gen n g)"
  by (induction n) (auto intro!: shrinks_intro)

lemma shrinks_choices [shrinks_intro]:
  "consuming un m \<Longrightarrow> shrinks m (un_bool un)" "consuming un m \<Longrightarrow> shrinks m (un_i64 un)"
  "consuming un m \<Longrightarrow> shrinks m (un_f64 un)" "consuming un m \<Longrightarrow> shrinks m (un_u64 un)"
  "consuming un m \<Longrightarrow> shrinks m (un_u128 un)" "consuming un m \<Longrightarrow> shrinks m (un_string un)"
  "consuming un m \<Longrightarrow> shrinks m (un_range un lo hi)"
  by (simp_all add: consuming_def)

lemma shrinks_arb_value [shrinks_intro]: "consuming un m \<Longrightarrow> shrinks m (arb_value un depth)"
proof (induction un depth rule: arb_value.induct)
  case (1 un depth)
  show ?case
  proof (cases "depth > 4")
    case True
    then show ?thesis by (subst arb_value.simps) (simp add: shrinks_intro)
  next
    case False
    with 1 have inner: "shrinks m (arb_value un (Suc depth))" by simp
    show ?thesis
      by (subst arb_value.simps) (use False "1.prems" in \<open>auto simp: Let_def long_string_def intro!: shrinks_intro inner\<close>)
  qed
qed

lemma shrinks_arb_variables [shrinks_intro]: "consuming un m \<Longrightarrow> shrinks m (arb_variables un)"
  unfolding arb_variables_def by (intro shrinks_intro)

lemma shrinks_keep_some [shrinks_intro]: "consuming un m \<Longrightarrow> shrinks m (keep_some un r i kvs new)"
  by (induction kvs arbitrary: i new) (auto intro!: shrinks_intro)

lemma shrinks_extra_keys [shrinks_intro]:
  assumes "consuming un m"
  shows "shrinks m (extra_keys un n new)"
proof (induction n arbitrary: new)
  case 0
  then show ?case by (simp add: shrinks_intro)
next
  case (Suc n)
  have "extra_keys un (Suc n) new u =
      and_gen (or_gen (map_gen Some (un_string un)) None) (\<lambda>k. case k of
         None \<Rightarrow> extra_keys un n new
       | Some k \<Rightarrow> and_gen (or_gen (arb_value un 0) JNull) (\<lambda>v. extra_keys un n (tput k v new))) u" for u
    by (cases "un_string un u"; cases "fst (un_string un u)")
       (simp_all add: and_gen_def or_gen_def map_gen_def yields_def)
  then have "extra_keys un (Suc n) new =
      and_gen (or_gen (map_gen Some (un_string un)) None) (\<lambda>k. case k of
         None \<Rightarrow> extra_keys un n new
       | Some k \<Rightarrow> and_gen (or_gen (arb_value un 0) JNull) (\<lambda>v. extra_keys un n (tput k v new)))" by blast
  then show ?case using assms Suc by (auto intro!: shrinks_intro split: option.split)
qed

lemma shrinks_new_variables [shrinks_intro]: "consuming un m \<Longrightarrow> shrinks m (new_variables un vs)"
  unfolding new_variables_def by (intro shrinks_intro)

text \<open>As many nested states as there are bytes are the most.\<close>

lemma arb_instance_state_returns:
  assumes "consuming un m" and "m u < n"
  shows "\<exists>r u'. arb_instance_state ev un n u = Some (r, u') \<and> m u' \<le> m u"
  using assms(2)
proof (induction n arbitrary: u)
  case 0
  then show ?case by simp
next
  case (Suc n)
  obtain r u' where r: "un_range un 0 10 u = (r, u')" by fastforce
  have c: "0 < m u \<Longrightarrow> m u' < m u" "m u = 0 \<Longrightarrow> r = Some 9 \<Longrightarrow> False" "m u' \<le> m u"
    using assms(1) r unfolding consuming_def shrinks_def by (metis fst_conv snd_conv zero_neq_numeral)+
  show ?case
  proof (cases "r = Some 9")
    case True
    with c Suc.prems have "m u' < n" by (cases "m u = 0") auto
    from Suc.IH [OF this] True r c(3) show ?thesis
      by (auto simp: arb_instance_state.simps(2) intro: order_trans)
  next
    case False
    show ?thesis
    proof (cases r)
      case None
      then show ?thesis using r c(3) by (simp add: arb_instance_state.simps(2))
    next
      case (Some v)
      define g where "g = (if v = 0 then yields Running
              else if v = 1 then map_gen WaitingOnUserTask (un_u128 un)
              else if v = 2 then map_gen WaitingOnServiceTask (un_u128 un)
              else if v = 3 then map_gen WaitingOnTimer (un_u128 un)
              else if v = 4 then map_gen WaitingOnMessage (un_u128 un)
              else if v = 5 then yields WaitingOnEventBasedGateway
              else if v = 6 then map_gen ParallelExecution (un_range un 0 100)
              else if v = 7 then yields Completed
              else if v = 8 then map_gen CompletedWithError (un_string un)
              else and_gen (un_u128 un) (\<lambda>sub.
                     map_gen (\<lambda>s. WaitingOnCallActivity sub (token_new (env_uuid_v4 ev 0) s)) (or_gen (un_string un) [])))"
      have "arb_instance_state ev un (Suc n) u = Some (g u')"
        using r Some False by (simp add: arb_instance_state.simps(2) g_def)
      moreover have "shrinks m g" unfolding g_def using assms(1) by (auto intro!: shrinks_intro)
      ultimately show ?thesis
        using c(3) unfolding shrinks_def by (metis order_trans prod.collapse)
    qed
  qed
qed

text \<open>
  The target returns on every input, with calls nested no deeper than the input has bytes, and both ways to compute
  the difference agree.
\<close>

lemma fuzz_history_diff_returns:
  assumes "consuming un m" and "m (start bytes) < fuel"
  shows "\<exists>r. fuzz_history_diff ev un fuel start bytes = Some r \<and> (\<forall>d1 d2. r = Some (d1, d2) \<longrightarrow> d1 = d2)"
proof -
  obtain v1 u1 where a1: "arb_variables un (start bytes) = (v1, u1)" by fastforce
  obtain v2 u2 where a2: "new_variables un (the v1) u1 = (v2, u2)" by fastforce
  have "m u1 \<le> m (start bytes)" "m u2 \<le> m u1"
    using a1 a2 shrinks_arb_variables [OF assms(1)] shrinks_new_variables [OF assms(1), of "the v1"]
    unfolding shrinks_def by (metis snd_conv)+
  with assms(2) have "m u2 < fuel" by simp
  from arb_instance_state_returns [OF assms(1) this, of ev] obtain r3 u3 where
    a3: "arb_instance_state ev un fuel u2 = Some (r3, u3)" "m u3 \<le> m u2" by blast
  with \<open>m u2 < fuel\<close> have "m u3 < fuel" by simp
  from arb_instance_state_returns [OF assms(1) this, of ev] obtain r4 u4 where
    a4: "arb_instance_state ev un fuel u3 = Some (r4, u4)" by blast
  show ?thesis
    using a1 a2 a3(1) a4
    by (auto simp: fuzz_history_diff_def compare_instances_def calculate_diff_def snapshot_of_def Let_def
        split: option.split prod.split)
qed

section \<open>Conditions (fuzz\_condition.rs)\<close>

datatype fuzz_value = FuzzNull | FuzzBool bool | FuzzInt int | FuzzFloat "rat option" | FuzzStr string

fun value_of :: "fuzz_value \<Rightarrow> json" where
  "value_of FuzzNull = JNull"
| "value_of (FuzzBool b) = JBool b"
| "value_of (FuzzInt i) = JNum (JInt i)"
| "value_of (FuzzFloat x) = (case x of None \<Rightarrow> JNull | Some q \<Rightarrow> JNum (JFloat q))"
| "value_of (FuzzStr s) = JStr s"

record condition_input =
  ci_expression :: string
  ci_variables :: "(string \<times> fuzz_value) list"

definition fuzz_condition :: "'z env_scheme \<Rightarrow> condition_input \<Rightarrow> bool" where
  "fuzz_condition ev inp =
     evaluate_condition ev (ci_expression inp) (inserted (map (\<lambda>(k, v). (k, value_of v)) (take 8 (ci_variables inp))))"

lemma length_inserted: "length (inserted kvs) \<le> length kvs"
proof -
  have "length (fold (\<lambda>(k, v). tput k v) kvs t) \<le> length t + length kvs" for t
  proof (induction kvs arbitrary: t)
    case Nil
    then show ?case by simp
  next
    case (Cons kv kvs)
    have "length (tput (fst kv) (snd kv) t) \<le> Suc (length t)" by (induction t) (auto simp: tput_def)
    with Cons.IH [of "tput (fst kv) (snd kv) t"] show ?case by (cases kv) simp
  qed
  then show ?thesis by (metis add.left_neutral inserted_def list.size(3))
qed

section \<open>Payloads (fuzz\_server\_payloads.rs)\<close>

text \<open>
  A declaration of a struct: its fields with the values their types take, each required, optional or with
  \<open>#[serde(default)]\<close>; \<open>camel_case\<close> is the renaming of all fields.
\<close>

datatype presence = Required | Optional | Defaulted

type_synonym payload = "(string \<times> presence \<times> (json \<Rightarrow> bool)) list"

definition upper_char :: "char \<Rightarrow> char" where
  "upper_char c = (if 97 \<le> (of_char c :: nat) \<and> (of_char c :: nat) \<le> 122 then char_of (of_char c - 32 :: nat) else c)"

fun camel :: "bool \<Rightarrow> string \<Rightarrow> string" where
  "camel up [] = []"
| "camel up (c # cs) =
     (if c = CHR ''_'' then camel True cs
      else (if up then upper_char c else c) # camel False cs)"

definition camel_case :: "payload \<Rightarrow> payload" where
  "camel_case p = map (\<lambda>(n, f). (camel False n, f)) p"

definition takes :: "(json \<Rightarrow> 'a option) \<Rightarrow> json \<Rightarrow> bool" where
  "takes f j \<longleftrightarrow> f j \<noteq> None"

definition field_accepts :: "presence \<times> (json \<Rightarrow> bool) \<Rightarrow> json option \<Rightarrow> bool" where
  "field_accepts f x =
     (case x of
        None \<Rightarrow> fst f \<noteq> Required
      | Some j \<Rightarrow> snd f j \<or> fst f = Optional \<and> j = JNull)"

text \<open>\<open>Option\<close> with a default is optional and may be missing at the end of an array too.\<close>

definition accepts :: "payload \<Rightarrow> json \<Rightarrow> bool" where
  "accepts p j =
     (case de_struct (map (\<lambda>(n, r, f). (n, r = Defaulted)) p) j of
        None \<Rightarrow> False
      | Some xs \<Rightarrow> list_all2 field_accepts (map snd p) xs)"

definition or_null_value :: "(json \<Rightarrow> bool) \<Rightarrow> json \<Rightarrow> bool" where
  "or_null_value f j \<longleftrightarrow> f j \<or> j = JNull"

definition topic_payload :: payload where
  "topic_payload = camel_case
     [(''topic_name'', Required, takes de_string), (''lock_duration'', Required, takes de_i64)]"

definition fetch_and_lock_payload :: payload where
  "fetch_and_lock_payload = camel_case
     [(''worker_id'', Required, takes de_string), (''max_tasks'', Required, takes de_u64),
      (''topics'', Required, \<lambda>j. case j of JArr vs \<Rightarrow> list_all (accepts topic_payload) vs | _ \<Rightarrow> False),
      (''async_response_timeout'', Optional, takes de_u64)]"

definition complete_payload :: payload where
  "complete_payload = [(''variables'', Optional, takes de_vars)]"

definition complete_service_task_payload :: payload where
  "complete_service_task_payload = camel_case
     [(''worker_id'', Required, takes de_string), (''variables'', Optional, takes de_vars)]"

definition fail_service_task_payload :: payload where
  "fail_service_task_payload = camel_case
     [(''worker_id'', Required, takes de_string), (''retries'', Optional, takes de_i32),
      (''error_message'', Optional, takes de_string), (''error_details'', Optional, takes de_string)]"

definition retry_incident_payload :: payload where
  "retry_incident_payload = camel_case [(''retries'', Optional, takes de_i32)]"

definition resolve_incident_payload :: payload where
  "resolve_incident_payload = [(''variables'', Optional, takes de_vars)]"

definition extend_lock_payload :: payload where
  "extend_lock_payload = camel_case
     [(''worker_id'', Required, takes de_string), (''new_duration'', Required, takes de_i64)]"

definition bpmn_error_payload :: payload where
  "bpmn_error_payload = camel_case
     [(''worker_id'', Required, takes de_string), (''error_code'', Required, takes de_string)]"

definition start_request_payload :: payload where
  "start_request_payload =
     [(''definition_key'', Required, takes de_string), (''variables'', Defaulted, or_null_value (takes de_vars))]"

definition start_latest_payload :: payload where
  "start_latest_payload =
     [(''bpmn_id'', Required, takes de_string), (''variables'', Defaulted, or_null_value (takes de_vars))]"

definition update_variables_payload :: payload where
  "update_variables_payload = [(''variables'', Required, takes de_vars)]"

definition move_token_payload :: payload where
  "move_token_payload =
     [(''target_node_id'', Required, takes de_string), (''variables'', Defaulted, or_null_value (takes de_vars)),
      (''cancel_current'', Defaulted, takes de_bool)]"

definition deploy_payload :: payload where
  "deploy_payload = [(''xml'', Required, takes de_string), (''name'', Required, takes de_string)]"

definition delete_definition_payload :: payload where
  "delete_definition_payload = [(''cascade'', Optional, takes de_bool)]"

definition correlate_message_payload :: payload where
  "correlate_message_payload = camel_case
     [(''message_name'', Required, takes de_string), (''business_key'', Optional, takes de_string),
      (''variables'', Optional, takes de_vars)]"

definition history_query_payload :: payload where
  "history_query_payload =
     map (\<lambda>n. (n, Optional, takes de_string)) [''event_types'', ''node_id'', ''actor_type'', ''from'', ''to'']
     @ map (\<lambda>n. (n, Optional, takes de_u64)) [''limit'', ''offset'']"

definition completed_instances_payload :: payload where
  "completed_instances_payload =
     map (\<lambda>n. (n, Optional, takes de_string)) [''definition_key'', ''business_key'', ''from'', ''to'', ''state'']
     @ map (\<lambda>n. (n, Optional, takes de_u64)) [''limit'', ''offset'']"

definition bucket_entries_payload :: payload where
  "bucket_entries_payload = map (\<lambda>n. (n, Optional, takes de_u64)) [''offset'', ''limit'']"

text \<open>Which of the structs the bytes decode to.\<close>

definition fuzz_server_payloads :: "(string \<Rightarrow> string + json) \<Rightarrow> string \<Rightarrow> bool list option" where
  "fuzz_server_payloads from_slice bytes =
     (if bytes = [] \<or> length bytes > 1024 * 64 then None
      else Some (map (\<lambda>p. case from_slice bytes of Inl er \<Rightarrow> False | Inr j \<Rightarrow> accepts p j)
        [fetch_and_lock_payload, complete_service_task_payload, fail_service_task_payload, retry_incident_payload,
         extend_lock_payload, bpmn_error_payload, complete_payload, resolve_incident_payload,
         start_request_payload, start_latest_payload, update_variables_payload, move_token_payload,
         deploy_payload, delete_definition_payload, correlate_message_payload,
         history_query_payload, completed_instances_payload, bucket_entries_payload]))"

section \<open>The repeated payloads are those of the server\<close>

lemma field_accepts_cases [simp]:
  "field_accepts (Required, takes f) x \<longleftrightarrow> de_field f x \<noteq> None"
  "field_accepts (Optional, takes f) x \<longleftrightarrow> de_option f x \<noteq> None"
  "field_accepts (Defaulted, or_null_value (takes f)) x \<longleftrightarrow> de_option f x \<noteq> None"
proof -
  have o: "de_option f (Some j) \<noteq> None \<longleftrightarrow> j = JNull \<or> f j \<noteq> None" for j by (cases j) auto
  show "field_accepts (Required, takes f) x \<longleftrightarrow> de_field f x \<noteq> None"
    by (cases x) (simp_all add: field_accepts_def takes_def)
  show "field_accepts (Optional, takes f) x \<longleftrightarrow> de_option f x \<noteq> None"
    "field_accepts (Defaulted, or_null_value (takes f)) x \<longleftrightarrow> de_option f x \<noteq> None"
    by (cases x; use o in \<open>auto simp: field_accepts_def takes_def or_null_value_def\<close>)+
qed

lemma field_accepts_default [simp]: "field_accepts (Defaulted, takes de_bool) x \<longleftrightarrow> de_default default_true de_bool x \<noteq> None"
  by (cases x) (simp_all add: field_accepts_def takes_def)

lemma accepts_struct:
  "accepts p j \<longleftrightarrow> (\<exists>xs. de_struct (map (\<lambda>(n, r, f). (n, r = Defaulted)) p) j = Some xs \<and> list_all2 field_accepts (map snd p) xs)"
  by (simp add: accepts_def split: option.split)

lemma list_all2_Cons_left:
  "list_all2 P (x # xs) ys \<longleftrightarrow> (\<exists>z zs. ys = z # zs \<and> P x z \<and> list_all2 P xs zs)"
  by (cases ys) auto

text \<open>The names on the wire.\<close>

lemma camel_names [simp]:
  "camel False ''topic_name'' = ''topicName''" "camel False ''lock_duration'' = ''lockDuration''"
  "camel False ''worker_id'' = ''workerId''" "camel False ''max_tasks'' = ''maxTasks''"
  "camel False ''topics'' = ''topics''" "camel False ''async_response_timeout'' = ''asyncResponseTimeout''"
  "camel False ''variables'' = ''variables''" "camel False ''retries'' = ''retries''"
  "camel False ''error_message'' = ''errorMessage''" "camel False ''error_details'' = ''errorDetails''"
  "camel False ''new_duration'' = ''newDuration''" "camel False ''error_code'' = ''errorCode''"
  "camel False ''message_name'' = ''messageName''" "camel False ''business_key'' = ''businessKey''"
  by code_simp+

declare camel.simps [simp del]

lemmas replica = accepts_struct camel_case_def list_all2_Cons_left

lemma accepted_topics:
  "field_accepts (Required, \<lambda>j. case j of JArr vs \<Rightarrow> list_all (takes f) vs | _ \<Rightarrow> False) x \<longleftrightarrow> de_field (de_list f) x \<noteq> None"
proof -
  have "those (map f vs) \<noteq> None \<longleftrightarrow> list_all (takes f) vs" for vs
    by (induction vs) (auto simp: takes_def split: option.splits)
  then show ?thesis by (cases x; cases "the x") (auto simp: field_accepts_def)
qed

lemma struct_lengths:
  assumes "de_struct specs j = Some xs"
  shows "length xs = length specs"
  using assms by (auto simp: de_struct_def split: json.splits if_splits)

lemma replica_topic: "accepts topic_payload = takes de_topic_request"
proof (rule ext)
  fix j
  show "accepts topic_payload j \<longleftrightarrow> takes de_topic_request j"
    by (auto simp: takes_def topic_payload_def de_topic_request_def replica bind_eq_Some_conv dest: struct_lengths
        split: option.splits list.splits)
qed

lemmas replica_rules = replica replica_topic accepted_topics bind_eq_Some_conv

text \<open>Each of the others.\<close>

lemma replicas:
  "accepts fetch_and_lock_payload j \<longleftrightarrow> takes de_fetch_request j"
  "accepts complete_payload j \<longleftrightarrow> takes de_complete_request j"
  "accepts resolve_incident_payload j \<longleftrightarrow> takes de_resolve_incident_request j"
  "accepts complete_service_task_payload j \<longleftrightarrow> takes de_complete_service_task_request j"
  "accepts fail_service_task_payload j \<longleftrightarrow> takes de_fail_service_task_request j"
  "accepts retry_incident_payload j \<longleftrightarrow> takes de_retry_incident_request j"
  "accepts extend_lock_payload j \<longleftrightarrow> takes de_extend_lock_request j"
  "accepts bpmn_error_payload j \<longleftrightarrow> takes de_bpmn_error_request j"
  "accepts start_request_payload j \<longleftrightarrow> takes de_start_request j"
  "accepts start_latest_payload j \<longleftrightarrow> takes de_start_latest_request j"
  "accepts update_variables_payload j \<longleftrightarrow> takes de_update_variables_request j"
  "accepts move_token_payload j \<longleftrightarrow> takes de_move_token_request j"
  "accepts deploy_payload j \<longleftrightarrow> takes de_deploy_request j"
  "accepts correlate_message_payload j \<longleftrightarrow> takes de_correlate_message_request j"
  apply (auto simp: takes_def [where f = de_fetch_request] fetch_and_lock_payload_def de_fetch_request_def replica_rules dest: struct_lengths
      split: option.splits list.splits) [1]
  apply (auto simp: takes_def [where f = de_complete_request] complete_payload_def de_complete_request_def replica_rules dest: struct_lengths
      split: option.splits list.splits) [1]
  apply (auto simp: takes_def [where f = de_resolve_incident_request] resolve_incident_payload_def de_resolve_incident_request_def replica_rules dest: struct_lengths
      split: option.splits list.splits) [1]
  apply (auto simp: takes_def [where f = de_complete_service_task_request] complete_service_task_payload_def de_complete_service_task_request_def replica_rules dest: struct_lengths
      split: option.splits list.splits) [1]
  apply (auto simp: takes_def [where f = de_fail_service_task_request] fail_service_task_payload_def de_fail_service_task_request_def replica_rules dest: struct_lengths
      split: option.splits list.splits) [1]
  apply (auto simp: takes_def [where f = de_retry_incident_request] retry_incident_payload_def de_retry_incident_request_def replica_rules dest: struct_lengths
      split: option.splits list.splits) [1]
  apply (auto simp: takes_def [where f = de_extend_lock_request] extend_lock_payload_def de_extend_lock_request_def replica_rules dest: struct_lengths
      split: option.splits list.splits) [1]
  apply (auto simp: takes_def [where f = de_bpmn_error_request] bpmn_error_payload_def de_bpmn_error_request_def replica_rules dest: struct_lengths
      split: option.splits list.splits) [1]
  apply (auto simp: takes_def [where f = de_start_request] start_request_payload_def de_start_request_def replica_rules dest: struct_lengths
      split: option.splits list.splits) [1]
  apply (auto simp: takes_def [where f = de_start_latest_request] start_latest_payload_def de_start_latest_request_def replica_rules dest: struct_lengths
      split: option.splits list.splits) [1]
  apply (auto simp: takes_def [where f = de_update_variables_request] update_variables_payload_def de_update_variables_request_def replica_rules dest: struct_lengths
      split: option.splits list.splits) [1]
  apply (auto simp: takes_def [where f = de_move_token_request] move_token_payload_def de_move_token_request_def replica_rules dest: struct_lengths
      split: option.splits list.splits) [1]
  apply (auto simp: takes_def [where f = de_deploy_request] deploy_payload_def de_deploy_request_def replica_rules dest: struct_lengths
      split: option.splits list.splits) [1]
  apply (auto simp: takes_def [where f = de_correlate_message_request] correlate_message_payload_def de_correlate_message_request_def replica_rules dest: struct_lengths
      split: option.splits list.splits) [1]
  done

text \<open>
  What the target tries on a JSON text is what the server decodes: each repeated struct accepts exactly the values
  that the endpoint of its name accepts as a body. The four without a decoder of a body stand for query strings, which
  the server does not read as JSON.
\<close>

lemma payload_target_tries_the_server:
  assumes "from_slice bytes = Inr j" and "bytes \<noteq> []" and "length bytes \<le> 65536"
  shows "fuzz_server_payloads from_slice bytes = Some
    [takes de_fetch_request j, takes de_complete_service_task_request j, takes de_fail_service_task_request j,
     takes de_retry_incident_request j, takes de_extend_lock_request j, takes de_bpmn_error_request j,
     takes de_complete_request j, takes de_resolve_incident_request j, takes de_start_request j,
     takes de_start_latest_request j, takes de_update_variables_request j, takes de_move_token_request j,
     takes de_deploy_request j, accepts delete_definition_payload j, takes de_correlate_message_request j,
     accepts history_query_payload j, accepts completed_instances_payload j, accepts bucket_entries_payload j]"
  using assms by (simp add: fuzz_server_payloads_def replicas)

end
