(* ===== verification/FuzzCalls.thy ===== *)
theory FuzzCalls
  imports FuzzInputs FuzzEngine Scripting NatsRefinement
begin

text \<open>
  The fuzz targets that only hand their bytes to another crate (\<open>fuzz/fuzz_targets\<close>): scripts to Rhai, cron expressions to
  croner, stored values to serde. The crates are parameters; what is modelled is which bytes are handed on, under which
  limits, and how that compares with what the engine does.
\<close>

section \<open>Scripts (fuzz\_rhai\_script.rs)\<close>

definition fuzz_limits :: rhai_limits where
  "fuzz_limits =
     \<lparr> rl_operations = 10000, rl_string_size = 4096, rl_array_size = 1024, rl_map_size = 256,
       rl_expr_depths = Some (32, 32) \<rparr>"

definition fuzz_scope :: vars where
  "fuzz_scope = [(''x'', JNum (JInt 42)), (''name'', JStr ''fuzz''), (''flag'', JBool True)]"

definition fuzz_rhai_script :: "(rhai_limits \<Rightarrow> vars \<Rightarrow> string \<Rightarrow> 'r) \<Rightarrow> string \<Rightarrow> 'r option" where
  "fuzz_rhai_script rhai bytes = (if utf8 bytes then Some (rhai fuzz_limits fuzz_scope bytes) else None)"

text \<open>
  The target is meant to run under the limits of the engine. It does not: whatever the environment says, at least the
  sizes of strings, arrays and maps are smaller than those of the engine, and by default the operations as well; the
  depth of expressions is bounded in the target only.
\<close>

definition tighter :: "rhai_limits \<Rightarrow> rhai_limits \<Rightarrow> bool" where
  "tighter a b \<longleftrightarrow>
     rl_string_size a < rl_string_size b \<and> rl_array_size a < rl_array_size b \<and> rl_map_size a < rl_map_size b"

lemma scripts_are_tried_under_other_limits:
  "tighter fuzz_limits (build_engine (config_from_env getenv))"
  "rl_operations fuzz_limits = rl_operations (build_engine (config_from_env getenv)) \<longleftrightarrow>
     Option.bind (getenv ''RHAI_MAX_OPERATIONS'') (parse_unsigned 64) = Some 10000"
  by (auto simp: tighter_def fuzz_limits_def build_engine_def config_from_env_def override_def default_config_def
      split: option.splits)

section \<open>Cron expressions (fuzz\_cron\_expression.rs)\<close>

text \<open>The crate \<open>croner\<close>: parsing, the next occurrence, and whether an instant matches.\<close>

record 'c croner =
  cr_parse :: "string \<Rightarrow> 'c option"
  cr_next :: "'c \<Rightarrow> time \<Rightarrow> time option"
  cr_matching :: "'c \<Rightarrow> time \<Rightarrow> bool option"

definition fuzz_cron_expression :: "'c croner \<Rightarrow> time \<Rightarrow> string \<Rightarrow> (time option \<times> bool option) option" where
  "fuzz_cron_expression cr now bytes =
     (if utf8 bytes \<and> bytes \<noteq> [] \<and> length bytes \<le> 1024
      then map_option (\<lambda>cron. (cr_next cr cron now, cr_matching cr cron now)) (cr_parse cr bytes)
      else None)"

text \<open>
  The target calls what a timer calls: an expression for which a timer finds its next occurrence is one the target
  finds the same for, unless it is too long or empty.
\<close>

definition cron_of :: "'c croner \<Rightarrow> string \<Rightarrow> time \<Rightarrow> time option" where
  "cron_of cr s now = Option.bind (cr_parse cr s) (\<lambda>cron. cr_next cr cron now)"

lemma target_tries_what_timers_use:
  assumes "env_cron_next ev = cron_of cr" and "utf8 s" "s \<noteq> []" "length s \<le> 1024"
  shows "env_cron_next ev s now = Option.bind (fuzz_cron_expression cr now s) fst"
  using assms by (cases "cr_parse cr s") (simp_all add: cron_of_def fuzz_cron_expression_def)

section \<open>Stored values (fuzz\_token\_deserialize.rs)\<close>

text \<open>
  What is read from the bytes as each of the four types, and the panic of \<open>expect\<close> as \<open>False\<close>. \<open>None\<close> is an early
  return.
\<close>

definition fuzz_token_deserialize ::
  "(token, string) codec \<Rightarrow> (process_instance, string) codec \<Rightarrow> (history_entry, string) codec
     \<Rightarrow> (file_reference, string) codec \<Rightarrow> string
     \<Rightarrow> ((string + token) \<times> (string + process_instance) \<times> (string + history_entry) \<times> (string + file_reference)
          \<times> bool) option" where
  "fuzz_token_deserialize ct ci ch cf bytes =
     (if bytes = [] \<or> length bytes > 65536 then None
      else Some (snd ct bytes, snd ci bytes, snd ch bytes, snd cf bytes,
        (case snd ct bytes of
           Inl er \<Rightarrow> True
         | Inr tok \<Rightarrow> (case fst ct tok of Inl er \<Rightarrow> False | Inr s \<Rightarrow> True))))"

text \<open>With a codec that loses nothing the target never panics, and it finds every stored token of its size again.\<close>

lemma stored_tokens_are_read_again:
  assumes "lossless_codec ct" and "fuzz_token_deserialize ct ci ch cf bytes = Some (t, i, h, f, passed)"
  shows "passed" and "fst ct tok = Inr bytes \<Longrightarrow> t = Inr tok"
proof -
  show passed
    using assms by (auto simp: fuzz_token_deserialize_def lossless_codec_def split: if_splits sum.splits)
       (metis Inr_Inl_False)
  assume "fst ct tok = Inr bytes"
  moreover obtain p where "fst ct tok = Inr p" "snd ct p = Inr tok"
    using assms(1) by (auto simp: lossless_codec_def)
  ultimately show "t = Inr tok" using assms(2) by (auto simp: fuzz_token_deserialize_def split: if_splits)
qed

end
