(* ===== verification/ServerEdge.thy ===== *)
theory ServerEdge
  imports ServerRun Routes
begin

text \<open>
  The edge of the server: the CORS layer around the routes (\<open>engine-server/src/server/mod.rs\<close>), the metrics that the
  recorder describes and their text (\<open>observability.rs\<close>), and the stream that keeps the log across restarts
  (\<open>log_nats.rs\<close>).
\<close>

section \<open>The CORS layer (mod.rs)\<close>

text \<open>\<open>None\<close> is \<open>Any\<close>.\<close>

record cors_layer =
  cors_origin :: "string list option"
  cors_methods :: "http_method list"
  cors_headers :: "string list option"

definition server_cors :: cors_layer where
  "server_cors = \<lparr>cors_origin = None, cors_methods = [GET, POST, PUT, DELETE], cors_headers = None\<rparr>"

text \<open>What a browser lets a page of another origin do, given the layer's answer to its preflight request.\<close>

definition page_may_send :: "cors_layer \<Rightarrow> string \<Rightarrow> http_request \<Rightarrow> bool" where
  "page_may_send c page rq \<longleftrightarrow>
     (case cors_origin c of None \<Rightarrow> True | Some os \<Rightarrow> page \<in> set os) \<and> rq_method rq \<in> set (cors_methods c)"

text \<open>
  No page is kept from any request: whatever reaches a handler from the desktop application also reaches it from a page
  of any origin.
\<close>

lemma no_page_is_kept_out: "page_may_send server_cors page rq"
  by (cases "rq_method rq") (simp_all add: page_may_send_def server_cors_def)

text \<open>The layer names no method in vain: each of its methods is routed somewhere.\<close>

lemma every_allowed_method_is_routed:
  assumes "m \<in> set (cors_methods server_cors)"
  shows "\<exists>(p, ms) \<in> set (routes dt). m \<in> fst ` set ms"
  using assms
  by (auto simp: server_cors_def routes_def start_routes_def definition_routes_def instance_routes_def)

section \<open>The recorder (observability.rs)\<close>

datatype metric_kind = CounterMetric | GaugeMetric | HistogramMetric

definition described_metrics :: "(metric_kind \<times> string \<times> string) list" where
  "described_metrics =
     [(CounterMetric, ''bpmn_instance_started_total'', ''Total number of process instances started''),
      (CounterMetric, ''bpmn_instance_completed_total'', ''Total number of process instances completed''),
      (CounterMetric, ''bpmn_tasks_completed_total'', ''Total number of user/service tasks completed''),
      (CounterMetric, ''bpmn_timer_fired_total'', ''Total number of timers processed''),
      (CounterMetric, ''bpmn_errors_total'', ''Total number of script/engine errors''),
      (HistogramMetric, ''bpmn_script_execution_duration_seconds'', ''Duration of Rhai script executions in seconds''),
      (GaugeMetric, ''bpmn_active_instances'', ''Number of currently active (non-completed) instances''),
      (CounterMetric, ''http_requests_total'', ''Total HTTP requests handled''),
      (HistogramMetric, ''http_request_duration_seconds'', ''HTTP request duration in seconds'')]"

text \<open>
  The recorder of the crate \<open>metrics\<close> is a parameter: \<open>describe\<close> registers a name, \<open>collect\<close> reads the metrics of the
  process (its first use describes them), \<open>render\<close> writes the text. Without a recorder (another one is installed) the
  process ends.
\<close>

record 'r recorder =
  rc_install :: "'r option"
  rc_process :: "'r \<Rightarrow> 'r"
  rc_describe :: "metric_kind \<times> string \<times> string \<Rightarrow> 'r \<Rightarrow> 'r"
  rc_collect :: "'r \<Rightarrow> 'r"
  rc_render :: "'r \<Rightarrow> string"

definition install_prometheus_recorder :: "'r recorder \<Rightarrow> 'r option" where
  "install_prometheus_recorder rc =
     map_option (\<lambda>h. fold (rc_describe rc) described_metrics (rc_collect rc (rc_process rc h))) (rc_install rc)"

definition metrics_handler :: "'r recorder \<Rightarrow> 'r \<Rightarrow> 'r \<times> http_status \<times> (string \<times> string) list \<times> string" where
  "metrics_handler rc h =
     (let h = rc_collect rc h
      in (h, StatusOk, [(''content-type'', ''text/plain; version=0.0.4; charset=utf-8'')], rc_render rc h))"

text \<open>
  The metrics that the handler writes are all described before the first one is counted, each under a single
  kind.
\<close>

lemma metrics_are_described_once: "distinct (map (fst \<circ> snd) described_metrics)"
  by (simp add: described_metrics_def)

lemma recorder_describes_all:
  assumes "install_prometheus_recorder rc = Some h" and "m \<in> set described_metrics"
    and "\<And>m m' h. knows (rc_describe rc m' h) m \<longleftrightarrow> m = m' \<or> knows h m"
  shows "knows h m"
proof -
  have "knows (fold (rc_describe rc) ms h) m \<longleftrightarrow> m \<in> set ms \<or> knows h m" for ms h
    by (induction ms arbitrary: h) (auto simp: assms(3))
  then show ?thesis using assms(1,2) by (auto simp: install_prometheus_recorder_def)
qed

section \<open>The stream of the log (log\_nats.rs)\<close>

record stream_config =
  st_name :: string
  st_subjects :: "string list"
  st_max_messages :: int

definition log_stream :: stream_config where
  "log_stream = \<lparr>st_name = ''ENGINE_LOGS'', st_subjects = [''engine.logs''], st_max_messages = 50000\<rparr>"

text \<open>
  What JetStream documents of a stream with a bound that discards the old: a message that is one too many takes the
  place of the oldest.
\<close>

definition discards_old :: "(string \<Rightarrow> 's \<Rightarrow> 's) \<Rightarrow> ('s \<Rightarrow> string list) \<Rightarrow> bool" where
  "discards_old send held \<longleftrightarrow>
     (\<forall>l s. held (send l s) = last_n (nat (st_max_messages log_stream)) (held s @ [l]))"

lemma last_n_last_n: "k \<le> n \<Longrightarrow> last_n k (last_n n xs) = last_n k xs"
  by (cases "n \<le> length xs") (simp_all add: last_n_def)

lemma last_n_append: "last_n n (last_n n xs @ ys) = last_n n (xs @ ys)"
  by (cases "length xs \<le> n") (simp_all add: last_n_def ac_simps)

lemma last_n_map: "last_n n (map f xs) = map f (last_n n xs)"
  by (simp add: last_n_def drop_map)

lemma published_entries_are_held:
  assumes "discards_old send held" and "lossless io"
    and "held s = last_n (nat (st_max_messages log_stream)) (map (line_of io) hs)"
  shows "held (fold (publish io send) es s) = last_n (nat (st_max_messages log_stream)) (map (line_of io) (hs @ es))"
  using assms(3)
proof (induction es arbitrary: s hs)
  case (Cons e es)
  have "publish io send e s = send (line_of io e) s"
    by (simp add: publish_def line_of_lossless(1) [OF assms(2)])
  then have "held (publish io send e s) = last_n (nat (st_max_messages log_stream)) (map (line_of io) (hs @ [e]))"
    using assms(1) Cons.prems by (simp add: discards_old_def last_n_append)
  from Cons.IH [OF this] show ?case by simp
qed simp

lemma load_recent_of_lines:
  assumes "lossless io"
  shows "load_recent io (map Some (map (line_of io) es)) n = last_n n es"
proof -
  have "List.map_filter (\<lambda>m. Option.bind m (io_decode io)) (map Some (map (line_of io) es)) = es"
    by (induction es) (simp_all add: List.map_filter_def line_of_lossless(2) [OF assms])
  then show ?thesis by (simp add: load_recent_def last_n_def)
qed

text \<open>
  A server that starts again has the newest entries of the log that was published before, exactly those that the buffer
  of the server before it showed.
\<close>

lemma restart_restores_the_log:
  assumes "discards_old send held" and "lossless io" and "held s = []"
    and "recent = load_recent io (map Some (held (fold (publish io send) es s))) MAX_ENTRIES"
  shows "recent = last_n MAX_ENTRIES es"
    and "lb_entries (fst (fst (attach_nats_sink recent tx b w))) = lb_entries (populate es b')"
proof -
  have "held (fold (publish io send) es s) = last_n (nat (st_max_messages log_stream)) (map (line_of io) es)"
    using published_entries_are_held [OF assms(1,2), of s "[]"] assms(3) by (simp add: last_n_def)
  then show r: "recent = last_n MAX_ENTRIES es"
    using assms(4) load_recent_of_lines [OF assms(2)]
    by (simp add: last_n_map last_n_last_n log_stream_def MAX_ENTRIES_def)
  show "lb_entries (fst (fst (attach_nats_sink recent tx b w))) = lb_entries (populate es b')"
    by (simp add: attach_nats_sink_def enable_nats_def populate_entries r last_n_last_n)
qed

end
