(* ===== verification/Spec2Isabelle.thy ===== *)
theory Spec2Isabelle
  imports System LogBuffer BpmnParser NatsRefinement InMemoryAdapter Startup ServerRun Claims Deliveries EventStream Orchestrator
    FuzzEngine FuzzInputs FuzzCalls ServerEdge
begin

text \<open>
  A verification development of mini-bpm-engine, a BPMN 2.0 workflow engine in Rust. Paths below are
  relative to \<open>src/\<close>; inside \<open>engine-core/src\<close> that prefix is left out.

  \<^bold>\<open>The program.\<close> A BPMN document is parsed (\<open>bpmn-parser\<close>) into a process definition: a
  validated graph of nodes and sequence flows. The engine (\<open>engine-core\<close>) keeps the deployed
  definitions, the running instances and four tables of pending work (user tasks, service tasks,
  timers, message catches). A call of its public interface starts an instance or delivers an event to
  a waiting one; the token of the instance is then run by the executor until every branch waits or has
  ended. Whatever changes is written through to a backend (\<open>persistence-memory\<close>,
  \<open>persistence-nats\<close>); writes that fail go to a queue with a background worker. The server
  (\<open>engine-server\<close>) offers the calls over HTTP, keeps a rolling log and streams events. The desktop
  application (\<open>desktop-tauri\<close>) and the agent orchestrator are clients of the server.

  \<^bold>\<open>How the model corresponds to the code.\<close> A struct is a record, an enum a datatype, a
  function a definition with the name it has in the source. A Rust \<open>Result\<close> is the type
  \<open>outcome\<close>, with the third constructor \<open>Diverged\<close> for a call that does not return; the
  question-mark operator is a bind. Methods on the engine take and return the record \<open>engine\<close>,
  also when they fail, so what a failing call leaves behind is part of its meaning. A \<open>HashMap\<close> or
  \<open>DashMap\<close> is an association list with one entry per key, in an order the caller cannot rely on.
  Strings are lists of UTF-8 bytes. Each call runs to its end before the next starts, with two
  exceptions where calls interleave between the locks of the single tables: the log buffer, which
  every thread writes to, and the calls that claim a service task (\<open>Claims\<close>). Locks themselves, and
  with them deadlocks, are not modelled.

  \<^bold>\<open>The theories\<close>, in the order of their imports.

  \<^item> \<open>Prelude\<close>: outcomes and the bind, tables and the locale \<open>keyed_store\<close> of their laws, proof
    rules for operations that keep a predicate. \<open>Text\<close>: the string functions of the Rust library and
    UTF-8.
  \<^item> \<open>Values\<close>: JSON values, and the record \<open>env\<close> of what comes from other crates. \<open>Condition\<close>
    (\<open>condition.rs\<close>): the expressions on sequence flows. \<open>Elements\<close> (\<open>domain/element.rs\<close>,
    \<open>error.rs\<close>, \<open>timer.rs\<close>, \<open>flow.rs\<close>, \<open>token.rs\<close>, \<open>listener.rs\<close>, \<open>file_ref.rs\<close>) and
    \<open>Definition\<close> (\<open>domain/definition.rs\<close>): the process graph, its validation and its builder.
  \<^item> \<open>Runtime\<close> (\<open>runtime/*\<close>): instances, tokens, barriers, pending work. \<open>History\<close>
    (\<open>history/mod.rs\<close>): entries and the difference of two states of an instance.
  \<^item> \<open>Persistence\<close> (\<open>port/persistence.rs\<close>, \<open>persistence-memory/src/lib.rs\<close>): the calls of the
    port, the in-memory store, the locale \<open>entity_store\<close>. \<open>StorageViews\<close>: the records for monitoring.
    \<open>NatsPersistence\<close> (\<open>persistence-nats/src/*\<close>): the port on key-value buckets, object stores and
    streams. \<open>NatsRefinement\<close>: this store against the in-memory store.
  \<^item> \<open>Scripting\<close> (\<open>scripting/runner.rs\<close>): limits of scripts and the listeners of a node.
  \<^item> \<open>EngineState\<close> (\<open>engine/mod.rs\<close>, \<open>registry.rs\<close>, \<open>instance_store.rs\<close>,
    \<open>persistence_ops.rs\<close>): the state and the write-through. \<open>WaitStates\<close> (\<open>engine/mod.rs\<close>):
    cancellation, and the invariant \<open>engine_wf\<close>.
  \<^item> \<open>Gateways\<close> (\<open>engine/gateway.rs\<close>, \<open>executor/helpers.rs\<close>), \<open>Handlers\<close>
    (\<open>handlers/events.rs\<close>, \<open>boundary.rs\<close>), \<open>TaskHandlers\<close> (\<open>handlers/tasks.rs\<close>,
    \<open>gateways.rs\<close>, \<open>sub_processes.rs\<close>): one step at a node. \<open>Executor\<close>
    (\<open>executor/*\<close>): the action of a step, forks and joins, the batch loop. \<open>Nesting\<close> and
    \<open>Joins\<close>: what the executor promises.
  \<^item> \<open>ProcessStart\<close>, \<open>UserTasks\<close>, \<open>ServiceTasks\<close>, \<open>EventDelivery\<close>
    (\<open>timer_processor.rs\<close>, \<open>message_processor.rs\<close>), \<open>InstanceOps\<close>, \<open>DefinitionOps\<close>,
    \<open>RetryQueue\<close>: the public calls of the files of \<open>engine/\<close> with these names.
  \<^item> \<open>System\<close>: the engine as a state machine whose steps are all of these calls.
  \<^item> \<open>LogBuffer\<close> (\<open>engine-server/src/log_buffer.rs\<close>, \<open>log_nats.rs\<close>): the rolling log.
    \<open>BpmnModels\<close> and \<open>BpmnParser\<close> (\<open>bpmn-parser/src/*\<close>): the document and its translation.
  \<^item> \<open>Server\<close> (\<open>engine-server/src/server/*\<close>, \<open>observability.rs\<close>): the HTTP handlers on decoded
    requests, the status of an error, and the router \<open>serve\<close>. \<open>ServerRequests\<close>: what serving
    promises. \<open>Startup\<close> (\<open>startup.rs\<close>, \<open>main.rs\<close>): connecting, restoring and the scheduler of the
    timers. \<open>ServerRun\<close> (\<open>main.rs\<close>, \<open>observability.rs\<close>): the process from its start over the signal
    and the flush to its exit, with the counting of the requests. \<open>InMemoryAdapter\<close> (\<open>adapter/in_memory.rs\<close>): the store of the engine's own tests.
  \<^item> \<open>Claims\<close> (\<open>engine/service_task.rs\<close>): completion, thrown errors and resolution as sections
    that run between each other's. \<open>Deliveries\<close> (\<open>user_task.rs\<close>, \<open>timer_processor.rs\<close>,
    \<open>message_processor.rs\<close>): what a completed user task, an expired timer and a message hand to the batch.
  \<^item> \<open>Routes\<close> (\<open>server/mod.rs\<close> and the payloads of the handlers): decoding, the table of routes
    and the choice of one. \<open>Desktop\<close> (\<open>desktop-tauri/src-tauri/src\<close>): the commands of the desktop
    application. \<open>DesktopRequests\<close> and \<open>DesktopServer\<close>: the commands against the routes and against
    the server. \<open>EventStream\<close> (\<open>server/events.rs\<close>, \<open>sse_consumer.rs\<close>): the event stream from the
    engine to the user interface. \<open>Orchestrator\<close> (\<open>agent-orchestrator/src/main.rs\<close>).
    \<open>ServerEdge\<close> (\<open>server/mod.rs\<close>, \<open>observability.rs\<close>, \<open>log_nats.rs\<close>): the CORS layer, the
    described metrics, and the stream of the log with its bound.
  \<^item> \<open>FuzzEngine\<close>, \<open>FuzzInputs\<close> and \<open>FuzzCalls\<close> (\<open>fuzz/fuzz_targets\<close>): from a text to a running
    instance, the generators of inputs, the payloads repeated from the server, and the targets that hand
    their bytes to Rhai, croner and serde.

  \<^bold>\<open>What is shown.\<close> The invariant of the engine state in every reachable state (below). Of
  definitions: validation accepts exactly the well-formed graphs, and in such a graph a token finds a
  flow to an existing node wherever it does not end, except at embedded sub-processes and compensation
  boundary events, whose flows are not checked. Of routing: each gateway takes the flows it should, and
  a join that is found is one. Of the executor: a join without a completion condition fires once and at
  the last arrival, with the values of the last token that binds a name; a fork leaves a barrier for its
  branches, the loop is bounded, a terminate end takes all that waits. Of the public calls: a completed
  user task, an expired timer and a message hand their token on and take what waited with it, leases are
  exclusive and checked and no task is claimed twice, whatever calls interleave, retries and incidents
  follow their counters, suspension and migration are
  undone or all-or-nothing, deletion takes what belongs to the deleted thing and no more, versions
  count up. Of persistence: queries are sound, the retry worker succeeds as soon as one of its
  attempts can, and the NATS store refines the in-memory store on a server that works as documented,
  except that it refuses files over 50 MB and deletes the text of a definition with it.
  Of the parser: the duration parser meets a grammar with overflow, every accepted document gives a
  valid graph with the nodes and flows of the document, apart from the kinds of nodes the parser leaves
  out of sub-processes, which are listed and which no flow may touch; and a start of an accepted document
  without calls and compensation returns and comes out as its first batch does. Of the log: it refines
  the sequence of pushed entries under every interleaving, each entry reaches NATS at most once through
  the channel, and it survives a restart. Of the server: serving a request only
  makes calls of the engine, a GET changes nothing, a malformed identifier is refused, the long poll ends
  within 61 attempts, and a restart on a NATS server that works as documented recovers exactly what it
  stores; every answer is counted and timed once, under a label without identifiers. The store of the engine's tests does what the published in-memory store does. Of the
  clients: every command of the desktop application that sends a request reaches the operation it is
  meant for with its arguments, except the actor types of a history command, and reports success only
  when the server did; a deployed text is read back; the events of
  the engine arrive in order, without a gap up to 256 at a time; no client can make the engine do
  anything but its own steps.

  \<^bold>\<open>Interfaces.\<close> \<open>keyed_store\<close> (laws of a table) is interpreted by the tables, the registry and
  the instance store; \<open>entity_store\<close> (laws of one kind of stored entity) by the in-memory store, and
  the NATS store reaches the same laws through the refinement; \<open>nested_batch\<close> (a batch that a handler
  may start keeps the invariant) and \<open>deeper\<close> (a batch at a larger depth extends one at a smaller
  depth) by \<open>run_instance_batch\<close>.

  \<^bold>\<open>Bounds and fuel.\<close> The batch loop has the bound of the source, \<open>MAX_EXECUTION_STEPS\<close> = 10000
  rounds, after which the instance is ended with an error. Batches nest without a bound in the source
  (compensation, call activities, the parent a finished child wakes), so \<open>run_instance_batch\<close> has a
  depth as its argument, and a run that needs more is \<open>Diverged\<close>. In \<open>Nesting\<close> a run that returns
  is shown to return the same at every larger depth, and a batch over a definition without those
  elements to return at depth one; the invariant holds at every depth, also of the state a diverging
  run leaves. The retry worker has the 50 attempts of the source. Integers are unbounded where the
  values are sizes and counters far from their limits; the durations of the parser are checked against
  64 bits as the source does.

  \<^bold>\<open>Parameters.\<close> Code outside the repository is an argument of the definitions that use it: the
  supply of UUIDs and their text, Rhai scripts, cron schedules, chrono's durations and dates, the double
  nearest to a JSON number (record \<open>env\<close>); the XML reader with serde (\<open>parser_env\<close>); the text serde
  gives an entity (\<open>nats_serde\<close>) and the NATS client on an abstract server state (\<open>nats_client\<close>),
  with the documented behaviour as the predicates \<open>lossless_serde\<close> and \<open>reliable\<close>, which a concrete
  table server satisfies; the backend of an engine (\<open>'p eenv\<close>); the HTTP client of the desktop
  application (\<open>http_client\<close>), the way of a request from it to the server (\<open>wire\<close>, with \<open>wire_ok\<close>
  for its documented behaviour on plain texts), serde's text of an answer (\<open>remote\<close>), axum's text of
  a server-sent event (\<open>sse_writer\<close>), the source of choices of a fuzz target (\<open>unstructured\<close>), the
  recorder of the metrics (\<open>recorder\<close>), the cron expressions of a fuzz target (\<open>croner\<close>).

  \<^bold>\<open>Not modelled.\<close> Of the server: the setup of tracing and the sockets, and the counters that the
  engine itself increments, which no call reads; a signal is a step without a cause, and a client that
  leaves in the middle of a call is not modelled. Of the desktop application: the user interface in
  TypeScript and the Tauri runtime that calls the commands. The external task client is written in
  TypeScript. Locks are not modelled; tracing output is left out unless it ends up in the audit log.
\<close>

section \<open>Properties of the whole engine\<close>

text \<open>
  C1. In every state the engine can reach, whatever calls were made in whatever order and whether
  they succeeded, failed or hung, every table is keyed by the identity of its entries, every token
  and barrier of an instance is stored once, and a suspended instance remembers a state that is
  neither suspended nor terminal.
\<close>

theorem reachable_states_are_well_formed:
  assumes "reachable ev e"
  shows "engine_wf e"
  using assms
proof (induction rule: reachable.induct)
  case (reachable_new getenv now draws)
  show ?case by (rule engine_wf_new)
next
  case (reachable_step e e')
  then show ?case by (blast intro: engine_step_wf)
qed

theorem reachable_states_are_well_formed_witness:
  "engine_wf (fst (deploy_definition memory_env fork_definition (engine_new (\<lambda>s. None) 0 0)))"
  by (rule reachable_states_are_well_formed)
     (rule reachable_step [OF reachable_new step_deploy])

end
